(* ===== verification/Dendri_Prelude.thy ===== *)
theory Dendri_Prelude
  imports Main "HOL-Library.Word" "HOL-Library.AList"
begin

text \<open>
  Shared vocabulary of the development.

  \<^item> Rust's fixed-width integers as words, monotonic instants in nanoseconds.
  \<^item> \<open>dashmap\<close>: the hash maps of the server (\<^verbatim>\<open>DashMap\<close>, \<^verbatim>\<open>HashMap\<close>) as association lists
    with at most one entry per key. The list order stands for the unspecified iteration order
    of the map; no theorem of the development depends on it.
  \<^item> \<open>hashset\<close>: \<^verbatim>\<open>HashSet\<close> as a list without duplicates, with the same convention.
  \<^item> the interface locales \<open>finite_map\<close> and \<open>safe_system\<close>, with the lemmas their clients
    share, and their interpretation on the definitions below.
\<close>



section \<open>Types\<close>

type_synonym u8 = "8 word"
type_synonym u32 = "32 word"
type_synonym u64 = "64 word"

text \<open>\<^verbatim>\<open>usize\<close> on the 64-bit targets the server is built for.\<close>
type_synonym usize = "64 word"

text \<open>\<^verbatim>\<open>i64\<close>: two's complement, read by \<open>sint\<close>; \<open>+\<close> and \<open>-\<close> wrap, as in a release build.\<close>
type_synonym i64 = "64 word"

text \<open>
  \<^verbatim>\<open>Instant\<close>: nanoseconds since some fixed origin. \<^verbatim>\<open>duration_since\<close> saturates at zero when
  its argument lies in the future, which is subtraction on \<open>nat\<close>.
\<close>
type_synonym instant = nat
type_synonym duration = nat

definition duration_from_millis :: "u64 \<Rightarrow> duration" where
  "duration_from_millis ms = unat ms * 1000000"

definition duration_since :: "instant \<Rightarrow> instant \<Rightarrow> duration" where
  "duration_since now earlier = now - earlier"

section \<open>Maps\<close>

type_synonym ('k, 'v) dashmap = "('k \<times> 'v) list"

definition dm_get :: "('k, 'v) dashmap \<Rightarrow> 'k \<Rightarrow> 'v option" where
  "dm_get m k = map_of m k"

definition dm_insert :: "'k \<Rightarrow> 'v \<Rightarrow> ('k, 'v) dashmap \<Rightarrow> ('k, 'v) dashmap" where
  "dm_insert k v m = AList.update k v m"

definition dm_remove :: "'k \<Rightarrow> ('k, 'v) dashmap \<Rightarrow> ('k, 'v) dashmap" where
  "dm_remove k m = AList.delete k m"

definition dm_keys :: "('k, 'v) dashmap \<Rightarrow> 'k list" where
  "dm_keys m = map fst m"

definition dm_len :: "('k, 'v) dashmap \<Rightarrow> nat" where
  "dm_len m = length m"

definition dm_contains_key :: "('k, 'v) dashmap \<Rightarrow> 'k \<Rightarrow> bool" where
  "dm_contains_key m k = (dm_get m k \<noteq> None)"

text \<open>\<^verbatim>\<open>retain\<close>: keep the entries that satisfy the predicate.\<close>

definition dm_retain :: "('k \<Rightarrow> 'v \<Rightarrow> bool) \<Rightarrow> ('k, 'v) dashmap \<Rightarrow> ('k, 'v) dashmap" where
  "dm_retain p m = filter (\<lambda>(k, v). p k v) m"

text \<open>One entry per key.\<close>

definition dm_wf :: "('k, 'v) dashmap \<Rightarrow> bool" where
  "dm_wf m = distinct (dm_keys m)"

section \<open>Sets\<close>

type_synonym 'a hashset = "'a list"

definition hs_insert :: "'a \<Rightarrow> 'a hashset \<Rightarrow> 'a hashset" where
  "hs_insert x xs = (if x \<in> set xs then xs else xs @ [x])"

definition hs_remove :: "'a \<Rightarrow> 'a hashset \<Rightarrow> 'a hashset" where
  "hs_remove x xs = removeAll x xs"

text \<open>\<^verbatim>\<open>collect()\<close> of a sequence into a set.\<close>

fun hs_collect :: "'a list \<Rightarrow> 'a hashset \<Rightarrow> 'a hashset" where
  "hs_collect [] acc = acc"
| "hs_collect (x # xs) acc = hs_collect xs (hs_insert x acc)"

section \<open>Conjunctions with several parts\<close>

lemma conjI3: "A \<Longrightarrow> B \<Longrightarrow> C \<Longrightarrow> A \<and> B \<and> C"
  by simp

lemma conjI4: "A \<Longrightarrow> B \<Longrightarrow> C \<Longrightarrow> D \<Longrightarrow> A \<and> B \<and> C \<and> D"
  by simp

lemma conjI5: "A \<Longrightarrow> B \<Longrightarrow> C \<Longrightarrow> D \<Longrightarrow> E \<Longrightarrow> A \<and> B \<and> C \<and> D \<and> E"
  by simp

section \<open>Lemmas on maps\<close>

lemma dm_get_Nil [simp]: "dm_get [] k = None"
  by (simp add: dm_get_def)

lemma dm_get_Cons: "dm_get ((k, v) # m) k' = (if k' = k then Some v else dm_get m k')"
  by (simp add: dm_get_def)

lemma dm_get_insert [simp]:
  "dm_get (dm_insert k v m) k' = (if k' = k then Some v else dm_get m k')"
  by (simp add: dm_get_def dm_insert_def update_conv)

lemma dm_get_remove [simp]:
  "dm_get (dm_remove k m) k' = (if k' = k then None else dm_get m k')"
  by (simp add: dm_get_def dm_remove_def delete_conv)

lemma dm_wf_Nil [simp]: "dm_wf []"
  by (simp add: dm_wf_def dm_keys_def)

lemma dm_wf_insert [simp, intro]: "dm_wf m \<Longrightarrow> dm_wf (dm_insert k v m)"
  by (simp add: dm_wf_def dm_keys_def dm_insert_def distinct_update)

lemma dm_wf_remove [simp, intro]: "dm_wf m \<Longrightarrow> dm_wf (dm_remove k m)"
  by (simp add: dm_wf_def dm_keys_def dm_remove_def distinct_delete)

lemma set_dm_keys: "set (dm_keys m) = {k. dm_get m k \<noteq> None}"
  by (auto simp: dm_keys_def dm_get_def map_of_eq_None_iff)

lemma dm_get_in_keys: "dm_get m k = Some v \<Longrightarrow> k \<in> set (dm_keys m)"
  by (simp add: set_dm_keys)

lemma dm_len_keys: "dm_len m = length (dm_keys m)"
  by (simp add: dm_len_def dm_keys_def)

lemma dm_len_0_iff: "dm_len m = 0 \<longleftrightarrow> (\<forall>k. dm_get m k = None)"
proof -
  have "dm_len m = 0 \<longleftrightarrow> set (dm_keys m) = {}"
    by (simp add: dm_len_keys)
  then show ?thesis by (simp add: set_dm_keys)
qed

text \<open>Two well-formed maps with the same entries have the same number of entries.\<close>

lemma dm_len_card: "dm_wf m \<Longrightarrow> dm_len m = card {k. dm_get m k \<noteq> None}"
  unfolding dm_wf_def dm_len_keys set_dm_keys [symmetric] by (rule distinct_card [symmetric])

lemma finite_dm_dom [simp]: "finite {k. \<exists>v. dm_get m k = Some v}"
proof -
  have "{k. \<exists>v. dm_get m k = Some v} = set (dm_keys m)"
    by (auto simp: set_dm_keys)
  then show ?thesis by simp
qed

lemma finite_dm_dom' [simp]: "finite {k. dm_get m k \<noteq> None}"
  by (simp flip: set_dm_keys)

lemma dm_len_insert:
  assumes "dm_wf m"
  shows "dm_len (dm_insert k v m) = (if dm_get m k = None then Suc (dm_len m) else dm_len m)"
proof -
  have "{j. dm_get (dm_insert k v m) j \<noteq> None} = insert k {j. dm_get m j \<noteq> None}"
    by auto
  then show ?thesis
    using assms by (simp add: dm_len_card card_insert_if)
qed

lemma dm_len_remove:
  assumes "dm_wf m"
  shows "dm_len (dm_remove k m) = (if dm_get m k = None then dm_len m else dm_len m - 1)"
proof -
  have "{j. dm_get (dm_remove k m) j \<noteq> None} = {j. dm_get m j \<noteq> None} - {k}"
    by auto
  then show ?thesis
    using assms by (simp add: dm_len_card card_Diff_singleton_if)
qed

lemma dm_len_pos: "dm_get m k = Some v \<Longrightarrow> 0 < dm_len m"
  using dm_len_0_iff [of m] by (metis not_gr_zero option.distinct(1))

lemma dm_len_remove_Some:
  "dm_wf m \<Longrightarrow> dm_get m k = Some v \<Longrightarrow> Suc (dm_len (dm_remove k m)) = dm_len m"
  using dm_len_pos by (fastforce simp: dm_len_remove)

lemma dm_get_retain:
  "dm_wf m \<Longrightarrow> dm_get (dm_retain p m) k =
     (case dm_get m k of None \<Rightarrow> None | Some v \<Rightarrow> if p k v then Some v else None)"
proof (induction m)
  case Nil
  then show ?case by (simp add: dm_retain_def)
next
  case (Cons e m)
  obtain k0 v0 where e: "e = (k0, v0)" by (cases e)
  from Cons.prems e have wf: "dm_wf m" and fresh: "dm_get m k0 = None"
    by (auto simp: dm_wf_def dm_keys_def dm_get_def map_of_eq_None_iff)
  from Cons.IH [OF wf] e fresh show ?case
    by (auto simp: dm_retain_def dm_get_Cons)
qed

lemma dm_wf_retain [simp, intro]: "dm_wf m \<Longrightarrow> dm_wf (dm_retain p m)"
  unfolding dm_wf_def dm_keys_def dm_retain_def by (rule distinct_map_filter)

text \<open>The keys of the entries a background task selects.\<close>

lemma dm_get_iff_mem: "dm_wf m \<Longrightarrow> dm_get m k = Some v \<longleftrightarrow> (k, v) \<in> set m"
  by (simp add: dm_get_def dm_wf_def dm_keys_def)

lemma set_selected_keys:
  "dm_wf m \<Longrightarrow> set (map fst (filter (\<lambda>(k, v). p k v) m)) = {k. \<exists>v. dm_get m k = Some v \<and> p k v}"
  by (force simp: dm_get_iff_mem)

section \<open>Lemmas on words\<close>

text \<open>Below \<open>2 ^ 63\<close> the signed and the unsigned reading agree.\<close>

lemma sint_eq_unat: "unat w < 2 ^ 63 \<Longrightarrow> sint w = int (unat w)" for w :: u64
proof -
  assume "unat w < 2 ^ 63"
  then have "uint w < 2 ^ 63" by (metis of_nat_less_iff of_nat_numeral of_nat_power of_nat_unat)
  moreover have "- (2 ^ 63) \<le> uint w" by (rule order_trans [of _ 0]) simp_all
  ultimately have "signed_take_bit 63 (uint w) = uint w"
    by (intro signed_take_bit_int_eq_self)
  then show ?thesis by (simp add: sint_uint)
qed

section \<open>Lemmas on sets\<close>

lemma set_hs_insert [simp]: "set (hs_insert x xs) = insert x (set xs)"
  by (auto simp: hs_insert_def)

lemma distinct_hs_insert [simp]: "distinct (hs_insert x xs) = distinct xs"
  by (simp add: hs_insert_def)

lemma set_hs_remove [simp]: "set (hs_remove x xs) = set xs - {x}"
  by (simp add: hs_remove_def)

lemma distinct_hs_remove [simp]: "distinct xs \<Longrightarrow> distinct (hs_remove x xs)"
  by (simp add: hs_remove_def distinct_removeAll)

lemma length_hs_insert: "length (hs_insert x xs) = (if x \<in> set xs then length xs else Suc (length xs))"
  by (simp add: hs_insert_def)

lemma length_hs_remove_le: "length (hs_remove x xs) \<le> length xs"
  by (simp add: hs_remove_def length_removeAll_less_eq)

lemma hs_remove_eq_Nil: "hs_remove x xs = [] \<longleftrightarrow> set xs \<subseteq> {x}"
  by (metis Diff_eq_empty_iff set_empty set_hs_remove)

lemma hs_insert_not_Nil [simp]: "hs_insert x xs \<noteq> []"
  by (auto simp: hs_insert_def)

lemma set_hs_collect [simp]: "set (hs_collect xs acc) = set xs \<union> set acc"
  by (induction xs arbitrary: acc) auto

lemma distinct_hs_collect [simp]: "distinct (hs_collect xs acc) = distinct acc"
  by (induction xs arbitrary: acc) auto

lemma hs_collect_distinct: "distinct (acc @ xs) \<Longrightarrow> hs_collect xs acc = acc @ xs"
  by (induction xs arbitrary: acc) (auto simp: hs_insert_def)

section \<open>Interfaces\<close>

text \<open>
  What the components rely on when they use a map: lookups after an insertion or a removal,
  and that the keys a loop collects are exactly the keys present, each once.
\<close>

locale finite_map =
  fixes get :: "'m \<Rightarrow> 'k \<Rightarrow> 'v option"
    and put :: "'k \<Rightarrow> 'v \<Rightarrow> 'm \<Rightarrow> 'm"
    and del :: "'k \<Rightarrow> 'm \<Rightarrow> 'm"
    and keys :: "'m \<Rightarrow> 'k list"
    and invar :: "'m \<Rightarrow> bool"
  assumes get_put: "invar m \<Longrightarrow> get (put k v m) k' = (if k' = k then Some v else get m k')"
    and get_del: "invar m \<Longrightarrow> get (del k m) k' = (if k' = k then None else get m k')"
    and keys_get: "invar m \<Longrightarrow> set (keys m) = {k. get m k \<noteq> None}"
    and keys_distinct: "invar m \<Longrightarrow> distinct (keys m)"
    and invar_put: "invar m \<Longrightarrow> invar (put k v m)"
    and invar_del: "invar m \<Longrightarrow> invar (del k m)"
begin

text \<open>
  The sweep every background task performs: collect the keys to drop, then drop each. What
  is left is exactly the entries whose key was not collected.
\<close>

lemma sweep_invar: "invar m \<Longrightarrow> invar (fold del ks m)"
  by (induction ks arbitrary: m) (simp_all add: invar_del)

lemma sweep_get: "invar m \<Longrightarrow> get (fold del ks m) k = (if k \<in> set ks then None else get m k)"
  by (induction ks arbitrary: m) (auto simp: invar_del get_del)

lemma sweep_filter:
  assumes "invar m"
  shows "get (fold del (filter p (keys m)) m) k = (if p k then None else get m k)"
  using assms by (auto simp: sweep_get keys_get)

end

interpretation dm: finite_map dm_get dm_insert dm_remove dm_keys dm_wf
  by unfold_locales (simp_all add: set_dm_keys, simp add: dm_wf_def)

text \<open>
  A component with a step function and an invariant that every step keeps: the invariant
  holds after any sequence of steps.
\<close>

locale safe_system =
  fixes step :: "'e \<Rightarrow> 's \<Rightarrow> 's"
    and safe :: "'s \<Rightarrow> bool"
  assumes step_safe: "safe s \<Longrightarrow> safe (step e s)"
begin

lemma run_safe: "safe s \<Longrightarrow> safe (fold step es s)"
  by (induction es arbitrary: s) (simp_all add: step_safe)

text \<open>Every intermediate state of a run is safe too.\<close>

lemma prefix_safe: "safe s \<Longrightarrow> safe (fold step (take n es) s)"
  by (rule run_safe)

end

text \<open>A fold of steps that leave a projection of the state alone leaves it alone.\<close>

lemma fold_frame: "(\<And>x s. f (g x s) = f s) \<Longrightarrow> f (fold g xs s) = f s"
  by (induction xs arbitrary: s) simp_all

lemma fold_keeps: "P s \<Longrightarrow> (\<And>x s. x \<in> set xs \<Longrightarrow> P s \<Longrightarrow> P (g x s)) \<Longrightarrow> P (fold g xs s)"
  by (induction xs arbitrary: s) simp_all

end
