(* ===== verification/Message_Model.thy ===== *)
theory Message_Model
  imports Enums
begin

text \<open>
  \<^verbatim>\<open>src/models/message.rs\<close>: the signaling message. The payload is the raw JSON text that
  \<^verbatim>\<open>RawValue\<close> keeps unparsed. The serializer and the parser are those of the
  \<^verbatim>\<open>serde_json\<close> crate and stay parameters of the handlers.
\<close>

record message =
  msg_type :: MessageType
  src :: "string option"
  dst :: "string option"
  payload :: "string option"
  seq :: "u64 option"
  room :: "string option"
  timestamp :: "i64 option"
  topic_class :: "string option"

text \<open>The message literal the code writes where only the type and a payload matter.\<close>

definition bare_message :: "MessageType \<Rightarrow> string option \<Rightarrow> message" where
  "bare_message t p = \<lparr>msg_type = t, src = None, dst = None, payload = p, seq = None, room = None,
     timestamp = None, topic_class = None\<rparr>"

end
