(* ===== verification/Validation.thy ===== *)
theory Validation
  imports Dendri_Prelude
begin

text \<open>
  \<^verbatim>\<open>src/validation.rs\<close>: the check on peer ids, tokens and room names, and the comparison of
  shared secrets. A Rust \<^verbatim>\<open>&str\<close> is its list of UTF-8 bytes, a \<open>char\<close> being one byte, so
  \<open>length\<close> is \<^verbatim>\<open>len()\<close>.

  The constant-time comparison of the \<^verbatim>\<open>subtle\<close> crate is a parameter (\<open>ct_eq\<close>); what the
  code relies on is that on slices of equal length it is equality (\<open>ct_eq_ok\<close>).

  \<open>json_string_body\<close> is the scan of a JSON string literal after its opening quote (RFC 8259):
  it states what the identifier check is for, that an accepted identifier can be pasted
  between quotes in a hand-built frame.
\<close>

definition is_ascii_alphanumeric :: "char \<Rightarrow> bool" where
  "is_ascii_alphanumeric c =
     (let b = (of_char c :: nat)
      in (48 \<le> b \<and> b \<le> 57) \<or> (65 \<le> b \<and> b \<le> 90) \<or> (97 \<le> b \<and> b \<le> 122))"

definition constant_time_str_eq ::
  "(string \<Rightarrow> string \<Rightarrow> bool) \<Rightarrow> string \<Rightarrow> string \<Rightarrow> bool" where
  "constant_time_str_eq ct_eq a b = (if length a \<noteq> length b then False else ct_eq a b)"

definition ct_eq_ok :: "(string \<Rightarrow> string \<Rightarrow> bool) \<Rightarrow> bool" where
  "ct_eq_ok ct_eq = (\<forall>a b. length a = length b \<longrightarrow> ct_eq a b = (a = b))"

definition MAX_IDENTIFIER_LEN :: nat where
  "MAX_IDENTIFIER_LEN = 128"

definition is_identifier_byte :: "char \<Rightarrow> bool" where
  "is_identifier_byte b = (is_ascii_alphanumeric b \<or> b = CHR ''_'' \<or> b = CHR ''-'')"

definition is_valid_identifier :: "string \<Rightarrow> bool" where
  "is_valid_identifier s =
     (if s = [] \<or> length s > MAX_IDENTIFIER_LEN then False else list_all is_identifier_byte s)"

text \<open>
  The body of a JSON string literal: the decoded bytes up to the closing quote, and what
  follows it; \<open>None\<close> where the text needs unescaping, holds a control character, or ends early.
\<close>

fun json_string_body :: "string \<Rightarrow> (string \<times> string) option" where
  "json_string_body [] = None"
| "json_string_body (c # cs) =
     (if c = CHR 0x22 then Some ([], cs)
      else if c = CHR 0x5C \<or> (of_char c :: nat) < 32 then None
      else map_option (\<lambda>(body, rest). (c # body, rest)) (json_string_body cs))"

lemma constant_time_str_eq_iff: "ct_eq_ok ct_eq \<Longrightarrow> constant_time_str_eq ct_eq a b = (a = b)"
  by (auto simp: constant_time_str_eq_def ct_eq_ok_def)

lemma is_valid_identifier_iff:
  "is_valid_identifier s \<longleftrightarrow> s \<noteq> [] \<and> length s \<le> 128 \<and> (\<forall>c \<in> set s. is_identifier_byte c)"
  by (auto simp: is_valid_identifier_def MAX_IDENTIFIER_LEN_def list_all_iff)

text \<open>The bytes an identifier is made of lie strictly between the space and the tilde.\<close>

lemma identifier_byte_range: "is_identifier_byte c \<Longrightarrow> 45 \<le> (of_char c :: nat) \<and> of_char c \<le> (122 :: nat)"
  by (auto simp: is_identifier_byte_def is_ascii_alphanumeric_def Let_def)

lemma identifier_byte_not:
  assumes "is_identifier_byte c"
  shows "c \<noteq> CHR 0x22" "c \<noteq> CHR 0x5C" "c \<noteq> CHR 0x1F" "\<not> (of_char c :: nat) < 32"
  using identifier_byte_range [OF assms] assms
  by (auto simp: is_identifier_byte_def is_ascii_alphanumeric_def)

lemma json_string_body_identifier:
  "list_all is_identifier_byte s \<Longrightarrow> json_string_body (s @ CHR 0x22 # rest) = Some (s, rest)"
  by (induction s) (simp_all add: identifier_byte_not)

lemma valid_identifier_no_sep: "is_valid_identifier s \<Longrightarrow> CHR 0x1F \<notin> set s"
  using identifier_byte_not(3) by (auto simp: is_valid_identifier_iff)

end
