(* ===== verification/Jwt.thy ===== *)
theory Jwt
  imports Dendri_Prelude
begin

text \<open>
  \<^verbatim>\<open>src/jwt.rs\<close>: validation of connection tokens and the room access rule of their claims.
  The decoder of the \<^verbatim>\<open>jsonwebtoken\<close> crate is a parameter that receives what the code
  configures (the algorithm, the mandatory claims, the secret); so are the accessors of
  \<^verbatim>\<open>serde_json::Value\<close> (\<open>json_api\<close>).
\<close>

record 'v json_api =
  v_get :: "'v \<Rightarrow> string \<Rightarrow> 'v option"
  v_as_array :: "'v \<Rightarrow> 'v list option"
  v_as_str :: "'v \<Rightarrow> string option"

datatype jwt_algorithm = HS256

type_synonym 'v jwt_decoder = "jwt_algorithm \<Rightarrow> string list \<Rightarrow> string \<Rightarrow> string \<Rightarrow> 'v option"

definition validate_jwt :: "'v jwt_decoder \<Rightarrow> string \<Rightarrow> string \<Rightarrow> 'v option" where
  "validate_jwt decode secret token = decode HS256 [''exp''] secret token"

definition room_allowed :: "'v json_api \<Rightarrow> 'v \<Rightarrow> string \<Rightarrow> bool" where
  "room_allowed J claims room_name =
     (case Option.bind (v_get J claims ''rooms'') (v_as_array J) of
        None \<Rightarrow> True
      | Some rooms \<Rightarrow> list_ex (\<lambda>r. v_as_str J r = Some room_name) rooms)"

definition effective_jwt_secret :: "string option \<Rightarrow> string option \<Rightarrow> string option" where
  "effective_jwt_secret tenant_secret global_secret =
     (case tenant_secret of Some s \<Rightarrow> Some s | None \<Rightarrow> global_secret)"

definition tid_matches :: "'v json_api \<Rightarrow> 'v \<Rightarrow> string \<Rightarrow> bool" where
  "tid_matches J claims tenant_id =
     (case Option.bind (v_get J claims ''tid'') (v_as_str J) of
        None \<Rightarrow> True
      | Some tid \<Rightarrow> tid = tenant_id)"

text \<open>The rooms a token names, when its \<^verbatim>\<open>rooms\<close> claim is an array.\<close>

definition listed_rooms :: "'v json_api \<Rightarrow> 'v \<Rightarrow> string list option" where
  "listed_rooms J claims =
     map_option (List.map_filter (v_as_str J)) (Option.bind (v_get J claims ''rooms'') (v_as_array J))"

lemma room_allowed_iff:
  "room_allowed J claims r \<longleftrightarrow> (\<forall>rs. listed_rooms J claims = Some rs \<longrightarrow> r \<in> set rs)"
  by (force simp: room_allowed_def listed_rooms_def list_ex_iff map_filter_def split: option.splits)

end
