(* ===== verification/Redis_Realm.thy ===== *)
theory Redis_Realm
  imports Text_Format
begin

text \<open>
  \<^verbatim>\<open>src/redis_realm.rs\<close>: the client registry and the per-client message queues that the
  server keeps in Redis. Redis and its client crate are parameters (\<open>redis_api\<close>): the effect
  and the outcome of a command pipeline, and the typed reads the code issues. Every call may
  fail, and a failed pipeline leaves Redis in whatever state the parameter says.

  What the code relies on is stated as named hypotheses on a per-command effect \<open>ex\<close>
  (\<open>redis_pipe_ok\<close>, \<open>redis_frame_ok\<close>, \<open>redis_hash_ok\<close>, \<open>redis_list_ok\<close>,
  \<open>redis_string_ok\<close>): a pipeline that succeeds ran its commands in order, a command
  changes its own key only, and \<^verbatim>\<open>HSET\<close>/\<^verbatim>\<open>HGET\<close>, \<^verbatim>\<open>RPUSH\<close>/\<^verbatim>\<open>LRANGE\<close>, \<^verbatim>\<open>SET\<close>/\<^verbatim>\<open>GET\<close>,
  \<^verbatim>\<open>DEL\<close> and \<^verbatim>\<open>EXPIRE\<close> do what the Redis command reference says.
\<close>

datatype redis_error = RedisError string

type_synonym 'a redis_result = "redis_error + 'a"

datatype redis_cmd =
    Hset string string string
  | Sadd string string
  | Srem string string
  | Expire string i64
  | Del string
  | Rpush string string
  | Set string string

fun cmd_key :: "redis_cmd \<Rightarrow> string" where
  "cmd_key (Hset k f v) = k"
| "cmd_key (Sadd k m) = k"
| "cmd_key (Srem k m) = k"
| "cmd_key (Expire k s) = k"
| "cmd_key (Del k) = k"
| "cmd_key (Rpush k v) = k"
| "cmd_key (Set k v) = k"

record 'r redis_api =
  r_pipe :: "redis_cmd list \<Rightarrow> 'r \<Rightarrow> 'r \<times> unit redis_result"
  r_sismember :: "string \<Rightarrow> string \<Rightarrow> 'r \<Rightarrow> bool redis_result"
  r_hget :: "string \<Rightarrow> string \<Rightarrow> 'r \<Rightarrow> string option redis_result"
  r_smembers :: "string \<Rightarrow> 'r \<Rightarrow> string list redis_result"
  r_lrange_all :: "string \<Rightarrow> 'r \<Rightarrow> string list redis_result"
  r_get :: "string \<Rightarrow> 'r \<Rightarrow> string option redis_result"
  r_keys :: "string \<Rightarrow> 'r \<Rightarrow> string list redis_result"
  r_mget :: "string list \<Rightarrow> 'r \<Rightarrow> string option list redis_result"

definition client_key :: "string \<Rightarrow> string" where
  "client_key cid = ''peer:client:'' @ cid"

definition queue_key :: "string \<Rightarrow> string" where
  "queue_key cid = ''peer:queue:'' @ cid"

definition queue_meta_key :: "string \<Rightarrow> string" where
  "queue_meta_key cid = ''peer:queue_meta:'' @ cid"

definition ttl_seconds :: "u64 \<Rightarrow> i64" where
  "ttl_seconds alive_timeout_ms = max ((alive_timeout_ms * 2) div 1000) 1"

definition register_client ::
  "'r redis_api \<Rightarrow> i64 \<Rightarrow> string \<Rightarrow> string \<Rightarrow> u64 \<Rightarrow> 'r \<Rightarrow> 'r \<times> unit redis_result" where
  "register_client R now cid token alive_timeout_ms =
     r_pipe R [Hset (client_key cid) ''token'' token,
               Hset (client_key cid) ''last_ping'' (show_i64 now),
               Sadd ''peer:clients'' cid,
               Expire (client_key cid) (ttl_seconds alive_timeout_ms)]"

definition remove_client :: "'r redis_api \<Rightarrow> string \<Rightarrow> 'r \<Rightarrow> 'r \<times> unit redis_result" where
  "remove_client R cid = r_pipe R [Del (client_key cid), Srem ''peer:clients'' cid]"

definition client_exists :: "'r redis_api \<Rightarrow> string \<Rightarrow> 'r \<Rightarrow> bool redis_result" where
  "client_exists R cid = r_sismember R ''peer:clients'' cid"

definition get_client_token :: "'r redis_api \<Rightarrow> string \<Rightarrow> 'r \<Rightarrow> string option redis_result" where
  "get_client_token R cid = r_hget R (client_key cid) ''token''"

definition set_last_ping ::
  "'r redis_api \<Rightarrow> i64 \<Rightarrow> string \<Rightarrow> u64 \<Rightarrow> 'r \<Rightarrow> 'r \<times> unit redis_result" where
  "set_last_ping R now cid alive_timeout_ms =
     r_pipe R [Hset (client_key cid) ''last_ping'' (show_i64 now),
               Expire (client_key cid) (ttl_seconds alive_timeout_ms)]"

definition get_all_client_ids :: "'r redis_api \<Rightarrow> 'r \<Rightarrow> string list redis_result" where
  "get_all_client_ids R = r_smembers R ''peer:clients''"

text \<open>
  The loop that draws UUIDs until one is free: \<open>uuid i\<close> is the \<open>i\<close>-th draw. Not returning
  is \<open>None\<close>.
\<close>

partial_function (option) generate_client_id ::
  "'r redis_api \<Rightarrow> (nat \<Rightarrow> string) \<Rightarrow> nat \<Rightarrow> 'r \<Rightarrow> string redis_result option" where
  "generate_client_id R uuid i r =
     (case client_exists R (uuid i) r of
        Inl e \<Rightarrow> Some (Inl e)
      | Inr taken \<Rightarrow> if \<not> taken then Some (Inr (uuid i)) else generate_client_id R uuid (Suc i) r)"

definition add_message_to_queue ::
  "'r redis_api \<Rightarrow> i64 \<Rightarrow> string \<Rightarrow> string \<Rightarrow> 'r \<Rightarrow> 'r \<times> unit redis_result" where
  "add_message_to_queue R now cid message_json =
     r_pipe R [Rpush (queue_key cid) message_json,
               Set (queue_meta_key cid) (show_i64 now),
               Sadd ''peer:queues'' cid]"

definition read_all_messages ::
  "'r redis_api \<Rightarrow> i64 \<Rightarrow> string \<Rightarrow> 'r \<Rightarrow> 'r \<times> string list redis_result" where
  "read_all_messages R now cid r =
     (case r_pipe R [Set (queue_meta_key cid) (show_i64 now)] r of
        (r', Inl e) \<Rightarrow> (r', Inl e)
      | (r', Inr _) \<Rightarrow> (r', r_lrange_all R (queue_key cid) r'))"

definition clear_message_queue :: "'r redis_api \<Rightarrow> string \<Rightarrow> 'r \<Rightarrow> 'r \<times> unit redis_result" where
  "clear_message_queue R cid =
     r_pipe R [Del (queue_key cid), Del (queue_meta_key cid), Srem ''peer:queues'' cid]"

definition get_client_ids_with_queue :: "'r redis_api \<Rightarrow> 'r \<Rightarrow> string list redis_result" where
  "get_client_ids_with_queue R = r_smembers R ''peer:queues''"

definition get_queue_last_read_at :: "'r redis_api \<Rightarrow> string \<Rightarrow> 'r \<Rightarrow> i64 option redis_result" where
  "get_queue_last_read_at R cid r =
     (case r_get R (queue_meta_key cid) r of
        Inl e \<Rightarrow> Inl e
      | Inr val \<Rightarrow> Inr (case val of None \<Rightarrow> None | Some v \<Rightarrow> parse_i64 v))"

text \<open>A sequence of \<open>(now, client, message)\<close> additions; \<open>None\<close> when one of them fails.\<close>

fun enqueue_all :: "'r redis_api \<Rightarrow> (i64 \<times> string \<times> string) list \<Rightarrow> 'r \<Rightarrow> 'r option" where
  "enqueue_all R [] r = Some r"
| "enqueue_all R ((now, cid, json) # ms) r =
     (case add_message_to_queue R now cid json r of
        (r', Inl e) \<Rightarrow> None
      | (r', Inr u) \<Rightarrow> enqueue_all R ms r')"

section \<open>What Redis documents\<close>

definition redis_pipe_ok :: "'r redis_api \<Rightarrow> (redis_cmd \<Rightarrow> 'r \<Rightarrow> 'r) \<Rightarrow> bool" where
  "redis_pipe_ok R ex \<longleftrightarrow> (\<forall>cs r r'. r_pipe R cs r = (r', Inr ()) \<longrightarrow> r' = fold ex cs r)"

definition redis_frame_ok :: "'r redis_api \<Rightarrow> (redis_cmd \<Rightarrow> 'r \<Rightarrow> 'r) \<Rightarrow> bool" where
  "redis_frame_ok R ex \<longleftrightarrow>
     (\<forall>c k r. cmd_key c \<noteq> k \<longrightarrow>
        r_lrange_all R k (ex c r) = r_lrange_all R k r \<and>
        (\<forall>f. r_hget R k f (ex c r) = r_hget R k f r) \<and>
        r_get R k (ex c r) = r_get R k r)"

definition redis_hash_ok :: "'r redis_api \<Rightarrow> (redis_cmd \<Rightarrow> 'r \<Rightarrow> 'r) \<Rightarrow> bool" where
  "redis_hash_ok R ex \<longleftrightarrow>
     (\<forall>k f v r. r_hget R k f (ex (Hset k f v) r) = Inr (Some v)) \<and>
     (\<forall>k f g v r. g \<noteq> f \<longrightarrow> r_hget R k g (ex (Hset k f v) r) = r_hget R k g r) \<and>
     (\<forall>k f s r. 0 < sint s \<longrightarrow> r_hget R k f (ex (Expire k s) r) = r_hget R k f r) \<and>
     (\<forall>k f r. r_hget R k f (ex (Del k) r) = Inr None)"

definition redis_list_ok :: "'r redis_api \<Rightarrow> (redis_cmd \<Rightarrow> 'r \<Rightarrow> 'r) \<Rightarrow> bool" where
  "redis_list_ok R ex \<longleftrightarrow>
     (\<forall>k v xs r. r_lrange_all R k r = Inr xs \<longrightarrow>
        r_lrange_all R k (ex (Rpush k v) r) = Inr (xs @ [v])) \<and>
     (\<forall>k r. r_lrange_all R k (ex (Del k) r) = Inr [])"

definition redis_string_ok :: "'r redis_api \<Rightarrow> (redis_cmd \<Rightarrow> 'r \<Rightarrow> 'r) \<Rightarrow> bool" where
  "redis_string_ok R ex \<longleftrightarrow>
     (\<forall>k v r. r_get R k (ex (Set k v) r) = Inr (Some v)) \<and>
     (\<forall>k r. r_get R k (ex (Del k) r) = Inr None)"

section \<open>A Redis that keeps every command\<close>

text \<open>
  An in-memory instance of the parameter, on which the hypotheses hold: it instantiates the
  properties below at concrete inputs.
\<close>

record mem_redis =
  mem_hashes :: "string \<Rightarrow> string \<Rightarrow> string option"
  mem_sets :: "string \<Rightarrow> string list"
  mem_lists :: "string \<Rightarrow> string list"
  mem_strings :: "string \<Rightarrow> string option"

definition mem_empty :: mem_redis where
  "mem_empty = \<lparr>mem_hashes = (\<lambda>_ _. None), mem_sets = (\<lambda>_. []), mem_lists = (\<lambda>_. []),
     mem_strings = (\<lambda>_. None)\<rparr>"

fun mem_exec :: "redis_cmd \<Rightarrow> mem_redis \<Rightarrow> mem_redis" where
  "mem_exec (Hset k f v) r = r\<lparr>mem_hashes := (mem_hashes r)(k := (mem_hashes r k)(f := Some v))\<rparr>"
| "mem_exec (Sadd k m) r = r\<lparr>mem_sets := (mem_sets r)(k := hs_insert m (mem_sets r k))\<rparr>"
| "mem_exec (Srem k m) r = r\<lparr>mem_sets := (mem_sets r)(k := hs_remove m (mem_sets r k))\<rparr>"
| "mem_exec (Expire k s) r = r"
| "mem_exec (Del k) r =
     r\<lparr>mem_hashes := (mem_hashes r)(k := (\<lambda>_. None)), mem_sets := (mem_sets r)(k := []),
       mem_lists := (mem_lists r)(k := []), mem_strings := (mem_strings r)(k := None)\<rparr>"
| "mem_exec (Rpush k v) r = r\<lparr>mem_lists := (mem_lists r)(k := mem_lists r k @ [v])\<rparr>"
| "mem_exec (Set k v) r = r\<lparr>mem_strings := (mem_strings r)(k := Some v)\<rparr>"

definition mem_api :: "mem_redis redis_api" where
  "mem_api = \<lparr>r_pipe = (\<lambda>cs r. (fold mem_exec cs r, Inr ())),
     r_sismember = (\<lambda>k m r. Inr (m \<in> set (mem_sets r k))),
     r_hget = (\<lambda>k f r. Inr (mem_hashes r k f)),
     r_smembers = (\<lambda>k r. Inr (mem_sets r k)),
     r_lrange_all = (\<lambda>k r. Inr (mem_lists r k)),
     r_get = (\<lambda>k r. Inr (mem_strings r k)),
     r_keys = (\<lambda>p r. Inr []),
     r_mget = (\<lambda>ks r. Inr (map (mem_strings r) ks))\<rparr>"

section \<open>Lemmas\<close>

lemma key_distinct [simp]:
  "client_key a \<noteq> ''peer:clients''" "''peer:clients'' \<noteq> client_key a"
  "queue_key a \<noteq> queue_meta_key b" "queue_meta_key b \<noteq> queue_key a"
  "queue_key a \<noteq> ''peer:queues''" "''peer:queues'' \<noteq> queue_key a"
  "queue_meta_key a \<noteq> ''peer:queues''" "''peer:queues'' \<noteq> queue_meta_key a"
  by (simp_all add: client_key_def queue_key_def queue_meta_key_def)

lemma key_inj [simp]:
  "client_key a = client_key b \<longleftrightarrow> a = b" "queue_key a = queue_key b \<longleftrightarrow> a = b"
  "queue_meta_key a = queue_meta_key b \<longleftrightarrow> a = b"
  by (simp_all add: client_key_def queue_key_def queue_meta_key_def)

lemma redis_lrange_frame:
  "redis_frame_ok R ex \<Longrightarrow> cmd_key c \<noteq> k \<Longrightarrow> r_lrange_all R k (ex c r) = r_lrange_all R k r"
  by (simp add: redis_frame_ok_def)

lemma redis_hget_frame:
  "redis_frame_ok R ex \<Longrightarrow> cmd_key c \<noteq> k \<Longrightarrow> r_hget R k f (ex c r) = r_hget R k f r"
  by (simp add: redis_frame_ok_def)

lemma redis_get_frame:
  "redis_frame_ok R ex \<Longrightarrow> cmd_key c \<noteq> k \<Longrightarrow> r_get R k (ex c r) = r_get R k r"
  by (simp add: redis_frame_ok_def)

lemmas redis_frames = redis_lrange_frame redis_hget_frame redis_get_frame

lemma redis_pipeD: "redis_pipe_ok R ex \<Longrightarrow> r_pipe R cs r = (r', Inr ()) \<Longrightarrow> r' = fold ex cs r"
  by (simp add: redis_pipe_ok_def)

text \<open>The expiry the code sets is positive for every configuration.\<close>

lemma ttl_seconds_pos: "0 < sint (ttl_seconds t)"
proof -
  let ?m = "max ((t * 2) div 1000) 1"
  have "unat ((t * 2) div 1000) \<le> (2 ^ 64 - 1) div 1000"
    using unsigned_less [of "t * 2", where 'a = nat]
    by (simp add: unat_div div_le_mono)
  then have hi: "unat ?m < 2 ^ 63"
    by (simp add: max_def)
  have "(1 :: u64) \<le> ?m" by simp
  then have "1 \<le> unat ?m" by (simp add: word_le_nat_alt)
  from hi have "sint ?m = int (unat ?m)"
    by (rule sint_eq_unat)
  with \<open>1 \<le> unat ?m\<close> have "0 < sint ?m" by linarith
  then show ?thesis by (simp add: ttl_seconds_def)
qed

lemma register_then_token:
  assumes "redis_pipe_ok R ex" "redis_frame_ok R ex" "redis_hash_ok R ex"
    and "register_client R now cid token t r = (r', Inr ())"
  shows "get_client_token R j r' = (if j = cid then Inr (Some token) else get_client_token R j r)"
  using redis_pipeD [OF assms(1) assms(4) [unfolded register_client_def]] assms(2,3) ttl_seconds_pos
  by (simp add: get_client_token_def redis_frames redis_hash_ok_def)

lemma remove_then_no_token:
  assumes "redis_pipe_ok R ex" "redis_frame_ok R ex" "redis_hash_ok R ex"
    and "remove_client R cid r = (r', Inr ())"
  shows "get_client_token R j r' = (if j = cid then Inr None else get_client_token R j r)"
  using redis_pipeD [OF assms(1) assms(4) [unfolded remove_client_def]] assms(2,3)
  by (simp add: get_client_token_def redis_frames redis_hash_ok_def)

lemma mem_api_ok:
  "redis_pipe_ok mem_api mem_exec" "redis_hash_ok mem_api mem_exec"
  "redis_list_ok mem_api mem_exec" "redis_string_ok mem_api mem_exec"
  by (simp_all add: redis_pipe_ok_def redis_hash_ok_def redis_list_ok_def redis_string_ok_def mem_api_def)

lemma mem_frame_ok: "redis_frame_ok mem_api mem_exec"
  unfolding redis_frame_ok_def
proof (intro allI impI)
  fix c k r assume "cmd_key c \<noteq> k"
  then show "r_lrange_all mem_api k (mem_exec c r) = r_lrange_all mem_api k r \<and>
      (\<forall>f. r_hget mem_api k f (mem_exec c r) = r_hget mem_api k f r) \<and>
      r_get mem_api k (mem_exec c r) = r_get mem_api k r"
    by (cases c) (simp_all add: mem_api_def)
qed

lemma add_then_lrange:
  assumes "redis_pipe_ok R ex" "redis_frame_ok R ex" "redis_list_ok R ex"
    and "add_message_to_queue R now cid json r = (r', Inr ())"
    and "r_lrange_all R (queue_key j) r = Inr xs"
  shows "r_lrange_all R (queue_key j) r' = Inr (if j = cid then xs @ [json] else xs)"
  using redis_pipeD [OF assms(1) assms(4) [unfolded add_message_to_queue_def]] assms(2,3,5)
  by (cases "j = cid") (simp_all add: redis_frames redis_list_ok_def)

lemma add_then_last_read:
  assumes "redis_pipe_ok R ex" "redis_frame_ok R ex" "redis_string_ok R ex"
    and "add_message_to_queue R now cid json r = (r', Inr ())"
  shows "get_queue_last_read_at R cid r' = Inr (Some now)"
  using redis_pipeD [OF assms(1) assms(4) [unfolded add_message_to_queue_def]] assms(2,3)
  by (simp add: get_queue_last_read_at_def redis_frames redis_string_ok_def parse_i64_show_i64)

lemma enqueue_all_lrange:
  assumes "redis_pipe_ok R ex" "redis_frame_ok R ex" "redis_list_ok R ex"
  shows "enqueue_all R ms r = Some r' \<Longrightarrow> r_lrange_all R (queue_key j) r = Inr xs \<Longrightarrow>
    r_lrange_all R (queue_key j) r' = Inr (xs @ map (snd \<circ> snd) (filter (\<lambda>m. fst (snd m) = j) ms))"
proof (induction ms arbitrary: r xs)
  case Nil
  then show ?case by simp
next
  case (Cons m ms)
  obtain now cid json where m: "m = (now, cid, json)" by (cases m) auto
  with Cons.prems(1) obtain r1 where add: "add_message_to_queue R now cid json r = (r1, Inr ())"
    and rest: "enqueue_all R ms r1 = Some r'"
    by (auto split: prod.splits sum.splits)
  from add_then_lrange [OF assms add Cons.prems(2)] Cons.IH [OF rest] show ?case
    by (simp add: m)
qed

lemma read_is_lrange:
  assumes "redis_pipe_ok R ex" "redis_frame_ok R ex"
    and "read_all_messages R now cid r = (r', Inr ms)"
  shows "r_lrange_all R (queue_key cid) r = Inr ms" and "r_lrange_all R (queue_key cid) r' = Inr ms"
proof -
  from assms(3) have set_ok: "r_pipe R [Set (queue_meta_key cid) (show_i64 now)] r = (r', Inr ())"
    and rd: "r_lrange_all R (queue_key cid) r' = Inr ms"
    by (auto simp: read_all_messages_def split: prod.splits sum.splits)
  show "r_lrange_all R (queue_key cid) r' = Inr ms" by (rule rd)
  with redis_pipeD [OF assms(1) set_ok] assms(2) show "r_lrange_all R (queue_key cid) r = Inr ms"
    by (simp add: redis_frames)
qed

lemma clear_empties:
  assumes "redis_pipe_ok R ex" "redis_frame_ok R ex" "redis_list_ok R ex"
    and "clear_message_queue R cid r = (r', Inr ())"
  shows "r_lrange_all R (queue_key j) r' = (if j = cid then Inr [] else r_lrange_all R (queue_key j) r)"
  using redis_pipeD [OF assms(1) assms(4) [unfolded clear_message_queue_def]] assms(2,3)
  by (simp add: redis_frames redis_list_ok_def)

lemma generate_client_id_step:
  "generate_client_id R uuid i r =
     (case client_exists R (uuid i) r of
        Inl e \<Rightarrow> Some (Inl e)
      | Inr taken \<Rightarrow> if \<not> taken then Some (Inr (uuid i)) else generate_client_id R uuid (Suc i) r)"
  by (rule generate_client_id.simps)

lemma generate_client_id_from:
  assumes "client_exists R (uuid (i + n)) r = Inr False"
    and "\<forall>j < n. client_exists R (uuid (i + j)) r \<in> {Inr True, Inr False}"
  shows "\<exists>j \<le> n. generate_client_id R uuid i r = Some (Inr (uuid (i + j))) \<and>
    client_exists R (uuid (i + j)) r = Inr False"
  using assms
proof (induction n arbitrary: i)
  case 0
  then show ?case by (simp add: generate_client_id_step [of R uuid i])
next
  case (Suc n)
  show ?case
  proof (cases "client_exists R (uuid i) r = Inr False")
    case True
    then show ?thesis
      by (intro exI [of _ 0]) (simp add: generate_client_id_step [of R uuid i])
  next
    case False
    with Suc.prems(2) have taken: "client_exists R (uuid i) r = Inr True"
      by (metis add.right_neutral insertE singletonD zero_less_Suc)
    have "\<forall>j < n. client_exists R (uuid (Suc i + j)) r \<in> {Inr True, Inr False}"
      using Suc.prems(2) by (metis Suc_mono add_Suc_shift)
    with Suc.IH [of "Suc i"] Suc.prems(1) obtain j where "j \<le> n"
        "generate_client_id R uuid (Suc i) r = Some (Inr (uuid (Suc i + j)))"
        "client_exists R (uuid (Suc i + j)) r = Inr False"
      by auto
    with taken show ?thesis
      by (intro exI [of _ "Suc j"]) (simp add: generate_client_id_step [of R uuid i])
  qed
qed

section \<open>Properties\<close>

text \<open>
  The message queues are first-in first-out and private to a client. When every addition
  of a sequence for any clients succeeds, reading one client's queue returns what it held
  before followed by exactly the messages added for that client, in order, and leaves them
  queued; clearing the queue then empties it.
\<close>

theorem queue_fifo:
  assumes "redis_pipe_ok R ex" "redis_frame_ok R ex" "redis_list_ok R ex"
    and "r_lrange_all R (queue_key cid) r0 = Inr old"
    and "enqueue_all R adds r0 = Some r1"
    and "read_all_messages R now cid r1 = (r2, Inr ms)"
    and "clear_message_queue R cid r2 = (r3, Inr ())"
  shows "ms = old @ map (snd \<circ> snd) (filter (\<lambda>m. fst (snd m) = cid) adds) \<and>
    r_lrange_all R (queue_key cid) r2 = Inr ms \<and> r_lrange_all R (queue_key cid) r3 = Inr []"
  using enqueue_all_lrange [OF assms(1-3,5,4)] read_is_lrange [OF assms(1,2,6)]
    clear_empties [OF assms(1-3,7)]
  by simp

theorem queue_fifo_witness:
  "snd (read_all_messages mem_api 7 ''a''
      (the (enqueue_all mem_api [(5, ''a'', ''x''), (5, ''b'', ''y''), (6, ''a'', ''z'')] mem_empty))) =
    Inr [''x'', ''z'']"
proof -
  let ?adds = "[(5, ''a'', ''x''), (5, ''b'', ''y''), (6, ''a'', ''z'')] :: (i64 \<times> string \<times> string) list"
  obtain r1 where r1: "enqueue_all mem_api ?adds mem_empty = Some r1"
    by (simp add: add_message_to_queue_def mem_api_def)
  obtain r2 ms where r2: "read_all_messages mem_api 7 ''a'' r1 = (r2, Inr ms)"
    by (simp add: read_all_messages_def mem_api_def)
  obtain r3 where r3: "clear_message_queue mem_api ''a'' r2 = (r3, Inr ())"
    by (simp add: clear_message_queue_def mem_api_def)
  have "r_lrange_all mem_api (queue_key ''a'') mem_empty = Inr []"
    by (simp add: mem_api_def mem_empty_def)
  from queue_fifo [OF mem_api_ok(1) mem_frame_ok mem_api_ok(3) this r1 r2 r3] r1 r2 show ?thesis
    by simp
qed

text \<open>
  The registry round trip. A successful registration makes a client's token readable and
  a successful removal makes it unreadable; neither changes any other client's token.
\<close>

theorem registry_roundtrip:
  assumes "redis_pipe_ok R ex" "redis_frame_ok R ex" "redis_hash_ok R ex"
    and "register_client R now cid token t r0 = (r1, Inr ())"
    and "remove_client R cid r1 = (r2, Inr ())"
  shows "get_client_token R cid r1 = Inr (Some token) \<and> get_client_token R cid r2 = Inr None \<and>
    (\<forall>j. j \<noteq> cid \<longrightarrow> get_client_token R j r2 = get_client_token R j r0)"
  using register_then_token [OF assms(1-4)] remove_then_no_token [OF assms(1-3,5)] by simp

theorem registry_roundtrip_witness:
  "get_client_token mem_api ''a'' (fst (register_client mem_api 1 ''a'' ''tok'' 60000 mem_empty)) =
     Inr (Some ''tok'')"
proof -
  obtain r1 where r1: "register_client mem_api 1 ''a'' ''tok'' 60000 mem_empty = (r1, Inr ())"
    by (simp add: register_client_def mem_api_def)
  obtain r2 where r2: "remove_client mem_api ''a'' r1 = (r2, Inr ())"
    by (simp add: remove_client_def mem_api_def)
  from registry_roundtrip [OF mem_api_ok(1) mem_frame_ok mem_api_ok(2) r1 r2] r1 show ?thesis
    by simp
qed

text \<open>
  C32: the peer-id generator returns, and returns a free id, as soon as one of the drawn UUIDs
  is free and Redis answers up to there.
\<close>

theorem generate_client_id_returns_fresh:
  assumes "client_exists R (uuid n) r = Inr False"
    and "\<forall>j < n. client_exists R (uuid j) r \<in> {Inr True, Inr False}"
  shows "\<exists>i \<le> n. generate_client_id R uuid 0 r = Some (Inr (uuid i)) \<and>
    client_exists R (uuid i) r = Inr False"
  using generate_client_id_from [of R uuid 0 n r] assms by simp

theorem generate_client_id_returns_fresh_witness:
  "generate_client_id mem_api (\<lambda>i. if i = 0 then ''taken'' else ''free'') 0
      (mem_exec (Sadd ''peer:clients'' ''taken'') mem_empty) = Some (Inr ''free'')"
proof -
  let ?uuid = "\<lambda>i :: nat. if i = 0 then ''taken'' else ''free''"
  define r where "r = mem_exec (Sadd ''peer:clients'' ''taken'') mem_empty"
  have ex: "client_exists mem_api s r = Inr (s = ''taken'')" for s
    by (simp add: r_def client_exists_def mem_api_def mem_empty_def hs_insert_def)
  obtain i where "generate_client_id mem_api ?uuid 0 r = Some (Inr (?uuid i))"
      "client_exists mem_api (?uuid i) r = Inr False"
    using generate_client_id_returns_fresh [of mem_api ?uuid 1 r] by (auto simp: ex)
  then show ?thesis unfolding r_def [symmetric] by (auto simp: ex split: if_splits)
qed

end
