(* ===== verification/Tenant.thy ===== *)
theory Tenant
  imports Redis_Realm Validation
begin

text \<open>
  \<^verbatim>\<open>src/tenant.rs\<close>: tenants stored in Redis under the hash of their API key, with an
  index from tenant id to hash and from email to id, and an in-process cache of lookups.
  SHA-256, UUID generation and the JSON form of a tenant are parameters (\<open>sha256\<close>,
  \<open>uuid\<close>, \<open>tenant_codec\<close>).
\<close>

record tenant =
  tn_id :: string
  tn_name :: string
  tn_origins :: "string list"
  tn_active :: bool
  tn_max_rooms :: usize
  tn_max_peers :: usize
  tn_email :: "string option"
  tn_jwt_secret :: "string option"

text \<open>\<^verbatim>\<open>serde_json::to_string(..)\<close> and \<^verbatim>\<open>from_str(..).ok()\<close> on tenants.\<close>

record tenant_codec =
  ser_tenant :: "tenant \<Rightarrow> string option"
  de_tenant :: "string \<Rightarrow> tenant option"

definition key_by_hash :: "string \<Rightarrow> string" where
  "key_by_hash hash = ''tenant:key:'' @ hash"

definition key_by_id :: "string \<Rightarrow> string" where
  "key_by_id tid = ''tenant:id:'' @ tid"

definition key_by_email :: "string \<Rightarrow> string" where
  "key_by_email email = ''tenant:email:'' @ to_ascii_lowercase (trim email)"

text \<open>Thirty seconds.\<close>

definition CACHE_TTL :: duration where
  "CACHE_TTL = 30 * 1000000000"

definition hash_api_key :: "(string \<Rightarrow> u8 list) \<Rightarrow> string \<Rightarrow> string" where
  "hash_api_key sha256 api_key = concat (map hex_byte (sha256 api_key))"

text \<open>\<open>uuid\<close> is the text \<^verbatim>\<open>Uuid::new_v4().simple()\<close> gives, 32 hexadecimal digits.\<close>

definition generate_api_key :: "string \<Rightarrow> string" where
  "generate_api_key uuid = ''dk_'' @ uuid"

definition generate_jwt_secret :: "string \<Rightarrow> string" where
  "generate_jwt_secret uuid = ''jwt_'' @ uuid"

definition generate_tenant_id :: "string \<Rightarrow> string" where
  "generate_tenant_id uuid = ''t_'' @ take 12 uuid"

type_synonym tenant_cache = "(string, tenant option \<times> instant) dashmap"

definition cache_get :: "instant \<Rightarrow> string \<Rightarrow> tenant_cache \<Rightarrow> tenant option option" where
  "cache_get now hash cache =
     (case dm_get cache hash of
        None \<Rightarrow> None
      | Some (v, stored_at) \<Rightarrow>
          if CACHE_TTL < duration_since now stored_at then None else Some v)"

definition cache_put :: "instant \<Rightarrow> string \<Rightarrow> tenant option \<Rightarrow> tenant_cache \<Rightarrow> tenant_cache" where
  "cache_put now hash v cache = dm_insert hash (v, now) cache"

definition invalidate_all :: "tenant_cache \<Rightarrow> tenant_cache" where
  "invalidate_all cache = []"

definition fetch_by_hash ::
  "'r redis_api \<Rightarrow> tenant_codec \<Rightarrow> string \<Rightarrow> 'r \<Rightarrow> tenant option redis_result" where
  "fetch_by_hash R C hash r =
     (case r_get R (key_by_hash hash) r of
        Inl e \<Rightarrow> Inl e
      | Inr raw \<Rightarrow> Inr (Option.bind raw (de_tenant C)))"

definition resolve_api_key ::
  "'r redis_api \<Rightarrow> tenant_codec \<Rightarrow> (string \<Rightarrow> u8 list) \<Rightarrow> instant \<Rightarrow> string \<Rightarrow> 'r \<Rightarrow> tenant_cache \<Rightarrow>
     tenant option \<times> tenant_cache" where
  "resolve_api_key R C sha256 now api_key r cache =
     (let hash = hash_api_key sha256 api_key;
          (v, cache') = (case cache_get now hash cache of
             Some cached \<Rightarrow> (cached, cache)
           | None \<Rightarrow>
               let fetched = (case fetch_by_hash R C hash r of Inl e \<Rightarrow> None | Inr t \<Rightarrow> t)
               in (fetched, cache_put now hash fetched cache))
      in (case v of None \<Rightarrow> None | Some t \<Rightarrow> if tn_active t then Some t else None, cache'))"

text \<open>\<^verbatim>\<open>serde_json::to_string(tenant).unwrap_or_default()\<close>.\<close>

definition tenant_json :: "tenant_codec \<Rightarrow> tenant \<Rightarrow> string" where
  "tenant_json C t = (case ser_tenant C t of None \<Rightarrow> [] | Some s \<Rightarrow> s)"

definition create_tenant ::
  "'r redis_api \<Rightarrow> tenant_codec \<Rightarrow> (string \<Rightarrow> u8 list) \<Rightarrow> tenant \<Rightarrow> string \<Rightarrow> 'r \<Rightarrow>
     'r \<times> unit redis_result" where
  "create_tenant R C sha256 t api_key =
     (let hash = hash_api_key sha256 api_key
      in r_pipe R ([Set (key_by_hash hash) (tenant_json C t), Set (key_by_id (tn_id t)) hash] @
           (case tn_email t of None \<Rightarrow> [] | Some email \<Rightarrow> [Set (key_by_email email) (tn_id t)])))"

definition update_tenant ::
  "'r redis_api \<Rightarrow> tenant_codec \<Rightarrow> tenant \<Rightarrow> 'r \<Rightarrow> 'r \<times> bool redis_result" where
  "update_tenant R C t r =
     (case r_get R (key_by_id (tn_id t)) r of
        Inl e \<Rightarrow> (r, Inl e)
      | Inr None \<Rightarrow> (r, Inr False)
      | Inr (Some hash) \<Rightarrow>
          (case r_pipe R [Set (key_by_hash hash) (tenant_json C t)] r of
             (r', Inl e) \<Rightarrow> (r', Inl e)
           | (r', Inr _) \<Rightarrow> (r', Inr True)))"

definition get_tenant_id_by_email :: "'r redis_api \<Rightarrow> string \<Rightarrow> 'r \<Rightarrow> string option redis_result" where
  "get_tenant_id_by_email R email = r_get R (key_by_email email)"

definition get_tenant_by_id ::
  "'r redis_api \<Rightarrow> tenant_codec \<Rightarrow> string \<Rightarrow> 'r \<Rightarrow> tenant option redis_result" where
  "get_tenant_by_id R C tid r =
     (case r_get R (key_by_id tid) r of
        Inl e \<Rightarrow> Inl e
      | Inr None \<Rightarrow> Inr None
      | Inr (Some h) \<Rightarrow> fetch_by_hash R C h r)"

definition rotate_api_key ::
  "'r redis_api \<Rightarrow> tenant_codec \<Rightarrow> (string \<Rightarrow> u8 list) \<Rightarrow> string \<Rightarrow> string \<Rightarrow> 'r \<Rightarrow>
     'r \<times> string option redis_result" where
  "rotate_api_key R C sha256 uuid tid r =
     (case r_get R (key_by_id tid) r of
        Inl e \<Rightarrow> (r, Inl e)
      | Inr None \<Rightarrow> (r, Inr None)
      | Inr (Some old_hash) \<Rightarrow>
          (case fetch_by_hash R C old_hash r of
             Inl e \<Rightarrow> (r, Inl e)
           | Inr None \<Rightarrow> (r, Inr None)
           | Inr (Some t) \<Rightarrow>
               let new_key = generate_api_key uuid;
                   new_hash = hash_api_key sha256 new_key
               in case r_pipe R [Set (key_by_hash new_hash) (tenant_json C t),
                                 Set (key_by_id tid) new_hash,
                                 Del (key_by_hash old_hash)] r of
                    (r', Inl e) \<Rightarrow> (r', Inl e)
                  | (r', Inr _) \<Rightarrow> (r', Inr (Some new_key))))"

definition delete_tenant ::
  "'r redis_api \<Rightarrow> tenant_codec \<Rightarrow> string \<Rightarrow> 'r \<Rightarrow> 'r \<times> bool redis_result" where
  "delete_tenant R C tid r =
     (case r_get R (key_by_id tid) r of
        Inl e \<Rightarrow> (r, Inl e)
      | Inr None \<Rightarrow> (r, Inr False)
      | Inr (Some hash) \<Rightarrow>
          (case fetch_by_hash R C hash r of
             Inl e \<Rightarrow> (r, Inl e)
           | Inr t \<Rightarrow>
               (case r_pipe R ([Del (key_by_hash hash), Del (key_by_id tid)] @
                   (case Option.bind t tn_email of None \<Rightarrow> [] | Some email \<Rightarrow> [Del (key_by_email email)])) r of
                  (r', Inl e) \<Rightarrow> (r', Inl e)
                | (r', Inr _) \<Rightarrow> (r', Inr True))))"

definition list_tenants :: "'r redis_api \<Rightarrow> tenant_codec \<Rightarrow> 'r \<Rightarrow> tenant list redis_result" where
  "list_tenants R C r =
     (case r_keys R ''tenant:key:*'' r of
        Inl e \<Rightarrow> Inl e
      | Inr ks \<Rightarrow>
          if ks = [] then Inr []
          else case r_mget R ks r of
                 Inl e \<Rightarrow> Inl e
               | Inr raws \<Rightarrow> Inr (List.map_filter (de_tenant C) (List.map_filter (\<lambda>x. x) raws)))"

text \<open>What the code relies on of the JSON form: the stored tenant reads back as itself.\<close>

definition codec_ok :: "tenant_codec \<Rightarrow> tenant \<Rightarrow> bool" where
  "codec_ok C t \<longleftrightarrow> de_tenant C (tenant_json C t) = Some t"

text \<open>A run of connection attempts: each looks up a key at some instant, sharing the cache.\<close>

definition resolve_all ::
  "'r redis_api \<Rightarrow> tenant_codec \<Rightarrow> (string \<Rightarrow> u8 list) \<Rightarrow> 'r \<Rightarrow> (instant \<times> string) list \<Rightarrow>
     tenant_cache \<Rightarrow> tenant_cache" where
  "resolve_all R C sha256 r =
     fold (\<lambda>(now, k) cache. snd (resolve_api_key R C sha256 now k r cache))"

text \<open>The cache holds no grant for \<open>hash\<close> that was stored after \<open>since\<close>.\<close>

definition no_grant_after :: "instant \<Rightarrow> string \<Rightarrow> tenant_cache \<Rightarrow> bool" where
  "no_grant_after since hash cache =
     (case dm_get cache hash of Some (Some _, stored_at) \<Rightarrow> stored_at \<le> since | _ \<Rightarrow> True)"

section \<open>Lemmas\<close>

lemma tenant_keys_distinct [simp]:
  "key_by_hash a \<noteq> key_by_id b" "key_by_id b \<noteq> key_by_hash a"
  "key_by_hash a \<noteq> key_by_email b" "key_by_email b \<noteq> key_by_hash a"
  "key_by_id a \<noteq> key_by_email b" "key_by_email b \<noteq> key_by_id a"
  by (simp_all add: key_by_hash_def key_by_id_def key_by_email_def)

lemma tenant_keys_inj [simp]:
  "key_by_hash a = key_by_hash b \<longleftrightarrow> a = b" "key_by_id a = key_by_id b \<longleftrightarrow> a = b"
  by (simp_all add: key_by_hash_def key_by_id_def)

lemma hash_api_key_inj: "hash_api_key sha256 a = hash_api_key sha256 b \<Longrightarrow> sha256 a = sha256 b"
  unfolding hash_api_key_def by (rule concat_hex_inj)

lemma cache_get_put: "cache_get now h (cache_put now h v c) = Some v"
  by (simp add: cache_get_def cache_put_def duration_since_def)

lemma cache_get_empty [simp]: "cache_get now h (invalidate_all c) = None"
  by (simp add: cache_get_def invalidate_all_def)

lemma resolve_miss:
  "cache_get now (hash_api_key sha256 k) c = None \<Longrightarrow>
     fst (resolve_api_key R C sha256 now k r c) =
       (case fetch_by_hash R C (hash_api_key sha256 k) r of
          Inr (Some t) \<Rightarrow> if tn_active t then Some t else None | _ \<Rightarrow> None)"
  by (simp add: resolve_api_key_def Let_def split: sum.split option.split)

lemma resolve_active: "fst (resolve_api_key R C sha256 now k r c) = Some t \<Longrightarrow> tn_active t"
  by (auto simp: resolve_api_key_def Let_def split: prod.splits option.splits if_splits)

lemma create_then_fetch:
  assumes "redis_pipe_ok R ex" "redis_frame_ok R ex" "redis_string_ok R ex" "codec_ok C t"
    and "create_tenant R C sha256 t k r = (r', Inr ())"
  shows "fetch_by_hash R C (hash_api_key sha256 k) r' = Inr (Some t)"
    and "get_tenant_by_id R C (tn_id t) r' = Inr (Some t)"
proof -
  from redis_pipeD [OF assms(1) assms(5) [unfolded create_tenant_def Let_def]]
  have get: "r_get R (key_by_hash (hash_api_key sha256 k)) r' = Inr (Some (tenant_json C t))"
    "r_get R (key_by_id (tn_id t)) r' = Inr (Some (hash_api_key sha256 k))"
    using assms(2,3) by (simp_all add: redis_frames redis_string_ok_def split: option.split)
  then show fetch: "fetch_by_hash R C (hash_api_key sha256 k) r' = Inr (Some t)"
    using assms(4) by (simp add: fetch_by_hash_def codec_ok_def)
  with get(2) show "get_tenant_by_id R C (tn_id t) r' = Inr (Some t)"
    by (simp add: get_tenant_by_id_def)
qed

lemma rotate_then_fetch:
  assumes "redis_pipe_ok R ex" "redis_frame_ok R ex" "redis_string_ok R ex" "codec_ok C t"
    and "r_get R (key_by_id tid) r = Inr (Some old_hash)" "fetch_by_hash R C old_hash r = Inr (Some t)"
    and "rotate_api_key R C sha256 uuid tid r = (r', Inr (Some new_key))"
  shows "new_key = generate_api_key uuid"
    and "hash_api_key sha256 new_key \<noteq> old_hash \<Longrightarrow>
           fetch_by_hash R C (hash_api_key sha256 new_key) r' = Inr (Some t)"
    and "fetch_by_hash R C old_hash r' = Inr None"
    and "r_get R (key_by_id tid) r' = Inr (Some (hash_api_key sha256 new_key))"
proof -
  let ?h = "hash_api_key sha256 (generate_api_key uuid)"
  from assms(5-7) show key: "new_key = generate_api_key uuid"
    by (auto simp: rotate_api_key_def Let_def split: sum.splits prod.splits)
  from assms(5-7) have pipe: "r_pipe R [Set (key_by_hash ?h) (tenant_json C t), Set (key_by_id tid) ?h,
      Del (key_by_hash old_hash)] r = (r', Inr ())"
    by (auto simp: rotate_api_key_def Let_def split: sum.splits prod.splits)
  from redis_pipeD [OF assms(1) pipe] assms(2-4) key
  show "hash_api_key sha256 new_key \<noteq> old_hash \<Longrightarrow>
          fetch_by_hash R C (hash_api_key sha256 new_key) r' = Inr (Some t)"
    "fetch_by_hash R C old_hash r' = Inr None"
    "r_get R (key_by_id tid) r' = Inr (Some (hash_api_key sha256 new_key))"
    by (simp_all add: redis_frames redis_string_ok_def fetch_by_hash_def codec_ok_def)
qed

lemma delete_then_fetch:
  assumes "redis_pipe_ok R ex" "redis_frame_ok R ex" "redis_string_ok R ex"
    and "delete_tenant R C tid r = (r', Inr True)"
  obtains hash where "r_get R (key_by_id tid) r = Inr (Some hash)"
    and "fetch_by_hash R C hash r' = Inr None" and "get_tenant_by_id R C tid r' = Inr None"
proof -
  from assms(4) obtain hash where hash: "r_get R (key_by_id tid) r = Inr (Some hash)"
    by (auto simp: delete_tenant_def split: sum.splits option.splits)
  with assms(4) obtain t where t: "fetch_by_hash R C hash r = Inr t"
    by (auto simp: delete_tenant_def split: sum.splits)
  with assms(4) hash have pipe: "r_pipe R ([Del (key_by_hash hash), Del (key_by_id tid)] @
      (case Option.bind t tn_email of None \<Rightarrow> [] | Some email \<Rightarrow> [Del (key_by_email email)])) r = (r', Inr ())"
    by (simp add: delete_tenant_def split: sum.splits prod.splits)
  have "fetch_by_hash R C hash r' = Inr None" "get_tenant_by_id R C tid r' = Inr None"
    using redis_pipeD [OF assms(1) pipe] assms(2,3)
    by (simp_all add: redis_frames redis_string_ok_def fetch_by_hash_def get_tenant_by_id_def
        split: option.splits)
  with that hash show ?thesis by blast
qed

lemma create_then_index:
  assumes "redis_pipe_ok R ex" "redis_frame_ok R ex" "redis_string_ok R ex"
    and "create_tenant R C sha256 t k r = (r', Inr ())"
  shows "r_get R (key_by_id (tn_id t)) r' = Inr (Some (hash_api_key sha256 k))"
  using redis_pipeD [OF assms(1) assms(4) [unfolded create_tenant_def Let_def]] assms(2,3)
  by (simp add: redis_frames redis_string_ok_def split: option.split)

lemma resolve_keeps_no_grant:
  assumes "fetch_by_hash R C hash r = Inr None \<or> (\<exists>e. fetch_by_hash R C hash r = Inl e)"
    and "no_grant_after since hash cache"
  shows "no_grant_after since hash (snd (resolve_api_key R C sha256 now k r cache))"
  using assms by (auto simp: resolve_api_key_def no_grant_after_def cache_put_def Let_def
      split: option.splits prod.splits sum.splits if_splits)

lemma resolve_all_keeps_no_grant:
  assumes "fetch_by_hash R C hash r = Inr None \<or> (\<exists>e. fetch_by_hash R C hash r = Inl e)"
    and "no_grant_after since hash cache"
  shows "no_grant_after since hash (resolve_all R C sha256 r attempts cache)"
  unfolding resolve_all_def using assms(2)
  by (rule fold_keeps) (auto intro: resolve_keeps_no_grant [OF assms(1)])

lemma no_grant_expired:
  assumes "fetch_by_hash R C (hash_api_key sha256 k) r = Inr None \<or>
      (\<exists>e. fetch_by_hash R C (hash_api_key sha256 k) r = Inl e)"
    and "no_grant_after since (hash_api_key sha256 k) cache" "since + CACHE_TTL < now"
  shows "fst (resolve_api_key R C sha256 now k r cache) = None"
  using assms by (auto simp: resolve_api_key_def cache_get_def no_grant_after_def duration_since_def Let_def
      split: option.splits prod.splits if_splits sum.splits)

text \<open>A store, a hash and a codec to try the properties on.\<close>

definition demo_tenant :: tenant where
  "demo_tenant = \<lparr>tn_id = ''t_1'', tn_name = ''Acme'', tn_origins = [], tn_active = True,
     tn_max_rooms = 0, tn_max_peers = 0, tn_email = Some ''A@b.c'', tn_jwt_secret = None\<rparr>"

definition demo_codec :: tenant_codec where
  "demo_codec = \<lparr>ser_tenant = (\<lambda>t. Some (tn_id t)),
     de_tenant = (\<lambda>s. if s = ''t_1'' then Some demo_tenant else None)\<rparr>"

definition demo_sha :: "string \<Rightarrow> u8 list" where
  "demo_sha s = map of_char s"

lemma demo_codec_ok: "codec_ok demo_codec demo_tenant"
  by (simp add: codec_ok_def demo_codec_def demo_tenant_def tenant_json_def)

section \<open>Properties\<close>

text \<open>
  The life of an API key. A tenant that was created under a key is what that key resolves
  to (when it is active) and what its id looks up; after a rotation the old key resolves to
  nothing and the new one to the same tenant, with the cache flushed in between as the
  handlers do. The new key must hash differently from the old one.
\<close>

theorem rotation_moves_tenant_to_new_key:
  assumes "redis_pipe_ok R ex" "redis_frame_ok R ex" "redis_string_ok R ex" "codec_ok C t"
    and "create_tenant R C sha256 t k r = (r1, Inr ())"
    and "rotate_api_key R C sha256 uuid (tn_id t) r1 = (r2, Inr (Some k'))"
    and "hash_api_key sha256 k' \<noteq> hash_api_key sha256 k"
  shows "(fst (resolve_api_key R C sha256 now k r1 (invalidate_all c)) =
           (if tn_active t then Some t else None)) \<and>
    fst (resolve_api_key R C sha256 now k r2 (invalidate_all c)) = None \<and>
    (fst (resolve_api_key R C sha256 now k' r2 (invalidate_all c)) =
           (if tn_active t then Some t else None)) \<and>
    get_tenant_by_id R C (tn_id t) r2 = Inr (Some t)"
proof (rule conjI4)
  note created = create_then_fetch [OF assms(1-5)]
  note rotated = rotate_then_fetch [OF assms(1-4) create_then_index [OF assms(1-3,5)] created(1) assms(6)]
  show "fst (resolve_api_key R C sha256 now k r1 (invalidate_all c)) =
      (if tn_active t then Some t else None)"
    by (simp add: resolve_miss created(1))
  show "fst (resolve_api_key R C sha256 now k r2 (invalidate_all c)) = None"
    by (simp add: resolve_miss rotated(3))
  show "fst (resolve_api_key R C sha256 now k' r2 (invalidate_all c)) =
      (if tn_active t then Some t else None)"
    by (simp add: resolve_miss rotated(2) [OF assms(7)])
  show "get_tenant_by_id R C (tn_id t) r2 = Inr (Some t)"
    by (simp add: get_tenant_by_id_def rotated(4) rotated(2) [OF assms(7)])
qed

theorem rotation_moves_tenant_to_new_key_witness:
  "\<exists>r1 r2. create_tenant mem_api demo_codec demo_sha demo_tenant ''dk_0'' mem_empty = (r1, Inr ()) \<and>
     rotate_api_key mem_api demo_codec demo_sha ''1'' ''t_1'' r1 = (r2, Inr (Some ''dk_1'')) \<and>
     fst (resolve_api_key mem_api demo_codec demo_sha 5 ''dk_0'' r2 (invalidate_all [])) = None \<and>
     fst (resolve_api_key mem_api demo_codec demo_sha 5 ''dk_1'' r2 (invalidate_all [])) = Some demo_tenant"
proof -
  obtain r1 where r1: "create_tenant mem_api demo_codec demo_sha demo_tenant ''dk_0'' mem_empty = (r1, Inr ())"
    by (simp add: create_tenant_def Let_def mem_api_def)
  note fetched = create_then_fetch [OF mem_api_ok(1) mem_frame_ok mem_api_ok(4) demo_codec_ok r1]
  note index = create_then_index [OF mem_api_ok(1) mem_frame_ok mem_api_ok(4) r1]
  have tid: "tn_id demo_tenant = ''t_1''" and act: "tn_active demo_tenant" by (simp_all add: demo_tenant_def)
  obtain r2 where r2: "rotate_api_key mem_api demo_codec demo_sha ''1'' ''t_1'' r1 = (r2, Inr (Some ''dk_1''))"
    using fetched(1) index
    by (simp add: rotate_api_key_def tid Let_def generate_api_key_def) (simp add: mem_api_def)
  have "hash_api_key demo_sha ''dk_1'' \<noteq> hash_api_key demo_sha ''dk_0''"
    using hash_api_key_inj [of demo_sha "''dk_1''" "''dk_0''"] by (auto simp: demo_sha_def)
  from rotation_moves_tenant_to_new_key [OF mem_api_ok(1) mem_frame_ok mem_api_ok(4) demo_codec_ok r1 _ this]
    r1 r2 show ?thesis by (simp add: tid act)
qed

text \<open>
  C33: Revocation takes effect within the cache lifetime even where nobody flushes the cache
  (another server process made the change): from the moment the store has no tenant for a key
  any more, or answers with errors only, every attempt more than thirty seconds later is
  refused, whatever attempts with whatever keys came in between.
\<close>

theorem revoked_key_refused_after_ttl:
  assumes "fetch_by_hash R C (hash_api_key sha256 k) r = Inr None \<or>
      (\<exists>e. fetch_by_hash R C (hash_api_key sha256 k) r = Inl e)"
    and "no_grant_after since (hash_api_key sha256 k) cache"
    and "since + CACHE_TTL < now"
  shows "fst (resolve_api_key R C sha256 now k r (resolve_all R C sha256 r attempts cache)) = None"
  by (rule no_grant_expired [OF assms(1) resolve_all_keeps_no_grant [OF assms(1,2)] assms(3)])

theorem revoked_key_refused_after_ttl_witness:
  "fst (resolve_api_key mem_api demo_codec demo_sha 30000000008 ''dk_0'' mem_empty
     (resolve_all mem_api demo_codec demo_sha mem_empty [(8, ''dk_0''), (9, ''dk_1'')]
       (cache_put 7 (hash_api_key demo_sha ''dk_0'') (Some demo_tenant) []))) = None"
proof (rule revoked_key_refused_after_ttl)
  show "fetch_by_hash mem_api demo_codec (hash_api_key demo_sha ''dk_0'') mem_empty = Inr None \<or>
      (\<exists>e. fetch_by_hash mem_api demo_codec (hash_api_key demo_sha ''dk_0'') mem_empty = Inl e)"
    by (simp add: fetch_by_hash_def mem_api_def mem_empty_def)
  show "no_grant_after 7 (hash_api_key demo_sha ''dk_0'')
      (cache_put 7 (hash_api_key demo_sha ''dk_0'') (Some demo_tenant) [])"
    by (simp add: no_grant_after_def cache_put_def)
qed (simp add: CACHE_TTL_def)

end
