(* ===== verification/Rate_Limiter.thy ===== *)
theory Rate_Limiter
  imports Dendri_Prelude
begin

text \<open>
  \<^verbatim>\<open>src/rate_limiter.rs\<close>: one limiter of the \<^verbatim>\<open>governor\<close> crate per (client, bucket) pair,
  made on first use. The crate's limiter is a parameter: \<open>gov_direct n\<close> is
  \<^verbatim>\<open>RateLimiter::direct(Quota::per_second(n))\<close> and \<open>gov_check\<close> is \<^verbatim>\<open>check()\<close> at an instant,
  with the limiter's new internal state. \<open>gov_burst_ok\<close> is what the crate documents of a
  fresh per-second quota: \<open>n\<close> cells at once, no more.
\<close>

record 'g governor =
  gov_direct :: "u32 \<Rightarrow> 'g"
  gov_check :: "instant \<Rightarrow> 'g \<Rightarrow> bool \<times> 'g"

type_synonym 'g rate_limiter = "(string \<times> string, 'g) dashmap"

definition check_and_consume ::
  "'g governor \<Rightarrow> instant \<Rightarrow> string \<Rightarrow> string \<Rightarrow> u32 \<Rightarrow> 'g rate_limiter \<Rightarrow> bool \<times> 'g rate_limiter" where
  "check_and_consume gov now client_id bucket_type limit rl =
     (let key = (client_id, bucket_type);
          limit_nz = (if limit = 0 then 1 else limit);
          entry = (case dm_get rl key of None \<Rightarrow> gov_direct gov limit_nz | Some g \<Rightarrow> g);
          (allowed, entry') = gov_check gov now entry
      in (allowed, dm_insert key entry' rl))"

definition limiter_remove_client :: "string \<Rightarrow> 'g rate_limiter \<Rightarrow> 'g rate_limiter" where
  "limiter_remove_client client_id rl = dm_retain (\<lambda>(c, _) _. c \<noteq> client_id) rl"

text \<open>A burst of checks at one instant on one limiter, and on the whole table.\<close>

fun gov_burst :: "'g governor \<Rightarrow> instant \<Rightarrow> nat \<Rightarrow> 'g \<Rightarrow> bool list" where
  "gov_burst gov now 0 g = []"
| "gov_burst gov now (Suc n) g =
     (let (ok, g') = gov_check gov now g in ok # gov_burst gov now n g')"

definition gov_burst_ok :: "'g governor \<Rightarrow> bool" where
  "gov_burst_ok gov \<longleftrightarrow>
     (\<forall>now limit n. limit \<noteq> 0 \<longrightarrow>
        gov_burst gov now n (gov_direct gov limit) =
          map (\<lambda>i. i < unat limit) [0..<n])"

text \<open>A sequence of requests \<open>(instant, client, bucket, limit)\<close> and the answers they get.\<close>

type_synonym request = "instant \<times> string \<times> string \<times> u32"

fun request_key :: "request \<Rightarrow> string \<times> string" where
  "request_key (now, c, b, l) = (c, b)"

fun serve :: "'g governor \<Rightarrow> request list \<Rightarrow> 'g rate_limiter \<Rightarrow> (request \<times> bool) list" where
  "serve gov [] rl = []"
| "serve gov ((now, c, b, l) # rs) rl =
     (let (ok, rl') = check_and_consume gov now c b l rl
      in ((now, c, b, l), ok) # serve gov rs rl')"

section \<open>Lemmas\<close>

lemma check_and_consume_same:
  assumes "dm_get rl (c, b) = dm_get rl' (c, b)"
  shows "fst (check_and_consume gov now c b l rl) = fst (check_and_consume gov now c b l rl')"
    and "dm_get (snd (check_and_consume gov now c b l rl)) (c, b) =
         dm_get (snd (check_and_consume gov now c b l rl')) (c, b)"
  using assms by (simp_all add: check_and_consume_def Let_def split: prod.split)

lemma check_and_consume_other:
  "k \<noteq> (c, b) \<Longrightarrow> dm_get (snd (check_and_consume gov now c b l rl)) k = dm_get rl k"
  by (simp add: check_and_consume_def Let_def split: prod.split)

lemma serve_Cons:
  "serve gov ((now, c, b, l) # rs) rl =
     ((now, c, b, l), fst (check_and_consume gov now c b l rl)) #
       serve gov rs (snd (check_and_consume gov now c b l rl))"
  by (simp split: prod.split)

declare serve.simps(2) [simp del]

lemma serve_isolated:
  "dm_get rl k = dm_get rl' k \<Longrightarrow>
     filter (\<lambda>(r, ok). request_key r = k) (serve gov rs rl) =
       serve gov (filter (\<lambda>r. request_key r = k) rs) rl'"
proof (induction rs arbitrary: rl rl')
  case Nil
  then show ?case by simp
next
  case (Cons r rs)
  obtain now c b l where r: "r = (now, c, b, l)" by (cases r) auto
  show ?case
  proof (cases "(c, b) = k")
    case True
    then show ?thesis
      using Cons.prems check_and_consume_same [of rl c b rl' gov now l] Cons.IH
      by (simp add: r serve_Cons)
  next
    case False
    then have "dm_get (snd (check_and_consume gov now c b l rl)) k = dm_get rl' k"
      using Cons.prems by (simp add: check_and_consume_other)
    with False Cons.IH show ?thesis by (simp add: r serve_Cons)
  qed
qed

text \<open>Requests of one key at one instant are a burst on that key's limiter.\<close>

lemma serve_burst:
  assumes "dm_get rl (c, b) = Some g"
    and "\<forall>r \<in> set rs. request_key r = (c, b) \<and> fst r = now"
  shows "map snd (serve gov rs rl) = gov_burst gov now (length rs) g"
  using assms
proof (induction rs arbitrary: rl g)
  case Nil
  then show ?case by simp
next
  case (Cons r rs)
  obtain l where r: "r = (now, c, b, l)" using Cons.prems(2) by (cases r) auto
  obtain ok g' where g': "gov_check gov now g = (ok, g')" by (cases "gov_check gov now g")
  then have step: "check_and_consume gov now c b l rl = (ok, dm_insert (c, b) g' rl)"
    using Cons.prems(1) by (simp add: check_and_consume_def)
  have "map snd (serve gov rs (dm_insert (c, b) g' rl)) = gov_burst gov now (length rs) g'"
    using Cons.prems(2) by (intro Cons.IH) simp_all
  with step g' show ?case by (simp add: r serve_Cons)
qed

lemma serve_burst_fresh:
  assumes "dm_get rl (c, b) = None"
    and "\<forall>r \<in> set rs. r = (now, c, b, limit)"
  shows "map snd (serve gov rs rl) =
    gov_burst gov now (length rs) (gov_direct gov (if limit = 0 then 1 else limit))"
proof -
  let ?g = "gov_direct gov (if limit = 0 then 1 else limit)"
  have "serve gov rs rl = serve gov rs (dm_insert (c, b) ?g rl)"
  proof (cases rs)
    case (Cons r rs')
    then have r: "r = (now, c, b, limit)" using assms(2) by simp
    have "check_and_consume gov now c b limit rl =
        (let (ok, g') = gov_check gov now ?g in (ok, dm_insert (c, b) g' rl))"
      using assms(1) by (simp add: check_and_consume_def Let_def)
    moreover have "check_and_consume gov now c b limit (dm_insert (c, b) ?g rl) =
        (let (ok, g') = gov_check gov now ?g in (ok, dm_insert (c, b) g' (dm_insert (c, b) ?g rl)))"
      by (simp add: check_and_consume_def Let_def)
    moreover have "dm_insert (c, b) g' (dm_insert (c, b) ?g rl) = dm_insert (c, b) g' rl" for g'
      by (simp add: dm_insert_def)
    ultimately have "check_and_consume gov now c b limit rl =
        check_and_consume gov now c b limit (dm_insert (c, b) ?g rl)"
      by simp
    then show ?thesis by (simp add: Cons r serve_Cons)
  qed simp
  moreover have "map snd (serve gov rs (dm_insert (c, b) ?g rl)) = gov_burst gov now (length rs) ?g"
    using assms(2) by (intro serve_burst) auto
  ultimately show ?thesis by simp
qed

section \<open>Properties\<close>

text \<open>
  Rate limits are isolated. In any interleaving of requests from any clients, the answers
  one client gets for one bucket are those it would get if its own requests for that bucket
  were the only ones: nobody can use up another client's quota, and the data bucket does not
  use up the signaling bucket.
\<close>

theorem rate_limits_isolated:
  "filter (\<lambda>(r, ok). request_key r = k) (serve gov rs rl) =
     serve gov (filter (\<lambda>r. request_key r = k) rs) rl"
  by (rule serve_isolated) simp

text \<open>
  Given the documented burst of a fresh limiter, of the requests a client without a
  limiter sends to one bucket at one instant, among any other traffic at any other instants,
  exactly the first \<open>limit\<close> pass (one, when the configured limit is 0).
\<close>

theorem burst_limit_enforced:
  assumes "gov_burst_ok gov" and "dm_get rl (c, b) = None"
    and "\<forall>r \<in> set rs. request_key r = (c, b) \<longrightarrow> r = (now, c, b, limit)"
  shows "map snd (filter (\<lambda>(r, ok). request_key r = (c, b)) (serve gov rs rl)) =
    map (\<lambda>i. i < (if limit = 0 then 1 else unat limit))
      [0..<length (filter (\<lambda>r. request_key r = (c, b)) rs)]"
proof -
  let ?rs = "filter (\<lambda>r. request_key r = (c, b)) rs"
  have "map snd (serve gov ?rs rl) =
      gov_burst gov now (length ?rs) (gov_direct gov (if limit = 0 then 1 else limit))"
    using assms(2,3) by (intro serve_burst_fresh) auto
  with assms(1) show ?thesis
    by (simp add: serve_isolated [OF refl] gov_burst_ok_def)
qed

text \<open>A concrete limiter: the number of cells left, never refilled.\<close>

definition counting_governor :: "nat governor" where
  "counting_governor = \<lparr>gov_direct = unat, gov_check = (\<lambda>now n. (0 < n, n - 1))\<rparr>"

lemma counting_burst: "gov_burst counting_governor now n m = map (\<lambda>i. i < m) [0..<n]"
proof (induction n arbitrary: m)
  case 0
  then show ?case by simp
next
  case (Suc n)
  have "map (\<lambda>i. i < m) [0..<Suc n] = (0 < m) # map (\<lambda>i. Suc i < m) [0..<n]"
    by (simp add: upt_conv_Cons map_Suc_upt [symmetric] del: upt_Suc map_Suc_upt)
  then show ?case using Suc by (auto simp: counting_governor_def)
qed

lemma counting_governor_ok: "gov_burst_ok counting_governor"
proof -
  have "gov_direct counting_governor limit = unat limit" for limit
    by (simp add: counting_governor_def)
  then show ?thesis by (simp add: gov_burst_ok_def counting_burst)
qed

theorem burst_limit_enforced_witness:
  "map snd (filter (\<lambda>(r, ok). request_key r = (''a'', ''data''))
      (serve counting_governor [(0, ''a'', ''data'', 2), (0, ''b'', ''data'', 9), (0, ''a'', ''data'', 2),
         (0, ''a'', ''data'', 2)] [])) = [True, True, False]"
  using burst_limit_enforced [OF counting_governor_ok, of "[]" "''a''" "''data''"
      "[(0, ''a'', ''data'', 2), (0, ''b'', ''data'', 9), (0, ''a'', ''data'', 2), (0, ''a'', ''data'', 2)]" 0 2]
  by (simp add: numeral_3_eq_3)

end
