(* ===== verification/Replay_Buffer.thy ===== *)
theory Replay_Buffer
  imports Dendri_Prelude
begin

text \<open>
  \<^verbatim>\<open>src/replay_buffer.rs\<close>: a bounded buffer of recent messages per key (a client id or a
  stored room key), with a time to live. Each operation takes the instant it runs at.

  The lemmas relate the buffer to an abstract log per key, the list of everything pushed
  since the key was last removed: \<open>replay_since\<close> returns exactly the unexpired messages
  with a larger sequence number among the last \<open>max_size\<close> of the log.
\<close>

record buffered_message =
  bm_seq :: u64
  bm_data :: string
  bm_created_at :: instant

record client_buffer =
  messages :: "buffered_message list"

record replay_buffer =
  buffers :: "(string, client_buffer) dashmap"
  max_size :: usize
  ttl_ms :: u64

definition replay_new :: "usize \<Rightarrow> u64 \<Rightarrow> replay_buffer" where
  "replay_new n ttl = \<lparr>buffers = [], max_size = n, ttl_ms = ttl\<rparr>"

text \<open>The loop that pops expired messages from the front.\<close>

fun evict_front :: "instant \<Rightarrow> duration \<Rightarrow> buffered_message list \<Rightarrow> buffered_message list" where
  "evict_front now ttl [] = []"
| "evict_front now ttl (front # ms) =
     (if ttl \<le> duration_since now (bm_created_at front) then evict_front now ttl ms
      else front # ms)"

text \<open>\<^verbatim>\<open>pop_front\<close> on an empty queue does nothing, as \<open>tl\<close> does.\<close>

definition push :: "instant \<Rightarrow> string \<Rightarrow> u64 \<Rightarrow> string \<Rightarrow> replay_buffer \<Rightarrow> replay_buffer" where
  "push now client_id seq_no data rb =
     (let ttl = duration_from_millis (ttl_ms rb);
          buf = (case dm_get (buffers rb) client_id of
                   None \<Rightarrow> \<lparr>messages = []\<rparr> | Some b \<Rightarrow> b);
          ms = evict_front now ttl (messages buf);
          ms = (if unat (max_size rb) \<le> length ms then tl ms else ms);
          ms = ms @ [\<lparr>bm_seq = seq_no, bm_data = data, bm_created_at = now\<rparr>]
      in rb\<lparr>buffers := dm_insert client_id (buf\<lparr>messages := ms\<rparr>) (buffers rb)\<rparr>)"

definition replay_since :: "instant \<Rightarrow> string \<Rightarrow> u64 \<Rightarrow> replay_buffer \<Rightarrow> string list" where
  "replay_since now client_id since_seq rb =
     (let ttl = duration_from_millis (ttl_ms rb)
      in case dm_get (buffers rb) client_id of
           None \<Rightarrow> []
         | Some entry \<Rightarrow>
             map bm_data (filter (\<lambda>m. since_seq < bm_seq m \<and> duration_since now (bm_created_at m) < ttl)
               (messages entry)))"

definition oldest_seq :: "string \<Rightarrow> replay_buffer \<Rightarrow> u64 option" where
  "oldest_seq client_id rb =
     (case dm_get (buffers rb) client_id of
        None \<Rightarrow> None
      | Some b \<Rightarrow> (case messages b of [] \<Rightarrow> None | front # _ \<Rightarrow> Some (bm_seq front)))"

definition replay_remove_client :: "string \<Rightarrow> replay_buffer \<Rightarrow> replay_buffer" where
  "replay_remove_client client_id rb = rb\<lparr>buffers := dm_remove client_id (buffers rb)\<rparr>"

text \<open>One key of the sweep: evict, and drop the buffer when nothing is left.\<close>

definition evict_key :: "instant \<Rightarrow> string \<Rightarrow> replay_buffer \<Rightarrow> replay_buffer" where
  "evict_key now key rb =
     (case dm_get (buffers rb) key of
        None \<Rightarrow> rb
      | Some buf \<Rightarrow>
          let ms = evict_front now (duration_from_millis (ttl_ms rb)) (messages buf);
              rb' = rb\<lparr>buffers := dm_insert key (buf\<lparr>messages := ms\<rparr>) (buffers rb)\<rparr>
          in if ms = [] then rb'\<lparr>buffers := dm_remove key (buffers rb')\<rparr> else rb')"

definition evict_expired :: "instant \<Rightarrow> replay_buffer \<Rightarrow> replay_buffer" where
  "evict_expired now rb = fold (evict_key now) (dm_keys (buffers rb)) rb"

section \<open>The abstract log\<close>

datatype replay_op = Push string u64 string | Remove string | Evict

type_synonym replay_log = "string \<Rightarrow> buffered_message list"

fun replay_step :: "instant \<times> replay_op \<Rightarrow> replay_buffer \<Rightarrow> replay_buffer" where
  "replay_step (now, Push k s d) rb = push now k s d rb"
| "replay_step (now, Remove k) rb = replay_remove_client k rb"
| "replay_step (now, Evict) rb = evict_expired now rb"

fun log_step :: "instant \<times> replay_op \<Rightarrow> replay_log \<Rightarrow> replay_log" where
  "log_step (now, Push k s d) h =
     h(k := h k @ [\<lparr>bm_seq = s, bm_data = d, bm_created_at = now\<rparr>])"
| "log_step (now, Remove k) h = h(k := [])"
| "log_step (now, Evict) h = h"

definition last_n :: "nat \<Rightarrow> 'a list \<Rightarrow> 'a list" where
  "last_n n xs = drop (length xs - n) xs"

text \<open>The capacity the code really gives: a buffer of size 0 still keeps the newest message.\<close>

definition capacity :: "replay_buffer \<Rightarrow> nat" where
  "capacity rb = max 1 (unat (max_size rb))"

definition buffer_of :: "replay_buffer \<Rightarrow> string \<Rightarrow> buffered_message list" where
  "buffer_of rb k = (case dm_get (buffers rb) k of None \<Rightarrow> [] | Some b \<Rightarrow> messages b)"

definition expired :: "instant \<Rightarrow> duration \<Rightarrow> buffered_message \<Rightarrow> bool" where
  "expired now ttl m = (ttl \<le> duration_since now (bm_created_at m))"

definition replay_ttl :: "replay_buffer \<Rightarrow> duration" where
  "replay_ttl rb = duration_from_millis (ttl_ms rb)"

definition unexpired_after ::
  "instant \<Rightarrow> duration \<Rightarrow> u64 \<Rightarrow> buffered_message list \<Rightarrow> string list" where
  "unexpired_after now ttl since ms =
     map bm_data (filter (\<lambda>m. since < bm_seq m \<and> \<not> expired now ttl m) ms)"

text \<open>
  The simulation relation at an instant: the buffer of every key is what is left of the last
  \<open>capacity\<close> log entries after dropping a prefix of expired ones.
\<close>

definition refines_log :: "instant \<Rightarrow> replay_buffer \<Rightarrow> replay_log \<Rightarrow> bool" where
  "refines_log now rb h \<longleftrightarrow>
     (\<forall>k. \<exists>gone. last_n (capacity rb) (h k) = gone @ buffer_of rb k \<and>
            (\<forall>m \<in> set gone. expired now (replay_ttl rb) m))"

section \<open>Lemmas\<close>

lemma evict_front_dropWhile: "evict_front now ttl ms = dropWhile (expired now ttl) ms"
  by (induction ms) (simp_all add: expired_def)

lemma expired_mono: "expired now ttl m \<Longrightarrow> now \<le> now' \<Longrightarrow> expired now' ttl m"
  by (simp add: expired_def duration_since_def)

lemma length_last_n: "length (last_n n xs) = min n (length xs)"
  by (simp add: last_n_def)

lemma last_n_snoc:
  assumes "0 < n"
  shows "last_n n (xs @ [x]) = (if length (last_n n xs) = n then tl (last_n n xs) else last_n n xs) @ [x]"
proof (cases "n \<le> length xs")
  case True
  with assms have "length xs + 1 - n = Suc (length xs - n)" by simp
  with True assms show ?thesis
    by (simp add: last_n_def drop_Suc drop_tl)
next
  case False
  then show ?thesis by (simp add: last_n_def)
qed

lemma replay_frame [simp]:
  "max_size (push now k s d rb) = max_size rb" "ttl_ms (push now k s d rb) = ttl_ms rb"
  "max_size (replay_remove_client k rb) = max_size rb" "ttl_ms (replay_remove_client k rb) = ttl_ms rb"
  "max_size (evict_key now k rb) = max_size rb" "ttl_ms (evict_key now k rb) = ttl_ms rb"
  by (simp_all add: push_def replay_remove_client_def evict_key_def Let_def split: option.split)

lemma evict_expired_frame [simp]:
  "max_size (evict_expired now rb) = max_size rb" "ttl_ms (evict_expired now rb) = ttl_ms rb"
  unfolding evict_expired_def by (rule fold_frame, simp)+

lemma buffer_of_push:
  "buffer_of (push now k s d rb) j =
     (if j = k
      then (let ms = evict_front now (replay_ttl rb) (buffer_of rb k)
            in (if unat (max_size rb) \<le> length ms then tl ms else ms)
                 @ [\<lparr>bm_seq = s, bm_data = d, bm_created_at = now\<rparr>])
      else buffer_of rb j)"
  by (simp add: push_def buffer_of_def replay_ttl_def Let_def split: option.split)

lemma buffer_of_remove: "buffer_of (replay_remove_client k rb) j = (if j = k then [] else buffer_of rb j)"
  by (simp add: replay_remove_client_def buffer_of_def)

lemma buffer_of_evict_key:
  "buffer_of (evict_key now k rb) j =
     (if j = k then evict_front now (replay_ttl rb) (buffer_of rb k) else buffer_of rb j)"
  by (simp add: evict_key_def buffer_of_def replay_ttl_def Let_def split: option.split)

lemma evict_front_idem: "evict_front now ttl (evict_front now ttl ms) = evict_front now ttl ms"
  by (induction ms) simp_all

lemma buffer_of_evict_keys:
  "buffer_of (fold (evict_key now) ks rb) j =
     (if j \<in> set ks then evict_front now (replay_ttl rb) (buffer_of rb j) else buffer_of rb j)"
proof (induction ks arbitrary: rb)
  case Nil
  then show ?case by simp
next
  case (Cons k ks)
  have "replay_ttl (evict_key now k rb) = replay_ttl rb"
    by (simp add: replay_ttl_def)
  with Cons.IH [of "evict_key now k rb"] show ?case
    by (auto simp: buffer_of_evict_key evict_front_idem)
qed

lemma buffer_of_evict_expired:
  "buffer_of (evict_expired now rb) j = evict_front now (replay_ttl rb) (buffer_of rb j)"
proof (cases "j \<in> set (dm_keys (buffers rb))")
  case True
  then show ?thesis by (simp add: evict_expired_def buffer_of_evict_keys)
next
  case False
  then have "buffer_of rb j = []"
    by (simp add: set_dm_keys buffer_of_def split: option.split)
  with False show ?thesis by (simp add: evict_expired_def buffer_of_evict_keys)
qed

lemma replay_since_buffer_of:
  "replay_since now k since rb = unexpired_after now (replay_ttl rb) since (buffer_of rb k)"
  by (simp add: replay_since_def unexpired_after_def buffer_of_def replay_ttl_def expired_def
      not_le split: option.split)

lemma oldest_seq_buffer_of:
  "oldest_seq k rb = (case buffer_of rb k of [] \<Rightarrow> None | m # _ \<Rightarrow> Some (bm_seq m))"
  by (simp add: oldest_seq_def buffer_of_def split: option.split)

lemma unexpired_after_append:
  "\<forall>m \<in> set gone. expired now ttl m \<Longrightarrow>
     unexpired_after now ttl since (gone @ ms) = unexpired_after now ttl since ms"
  by (simp add: unexpired_after_def filter_empty_conv)

subsection \<open>Each operation keeps the relation\<close>

lemma refines_log_new: "refines_log now (replay_new n ttl) (\<lambda>_. [])"
  by (simp add: refines_log_def last_n_def buffer_of_def replay_new_def)

lemma refines_log_later:
  "refines_log now rb h \<Longrightarrow> now \<le> now' \<Longrightarrow> refines_log now' rb h"
  unfolding refines_log_def by (meson expired_mono)

lemma refines_log_evict_front:
  assumes "last_n c xs = gone @ ms" and "\<forall>m \<in> set gone. expired now ttl m"
  shows "\<exists>gone'. last_n c xs = gone' @ evict_front now ttl ms \<and> (\<forall>m \<in> set gone'. expired now ttl m)"
proof -
  have "ms = takeWhile (expired now ttl) ms @ evict_front now ttl ms"
    by (simp add: evict_front_dropWhile)
  with assms(1) have "last_n c xs = (gone @ takeWhile (expired now ttl) ms) @ evict_front now ttl ms"
    by simp
  moreover have "\<forall>m \<in> set (gone @ takeWhile (expired now ttl) ms). expired now ttl m"
    using assms(2) by (auto dest: set_takeWhileD)
  ultimately show ?thesis by blast
qed

text \<open>Appending to a suffix of the log's last entries, with the code's capacity test.\<close>

lemma last_n_push:
  assumes log: "last_n (max 1 n) xs = gone @ ms" and gone: "\<forall>m \<in> set gone. P m"
  shows "\<exists>gone'. last_n (max 1 n) (xs @ [x]) = gone' @ (if n \<le> length ms then tl ms else ms) @ [x] \<and>
     (\<forall>m \<in> set gone'. P m)"
proof -
  let ?c = "max 1 n"
  have snoc: "last_n ?c (xs @ [x]) =
      (if length (gone @ ms) = ?c then tl (gone @ ms) else gone @ ms) @ [x]"
    using last_n_snoc [of ?c xs x] log by simp
  have len: "length (gone @ ms) \<le> ?c"
    using length_last_n [of ?c xs] log by simp
  show ?thesis
  proof (cases gone)
    case Nil
    with snoc len show ?thesis by (intro exI [of _ "[]"]) (cases ms, auto)
  next
    case (Cons g gs)
    with len have "length ms < ?c" by simp
    then have "\<not> n \<le> length ms \<or> ms = []" by (cases ms) auto
    with snoc Cons gone show ?thesis
      by (intro exI [of _ "if length (gone @ ms) = ?c then gs else gone"]) auto
  qed
qed

lemma refines_log_push:
  assumes "refines_log now rb h"
  shows "refines_log now (push now k s d rb) (log_step (now, Push k s d) h)"
  unfolding refines_log_def
proof
  fix j
  let ?x = "\<lparr>bm_seq = s, bm_data = d, bm_created_at = now\<rparr>"
  let ?ms = "evict_front now (replay_ttl rb) (buffer_of rb k)"
  have same: "capacity (push now k s d rb) = capacity rb" "replay_ttl (push now k s d rb) = replay_ttl rb"
    by (simp_all add: capacity_def replay_ttl_def)
  obtain gone where "last_n (capacity rb) (h k) = gone @ ?ms" "\<forall>m \<in> set gone. expired now (replay_ttl rb) m"
    using assms refines_log_evict_front unfolding refines_log_def by meson
  then obtain gone' where "last_n (capacity rb) (h k @ [?x]) =
        gone' @ (if unat (max_size rb) \<le> length ?ms then tl ?ms else ?ms) @ [?x]"
      "\<forall>m \<in> set gone'. expired now (replay_ttl rb) m"
    unfolding capacity_def using last_n_push by (metis (no_types, lifting))
  with assms show "\<exists>gone. last_n (capacity (push now k s d rb)) (log_step (now, Push k s d) h j) =
      gone @ buffer_of (push now k s d rb) j \<and>
      (\<forall>m \<in> set gone. expired now (replay_ttl (push now k s d rb)) m)"
    unfolding same refines_log_def by (auto simp: buffer_of_push Let_def)
qed

lemma refines_log_remove:
  "refines_log now rb h \<Longrightarrow> refines_log now (replay_remove_client k rb) (h(k := []))"
  by (auto simp: refines_log_def buffer_of_remove capacity_def replay_ttl_def last_n_def)

lemma refines_log_evict:
  assumes "refines_log now rb h"
  shows "refines_log now (evict_expired now rb) h"
proof -
  have same: "capacity (evict_expired now rb) = capacity rb" "replay_ttl (evict_expired now rb) = replay_ttl rb"
    by (simp_all add: capacity_def replay_ttl_def)
  show ?thesis
    using assms refines_log_evict_front
    unfolding refines_log_def same buffer_of_evict_expired by meson
qed

lemma refines_log_step:
  assumes "refines_log t0 rb h" and "t0 \<le> fst op"
  shows "refines_log (fst op) (replay_step op rb) (log_step op h)"
proof -
  obtain now a where op: "op = (now, a)" by (cases op)
  have "refines_log now rb h" using assms op refines_log_later by auto
  then show ?thesis
    unfolding op
    by (cases a) (simp_all add: refines_log_push refines_log_remove refines_log_evict del: log_step.simps(1))
qed

lemma refines_log_run:
  "refines_log t0 rb h \<Longrightarrow> sorted (map fst ops) \<Longrightarrow> \<forall>op \<in> set ops. t0 \<le> fst op \<Longrightarrow>
     refines_log (if ops = [] then t0 else fst (last ops)) (fold replay_step ops rb) (fold log_step ops h)"
proof (induction ops arbitrary: rb h t0)
  case Nil
  then show ?case by simp
next
  case (Cons op ops)
  have "refines_log (fst op) (replay_step op rb) (log_step op h)"
    using Cons.prems by (simp add: refines_log_step)
  with Cons.prems have "refines_log (if ops = [] then fst op else fst (last ops))
      (fold replay_step ops (replay_step op rb)) (fold log_step ops (log_step op h))"
    by (intro Cons.IH) simp_all
  then show ?case by (cases "ops = []") simp_all
qed

lemma replay_step_config [simp]:
  "max_size (replay_step op rb) = max_size rb" "ttl_ms (replay_step op rb) = ttl_ms rb"
  by (induction op rb rule: replay_step.induct) simp_all

lemma replay_run_config [simp]:
  "max_size (fold replay_step ops rb) = max_size rb" "ttl_ms (fold replay_step ops rb) = ttl_ms rb"
  by (rule fold_frame, simp)+

lemma refines_log_replay:
  assumes "refines_log now rb h" and "now \<le> now'"
  shows "replay_since now' k since rb =
    unexpired_after now' (replay_ttl rb) since (last_n (capacity rb) (h k))"
proof -
  obtain gone where "last_n (capacity rb) (h k) = gone @ buffer_of rb k"
      "\<forall>m \<in> set gone. expired now' (replay_ttl rb) m"
    using refines_log_later [OF assms] unfolding refines_log_def by meson
  then show ?thesis
    by (simp add: replay_since_buffer_of unexpired_after_append)
qed

subsection \<open>The bound on every buffer\<close>

definition replay_bounded :: "replay_buffer \<Rightarrow> bool" where
  "replay_bounded rb \<longleftrightarrow> (\<forall>k. length (buffer_of rb k) \<le> capacity rb)"

lemma length_evict_front: "length (evict_front now ttl ms) \<le> length ms"
  by (simp add: evict_front_dropWhile length_dropWhile_le)

lemma replay_bounded_step:
  assumes "replay_bounded rb"
  shows "replay_bounded (replay_step op rb)"
proof -
  have len: "length (evict_front now ttl (buffer_of rb k)) \<le> capacity rb" for now ttl k
    using assms length_evict_front order_trans unfolding replay_bounded_def by blast
  obtain now a where op: "op = (now, a)" by (cases op)
  show ?thesis
  proof (cases a)
    case (Push k s d)
    have "length (buffer_of (push now k s d rb) j) \<le> capacity rb" for j
      using assms len [of now "replay_ttl rb" k]
      by (auto simp: replay_bounded_def buffer_of_push Let_def capacity_def)
    with op Push show ?thesis by (simp add: replay_bounded_def capacity_def)
  next
    case (Remove k)
    with op assms show ?thesis by (simp add: replay_bounded_def buffer_of_remove capacity_def)
  next
    case Evict
    with op len show ?thesis by (simp add: replay_bounded_def buffer_of_evict_expired capacity_def)
  qed
qed

interpretation rb: safe_system replay_step replay_bounded
  by unfold_locales (rule replay_bounded_step)

lemma replay_bounded_new: "replay_bounded (replay_new n ttl)"
  by (simp add: replay_bounded_def buffer_of_def replay_new_def)

section \<open>Gaps\<close>

text \<open>The buffer is a suffix of the log.\<close>

lemma refines_log_suffix:
  assumes "refines_log now rb h"
  obtains lost where "h k = lost @ buffer_of rb k"
proof -
  obtain gone where "last_n (capacity rb) (h k) = gone @ buffer_of rb k"
    using assms unfolding refines_log_def by meson
  then have "h k = (take (length (h k) - capacity rb) (h k) @ gone) @ buffer_of rb k"
    by (metis append_assoc append_take_drop_id last_n_def)
  then show ?thesis by (rule that)
qed

lemma log_run_refined:
  assumes "sorted (map fst ops)"
  shows "refines_log (if ops = [] then 0 else fst (last ops))
    (fold replay_step ops (replay_new n ttl)) (fold log_step ops (\<lambda>_. []))"
  using assms refines_log_new by (intro refines_log_run) simp_all

lemma last_le_bound:
  assumes "\<forall>op \<in> set ops. fst op \<le> now"
  shows "(if ops = [] then 0 else fst (last ops)) \<le> (now :: nat)"
  using assms by simp

lemma no_gap_no_loss:
  assumes log: "xs = lost @ buffer_of rb k"
    and seqs: "sorted_wrt (<) (map bm_seq (xs))"
    and oldest: "oldest_seq k rb = Some old" and le: "old \<le> requested"
  shows "unexpired_after now ttl requested (xs) = unexpired_after now ttl requested (buffer_of rb k)"
proof -
  from oldest obtain m ms where buf: "buffer_of rb k = m # ms" and m: "bm_seq m = old"
    by (auto simp: oldest_seq_buffer_of split: list.splits)
  have "bm_seq x < old" if "x \<in> set lost" for x
    using seqs that by (auto simp: log buf m sorted_wrt_append)
  with le have "\<not> requested < bm_seq x" if "x \<in> set lost" for x
    using that by (meson leD order.strict_trans2 less_imp_le)
  then have "filter (\<lambda>x. requested < bm_seq x \<and> \<not> expired now ttl x) lost = []"
    by (simp add: filter_empty_conv)
  then show ?thesis by (simp add: unexpired_after_def log)
qed

section \<open>Properties\<close>

text \<open>
  C17: after any sequence of pushes, removals and expiry sweeps with a clock that does not run
  backwards, replaying a key returns exactly the data of the messages with a larger sequence
  number that have not expired among the last \<open>max_size\<close> pushed since the key was last
  removed, in the order they were pushed.
\<close>

theorem replay_returns_recent_log:
  assumes "sorted (map fst ops)" and "\<forall>op \<in> set ops. fst op \<le> now"
  shows "replay_since now k since (fold replay_step ops (replay_new n ttl)) =
    unexpired_after now (duration_from_millis ttl) since
      (last_n (max 1 (unat n)) (fold log_step ops (\<lambda>_. []) k))"
  using refines_log_replay [OF log_run_refined [OF assms(1)] last_le_bound [OF assms(2)]]
  by (simp add: replay_ttl_def capacity_def replay_new_def)

theorem replay_returns_recent_log_witness:
  "replay_since 9000000 ''c'' 1 (fold replay_step
      [(0, Push ''c'' 1 ''a''), (1000000, Push ''c'' 2 ''b''), (2000000, Evict), (5000000, Push ''c'' 3 ''d'')]
      (replay_new 2 5)) = [''d'']"
proof -
  let ?ops = "[(0, Push ''c'' 1 ''a''), (1000000, Push ''c'' 2 ''b''), (2000000, Evict),
      (5000000 :: nat, Push ''c'' 3 ''d'')]"
  have "replay_since 9000000 ''c'' 1 (fold replay_step ?ops (replay_new 2 5)) =
    unexpired_after 9000000 (duration_from_millis 5) 1
      (last_n (max 1 (unat (2 :: usize))) (fold log_step ?ops (\<lambda>_. []) ''c''))"
    by (rule replay_returns_recent_log) simp_all
  then show ?thesis
    by (simp add: unexpired_after_def last_n_def expired_def duration_since_def duration_from_millis_def)
qed

text \<open>
  No sequence of operations makes a buffer hold more than \<open>max_size\<close> messages (one, when
  \<open>max_size\<close> is 0: the newest message is always kept).
\<close>

theorem replay_buffer_bounded:
  "length (buffer_of (fold replay_step ops (replay_new n ttl)) k) \<le> max 1 (unat n)"
  using rb.run_safe [OF replay_bounded_new, of ops n ttl]
  by (simp add: replay_bounded_def capacity_def replay_new_def)

text \<open>
  C24: gap detection is sound. When the sequence numbers pushed for a key increase and the
  oldest buffered one is at most the number the client asks from, so that no gap is reported,
  the replay misses no unexpired message of the whole log: capacity eviction lost nothing the
  client still needs.
\<close>

theorem no_gap_means_complete_replay:
  assumes "sorted (map fst ops)" and "\<forall>op \<in> set ops. fst op \<le> now"
    and "sorted_wrt (<) (map bm_seq (fold log_step ops (\<lambda>_. []) k))"
    and "oldest_seq k (fold replay_step ops (replay_new n ttl)) = Some old" and "old \<le> requested"
  shows "replay_since now k requested (fold replay_step ops (replay_new n ttl)) =
    unexpired_after now (duration_from_millis ttl) requested (fold log_step ops (\<lambda>_. []) k)"
proof -
  let ?rb = "fold replay_step ops (replay_new n ttl)"
  obtain lost where "fold log_step ops (\<lambda>_. []) k = lost @ buffer_of ?rb k"
    using refines_log_suffix [OF log_run_refined [OF assms(1)]] by metis
  from no_gap_no_loss [OF this assms(3-5)] show ?thesis
    by (simp add: replay_since_buffer_of replay_ttl_def replay_new_def)
qed

theorem no_gap_means_complete_replay_witness:
  "replay_since 3 ''c'' 2 (fold replay_step [(1, Push ''c'' 1 ''a''), (2, Push ''c'' 2 ''b''), (3, Push ''c'' 3 ''d'')]
      (replay_new 2 5)) = [''d'']"
proof -
  let ?ops = "[(1, Push ''c'' 1 ''a''), (2, Push ''c'' 2 ''b''), (3 :: nat, Push ''c'' 3 ''d'')]"
  have "oldest_seq ''c'' (fold replay_step ?ops (replay_new 2 5)) = Some 2"
    by (simp add: oldest_seq_def push_def replay_new_def duration_since_def duration_from_millis_def
        dm_insert_def dm_get_def)
  then have "replay_since 3 ''c'' 2 (fold replay_step ?ops (replay_new 2 5)) =
    unexpired_after 3 (duration_from_millis 5) 2 (fold log_step ?ops (\<lambda>_. []) ''c'')"
    by (intro no_gap_means_complete_replay [where old = 2]) simp_all
  then show ?thesis
    by (simp add: unexpired_after_def expired_def duration_since_def duration_from_millis_def)
qed

end
