(* ===== verification/Webhook.thy ===== *)
theory Webhook
  imports Text_Format "HOL-Library.Sublist"
begin

text \<open>
  \<^verbatim>\<open>src/webhook.rs\<close>: the events, the bounded queue between the signaling path and the
  delivery task, the delivery loop with its retries, and the check of the configured URL.

  Outside the model and parameters: the URL parser of \<^verbatim>\<open>reqwest\<close> (\<open>parse_url\<close>, giving scheme and
  host), the JSON form of an event, the HMAC of the \<^verbatim>\<open>hmac\<close> crate, and whether the endpoint
  answers the n-th attempt.
\<close>

section \<open>Events\<close>

record webhook_event =
  wh_event :: string
  wh_timestamp :: i64
  wh_peer_id :: "string option"
  wh_room :: "string option"
  wh_data :: "(string \<times> string) list option"

definition peer_connected :: "i64 \<Rightarrow> string \<Rightarrow> webhook_event" where
  "peer_connected now peer_id = \<lparr>wh_event = ''peer.connected'', wh_timestamp = now,
     wh_peer_id = Some peer_id, wh_room = None, wh_data = None\<rparr>"

definition peer_disconnected :: "i64 \<Rightarrow> string \<Rightarrow> webhook_event" where
  "peer_disconnected now peer_id = \<lparr>wh_event = ''peer.disconnected'', wh_timestamp = now,
     wh_peer_id = Some peer_id, wh_room = None, wh_data = None\<rparr>"

definition room_joined :: "i64 \<Rightarrow> string \<Rightarrow> string \<Rightarrow> webhook_event" where
  "room_joined now peer_id r = \<lparr>wh_event = ''room.joined'', wh_timestamp = now,
     wh_peer_id = Some peer_id, wh_room = Some r, wh_data = None\<rparr>"

definition room_left :: "i64 \<Rightarrow> string \<Rightarrow> string \<Rightarrow> webhook_event" where
  "room_left now peer_id r = \<lparr>wh_event = ''room.left'', wh_timestamp = now,
     wh_peer_id = Some peer_id, wh_room = Some r, wh_data = None\<rparr>"

definition rate_limited :: "i64 \<Rightarrow> string \<Rightarrow> string \<Rightarrow> webhook_event" where
  "rate_limited now peer_id bucket = \<lparr>wh_event = ''rate.limited'', wh_timestamp = now,
     wh_peer_id = Some peer_id, wh_room = None, wh_data = Some [(''bucket'', bucket)]\<rparr>"

section \<open>The queue\<close>

definition WEBHOOK_QUEUE_CAPACITY :: nat where
  "WEBHOOK_QUEUE_CAPACITY = 1024"

text \<open>
  The channel: waiting events, and whether the delivery task is alive to receive. \<open>wq_sent\<close> is
  what the task has taken out so far, in order.
\<close>

record webhook_sender =
  wq_queue :: "webhook_event list"
  wq_open :: bool
  wq_sent :: "webhook_event list"

definition webhook_new :: webhook_sender where
  "webhook_new = \<lparr>wq_queue = [], wq_open = True, wq_sent = []\<rparr>"

definition emit :: "webhook_event \<Rightarrow> webhook_sender \<Rightarrow> webhook_sender" where
  "emit event w =
     (if \<not> wq_open w then w
      else if WEBHOOK_QUEUE_CAPACITY \<le> length (wq_queue w) then w
      else w\<lparr>wq_queue := wq_queue w @ [event]\<rparr>)"

text \<open>\<^verbatim>\<open>rx.recv()\<close> of the delivery task.\<close>

definition webhook_recv :: "webhook_sender \<Rightarrow> webhook_sender" where
  "webhook_recv w =
     (case wq_queue w of
        [] \<Rightarrow> w
      | event # rest \<Rightarrow> if wq_open w then w\<lparr>wq_queue := rest, wq_sent := wq_sent w @ [event]\<rparr> else w)"

section \<open>Delivery\<close>

definition MAX_RETRIES :: nat where
  "MAX_RETRIES = 3"

text \<open>In seconds.\<close>

definition RETRY_DELAYS :: "nat list" where
  "RETRY_DELAYS = [1, 5, 25]"

record webhook_request =
  rq_headers :: "(string \<times> string) list"
  rq_body :: string

datatype delivery_action = Post webhook_request | Sleep nat

text \<open>\<open>None\<close> where the HMAC cannot be initialised with the secret.\<close>

definition build_request ::
  "(string \<Rightarrow> string \<Rightarrow> u8 list option) \<Rightarrow> string option \<Rightarrow> webhook_event \<Rightarrow> string \<Rightarrow> webhook_request option" where
  "build_request hmac secret event body =
     (let headers = [(''Content-Type'', ''application/json''), (''X-Dendri-Event'', wh_event event)]
      in case secret of
           None \<Rightarrow> Some \<lparr>rq_headers = headers, rq_body = body\<rparr>
         | Some key \<Rightarrow>
             (case hmac key body of
                None \<Rightarrow> None
              | Some mac \<Rightarrow> Some \<lparr>rq_headers = headers @
                  [(''X-Dendri-Signature'', ''sha256='' @ concat (map hex_byte mac))], rq_body = body\<rparr>))"

text \<open>
  The attempts of one event, as the actions they perform and whether an error is left at the
  end. \<open>sent_ok n\<close> tells whether the n-th \<^verbatim>\<open>send()\<close> gets a response.
\<close>

fun deliver_attempts ::
  "(nat \<Rightarrow> bool) \<Rightarrow> webhook_request option \<Rightarrow> nat list \<Rightarrow> bool \<Rightarrow> delivery_action list \<times> bool" where
  "deliver_attempts sent_ok req [] last_error = ([], last_error)"
| "deliver_attempts sent_ok req (attempt # rest) last_error =
     (case req of
        None \<Rightarrow> deliver_attempts sent_ok req rest last_error
      | Some rq \<Rightarrow>
          if sent_ok attempt then ([Post rq], False)
          else
            let (acts, err) = deliver_attempts sent_ok req rest True
            in (Post rq # (if attempt + 1 < MAX_RETRIES then [Sleep (RETRY_DELAYS ! attempt)] else []) @ acts,
                err))"

definition deliver ::
  "(webhook_event \<Rightarrow> string option) \<Rightarrow> (string \<Rightarrow> string \<Rightarrow> u8 list option) \<Rightarrow> string option \<Rightarrow>
     (nat \<Rightarrow> bool) \<Rightarrow> webhook_event \<Rightarrow> delivery_action list \<times> bool" where
  "deliver ser_event hmac secret sent_ok event =
     (let body = (case ser_event event of None \<Rightarrow> [] | Some s \<Rightarrow> s)
      in deliver_attempts sent_ok (build_request hmac secret event body) [0..<MAX_RETRIES] False)"

section \<open>The URL check\<close>

definition BLOCKED_LITERALS :: "string list" where
  "BLOCKED_LITERALS = [''localhost'', ''127.0.0.1'', ''0.0.0.0'', ''169.254.169.254'', ''::1'',
     ''fd00::'', ''fe80::'']"

definition prefix_blocks :: "string list" where
  "prefix_blocks = [''127.'', ''fc00:'', ''fd00:'', ''fe80:'', ''10.'', ''172.16.'', ''192.168.'']"

text \<open>\<^verbatim>\<open>s.split(sep).next()\<close>: the text before the first separator, all of it if there is none.\<close>

definition split_first :: "char \<Rightarrow> string \<Rightarrow> string" where
  "split_first sep s = (case split_once sep s of None \<Rightarrow> s | Some (a, _) \<Rightarrow> a)"

definition is_safe_webhook_url :: "(string \<Rightarrow> (string \<times> string option) option) \<Rightarrow> string \<Rightarrow> bool" where
  "is_safe_webhook_url parse_url url =
     (case parse_url url of
        None \<Rightarrow> False
      | Some (scheme, host_str) \<Rightarrow>
          if scheme \<noteq> ''http'' \<and> scheme \<noteq> ''https'' then False
          else case host_str of
            None \<Rightarrow> False
          | Some host \<Rightarrow>
              if list_ex (eq_ignore_ascii_case host) BLOCKED_LITERALS then False
              else if list_ex (\<lambda>p. length p \<le> length host \<and>
                     eq_ignore_ascii_case (take (length p) host) p) prefix_blocks then False
              else if 7 \<le> length host \<and> starts_with host ''172.'' then
                (case parse_u8 (split_first CHR ''.'' (drop 4 host)) of
                   Some n \<Rightarrow> \<not> (16 \<le> n \<and> n \<le> 31)
                 | None \<Rightarrow> True)
              else True)"

text \<open>The canonical text of an IPv4 address, as the URL parser gives it.\<close>

definition dotted_quad :: "nat \<Rightarrow> nat \<Rightarrow> nat \<Rightarrow> nat \<Rightarrow> string" where
  "dotted_quad a b c d =
     show_nat a @ CHR ''.'' # show_nat b @ CHR ''.'' # show_nat c @ CHR ''.'' # show_nat d"

section \<open>Lemmas\<close>

lemma separator_prefix:
  "s \<notin> set a \<Longrightarrow> s \<notin> set b \<Longrightarrow> starts_with (a @ s # xs) (b @ s # ys) \<longleftrightarrow> a = b \<and> starts_with xs ys"
proof (induction a arbitrary: b)
  case Nil
  then show ?case by (cases b) (auto simp: starts_with_def)
next
  case (Cons c a)
  then show ?case by (cases b) (auto simp: starts_with_def)
qed

lemma show_nat_digit: "c \<in> set (show_nat n) \<Longrightarrow> digit_value c \<noteq> None"
proof (induction n rule: show_nat.induct)
  case (1 n)
  then show ?case
    by (subst (asm) (2) show_nat.simps) (auto simp: digit_value_digit_char split: if_splits)
qed

lemma dot_not_digit [simp]: "CHR ''.'' \<notin> set (show_nat n)"
  using show_nat_digit [of "CHR ''.''" n] by (auto simp: digit_value_def)

lemma digit_lowercase: "digit_value c \<noteq> None \<Longrightarrow> to_ascii_lowercase_char c = c"
  by (auto simp: digit_value_def to_ascii_lowercase_char_def Let_def split: if_splits)

lemma lowercase_show_nat: "map to_ascii_lowercase_char (show_nat n) = show_nat n"
  using show_nat_digit digit_lowercase by (simp add: map_idI)

lemma lowercase_quad [simp]: "to_ascii_lowercase (dotted_quad a b c d) = dotted_quad a b c d"
  by (simp add: to_ascii_lowercase_def dotted_quad_def lowercase_show_nat) (simp add: to_ascii_lowercase_char_def)

lemma quad_inj: "dotted_quad a b c d = dotted_quad a' b' c' d' \<longleftrightarrow> a = a' \<and> b = b' \<and> c = c' \<and> d = d'"
proof
  assume eq: "dotted_quad a b c d = dotted_quad a' b' c' d'"
  have split: "split_once CHR ''.'' (show_nat m @ CHR ''.'' # s) = Some (show_nat m, s)" for m s
    by (rule split_once_append) simp
  from arg_cong [OF eq, of "split_once CHR ''.''"] have 1: "show_nat a = show_nat a'"
    and 2: "show_nat b @ CHR ''.'' # show_nat c @ CHR ''.'' # show_nat d =
        show_nat b' @ CHR ''.'' # show_nat c' @ CHR ''.'' # show_nat d'"
    by (simp_all add: dotted_quad_def split)
  from arg_cong [OF 2, of "split_once CHR ''.''"] have 3: "show_nat b = show_nat b'"
    and 4: "show_nat c @ CHR ''.'' # show_nat d = show_nat c' @ CHR ''.'' # show_nat d'"
    by (simp_all add: split)
  from arg_cong [OF 4, of "split_once CHR ''.''"] have 5: "show_nat c = show_nat c'" "show_nat d = show_nat d'"
    by (simp_all add: split)
  with 1 3 show "a = a' \<and> b = b' \<and> c = c' \<and> d = d'" by (auto dest: show_nat_inj)
qed simp

lemma quad_prefix1: "starts_with (dotted_quad a b c d) (show_nat n @ ''.'') \<longleftrightarrow> a = n"
proof -
  have "starts_with (dotted_quad a b c d) (show_nat n @ CHR ''.'' # []) \<longleftrightarrow> show_nat a = show_nat n"
    unfolding dotted_quad_def by (subst separator_prefix) (simp_all add: starts_with_def)
  then show ?thesis by (auto dest: show_nat_inj)
qed

lemma quad_prefix2:
  "starts_with (dotted_quad a b c d) (show_nat n @ ''.'' @ show_nat m @ ''.'') \<longleftrightarrow> a = n \<and> b = m"
proof -
  have "starts_with (dotted_quad a b c d) (show_nat n @ CHR ''.'' # show_nat m @ CHR ''.'' # []) \<longleftrightarrow>
      show_nat a = show_nat n \<and> show_nat b = show_nat m"
    unfolding dotted_quad_def
    by (subst separator_prefix, simp, simp) (subst separator_prefix, simp_all add: starts_with_def)
  then show ?thesis by (auto dest: show_nat_inj)
qed

lemma quad_first_digit: "\<exists>k cs. k < 10 \<and> dotted_quad a b c d = digit_char k # cs"
  using show_nat_hd [of a] by (auto simp: dotted_quad_def)

lemma quad_length: "7 \<le> length (dotted_quad a b c d)"
proof -
  have "0 < length (show_nat n)" for n by simp
  from this [of a] this [of b] this [of c] this [of d] show ?thesis
    unfolding dotted_quad_def length_append length_Cons by linarith
qed

lemma show_nat_literals:
  "show_nat 0 = ''0''" "show_nat 1 = ''1''" "show_nat 10 = ''10''" "show_nat 16 = ''16''"
  "show_nat 127 = ''127''" "show_nat 168 = ''168''" "show_nat 169 = ''169''" "show_nat 172 = ''172''"
  "show_nat (Suc 0) = ''1''" "show_nat 192 = ''192''" "show_nat 254 = ''254''"
  by (simp_all add: show_nat.simps digit_char_def) (code_simp)+

lemma quad_not_Cons:
  assumes "digit_value (to_ascii_lowercase_char x) = None"
  shows "dotted_quad a b c d \<noteq> to_ascii_lowercase (x # s)"
  using quad_first_digit [of a b c d] assms
  by (auto simp: to_ascii_lowercase_def digit_value_digit_char)

lemma quad_literal_blocked:
  "list_ex (eq_ignore_ascii_case (dotted_quad a b c d)) BLOCKED_LITERALS \<longleftrightarrow>
     (a, b, c, d) \<in> {(127, 0, 0, 1), (0, 0, 0, 0), (169, 254, 169, 254)}"
proof -
  have lits: "to_ascii_lowercase ''127.0.0.1'' = dotted_quad 127 0 0 1"
    "to_ascii_lowercase ''0.0.0.0'' = dotted_quad 0 0 0 0"
    "to_ascii_lowercase ''169.254.169.254'' = dotted_quad 169 254 169 254"
    by (simp_all add: dotted_quad_def show_nat_literals to_ascii_lowercase_def to_ascii_lowercase_char_def)
  have others: "dotted_quad a b c d \<noteq> to_ascii_lowercase ''localhost''"
    "dotted_quad a b c d \<noteq> to_ascii_lowercase ''::1''"
    "dotted_quad a b c d \<noteq> to_ascii_lowercase ''fd00::''"
    "dotted_quad a b c d \<noteq> to_ascii_lowercase ''fe80::''"
    by (rule quad_not_Cons, simp add: to_ascii_lowercase_char_def digit_value_def)+
  show ?thesis
    unfolding BLOCKED_LITERALS_def eq_ignore_ascii_case_def list_ex_Nil_iff list_ex_Cons_iff lowercase_quad lits
    using others by (auto simp: quad_inj)
qed

text \<open>On an address text the test of a prefix is a plain prefix test.\<close>

lemma quad_prefix_test:
  assumes "to_ascii_lowercase p = p"
  shows "(length p \<le> length (dotted_quad a b c d) \<and>
      eq_ignore_ascii_case (take (length p) (dotted_quad a b c d)) p) \<longleftrightarrow> starts_with (dotted_quad a b c d) p"
proof -
  have "to_ascii_lowercase (take n (dotted_quad a b c d)) = take n (dotted_quad a b c d)" for n
    using lowercase_quad [of a b c d] by (metis take_map to_ascii_lowercase_def)
  moreover have "starts_with s p \<Longrightarrow> length p \<le> length s" for s
    by (metis length_take min.cobounded1 starts_with_def)
  ultimately show ?thesis
    using assms by (auto simp: eq_ignore_ascii_case_def starts_with_def)
qed

lemma quad_not_hex_prefix:
  assumes "digit_value x = None"
  shows "\<not> starts_with (dotted_quad a b c d) (x # p)"
  using quad_first_digit [of a b c d] assms by (auto simp: starts_with_def digit_value_digit_char)

lemma quad_prefix_blocked:
  "list_ex (\<lambda>p. length p \<le> length (dotted_quad a b c d) \<and>
       eq_ignore_ascii_case (take (length p) (dotted_quad a b c d)) p) prefix_blocks \<longleftrightarrow>
     a = 127 \<or> a = 10 \<or> (a = 172 \<and> b = 16) \<or> (a = 192 \<and> b = 168)"
proof -
  have lower: "list_all (\<lambda>p. to_ascii_lowercase p = p) prefix_blocks"
    by (simp add: prefix_blocks_def to_ascii_lowercase_def to_ascii_lowercase_char_def)
  have "list_ex (\<lambda>p. length p \<le> length (dotted_quad a b c d) \<and>
       eq_ignore_ascii_case (take (length p) (dotted_quad a b c d)) p) prefix_blocks \<longleftrightarrow>
      list_ex (starts_with (dotted_quad a b c d)) prefix_blocks"
    using lower quad_prefix_test unfolding list_ex_iff list_all_iff by blast
  moreover have "starts_with (dotted_quad a b c d) ''127.'' \<longleftrightarrow> a = 127"
    "starts_with (dotted_quad a b c d) ''10.'' \<longleftrightarrow> a = 10"
    "starts_with (dotted_quad a b c d) ''172.16.'' \<longleftrightarrow> a = 172 \<and> b = 16"
    "starts_with (dotted_quad a b c d) ''192.168.'' \<longleftrightarrow> a = 192 \<and> b = 168"
    using quad_prefix1 [of a b c d 127] quad_prefix1 [of a b c d 10]
      quad_prefix2 [of a b c d 172 16] quad_prefix2 [of a b c d 192 168]
    by (simp_all add: show_nat_literals)
  moreover have "\<not> starts_with (dotted_quad a b c d) ''fc00:''" "\<not> starts_with (dotted_quad a b c d) ''fd00:''"
    "\<not> starts_with (dotted_quad a b c d) ''fe80:''"
    by (rule quad_not_hex_prefix, simp add: digit_value_def)+
  ultimately show ?thesis by (auto simp: prefix_blocks_def)
qed

lemma quad_second: "parse_u8 (split_first CHR ''.'' (drop 4 (dotted_quad 172 b c d))) =
    (if b < 256 then Some b else None)"
proof -
  have "drop 4 (dotted_quad 172 b c d) = show_nat b @ CHR ''.'' # show_nat c @ CHR ''.'' # show_nat d"
    by (simp add: dotted_quad_def show_nat_literals)
  then have "split_first CHR ''.'' (drop 4 (dotted_quad 172 b c d)) = show_nat b"
    by (simp add: split_first_def split_once_append)
  moreover obtain k cs where "k < 10" "show_nat b = digit_char k # cs" using show_nat_hd by blast
  ultimately show ?thesis
    using parse_nat_show_nat [of b] by (simp add: parse_u8_def digit_char_not_sign)
qed

lemma emit_cases:
  "emit e w = w \<or> (length (wq_queue w) < 1024 \<and> emit e w = w\<lparr>wq_queue := wq_queue w @ [e]\<rparr>)"
  by (auto simp: emit_def WEBHOOK_QUEUE_CAPACITY_def)

lemma webhook_recv_all: "wq_sent (webhook_recv w) @ wq_queue (webhook_recv w) = wq_sent w @ wq_queue w"
  by (simp add: webhook_recv_def split: list.split)

section \<open>The queue as a system\<close>

text \<open>A step of the queue: a handler emits an event, or the delivery task takes one.\<close>

datatype webhook_action = Emit webhook_event | Recv

fun webhook_step :: "webhook_action \<Rightarrow> webhook_sender \<Rightarrow> webhook_sender" where
  "webhook_step (Emit e) w = emit e w"
| "webhook_step Recv w = webhook_recv w"

definition webhook_emitted :: "webhook_action list \<Rightarrow> webhook_event list" where
  "webhook_emitted = List.map_filter (\<lambda>s. case s of Emit e \<Rightarrow> Some e | Recv \<Rightarrow> None)"

interpretation wq: safe_system webhook_step "\<lambda>w :: webhook_sender. length (wq_queue w) \<le> WEBHOOK_QUEUE_CAPACITY"
proof
  fix w :: webhook_sender and e
  assume "length (wq_queue w) \<le> WEBHOOK_QUEUE_CAPACITY"
  then show "length (wq_queue (webhook_step e w)) \<le> WEBHOOK_QUEUE_CAPACITY"
    by (cases e) (auto simp: emit_def webhook_recv_def split: list.split)
qed

lemma webhook_subseq:
  "subseq (wq_sent w @ wq_queue w) es \<Longrightarrow>
     subseq (wq_sent (fold webhook_step ss w) @ wq_queue (fold webhook_step ss w)) (es @ webhook_emitted ss)"
proof (induction ss arbitrary: w es)
  case Nil
  then show ?case by (simp add: webhook_emitted_def)
next
  case (Cons s ss)
  show ?case
  proof (cases s)
    case (Emit e)
    have "subseq (wq_sent (emit e w) @ wq_queue (emit e w)) (es @ [e])"
    proof (cases "emit e w = w")
      case True
      with Cons.prems show ?thesis by (simp add: subseq_rev_drop_many)
    next
      case False
      with emit_cases [of e w] list_emb_append_mono [OF Cons.prems, of "[e]" "[e]"] show ?thesis by simp
    qed
    from Cons.IH [OF this] Emit show ?thesis by (simp add: webhook_emitted_def)
  next
    case Recv
    from Cons.prems Cons.IH [of "webhook_recv w" es] Recv show ?thesis
      by (simp add: webhook_recv_all webhook_emitted_def)
  qed
qed

section \<open>Properties\<close>

text \<open>
  C34: A webhook URL whose host is an IPv4 address is accepted exactly when its scheme is http
  or https and the address is none of: loopback 127/8, 10/8, 172.16/12, 192.168/16, the
  unspecified address 0.0.0.0, the cloud metadata address 169.254.169.254. The parser's
  answer is the parameter.
\<close>

theorem webhook_ipv4_filter:
  assumes "parse_url url = Some (scheme, Some (dotted_quad a b c d))" "b < 256"
  shows "is_safe_webhook_url parse_url url \<longleftrightarrow>
    (scheme = ''http'' \<or> scheme = ''https'') \<and>
    \<not> (a = 127 \<or> a = 10 \<or> (a = 172 \<and> 16 \<le> b \<and> b \<le> 31) \<or> (a = 192 \<and> b = 168) \<or>
       (a, b, c, d) \<in> {(0, 0, 0, 0), (169, 254, 169, 254)})"
proof -
  have "starts_with (dotted_quad a b c d) ''172.'' \<longleftrightarrow> a = 172"
    using quad_prefix1 [of a b c d 172] by (simp add: show_nat_literals)
  with assms show ?thesis
    unfolding is_safe_webhook_url_def
    by (auto simp: quad_literal_blocked quad_prefix_blocked quad_length quad_second)
qed

theorem webhook_ipv4_filter_witness:
  "\<not> is_safe_webhook_url (\<lambda>u. Some (''http'', Some (dotted_quad 172 20 0 9))) ''http://172.20.0.9/x'' \<and>
   is_safe_webhook_url (\<lambda>u. Some (''http'', Some (dotted_quad 172 32 0 9))) ''http://172.32.0.9/x''"
  using webhook_ipv4_filter [of "\<lambda>u. Some (''http'', Some (dotted_quad 172 20 0 9))" _ "''http''" 172 20 0 9]
    webhook_ipv4_filter [of "\<lambda>u. Some (''http'', Some (dotted_quad 172 32 0 9))" _ "''http''" 172 32 0 9]
  by simp

text \<open>
  No IPv6 host is ever refused. The parser gives an IPv6 host between brackets, and none of
  the blocked texts starts with one, so the loopback, link-local and unique-local entries of the
  two lists (and the metadata address in its IPv6 form) never match.
\<close>

theorem webhook_ipv6_never_refused:
  assumes "parse_url url = Some (scheme, Some (CHR ''['' # rest))" "scheme = ''http'' \<or> scheme = ''https''"
  shows "is_safe_webhook_url parse_url url"
proof -
  have other: "to_ascii_lowercase_char x \<noteq> CHR ''['' \<Longrightarrow> \<not> eq_ignore_ascii_case (CHR ''['' # s) (x # t)" for x s t
    by (auto simp: eq_ignore_ascii_case_def to_ascii_lowercase_def) (simp add: to_ascii_lowercase_char_def)
  have "\<not> list_ex (eq_ignore_ascii_case (CHR ''['' # rest)) BLOCKED_LITERALS"
    unfolding BLOCKED_LITERALS_def by (simp add: other to_ascii_lowercase_char_def)
  moreover have "\<not> list_ex (\<lambda>p. length p \<le> length (CHR ''['' # rest) \<and>
      eq_ignore_ascii_case (take (length p) (CHR ''['' # rest)) p) prefix_blocks"
    unfolding prefix_blocks_def by (simp add: other to_ascii_lowercase_char_def)
  moreover have "\<not> starts_with (CHR ''['' # rest) ''172.''"
    by (simp add: starts_with_def)
  ultimately show ?thesis
    using assms unfolding is_safe_webhook_url_def by (auto simp only: option.case prod.case simp_thms if_False)
qed

theorem webhook_ipv6_never_refused_witness:
  "is_safe_webhook_url (\<lambda>u. Some (''http'', Some ''[::1]'')) ''http://[::1]/x''"
  by (rule webhook_ipv6_never_refused [of _ _ "''http''" "''::1]''"]) simp_all

text \<open>
  The queue never holds more than its capacity, and whatever the interleaving of emitting
  handlers and the delivery task, the events delivered followed by those waiting are the
  emitted events in their order, some dropped: nothing is reordered, duplicated or made up.
\<close>

theorem webhook_queue_bounded_in_order:
  "length (wq_queue (fold webhook_step ss webhook_new)) \<le> WEBHOOK_QUEUE_CAPACITY \<and>
   subseq (wq_sent (fold webhook_step ss webhook_new) @ wq_queue (fold webhook_step ss webhook_new))
     (webhook_emitted ss)"
  using wq.run_safe [of webhook_new ss] webhook_subseq [of webhook_new "[]" ss]
  by (simp add: webhook_new_def)

text \<open>
  Delivery of one event posts the same request until one attempt gets a response, at most
  three times, pausing one and then five seconds in between; an error is left exactly when all
  three failed. The third delay of the table, 25 seconds, is never slept.
\<close>

theorem webhook_retries:
  assumes "build_request hmac secret event (case ser_event event of None \<Rightarrow> [] | Some s \<Rightarrow> s) = Some rq"
  shows "deliver ser_event hmac secret sent_ok event =
    (if sent_ok 0 then ([Post rq], False)
     else if sent_ok 1 then ([Post rq, Sleep 1, Post rq], False)
     else ([Post rq, Sleep 1, Post rq, Sleep 5, Post rq], \<not> sent_ok 2))"
proof -
  have "[0..<MAX_RETRIES] = [0, 1, 2]"
    by (simp add: MAX_RETRIES_def upt_rec)
  with assms show ?thesis
    by (simp add: deliver_def MAX_RETRIES_def RETRY_DELAYS_def)
qed

theorem webhook_retries_witness:
  "deliver (\<lambda>e. Some ''{}'') (\<lambda>k b. Some [171]) (Some ''k'') (\<lambda>n. n = 1) (peer_connected 0 ''a'') =
     (let rq = \<lparr>rq_headers = [(''Content-Type'', ''application/json''), (''X-Dendri-Event'', ''peer.connected''),
        (''X-Dendri-Signature'', ''sha256=ab'')], rq_body = ''{}''\<rparr>
      in ([Post rq, Sleep 1, Post rq], False))"
proof -
  have "hex_byte 171 = ''ab''" by code_simp
  then have "build_request (\<lambda>k b. Some [171]) (Some ''k'') (peer_connected 0 ''a'')
      (case Some ''{}'' of None \<Rightarrow> [] | Some s \<Rightarrow> s) = Some
      \<lparr>rq_headers = [(''Content-Type'', ''application/json''), (''X-Dendri-Event'', ''peer.connected''),
        (''X-Dendri-Signature'', ''sha256=ab'')], rq_body = ''{}''\<rparr>"
    by (simp add: build_request_def peer_connected_def)
  from webhook_retries [where ser_event = "\<lambda>e. Some ''{}''", OF this] show ?thesis by (simp add: Let_def)
qed

end
