(* ===== verification/App_State.thy ===== *)
theory App_State
  imports Message_Model Validation Jwt Tenant Rate_Limiter Replay_Buffer Webhook
begin

text \<open>
  \<^verbatim>\<open>src/config.rs\<close> and \<^verbatim>\<open>src/state.rs\<close>: the configuration, the shared state with one field
  per field of \<^verbatim>\<open>AppState\<close>, client metadata, and the operations on connection slots.

  Two things of the runtime are explicit. \<open>chans\<close> holds the \<^verbatim>\<open>mpsc\<close> channels: a \<^verbatim>\<open>WsSender\<close>
  is a channel number, a channel has the frames sent and not yet taken, and is open until its
  receiver is dropped. \<open>ext\<close> collects the functions of other crates the handlers call, and the
  reading of the two clocks during the step (every clock read of one step gives the same value).
\<close>

section \<open>Configuration\<close>

record config =
  cfg_port :: "16 word"
  cfg_host :: string
  cfg_key :: string
  cfg_key_file :: "string option"
  cfg_path :: string
  cfg_concurrent_limit :: usize
  cfg_alive_timeout :: u64
  cfg_idle_timeout :: u64
  cfg_expire_timeout :: u64
  cfg_allow_discovery :: bool
  cfg_discovery_token :: "string option"
  cfg_cleanup_out_msgs :: u64
  cfg_cors :: "string list"
  cfg_sslkey :: "string option"
  cfg_sslcert :: "string option"
  cfg_enable_relay :: bool
  cfg_max_message_size :: usize
  cfg_rate_limit_signaling :: u32
  cfg_rate_limit_data :: u32
  cfg_turn_secret :: "string option"
  cfg_turn_servers :: "string list"
  cfg_max_room_size :: usize
  cfg_max_rooms_per_client :: usize
  cfg_max_total_rooms :: usize
  cfg_replay_buffer_size :: usize
  cfg_replay_buffer_ttl :: u64
  cfg_session_ttl :: u64
  cfg_jwt_secret :: "string option"
  cfg_admin_token :: "string option"
  cfg_require_api_key :: bool
  cfg_mail_ak_id :: "string option"
  cfg_mail_ak_secret :: "string option"
  cfg_mail_region :: string
  cfg_mail_from :: string
  cfg_dashboard_url :: string
  cfg_website_url :: string
  cfg_webhook_url :: "string option"
  cfg_webhook_secret :: "string option"
  cfg_redis_url :: string
  cfg_strip_ice_candidates :: bool

text \<open>The \<^verbatim>\<open>default_value\<close>s of the command line.\<close>

definition default_config :: config where
  "default_config = \<lparr>cfg_port = 9000, cfg_host = ''::'', cfg_key = ''dendri'', cfg_key_file = None,
     cfg_path = ''/'', cfg_concurrent_limit = 10000, cfg_alive_timeout = 60000,
     cfg_idle_timeout = 900000, cfg_expire_timeout = 5000, cfg_allow_discovery = False,
     cfg_discovery_token = None, cfg_cleanup_out_msgs = 1000, cfg_cors = [], cfg_sslkey = None,
     cfg_sslcert = None, cfg_enable_relay = False, cfg_max_message_size = 65536,
     cfg_rate_limit_signaling = 50, cfg_rate_limit_data = 100, cfg_turn_secret = None,
     cfg_turn_servers = [], cfg_max_room_size = 50, cfg_max_rooms_per_client = 32,
     cfg_max_total_rooms = 10000, cfg_replay_buffer_size = 1000, cfg_replay_buffer_ttl = 300000,
     cfg_session_ttl = 30000, cfg_jwt_secret = None, cfg_admin_token = None,
     cfg_require_api_key = False, cfg_mail_ak_id = None, cfg_mail_ak_secret = None,
     cfg_mail_region = ''ap-southeast-1'', cfg_mail_from = ''noreply@dendri.dev'',
     cfg_dashboard_url = ''https://app.dendri.dev'', cfg_website_url = ''https://dendri.dev'',
     cfg_webhook_url = None, cfg_webhook_secret = None,
     cfg_redis_url = ''redis://127.0.0.1:6379'', cfg_strip_ice_candidates = False\<rparr>"

section \<open>State\<close>

record pending_removal =
  pr_rooms :: "string list"
  pr_disconnected_at :: instant

datatype TransportKind = WebSocket | Sse | Polling

record client_meta =
  cm_token :: string
  cm_last_ping :: i64
  cm_last_message :: i64
  cm_transport :: TransportKind

definition client_meta_new :: "i64 \<Rightarrow> string \<Rightarrow> client_meta" where
  "client_meta_new now token = \<lparr>cm_token = token, cm_last_ping = now, cm_last_message = now,
     cm_transport = WebSocket\<rparr>"

definition client_meta_with_transport :: "i64 \<Rightarrow> string \<Rightarrow> TransportKind \<Rightarrow> client_meta" where
  "client_meta_with_transport now token transport = \<lparr>cm_token = token, cm_last_ping = now,
     cm_last_message = now, cm_transport = transport\<rparr>"

definition touch :: "i64 \<Rightarrow> client_meta \<Rightarrow> client_meta" where
  "touch now meta = meta\<lparr>cm_last_ping := now\<rparr>"

definition record_message :: "i64 \<Rightarrow> client_meta \<Rightarrow> client_meta" where
  "record_message now meta = meta\<lparr>cm_last_message := now\<rparr>"

record channel =
  ch_queue :: "string list"
  ch_open :: bool

text \<open>The credentials the mailer is built with.\<close>

record mailer_cfg =
  ml_ak_id :: string
  ml_ak_secret :: string
  ml_region :: string
  ml_from :: string

record ('r, 'g, 'v) app_state =
  ws_senders :: "(string, nat) dashmap"
  clients :: "(string, client_meta) dashmap"
  redis :: 'r
  config :: config
  rooms :: "(string, string hashset) dashmap"
  client_rooms :: "(string, string hashset) dashmap"
  seq_counter :: u64
  start_time :: instant
  rate_limiter :: "'g rate_limiter"
  replay_buffer :: replay_buffer
  pending_removals :: "(string, pending_removal) dashmap"
  presence :: "(string, (string, string) dashmap) dashmap"
  client_claims :: "(string, 'v) dashmap"
  client_tenants :: "(string, string) dashmap"
  tenant_cache :: tenant_cache
  mailer :: "mailer_cfg option"
  webhook :: "webhook_sender option"
  active_connections :: usize
  polling_receivers :: "(string, nat) dashmap"
  chans :: "nat \<Rightarrow> channel"
  next_chan :: nat

text \<open>The code outside the repository that the handlers call, and the clocks of the step.\<close>

record ('r, 'g, 'v) ext =
  x_redis :: "'r redis_api"
  x_gov :: "'g governor"
  x_json :: "'v json_api"
  x_jwt :: "'v jwt_decoder"
  x_ser :: "message \<Rightarrow> string option"
  x_de :: "string \<Rightarrow> message option"
  x_ser_strings :: "string list \<Rightarrow> string option"
  x_ct_eq :: "string \<Rightarrow> string \<Rightarrow> bool"
  x_sha256 :: "string \<Rightarrow> u8 list"
  x_codec :: tenant_codec
  x_parse_url :: "string \<Rightarrow> (string \<times> string option) option"
  wall :: i64
  mono :: instant

definition app_state_new ::
  "('r, 'g, 'v) ext \<Rightarrow> (string \<Rightarrow> 'r redis_result) \<Rightarrow> config \<Rightarrow> ('r, 'g, 'v) app_state redis_result" where
  "app_state_new X connect cfg =
     (case connect (cfg_redis_url cfg) of
        Inl e \<Rightarrow> Inl e
      | Inr r \<Rightarrow> Inr \<lparr>ws_senders = [], clients = [], redis = r, config = cfg, rooms = [], client_rooms = [],
          seq_counter = 0, start_time = mono X, rate_limiter = [],
          replay_buffer = replay_new (cfg_replay_buffer_size cfg) (cfg_replay_buffer_ttl cfg),
          pending_removals = [], presence = [], client_claims = [], client_tenants = [],
          tenant_cache = [],
          mailer = (case (cfg_mail_ak_id cfg, cfg_mail_ak_secret cfg) of
             (Some kid, Some secret) \<Rightarrow> Some \<lparr>ml_ak_id = kid, ml_ak_secret = secret,
               ml_region = cfg_mail_region cfg, ml_from = cfg_mail_from cfg\<rparr>
           | _ \<Rightarrow> None),
          webhook = (case cfg_webhook_url cfg of
             None \<Rightarrow> None
           | Some url \<Rightarrow> if \<not> is_safe_webhook_url (x_parse_url X) url then None else Some webhook_new),
          active_connections = 0, polling_receivers = [],
          chans = (\<lambda>_. \<lparr>ch_queue = [], ch_open = False\<rparr>), next_chan = 0\<rparr>)"

section \<open>Connection slots\<close>

text \<open>\<^verbatim>\<open>fetch_add\<close> and \<^verbatim>\<open>fetch_sub\<close> wrap. The interleaving of their single operations by
  several threads is in \<open>Connection_Slots\<close>.\<close>

definition try_reserve_connection_slot ::
  "usize \<Rightarrow> ('r, 'g, 'v) app_state \<Rightarrow> bool \<times> ('r, 'g, 'v) app_state" where
  "try_reserve_connection_slot limit st =
     (let prev = active_connections st;
          st = st\<lparr>active_connections := prev + 1\<rparr>
      in if limit \<le> prev then (False, st\<lparr>active_connections := active_connections st - 1\<rparr>)
         else (True, st))"

definition release_connection_slot :: "('r, 'g, 'v) app_state \<Rightarrow> ('r, 'g, 'v) app_state" where
  "release_connection_slot st = st\<lparr>active_connections := active_connections st - 1\<rparr>"

section \<open>Channels\<close>

definition chan_new :: "('r, 'g, 'v) app_state \<Rightarrow> nat \<times> ('r, 'g, 'v) app_state" where
  "chan_new st = (next_chan st,
     st\<lparr>chans := (chans st)(next_chan st := \<lparr>ch_queue = [], ch_open = True\<rparr>), next_chan := Suc (next_chan st)\<rparr>)"

text \<open>\<^verbatim>\<open>tx.send(data)\<close>: whether it is an error, and the state with the frame in the channel.\<close>

definition chan_send :: "nat \<Rightarrow> string \<Rightarrow> ('r, 'g, 'v) app_state \<Rightarrow> bool \<times> ('r, 'g, 'v) app_state" where
  "chan_send tx data st =
     (if ch_open (chans st tx) then
        (False, st\<lparr>chans := (chans st)(tx := (chans st tx)\<lparr>ch_queue := ch_queue (chans st tx) @ [data]\<rparr>)\<rparr>)
      else (True, st))"

text \<open>\<^verbatim>\<open>let _ = tx.send(data)\<close>.\<close>

definition tx_send :: "nat \<Rightarrow> string \<Rightarrow> ('r, 'g, 'v) app_state \<Rightarrow> ('r, 'g, 'v) app_state" where
  "tx_send tx data st = snd (chan_send tx data st)"

text \<open>\<^verbatim>\<open>if let Some(sender) = state.ws_senders.get(id) { let _ = sender.send(data); }\<close>.\<close>

definition send_to :: "string \<Rightarrow> string \<Rightarrow> ('r, 'g, 'v) app_state \<Rightarrow> ('r, 'g, 'v) app_state" where
  "send_to cid data st =
     (case dm_get (ws_senders st) cid of None \<Rightarrow> st | Some tx \<Rightarrow> tx_send tx data st)"

text \<open>One frame to each of a list of clients, and to all of them but one.\<close>

definition send_all :: "string list \<Rightarrow> string \<Rightarrow> ('r, 'g, 'v) app_state \<Rightarrow> ('r, 'g, 'v) app_state" where
  "send_all ids data st = fold (\<lambda>m. send_to m data) ids st"

definition fan_out ::
  "string \<Rightarrow> string list \<Rightarrow> string \<Rightarrow> ('r, 'g, 'v) app_state \<Rightarrow> ('r, 'g, 'v) app_state" where
  "fan_out cid ids data st = fold (\<lambda>m s. if m \<noteq> cid then send_to m data s else s) ids st"

text \<open>The receiver is dropped: the writer task ended.\<close>

definition chan_close :: "nat \<Rightarrow> ('r, 'g, 'v) app_state \<Rightarrow> ('r, 'g, 'v) app_state" where
  "chan_close tx st = st\<lparr>chans := (chans st)(tx := (chans st tx)\<lparr>ch_open := False\<rparr>)\<rparr>"

text \<open>\<^verbatim>\<open>if let Some(ref webhook) = state.webhook { webhook.emit(event); }\<close>.\<close>

definition emit_event :: "webhook_event \<Rightarrow> ('r, 'g, 'v) app_state \<Rightarrow> ('r, 'g, 'v) app_state" where
  "emit_event e st = st\<lparr>webhook := map_option (emit e) (webhook st)\<rparr>"

text \<open>\<^verbatim>\<open>let _ = redis_realm::f(&state.redis, ...).await\<close>.\<close>

definition redis_do :: "('r \<Rightarrow> 'r \<times> 'a) \<Rightarrow> ('r, 'g, 'v) app_state \<Rightarrow> ('r, 'g, 'v) app_state" where
  "redis_do f st = st\<lparr>redis := fst (f (redis st))\<rparr>"

text \<open>
  \<^verbatim>\<open>drain_ws\<close>: the CLOSE frame goes to every client; the loop that follows looks at the number
  of senders left and at the clock every 100 ms. \<open>looks\<close> are the successive readings, \<open>None\<close> is
  a loop that has not returned after them.
\<close>

definition close_frame :: "nat \<Rightarrow> string \<Rightarrow> string" where
  "close_frame code reason =
     ''{\"type\":\"CLOSE\",\"code\":'' @ show_nat code @ '',\"reason\":\"'' @ reason @ ''\"}''"

definition drain_send :: "nat \<Rightarrow> string \<Rightarrow> ('r, 'g, 'v) app_state \<Rightarrow> ('r, 'g, 'v) app_state" where
  "drain_send code reason st =
     fold (\<lambda>cid. send_to cid (close_frame code reason)) (dm_keys (ws_senders st)) st"

fun drain_wait :: "instant \<Rightarrow> (instant \<times> nat) list \<Rightarrow> nat option" where
  "drain_wait deadline [] = None"
| "drain_wait deadline ((now, remaining) # looks) =
     (if remaining = 0 then Some 0
      else if deadline \<le> now then Some remaining
      else drain_wait deadline looks)"

section \<open>Maps of sets\<close>

text \<open>\<^verbatim>\<open>map.entry(k).or_default().insert(v)\<close>.\<close>

definition entry_insert :: "'k \<Rightarrow> 'a \<Rightarrow> ('k, 'a hashset) dashmap \<Rightarrow> ('k, 'a hashset) dashmap" where
  "entry_insert k v m = dm_insert k (hs_insert v (case dm_get m k of None \<Rightarrow> [] | Some s \<Rightarrow> s)) m"

text \<open>The set a key has, empty where there is no entry.\<close>

definition entry_set :: "('k, 'a hashset) dashmap \<Rightarrow> 'k \<Rightarrow> 'a set" where
  "entry_set m k = (case dm_get m k of None \<Rightarrow> {} | Some s \<Rightarrow> set s)"

lemma entry_set_insert [simp]:
  "entry_set (entry_insert k v m) k' = (if k' = k then insert v (entry_set m k) else entry_set m k')"
  by (simp add: entry_set_def entry_insert_def split: option.split)

lemma entry_set_dm_insert [simp]:
  "entry_set (dm_insert k s m) k' = (if k' = k then set s else entry_set m k')"
  by (simp add: entry_set_def)

lemma entry_set_dm_remove [simp]:
  "entry_set (dm_remove k m) k' = (if k' = k then {} else entry_set m k')"
  by (simp add: entry_set_def)

lemma entry_set_Some [simp]: "dm_get m k = Some s \<Longrightarrow> entry_set m k = set s"
  by (simp add: entry_set_def)

lemma entry_set_None [simp]: "dm_get m k = None \<Longrightarrow> entry_set m k = {}"
  by (simp add: entry_set_def)

lemma dm_wf_entry_insert [simp]: "dm_wf m \<Longrightarrow> dm_wf (entry_insert k v m)"
  by (simp add: entry_insert_def)

lemma dm_get_entry_insert:
  "dm_get (entry_insert k v m) k' =
     (if k' = k then Some (hs_insert v (case dm_get m k of None \<Rightarrow> [] | Some s \<Rightarrow> s)) else dm_get m k')"
  by (simp add: entry_insert_def)

section \<open>What the state operations leave alone\<close>

lemma tx_send_frame [simp]:
  "ws_senders (tx_send tx d st) = ws_senders st"
  "clients (tx_send tx d st) = clients st"
  "redis (tx_send tx d st) = redis st"
  "config (tx_send tx d st) = config st"
  "rooms (tx_send tx d st) = rooms st"
  "client_rooms (tx_send tx d st) = client_rooms st"
  "seq_counter (tx_send tx d st) = seq_counter st"
  "start_time (tx_send tx d st) = start_time st"
  "rate_limiter (tx_send tx d st) = rate_limiter st"
  "replay_buffer (tx_send tx d st) = replay_buffer st"
  "pending_removals (tx_send tx d st) = pending_removals st"
  "presence (tx_send tx d st) = presence st"
  "client_claims (tx_send tx d st) = client_claims st"
  "client_tenants (tx_send tx d st) = client_tenants st"
  "tenant_cache (tx_send tx d st) = tenant_cache st"
  "mailer (tx_send tx d st) = mailer st"
  "webhook (tx_send tx d st) = webhook st"
  "active_connections (tx_send tx d st) = active_connections st"
  "polling_receivers (tx_send tx d st) = polling_receivers st"
  "next_chan (tx_send tx d st) = next_chan st"
  by (simp_all add: tx_send_def chan_send_def)

lemma send_to_frame [simp]:
  "ws_senders (send_to c d st) = ws_senders st"
  "clients (send_to c d st) = clients st"
  "redis (send_to c d st) = redis st"
  "config (send_to c d st) = config st"
  "rooms (send_to c d st) = rooms st"
  "client_rooms (send_to c d st) = client_rooms st"
  "seq_counter (send_to c d st) = seq_counter st"
  "start_time (send_to c d st) = start_time st"
  "rate_limiter (send_to c d st) = rate_limiter st"
  "replay_buffer (send_to c d st) = replay_buffer st"
  "pending_removals (send_to c d st) = pending_removals st"
  "presence (send_to c d st) = presence st"
  "client_claims (send_to c d st) = client_claims st"
  "client_tenants (send_to c d st) = client_tenants st"
  "tenant_cache (send_to c d st) = tenant_cache st"
  "mailer (send_to c d st) = mailer st"
  "webhook (send_to c d st) = webhook st"
  "active_connections (send_to c d st) = active_connections st"
  "polling_receivers (send_to c d st) = polling_receivers st"
  "next_chan (send_to c d st) = next_chan st"
  by (simp_all add: send_to_def split: option.split)

lemma chan_close_frame [simp]:
  "ws_senders (chan_close tx st) = ws_senders st"
  "clients (chan_close tx st) = clients st"
  "redis (chan_close tx st) = redis st"
  "config (chan_close tx st) = config st"
  "rooms (chan_close tx st) = rooms st"
  "client_rooms (chan_close tx st) = client_rooms st"
  "seq_counter (chan_close tx st) = seq_counter st"
  "start_time (chan_close tx st) = start_time st"
  "rate_limiter (chan_close tx st) = rate_limiter st"
  "replay_buffer (chan_close tx st) = replay_buffer st"
  "pending_removals (chan_close tx st) = pending_removals st"
  "presence (chan_close tx st) = presence st"
  "client_claims (chan_close tx st) = client_claims st"
  "client_tenants (chan_close tx st) = client_tenants st"
  "tenant_cache (chan_close tx st) = tenant_cache st"
  "mailer (chan_close tx st) = mailer st"
  "webhook (chan_close tx st) = webhook st"
  "active_connections (chan_close tx st) = active_connections st"
  "polling_receivers (chan_close tx st) = polling_receivers st"
  "next_chan (chan_close tx st) = next_chan st"
  by (simp_all add: chan_close_def)

lemma emit_event_frame [simp]:
  "ws_senders (emit_event e st) = ws_senders st"
  "clients (emit_event e st) = clients st"
  "redis (emit_event e st) = redis st"
  "config (emit_event e st) = config st"
  "rooms (emit_event e st) = rooms st"
  "client_rooms (emit_event e st) = client_rooms st"
  "seq_counter (emit_event e st) = seq_counter st"
  "start_time (emit_event e st) = start_time st"
  "rate_limiter (emit_event e st) = rate_limiter st"
  "replay_buffer (emit_event e st) = replay_buffer st"
  "pending_removals (emit_event e st) = pending_removals st"
  "presence (emit_event e st) = presence st"
  "client_claims (emit_event e st) = client_claims st"
  "client_tenants (emit_event e st) = client_tenants st"
  "tenant_cache (emit_event e st) = tenant_cache st"
  "mailer (emit_event e st) = mailer st"
  "active_connections (emit_event e st) = active_connections st"
  "polling_receivers (emit_event e st) = polling_receivers st"
  "chans (emit_event e st) = chans st"
  "next_chan (emit_event e st) = next_chan st"
  by (simp_all add: emit_event_def)

lemma redis_do_frame [simp]:
  "ws_senders (redis_do f st) = ws_senders st"
  "clients (redis_do f st) = clients st"
  "config (redis_do f st) = config st"
  "rooms (redis_do f st) = rooms st"
  "client_rooms (redis_do f st) = client_rooms st"
  "seq_counter (redis_do f st) = seq_counter st"
  "start_time (redis_do f st) = start_time st"
  "rate_limiter (redis_do f st) = rate_limiter st"
  "replay_buffer (redis_do f st) = replay_buffer st"
  "pending_removals (redis_do f st) = pending_removals st"
  "presence (redis_do f st) = presence st"
  "client_claims (redis_do f st) = client_claims st"
  "client_tenants (redis_do f st) = client_tenants st"
  "tenant_cache (redis_do f st) = tenant_cache st"
  "mailer (redis_do f st) = mailer st"
  "webhook (redis_do f st) = webhook st"
  "active_connections (redis_do f st) = active_connections st"
  "polling_receivers (redis_do f st) = polling_receivers st"
  "chans (redis_do f st) = chans st"
  "next_chan (redis_do f st) = next_chan st"
  by (simp_all add: redis_do_def)

lemma release_frame [simp]:
  "ws_senders (release_connection_slot st) = ws_senders st"
  "clients (release_connection_slot st) = clients st"
  "redis (release_connection_slot st) = redis st"
  "config (release_connection_slot st) = config st"
  "rooms (release_connection_slot st) = rooms st"
  "client_rooms (release_connection_slot st) = client_rooms st"
  "seq_counter (release_connection_slot st) = seq_counter st"
  "start_time (release_connection_slot st) = start_time st"
  "rate_limiter (release_connection_slot st) = rate_limiter st"
  "replay_buffer (release_connection_slot st) = replay_buffer st"
  "pending_removals (release_connection_slot st) = pending_removals st"
  "presence (release_connection_slot st) = presence st"
  "client_claims (release_connection_slot st) = client_claims st"
  "client_tenants (release_connection_slot st) = client_tenants st"
  "tenant_cache (release_connection_slot st) = tenant_cache st"
  "mailer (release_connection_slot st) = mailer st"
  "webhook (release_connection_slot st) = webhook st"
  "polling_receivers (release_connection_slot st) = polling_receivers st"
  "chans (release_connection_slot st) = chans st"
  "next_chan (release_connection_slot st) = next_chan st"
  by (simp_all add: release_connection_slot_def)

lemma send_all_frame [simp]:
  "ws_senders (send_all ms d st) = ws_senders st"
  "clients (send_all ms d st) = clients st"
  "redis (send_all ms d st) = redis st"
  "config (send_all ms d st) = config st"
  "rooms (send_all ms d st) = rooms st"
  "client_rooms (send_all ms d st) = client_rooms st"
  "seq_counter (send_all ms d st) = seq_counter st"
  "start_time (send_all ms d st) = start_time st"
  "rate_limiter (send_all ms d st) = rate_limiter st"
  "replay_buffer (send_all ms d st) = replay_buffer st"
  "pending_removals (send_all ms d st) = pending_removals st"
  "presence (send_all ms d st) = presence st"
  "client_claims (send_all ms d st) = client_claims st"
  "client_tenants (send_all ms d st) = client_tenants st"
  "tenant_cache (send_all ms d st) = tenant_cache st"
  "mailer (send_all ms d st) = mailer st"
  "webhook (send_all ms d st) = webhook st"
  "active_connections (send_all ms d st) = active_connections st"
  "polling_receivers (send_all ms d st) = polling_receivers st"
  "next_chan (send_all ms d st) = next_chan st"
  by (simp_all add: send_all_def fold_frame)

lemma fan_out_send_all: "fan_out cid ms d st = send_all (filter (\<lambda>m. m \<noteq> cid) ms) d st"
  unfolding fan_out_def send_all_def by (induction ms arbitrary: st) simp_all

lemma fan_out_frame [simp]:
  "ws_senders (fan_out cid ms d st) = ws_senders st"
  "clients (fan_out cid ms d st) = clients st"
  "redis (fan_out cid ms d st) = redis st"
  "config (fan_out cid ms d st) = config st"
  "rooms (fan_out cid ms d st) = rooms st"
  "client_rooms (fan_out cid ms d st) = client_rooms st"
  "seq_counter (fan_out cid ms d st) = seq_counter st"
  "start_time (fan_out cid ms d st) = start_time st"
  "rate_limiter (fan_out cid ms d st) = rate_limiter st"
  "replay_buffer (fan_out cid ms d st) = replay_buffer st"
  "pending_removals (fan_out cid ms d st) = pending_removals st"
  "presence (fan_out cid ms d st) = presence st"
  "client_claims (fan_out cid ms d st) = client_claims st"
  "client_tenants (fan_out cid ms d st) = client_tenants st"
  "tenant_cache (fan_out cid ms d st) = tenant_cache st"
  "mailer (fan_out cid ms d st) = mailer st"
  "webhook (fan_out cid ms d st) = webhook st"
  "active_connections (fan_out cid ms d st) = active_connections st"
  "polling_receivers (fan_out cid ms d st) = polling_receivers st"
  "next_chan (fan_out cid ms d st) = next_chan st"
  by (simp_all add: fan_out_send_all)

section \<open>What a client receives\<close>

text \<open>The frames waiting in the channel a client is registered with.\<close>

definition inbox :: "('r, 'g, 'v) app_state \<Rightarrow> string \<Rightarrow> string list" where
  "inbox st c = (case dm_get (ws_senders st) c of None \<Rightarrow> [] | Some tx \<Rightarrow> ch_queue (chans st tx))"

text \<open>Its channel exists and the writer is alive.\<close>

definition reachable_client :: "('r, 'g, 'v) app_state \<Rightarrow> string \<Rightarrow> bool" where
  "reachable_client st c = (case dm_get (ws_senders st) c of None \<Rightarrow> False | Some tx \<Rightarrow> ch_open (chans st tx))"

text \<open>No two clients share a channel, and channel numbers are handed out once.\<close>

definition senders_ok :: "('r, 'g, 'v) app_state \<Rightarrow> bool" where
  "senders_ok st \<longleftrightarrow>
     (\<forall>c tx. dm_get (ws_senders st) c = Some tx \<longrightarrow> tx < next_chan st) \<and>
     (\<forall>c c' tx. dm_get (ws_senders st) c = Some tx \<longrightarrow> dm_get (ws_senders st) c' = Some tx \<longrightarrow> c = c')"

lemma senders_okD:
  "senders_ok st \<Longrightarrow> dm_get (ws_senders st) c = Some tx \<Longrightarrow> dm_get (ws_senders st) c' = Some tx \<Longrightarrow> c = c'"
  unfolding senders_ok_def by blast

lemma senders_ok_send [simp]: "senders_ok (send_to c d st) = senders_ok st"
  by (simp add: senders_ok_def)

lemma reachable_send [simp]: "reachable_client (send_to c d st) c' = reachable_client st c'"
  by (auto simp: reachable_client_def send_to_def tx_send_def chan_send_def split: option.split)

lemma inbox_send:
  assumes "senders_ok st"
  shows "inbox (send_to c d st) c' = inbox st c' @ (if c' = c \<and> reachable_client st c then [d] else [])"
proof (cases "dm_get (ws_senders st) c")
  case None
  then show ?thesis by (simp add: send_to_def reachable_client_def)
next
  case (Some tx)
  show ?thesis
  proof (cases "c' = c")
    case True
    with Some show ?thesis
      by (simp add: send_to_def tx_send_def chan_send_def inbox_def reachable_client_def)
  next
    case False
    with senders_okD [OF assms Some, of c'] have "dm_get (ws_senders st) c' \<noteq> Some tx" by auto
    with Some False show ?thesis
      by (cases "dm_get (ws_senders st) c'") (simp_all add: send_to_def tx_send_def chan_send_def inbox_def)
  qed
qed

lemma inbox_send_all:
  assumes "senders_ok st" "distinct ms"
  shows "inbox (send_all ms d st) c = inbox st c @ (if c \<in> set ms \<and> reachable_client st c then [d] else [])"
  using assms
proof (induction ms arbitrary: st)
  case Nil
  then show ?case by (simp add: send_all_def)
next
  case (Cons m ms)
  have "send_all (m # ms) d st = send_all ms d (send_to m d st)" by (simp add: send_all_def)
  with Cons.IH [of "send_to m d st"] Cons.prems inbox_send [OF Cons.prems(1), of m d c] show ?case
    by (cases "c = m") simp_all
qed

lemma reachable_send_all [simp]: "reachable_client (send_all ms d st) c = reachable_client st c"
  by (induction ms arbitrary: st) (simp_all add: send_all_def)

lemma senders_ok_send_all [simp]: "senders_ok (send_all ms d st) = senders_ok st"
  by (simp add: senders_ok_def)

lemma senders_ok_fan_out [simp]: "senders_ok (fan_out c ms d st) = senders_ok st"
  by (simp add: senders_ok_def)

lemma inbox_cong: "ws_senders st = ws_senders st' \<Longrightarrow> chans st = chans st' \<Longrightarrow> inbox st c = inbox st' c"
  by (simp add: inbox_def split: option.split)

text \<open>The frames a client gets do not depend on the rest of the state.\<close>

lemma inbox_updates [simp]:
  "inbox (st\<lparr>rooms := x1\<rparr>) c = inbox st c"
  "inbox (st\<lparr>client_rooms := x1\<rparr>) c = inbox st c"
  "inbox (st\<lparr>presence := x2\<rparr>) c = inbox st c"
  "inbox (st\<lparr>clients := x3\<rparr>) c = inbox st c"
  "inbox (st\<lparr>seq_counter := x4\<rparr>) c = inbox st c"
  "inbox (st\<lparr>replay_buffer := x5\<rparr>) c = inbox st c"
  "inbox (st\<lparr>pending_removals := x6\<rparr>) c = inbox st c"
  "inbox (st\<lparr>active_connections := x7\<rparr>) c = inbox st c"
  "inbox (emit_event e st) c = inbox st c"
  "inbox (redis_do f st) c = inbox st c"
  by (simp_all add: inbox_def split: option.split)

lemma reachable_updates [simp]:
  "reachable_client (st\<lparr>rooms := x1\<rparr>) c = reachable_client st c"
  "reachable_client (st\<lparr>client_rooms := x1\<rparr>) c = reachable_client st c"
  "reachable_client (st\<lparr>presence := x2\<rparr>) c = reachable_client st c"
  "reachable_client (st\<lparr>clients := x3\<rparr>) c = reachable_client st c"
  "reachable_client (st\<lparr>seq_counter := x4\<rparr>) c = reachable_client st c"
  "reachable_client (emit_event e st) c = reachable_client st c"
  "reachable_client (redis_do f st) c = reachable_client st c"
  by (simp_all add: reachable_client_def split: option.split)

lemma senders_ok_updates [simp]:
  "senders_ok (st\<lparr>rooms := x1\<rparr>) = senders_ok st"
  "senders_ok (st\<lparr>client_rooms := x1\<rparr>) = senders_ok st"
  "senders_ok (st\<lparr>presence := x2\<rparr>) = senders_ok st"
  "senders_ok (st\<lparr>clients := x3\<rparr>) = senders_ok st"
  "senders_ok (st\<lparr>seq_counter := x4\<rparr>) = senders_ok st"
  "senders_ok (emit_event e st) = senders_ok st"
  "senders_ok (redis_do f st) = senders_ok st"
  by (simp_all add: senders_ok_def)

section \<open>A concrete environment\<close>

text \<open>
  JSON values as a datatype, the in-memory Redis, a governor that counts, and a server state
  fresh from \<open>app_state_new\<close>, on which the properties of the handlers are tried.
\<close>

datatype demo_json = JStr string | JArr "demo_json list" | JObj "(string \<times> demo_json) list"

definition demo_json_api :: "demo_json json_api" where
  "demo_json_api = \<lparr>v_get = (\<lambda>v k. case v of JObj kvs \<Rightarrow> map_of kvs k | _ \<Rightarrow> None),
     v_as_array = (\<lambda>v. case v of JArr vs \<Rightarrow> Some vs | _ \<Rightarrow> None),
     v_as_str = (\<lambda>v. case v of JStr s \<Rightarrow> Some s | _ \<Rightarrow> None)\<rparr>"

definition demo_ext :: "(mem_redis, nat, demo_json) ext" where
  "demo_ext = \<lparr>x_redis = mem_api, x_gov = counting_governor, x_json = demo_json_api,
     x_jwt = (\<lambda>alg req secret token. if secret = token then Some (JObj [(''rooms'', JArr [JStr ''lobby''])]) else None),
     x_ser = (\<lambda>m. Some (serde_name (msg_type m))),
     x_de = (\<lambda>s. map_option (\<lambda>t. bare_message t None) (from_serde_name s)),
     x_ser_strings = (\<lambda>ss. Some (concat ss)), x_ct_eq = (=), x_sha256 = demo_sha, x_codec = demo_codec,
     x_parse_url = (\<lambda>u. None), wall = 1000, mono = 0\<rparr>"

definition demo_state :: "config \<Rightarrow> (mem_redis, nat, demo_json) app_state" where
  "demo_state cfg = projr (app_state_new demo_ext (\<lambda>_. Inr mem_empty) cfg)"

lemma demo_state_fields [simp]:
  "ws_senders (demo_state cfg) = []" "clients (demo_state cfg) = []" "redis (demo_state cfg) = mem_empty"
  "config (demo_state cfg) = cfg" "rooms (demo_state cfg) = []" "client_rooms (demo_state cfg) = []"
  "seq_counter (demo_state cfg) = 0" "rate_limiter (demo_state cfg) = []"
  "pending_removals (demo_state cfg) = []" "presence (demo_state cfg) = []"
  "client_claims (demo_state cfg) = []" "client_tenants (demo_state cfg) = []"
  "active_connections (demo_state cfg) = 0" "polling_receivers (demo_state cfg) = []"
  "next_chan (demo_state cfg) = 0" "tenant_cache (demo_state cfg) = []"
  "replay_buffer (demo_state cfg) = replay_new (cfg_replay_buffer_size cfg) (cfg_replay_buffer_ttl cfg)"
  by (simp_all add: demo_state_def app_state_new_def)

text \<open>Clients \<open>a\<close> and \<open>b\<close> registered with open channels.\<close>

definition demo_two :: "config \<Rightarrow> (mem_redis, nat, demo_json) app_state" where
  "demo_two cfg = (demo_state cfg)\<lparr>ws_senders := [(''a'', 0), (''b'', 1)],
     clients := [(''a'', client_meta_new 0 ''ta''), (''b'', client_meta_new 0 ''tb'')], active_connections := 2,
     chans := (\<lambda>_. \<lparr>ch_queue = [], ch_open = True\<rparr>), next_chan := 2\<rparr>"

lemma default_config_values [simp]:
  "cfg_session_ttl default_config = 30000" "cfg_max_room_size default_config = 50"
  "cfg_max_rooms_per_client default_config = 32" "cfg_max_total_rooms default_config = 10000"
  "cfg_enable_relay default_config = False" "cfg_alive_timeout default_config = 60000"
  "cfg_idle_timeout default_config = 900000" "cfg_expire_timeout default_config = 5000"
  "cfg_concurrent_limit default_config = 10000" "cfg_require_api_key default_config = False"
  "cfg_jwt_secret default_config = None" "cfg_key default_config = ''dendri''"
  by (simp_all add: default_config_def)

lemma demo_two_config [simp]: "config (demo_two cfg) = cfg"
  by (simp add: demo_two_def)

lemma demo_two_senders:
  "senders_ok (demo_two cfg)" "reachable_client (demo_two cfg) ''a''" "reachable_client (demo_two cfg) ''b''"
  by (auto simp: senders_ok_def reachable_client_def demo_two_def dm_get_def split: if_splits)

end
