(* ===== verification/Rooms.thy ===== *)
theory Rooms
  imports App_State
begin

text \<open>
  The rooms of \<^verbatim>\<open>src/handlers/message.rs\<close>: storage keys with the tenant prefix, joining,
  leaving, presence, removal on disconnect with its grace period, and the sweep of expired
  sessions. The frames are the texts the code builds by hand.
\<close>

section \<open>Storage keys\<close>

definition TENANT_SEP :: char where
  "TENANT_SEP = CHR 0x1F"

definition namespace_room :: "string option \<Rightarrow> string \<Rightarrow> string" where
  "namespace_room tenant_id room_name =
     (case tenant_id of Some t \<Rightarrow> t @ TENANT_SEP # room_name | None \<Rightarrow> room_name)"

definition room_key :: "('r, 'g, 'v) app_state \<Rightarrow> string \<Rightarrow> string \<Rightarrow> string" where
  "room_key st client_id room_name = namespace_room (dm_get (client_tenants st) client_id) room_name"

definition room_display :: "string \<Rightarrow> string" where
  "room_display key = (case split_once TENANT_SEP key of Some (_, name) \<Rightarrow> name | None \<Rightarrow> key)"

section \<open>Frames\<close>

definition make_error_json :: "PeerError \<Rightarrow> string" where
  "make_error_json e = ''{\"type\":\"ERROR\",\"payload\":{\"msg\":\"'' @ peer_error_as_str e @ ''\"}}''"

definition invalid_room_frame :: string where
  "invalid_room_frame = ''{\"type\":\"ERROR\",\"payload\":{\"msg\":\"Invalid room name\"}}''"

definition join_denied_frame :: "string \<Rightarrow> string \<Rightarrow> string" where
  "join_denied_frame room_name reason =
     ''{\"type\":\"ROOM-JOIN-DENIED\",\"room\":\"'' @ room_name @ ''\",\"reason\":\"'' @ reason @ ''\"}''"

definition room_peers_frame :: "('r, 'g, 'v) ext \<Rightarrow> string \<Rightarrow> string list \<Rightarrow> string" where
  "room_peers_frame X room_name members =
     (let peers_json = (case x_ser_strings X members of None \<Rightarrow> ''[]'' | Some s \<Rightarrow> s)
      in ''{\"type\":\"ROOM-PEERS\",\"room\":\"'' @ room_name @ ''\",\"payload\":'' @ peers_json @ ''}'')"

definition presence_frame :: "string \<Rightarrow> string \<Rightarrow> string \<Rightarrow> string" where
  "presence_frame peer room_name value =
     ''{\"type\":\"PRESENCE-UPDATE\",\"src\":\"'' @ peer @ ''\",\"room\":\"'' @ room_name @
       ''\",\"payload\":'' @ value @ ''}''"

text \<open>\<^verbatim>\<open>serde_json::to_string(msg).unwrap_or_default()\<close>.\<close>

definition serialize_relay :: "('r, 'g, 'v) ext \<Rightarrow> message \<Rightarrow> string" where
  "serialize_relay X msg = (case x_ser X msg of None \<Rightarrow> [] | Some s \<Rightarrow> s)"

section \<open>Joining\<close>

text \<open>
  The reason for which a join is denied, in the order of the code's checks; \<open>None\<close> when the
  client may join. The room name is already known to be well-formed.
\<close>

definition join_denial :: "('r, 'g, 'v) ext \<Rightarrow> string \<Rightarrow> string \<Rightarrow> ('r, 'g, 'v) app_state \<Rightarrow> string option" where
  "join_denial X client_id room_name st =
     (let acl_ok = (case dm_get (client_claims st) client_id of
            None \<Rightarrow> True | Some claims \<Rightarrow> room_allowed (x_json X) claims room_name);
          room_stored = room_key st client_id room_name;
          already_member = (case dm_get (client_rooms st) client_id of
            None \<Rightarrow> False | Some rs \<Rightarrow> room_stored \<in> set rs);
          max_per_client = cfg_max_rooms_per_client (config st);
          joined = (case dm_get (client_rooms st) client_id of None \<Rightarrow> 0 | Some rs \<Rightarrow> length rs);
          max_total = cfg_max_total_rooms (config st);
          max_members = cfg_max_room_size (config st)
      in if \<not> acl_ok then Some ''auth_denied''
         else if \<not> already_member \<and> 0 < max_per_client \<and> unat max_per_client \<le> joined
           then Some ''client_room_limit''
         else if \<not> already_member \<and> 0 < max_total \<and> \<not> dm_contains_key (rooms st) room_stored \<and>
                 unat max_total \<le> dm_len (rooms st)
           then Some ''server_room_limit''
         else if 0 < max_members \<and>
                 (case dm_get (rooms st) room_stored of
                    None \<Rightarrow> False | Some members \<Rightarrow> unat max_members \<le> length members)
           then Some ''room_full''
         else None)"

text \<open>Both indexes, as one update.\<close>

definition add_to_room :: "string \<Rightarrow> string \<Rightarrow> ('r, 'g, 'v) app_state \<Rightarrow> ('r, 'g, 'v) app_state" where
  "add_to_room client_id room_stored st =
     st\<lparr>rooms := entry_insert room_stored client_id (rooms st),
        client_rooms := entry_insert client_id room_stored (client_rooms st)\<rparr>"

text \<open>The presence data of the room, one frame per entry, to the joining client.\<close>

definition send_presence ::
  "string \<Rightarrow> string \<Rightarrow> (string, string) dashmap \<Rightarrow> ('r, 'g, 'v) app_state \<Rightarrow> ('r, 'g, 'v) app_state" where
  "send_presence client_id room_name room_presence st =
     fold (\<lambda>e. send_to client_id (presence_frame (fst e) room_name (snd e))) room_presence st"

definition handle_room_join ::
  "('r, 'g, 'v) ext \<Rightarrow> string \<Rightarrow> message \<Rightarrow> ('r, 'g, 'v) app_state \<Rightarrow> ('r, 'g, 'v) app_state" where
  "handle_room_join X client_id msg st =
     (case room msg of
        None \<Rightarrow> st
      | Some room_name \<Rightarrow>
          if \<not> is_valid_identifier room_name then send_to client_id invalid_room_frame st
          else case join_denial X client_id room_name st of
            Some reason \<Rightarrow> send_to client_id (join_denied_frame room_name reason) st
          | None \<Rightarrow>
              let room_stored = room_key st client_id room_name;
                  st = add_to_room client_id room_stored st;
                  members = (case dm_get (rooms st) room_stored of None \<Rightarrow> [] | Some m \<Rightarrow> m);
                  st = send_to client_id (room_peers_frame X room_name members) st;
                  st = (case dm_get (presence st) room_stored of
                     None \<Rightarrow> st
                   | Some room_presence \<Rightarrow> send_presence client_id room_name room_presence st)
              in emit_event (room_joined (wall X) client_id room_name) st)"

section \<open>Presence\<close>

definition store_presence :: "string \<Rightarrow> string \<Rightarrow> string \<Rightarrow> ('r, 'g, 'v) app_state \<Rightarrow> ('r, 'g, 'v) app_state" where
  "store_presence room_stored client_id value st =
     st\<lparr>presence := dm_insert room_stored
          (dm_insert client_id value (case dm_get (presence st) room_stored of None \<Rightarrow> [] | Some p \<Rightarrow> p))
          (presence st)\<rparr>"

definition handle_presence_update ::
  "('r, 'g, 'v) ext \<Rightarrow> string \<Rightarrow> message \<Rightarrow> ('r, 'g, 'v) app_state \<Rightarrow> ('r, 'g, 'v) app_state" where
  "handle_presence_update X client_id msg st =
     (case room msg of
        None \<Rightarrow> st
      | Some room_name \<Rightarrow>
          if \<not> is_valid_identifier room_name then st
          else
            let room_stored = room_key st client_id room_name;
                st = (case payload msg of None \<Rightarrow> st | Some p \<Rightarrow> store_presence room_stored client_id p st);
                data = serialize_relay X msg
            in case dm_get (rooms st) room_stored of
                 None \<Rightarrow> st
               | Some members \<Rightarrow> fan_out client_id members data st)"

section \<open>Leaving\<close>

definition remove_client_from_room ::
  "('r, 'g, 'v) ext \<Rightarrow> string \<Rightarrow> string \<Rightarrow> ('r, 'g, 'v) app_state \<Rightarrow> ('r, 'g, 'v) app_state" where
  "remove_client_from_room X client_id stored_key st =
     (case dm_get (rooms st) stored_key of
        None \<Rightarrow> st
      | Some ms \<Rightarrow>
          let members = hs_remove client_id ms;
              st = st\<lparr>rooms := dm_insert stored_key members (rooms st)\<rparr>;
              st = (case dm_get (presence st) stored_key of
                 None \<Rightarrow> st
               | Some p \<Rightarrow> st\<lparr>presence := dm_insert stored_key (dm_remove client_id p) (presence st)\<rparr>);
              st = (if members = [] then
                  st\<lparr>rooms := dm_remove stored_key (rooms st), presence := dm_remove stored_key (presence st)\<rparr>
                else send_all members (room_peers_frame X (room_display stored_key) members) st)
          in case dm_get (client_rooms st) client_id of
               None \<Rightarrow> st
             | Some rs \<Rightarrow> st\<lparr>client_rooms := dm_insert client_id (hs_remove stored_key rs) (client_rooms st)\<rparr>)"

definition handle_room_leave ::
  "('r, 'g, 'v) ext \<Rightarrow> string \<Rightarrow> message \<Rightarrow> ('r, 'g, 'v) app_state \<Rightarrow> ('r, 'g, 'v) app_state" where
  "handle_room_leave X client_id msg st =
     (case room msg of
        None \<Rightarrow> st
      | Some room_name \<Rightarrow>
          if \<not> is_valid_identifier room_name then st
          else emit_event (room_left (wall X) client_id room_name)
                 (remove_client_from_room X client_id (room_key st client_id room_name) st))"

definition forget_replay :: "string \<Rightarrow> ('r, 'g, 'v) app_state \<Rightarrow> ('r, 'g, 'v) app_state" where
  "forget_replay client_id st = st\<lparr>replay_buffer := replay_remove_client client_id (replay_buffer st)\<rparr>"

definition immediate_remove_from_all_rooms ::
  "('r, 'g, 'v) ext \<Rightarrow> string \<Rightarrow> ('r, 'g, 'v) app_state \<Rightarrow> ('r, 'g, 'v) app_state" where
  "immediate_remove_from_all_rooms X client_id st =
     forget_replay client_id
       (case dm_get (client_rooms st) client_id of
          None \<Rightarrow> st
        | Some rs \<Rightarrow> fold (remove_client_from_room X client_id) rs
                       (st\<lparr>client_rooms := dm_remove client_id (client_rooms st)\<rparr>))"

definition remove_client_from_all_rooms ::
  "('r, 'g, 'v) ext \<Rightarrow> string \<Rightarrow> ('r, 'g, 'v) app_state \<Rightarrow> ('r, 'g, 'v) app_state" where
  "remove_client_from_all_rooms X client_id st =
     (if cfg_session_ttl (config st) = 0 then immediate_remove_from_all_rooms X client_id st
      else forget_replay client_id
        (case dm_get (client_rooms st) client_id of
           None \<Rightarrow> st
         | Some rs \<Rightarrow>
             let st = st\<lparr>client_rooms := dm_remove client_id (client_rooms st)\<rparr>
             in if rs = [] then st
                else st\<lparr>pending_removals := dm_insert client_id
                       \<lparr>pr_rooms = rs, pr_disconnected_at = mono X\<rparr> (pending_removals st)\<rparr>))"

text \<open>One expired session: it leaves the table and the client leaves its rooms.\<close>

definition expire_session ::
  "('r, 'g, 'v) ext \<Rightarrow> string \<Rightarrow> ('r, 'g, 'v) app_state \<Rightarrow> ('r, 'g, 'v) app_state" where
  "expire_session X client_id st =
     (case dm_get (pending_removals st) client_id of
        None \<Rightarrow> st
      | Some pending \<Rightarrow>
          fold (remove_client_from_room X client_id) (pr_rooms pending)
            (st\<lparr>pending_removals := dm_remove client_id (pending_removals st)\<rparr>))"

definition session_expired :: "('r, 'g, 'v) ext \<Rightarrow> config \<Rightarrow> pending_removal \<Rightarrow> bool" where
  "session_expired X cfg pending =
     (duration_from_millis (cfg_session_ttl cfg) \<le> duration_since (mono X) (pr_disconnected_at pending))"

definition cleanup_expired_sessions ::
  "('r, 'g, 'v) ext \<Rightarrow> ('r, 'g, 'v) app_state \<Rightarrow> ('r, 'g, 'v) app_state" where
  "cleanup_expired_sessions X st =
     (if cfg_session_ttl (config st) = 0 then st
      else fold (expire_session X)
             (map fst (filter (\<lambda>(_, pending). session_expired X (config st) pending) (pending_removals st))) st)"

section \<open>Membership\<close>

definition members :: "('r, 'g, 'v) app_state \<Rightarrow> string \<Rightarrow> string set" where
  "members st r = entry_set (rooms st) r"

definition joined :: "('r, 'g, 'v) app_state \<Rightarrow> string \<Rightarrow> string set" where
  "joined st c = entry_set (client_rooms st) c"

text \<open>Rooms a disconnected client is still kept in.\<close>

definition pending :: "('r, 'g, 'v) app_state \<Rightarrow> string \<Rightarrow> string set" where
  "pending st c = (case dm_get (pending_removals st) c of None \<Rightarrow> {} | Some p \<Rightarrow> set (pr_rooms p))"

text \<open>
  The room tables are well-formed, no room is empty, and every room a client is indexed under
  has the client as a member.
\<close>

definition rooms_ok :: "('r, 'g, 'v) app_state \<Rightarrow> bool" where
  "rooms_ok st \<longleftrightarrow>
     dm_wf (rooms st) \<and> dm_wf (client_rooms st) \<and> dm_wf (presence st) \<and> dm_wf (pending_removals st) \<and>
     (\<forall>r ms. dm_get (rooms st) r = Some ms \<longrightarrow> ms \<noteq> [] \<and> distinct ms) \<and>
     (\<forall>c rs. dm_get (client_rooms st) c = Some rs \<longrightarrow> distinct rs) \<and>
     (\<forall>c. \<forall>r \<in> joined st c. c \<in> members st r)"

text \<open>The limits of the configuration, zero meaning none.\<close>

definition within_caps :: "('r, 'g, 'v) app_state \<Rightarrow> bool" where
  "within_caps st \<longleftrightarrow>
     (cfg_max_room_size (config st) \<noteq> 0 \<longrightarrow>
        (\<forall>r. card (members st r) \<le> unat (cfg_max_room_size (config st)))) \<and>
     (cfg_max_rooms_per_client (config st) \<noteq> 0 \<longrightarrow>
        (\<forall>c. card (joined st c) \<le> unat (cfg_max_rooms_per_client (config st)))) \<and>
     (cfg_max_total_rooms (config st) \<noteq> 0 \<longrightarrow>
        dm_len (rooms st) \<le> unat (cfg_max_total_rooms (config st)))"

section \<open>Lemmas\<close>

lemma namespace_room_inj:
  assumes "TENANT_SEP \<notin> set r" "TENANT_SEP \<notin> set r'"
    and "\<forall>x \<in> set_option t. TENANT_SEP \<notin> set x" "\<forall>x \<in> set_option t'. TENANT_SEP \<notin> set x"
  shows "namespace_room t r = namespace_room t' r' \<longleftrightarrow> t = t' \<and> r = r'"
proof
  assume eq: "namespace_room t r = namespace_room t' r'"
  have split: "split_once TENANT_SEP (namespace_room u q) =
      (case u of None \<Rightarrow> None | Some x \<Rightarrow> Some (x, q))"
    if "TENANT_SEP \<notin> set q" "\<forall>x \<in> set_option u. TENANT_SEP \<notin> set x" for u q
    using that by (cases u) (simp_all add: namespace_room_def split_once_append split_once_None_iff)
  from eq split [OF assms(1,3)] split [OF assms(2,4)]
  show "t = t' \<and> r = r'" by (auto simp: namespace_room_def split: option.splits)
qed simp

lemma room_display_namespace:
  "TENANT_SEP \<notin> set r \<Longrightarrow> \<forall>x \<in> set_option t. TENANT_SEP \<notin> set x \<Longrightarrow>
     room_display (namespace_room t r) = r"
  by (cases t) (simp_all add: room_display_def namespace_room_def split_once_append split_once_None_iff [THEN iffD2])

lemma remove_frame [simp]:
  "ws_senders (remove_client_from_room X c k st) = ws_senders st"
  "clients (remove_client_from_room X c k st) = clients st"
  "redis (remove_client_from_room X c k st) = redis st"
  "config (remove_client_from_room X c k st) = config st"
  "seq_counter (remove_client_from_room X c k st) = seq_counter st"
  "start_time (remove_client_from_room X c k st) = start_time st"
  "rate_limiter (remove_client_from_room X c k st) = rate_limiter st"
  "replay_buffer (remove_client_from_room X c k st) = replay_buffer st"
  "pending_removals (remove_client_from_room X c k st) = pending_removals st"
  "client_claims (remove_client_from_room X c k st) = client_claims st"
  "client_tenants (remove_client_from_room X c k st) = client_tenants st"
  "tenant_cache (remove_client_from_room X c k st) = tenant_cache st"
  "mailer (remove_client_from_room X c k st) = mailer st"
  "webhook (remove_client_from_room X c k st) = webhook st"
  "active_connections (remove_client_from_room X c k st) = active_connections st"
  "polling_receivers (remove_client_from_room X c k st) = polling_receivers st"
  "next_chan (remove_client_from_room X c k st) = next_chan st"
  by (simp_all add: remove_client_from_room_def Let_def split: option.split)

lemma rooms_remove:
  "dm_get (rooms (remove_client_from_room X c k st)) r =
     (if r = k then (case dm_get (rooms st) k of
        None \<Rightarrow> None | Some ms \<Rightarrow> if hs_remove c ms = [] then None else Some (hs_remove c ms))
      else dm_get (rooms st) r)"
  by (simp add: remove_client_from_room_def Let_def split: option.split)

lemma client_rooms_remove:
  "dm_get (client_rooms (remove_client_from_room X c k st)) c' =
     (if c' = c \<and> dm_get (rooms st) k \<noteq> None then map_option (hs_remove k) (dm_get (client_rooms st) c)
      else dm_get (client_rooms st) c')"
  by (auto simp: remove_client_from_room_def Let_def split: option.split)

lemma presence_remove:
  "dm_get (rooms st) k = Some ms \<Longrightarrow>
     dm_get (presence (remove_client_from_room X c k st)) r =
       (if r = k then (if hs_remove c ms = [] then None else map_option (dm_remove c) (dm_get (presence st) k))
        else dm_get (presence st) r)"
  by (auto simp: remove_client_from_room_def Let_def split: option.split)

lemma remove_no_room [simp]: "dm_get (rooms st) k = None \<Longrightarrow> remove_client_from_room X c k st = st"
  by (simp add: remove_client_from_room_def)

lemma members_remove:
  "members (remove_client_from_room X c k st) r = (if r = k then members st r - {c} else members st r)"
proof (cases "dm_get (rooms st) k")
  case None
  then show ?thesis by (simp add: members_def)
next
  case (Some ms)
  then show ?thesis
    unfolding members_def entry_set_def rooms_remove by (auto simp: hs_remove_eq_Nil split: option.split)
qed

lemma joined_remove_subset: "joined (remove_client_from_room X c k st) c' \<subseteq> joined st c'"
  by (auto simp: joined_def entry_set_def client_rooms_remove split: option.splits if_splits)

lemma joined_remove:
  "dm_get (rooms st) k \<noteq> None \<Longrightarrow>
     joined (remove_client_from_room X c k st) c' = (if c' = c then joined st c - {k} else joined st c')"
  by (auto simp: joined_def entry_set_def client_rooms_remove split: option.splits)

lemma dm_wf_remove_room:
  assumes "dm_wf (rooms st)" "dm_wf (client_rooms st)" "dm_wf (presence st)"
  shows "dm_wf (rooms (remove_client_from_room X c k st))"
    and "dm_wf (client_rooms (remove_client_from_room X c k st))"
    and "dm_wf (presence (remove_client_from_room X c k st))"
  using assms by (simp_all add: remove_client_from_room_def Let_def split: option.split)

lemma rooms_ok_remove:
  assumes "rooms_ok st"
  shows "rooms_ok (remove_client_from_room X c k st)"
proof (cases "dm_get (rooms st) k")
  case None
  with assms show ?thesis by simp
next
  case (Some ms)
  have wf: "dm_wf (rooms st)" "dm_wf (client_rooms st)" "dm_wf (presence st)" "dm_wf (pending_removals st)"
    and rm: "\<And>r ms. dm_get (rooms st) r = Some ms \<Longrightarrow> ms \<noteq> [] \<and> distinct ms"
    and cr: "\<And>c rs. dm_get (client_rooms st) c = Some rs \<Longrightarrow> distinct rs"
    and ix: "\<And>c r. r \<in> joined st c \<Longrightarrow> c \<in> members st r"
    using assms by (auto simp: rooms_ok_def)
  have "\<forall>c'. \<forall>r \<in> joined (remove_client_from_room X c k st) c'.
      c' \<in> members (remove_client_from_room X c k st) r"
    using ix Some by (auto simp: members_remove joined_remove split: if_splits)
  with wf dm_wf_remove_room [OF wf(1-3), of X c k] rm cr show ?thesis
    by (auto simp: rooms_ok_def rooms_remove client_rooms_remove split: if_splits option.splits)
qed

subsection \<open>Leaving several rooms\<close>

text \<open>
  What a component that removes clients from rooms relies on: one removal takes one client out
  of one room and touches no other membership.
\<close>

locale room_registry =
  fixes mem :: "'s \<Rightarrow> 'room \<Rightarrow> 'c set"
    and leave :: "'c \<Rightarrow> 'room \<Rightarrow> 's \<Rightarrow> 's"
  assumes mem_leave: "mem (leave c k s) r = (if r = k then mem s r - {c} else mem s r)"
begin

lemma mem_leave_all: "mem (fold (leave c) ks s) r = (if r \<in> set ks then mem s r - {c} else mem s r)"
  by (induction ks arbitrary: s) (auto simp: mem_leave)

lemma mem_leave_all_other: "c' \<noteq> c \<Longrightarrow> c' \<in> mem (fold (leave c) ks s) r \<longleftrightarrow> c' \<in> mem s r"
  by (simp add: mem_leave_all)

end

interpretation rr: room_registry members "remove_client_from_room X" for X
  by unfold_locales (rule members_remove)

lemma joined_remove_all_subset: "joined (fold (remove_client_from_room X c) ks st) c' \<subseteq> joined st c'"
proof (induction ks arbitrary: st)
  case Nil
  then show ?case by simp
next
  case (Cons k ks)
  from Cons.IH [of "remove_client_from_room X c k st"] joined_remove_subset [of X c k st c']
  show ?case by simp
qed

lemma rooms_ok_remove_all: "rooms_ok st \<Longrightarrow> rooms_ok (fold (remove_client_from_room X c) ks st)"
  by (rule fold_keeps) (auto intro: rooms_ok_remove)

lemma remove_all_frame [simp]:
  "ws_senders (fold (remove_client_from_room X c) ks st) = ws_senders st"
  "clients (fold (remove_client_from_room X c) ks st) = clients st"
  "redis (fold (remove_client_from_room X c) ks st) = redis st"
  "config (fold (remove_client_from_room X c) ks st) = config st"
  "seq_counter (fold (remove_client_from_room X c) ks st) = seq_counter st"
  "start_time (fold (remove_client_from_room X c) ks st) = start_time st"
  "rate_limiter (fold (remove_client_from_room X c) ks st) = rate_limiter st"
  "pending_removals (fold (remove_client_from_room X c) ks st) = pending_removals st"
  "client_claims (fold (remove_client_from_room X c) ks st) = client_claims st"
  "client_tenants (fold (remove_client_from_room X c) ks st) = client_tenants st"
  "tenant_cache (fold (remove_client_from_room X c) ks st) = tenant_cache st"
  "mailer (fold (remove_client_from_room X c) ks st) = mailer st"
  "webhook (fold (remove_client_from_room X c) ks st) = webhook st"
  "active_connections (fold (remove_client_from_room X c) ks st) = active_connections st"
  "polling_receivers (fold (remove_client_from_room X c) ks st) = polling_receivers st"
  "next_chan (fold (remove_client_from_room X c) ks st) = next_chan st"
  "replay_buffer (fold (remove_client_from_room X c) ks st) = replay_buffer st"
  by (simp_all add: fold_frame)

text \<open>Dropping the index entry of a client, or a pending removal, keeps the tables in order.\<close>

lemma rooms_ok_drop_client: "rooms_ok st \<Longrightarrow> rooms_ok (st\<lparr>client_rooms := dm_remove c (client_rooms st)\<rparr>)"
  by (auto simp: rooms_ok_def joined_def members_def split: if_splits)

lemma rooms_ok_pending [simp]:
  "rooms_ok st \<Longrightarrow> dm_wf p \<Longrightarrow> rooms_ok (st\<lparr>pending_removals := p\<rparr>)"
  by (auto simp: rooms_ok_def joined_def members_def)

lemma rooms_ok_wf: "rooms_ok st \<Longrightarrow> dm_wf (pending_removals st)" "rooms_ok st \<Longrightarrow> dm_wf (rooms st)"
    "rooms_ok st \<Longrightarrow> dm_wf (client_rooms st)"
  by (simp_all add: rooms_ok_def)

lemma rooms_ok_irrelevant [simp]:
  "rooms_ok (st\<lparr>replay_buffer := x\<rparr>) = rooms_ok st"
  "rooms_ok (st\<lparr>seq_counter := x4\<rparr>) = rooms_ok st"
  "rooms_ok (st\<lparr>clients := x3\<rparr>) = rooms_ok st"
  "rooms_ok (st\<lparr>ws_senders := x5\<rparr>) = rooms_ok st"
  "rooms_ok (st\<lparr>client_claims := x6\<rparr>) = rooms_ok st"
  "rooms_ok (st\<lparr>client_tenants := x7\<rparr>) = rooms_ok st"
  "rooms_ok (st\<lparr>rate_limiter := x8\<rparr>) = rooms_ok st"
  "rooms_ok (st\<lparr>active_connections := x9\<rparr>) = rooms_ok st"
  "rooms_ok (st\<lparr>tenant_cache := x10\<rparr>) = rooms_ok st"
  "rooms_ok (st\<lparr>redis := x11\<rparr>) = rooms_ok st"
  "rooms_ok (st\<lparr>chans := x12\<rparr>) = rooms_ok st"
  "rooms_ok (st\<lparr>polling_receivers := x13\<rparr>) = rooms_ok st"
  "rooms_ok (st\<lparr>chans := x12, next_chan := x14\<rparr>) = rooms_ok st"
  "rooms_ok (emit_event e st) = rooms_ok st"
  "rooms_ok (redis_do f st) = rooms_ok st"
  "rooms_ok (release_connection_slot st) = rooms_ok st"
  "rooms_ok (send_to c d st) = rooms_ok st"
  "rooms_ok (send_all ms d st) = rooms_ok st"
  "rooms_ok (fan_out c ms d st) = rooms_ok st"
  "rooms_ok (tx_send tx d st) = rooms_ok st"
  "rooms_ok (chan_close tx st) = rooms_ok st"
  by (simp_all add: rooms_ok_def joined_def members_def)

lemma rooms_ok_disconnect:
  assumes "rooms_ok st"
  shows "rooms_ok (remove_client_from_all_rooms X c st)"
  using assms rooms_ok_drop_client [OF assms, of c] rooms_ok_wf(1) [OF assms]
  by (simp add: remove_client_from_all_rooms_def immediate_remove_from_all_rooms_def forget_replay_def
      Let_def rooms_ok_remove_all split: option.split)

lemma rooms_ok_expire: "rooms_ok st \<Longrightarrow> rooms_ok (expire_session X c st)"
  using rooms_ok_wf(1) [of st]
  by (simp add: expire_session_def rooms_ok_remove_all split: option.split)

lemma rooms_ok_cleanup: "rooms_ok st \<Longrightarrow> rooms_ok (cleanup_expired_sessions X st)"
  unfolding cleanup_expired_sessions_def by (auto intro!: fold_keeps [where P = rooms_ok] rooms_ok_expire)

lemma members_updates [simp]:
  "members (st\<lparr>pending_removals := p\<rparr>) r = members st r"
  "members (st\<lparr>client_rooms := x\<rparr>) r = members st r"
  "members (st\<lparr>replay_buffer := x5\<rparr>) r = members st r"
  "members (st\<lparr>presence := x6\<rparr>) r = members st r"
  by (simp_all add: members_def)

lemma members_expire:
  "members (expire_session X c st) r = members st r - (if r \<in> pending st c then {c} else {})"
  by (auto simp: expire_session_def pending_def rr.mem_leave_all split: option.splits)

lemma pending_expire: "pending (expire_session X c st) c' = (if c' = c then {} else pending st c')"
  by (auto simp: expire_session_def pending_def split: option.splits)

lemma members_expire_all:
  "members (fold (expire_session X) cs st) r = members st r - {c \<in> set cs. r \<in> pending st c}"
proof (induction cs arbitrary: st)
  case Nil
  then show ?case by simp
next
  case (Cons c cs)
  show ?case by (auto simp: Cons.IH members_expire pending_expire split: if_splits)
qed

text \<open>The client has a session record whose grace period is over.\<close>

definition session_over :: "('r, 'g, 'v) ext \<Rightarrow> ('r, 'g, 'v) app_state \<Rightarrow> string \<Rightarrow> bool" where
  "session_over X st c =
     (case dm_get (pending_removals st) c of None \<Rightarrow> False | Some p \<Rightarrow> session_expired X (config st) p)"

lemma sweep_list:
  assumes "rooms_ok st" "cfg_session_ttl (config st) \<noteq> 0"
  obtains cs where "cleanup_expired_sessions X st = fold (expire_session X) cs st" "set cs = {c. session_over X st c}"
proof
  let ?cs = "map fst (filter (\<lambda>(_, p). session_expired X (config st) p) (pending_removals st))"
  show "set ?cs = {c. session_over X st c}"
    unfolding set_selected_keys [OF rooms_ok_wf(1) [OF assms(1)], of "\<lambda>_ p. session_expired X (config st) p"]
    by (auto simp: session_over_def split: option.splits)
  show "cleanup_expired_sessions X st = fold (expire_session X) ?cs st"
    using assms(2) by (simp add: cleanup_expired_sessions_def)
qed

lemma members_sweep:
  assumes "rooms_ok st" "cfg_session_ttl (config st) \<noteq> 0"
  shows "members (cleanup_expired_sessions X st) r = members st r - {c. session_over X st c \<and> r \<in> pending st c}"
  by (rule sweep_list [OF assms, of X]) (auto simp: members_expire_all)

lemma pending_sweep:
  assumes "rooms_ok st" "cfg_session_ttl (config st) \<noteq> 0"
  shows "pending (cleanup_expired_sessions X st) c = (if session_over X st c then {} else pending st c)"
proof -
  have "pending (fold (expire_session X) cs s) c = (if c \<in> set cs then {} else pending s c)" for cs s
    by (induction cs arbitrary: s) (simp_all add: pending_expire)
  then show ?thesis by (metis sweep_list [OF assms] mem_Collect_eq)
qed

text \<open>
  A disconnect with a grace period changes no membership: the client stays in its rooms and
  these are recorded with the time of the disconnect, while its index entry and its replay
  buffer go. With no grace period it leaves all the rooms of its index entry at once.
\<close>

lemma disconnect_outcome:
  fixes X :: "('r, 'g, 'v) ext" and st :: "('r, 'g, 'v) app_state"
  assumes "joined st c \<noteq> {}"
  defines "st' \<equiv> remove_client_from_all_rooms X c st"
  shows "joined st' c = {}" and "oldest_seq c (replay_buffer st') = None"
    and "cfg_session_ttl (config st) \<noteq> 0 \<Longrightarrow> members st' = members st \<and>
      pending st' = (pending st)(c := joined st c) \<and>
      map_option pr_disconnected_at (dm_get (pending_removals st') c) = Some (mono X)"
    and "cfg_session_ttl (config st) = 0 \<Longrightarrow>
      members st' = (\<lambda>r. if r \<in> joined st c then members st r - {c} else members st r) \<and>
      pending st' = pending st"
proof -
  obtain rs where rs: "dm_get (client_rooms st) c = Some rs" "rs \<noteq> []"
    using assms(1) by (auto simp: joined_def entry_set_def split: option.splits)
  let ?dropped = "st\<lparr>client_rooms := dm_remove c (client_rooms st)\<rparr>"
  have "joined ?dropped c = {}" by (simp add: joined_def)
  with joined_remove_all_subset [of X c rs ?dropped c] have none: "joined (fold (remove_client_from_room X c) rs ?dropped) c = {}" by simp
  with rs show "joined st' c = {}"
    by (simp add: st'_def remove_client_from_all_rooms_def immediate_remove_from_all_rooms_def forget_replay_def
        Let_def joined_def)
  show "oldest_seq c (replay_buffer st') = None"
    using rs by (simp add: st'_def remove_client_from_all_rooms_def immediate_remove_from_all_rooms_def
        forget_replay_def Let_def oldest_seq_def replay_remove_client_def)
  show "members st' = members st \<and> pending st' = (pending st)(c := joined st c) \<and>
      map_option pr_disconnected_at (dm_get (pending_removals st') c) = Some (mono X)"
    if "cfg_session_ttl (config st) \<noteq> 0"
    using that rs by (auto simp: st'_def remove_client_from_all_rooms_def forget_replay_def Let_def fun_eq_iff
        pending_def joined_def members_def)
  show "members st' = (\<lambda>r. if r \<in> joined st c then members st r - {c} else members st r) \<and>
      pending st' = pending st" if "cfg_session_ttl (config st) = 0"
    using that rs rr.mem_leave_all [of X c rs ?dropped]
    by (auto simp: st'_def remove_client_from_all_rooms_def immediate_remove_from_all_rooms_def forget_replay_def
        fun_eq_iff pending_def joined_def)
qed

subsection \<open>Joining\<close>

lemma send_presence_frame [simp]:
  "ws_senders (send_presence c n ps st) = ws_senders st"
  "clients (send_presence c n ps st) = clients st"
  "redis (send_presence c n ps st) = redis st"
  "config (send_presence c n ps st) = config st"
  "rooms (send_presence c n ps st) = rooms st"
  "client_rooms (send_presence c n ps st) = client_rooms st"
  "seq_counter (send_presence c n ps st) = seq_counter st"
  "start_time (send_presence c n ps st) = start_time st"
  "rate_limiter (send_presence c n ps st) = rate_limiter st"
  "replay_buffer (send_presence c n ps st) = replay_buffer st"
  "pending_removals (send_presence c n ps st) = pending_removals st"
  "presence (send_presence c n ps st) = presence st"
  "client_claims (send_presence c n ps st) = client_claims st"
  "client_tenants (send_presence c n ps st) = client_tenants st"
  "tenant_cache (send_presence c n ps st) = tenant_cache st"
  "mailer (send_presence c n ps st) = mailer st"
  "webhook (send_presence c n ps st) = webhook st"
  "active_connections (send_presence c n ps st) = active_connections st"
  "polling_receivers (send_presence c n ps st) = polling_receivers st"
  "next_chan (send_presence c n ps st) = next_chan st"
  by (simp_all add: send_presence_def fold_frame)

lemma send_presence_inbox:
  assumes "senders_ok st"
  shows "inbox (send_presence c n ps st) c' = inbox st c' @
    (if c' = c \<and> reachable_client st c then map (\<lambda>e. presence_frame (fst e) n (snd e)) ps else [])"
  using assms
proof (induction ps arbitrary: st)
  case Nil
  then show ?case by (simp add: send_presence_def)
next
  case (Cons p ps)
  have step: "send_presence c n (p # ps) st =
      send_presence c n ps (send_to c (presence_frame (fst p) n (snd p)) st)"
    by (simp add: send_presence_def)
  show ?case
    unfolding step using Cons.IH [of "send_to c (presence_frame (fst p) n (snd p)) st"] Cons.prems
      inbox_send [OF Cons.prems, of c "presence_frame (fst p) n (snd p)" c']
    by (cases "c' = c") simp_all
qed

lemma rooms_ok_send_presence [simp]: "rooms_ok (send_presence c n ps st) = rooms_ok st"
  by (simp add: rooms_ok_def joined_def members_def)

lemma join_frame [simp]:
  "ws_senders (handle_room_join X c msg st) = ws_senders st"
  "clients (handle_room_join X c msg st) = clients st"
  "redis (handle_room_join X c msg st) = redis st"
  "config (handle_room_join X c msg st) = config st"
  "seq_counter (handle_room_join X c msg st) = seq_counter st"
  "start_time (handle_room_join X c msg st) = start_time st"
  "rate_limiter (handle_room_join X c msg st) = rate_limiter st"
  "replay_buffer (handle_room_join X c msg st) = replay_buffer st"
  "pending_removals (handle_room_join X c msg st) = pending_removals st"
  "presence (handle_room_join X c msg st) = presence st"
  "client_claims (handle_room_join X c msg st) = client_claims st"
  "client_tenants (handle_room_join X c msg st) = client_tenants st"
  "tenant_cache (handle_room_join X c msg st) = tenant_cache st"
  "mailer (handle_room_join X c msg st) = mailer st"
  "active_connections (handle_room_join X c msg st) = active_connections st"
  "polling_receivers (handle_room_join X c msg st) = polling_receivers st"
  "next_chan (handle_room_join X c msg st) = next_chan st"
  by (simp_all add: handle_room_join_def add_to_room_def Let_def split: option.split)

lemma join_granted:
  assumes "room msg = Some n" "is_valid_identifier n" "join_denial X c n st = None"
  shows "rooms (handle_room_join X c msg st) = entry_insert (room_key st c n) c (rooms st)"
    and "client_rooms (handle_room_join X c msg st) = entry_insert c (room_key st c n) (client_rooms st)"
  using assms by (simp_all add: handle_room_join_def add_to_room_def Let_def split: option.split)

lemma join_not_granted:
  assumes "\<nexists>n. room msg = Some n \<and> is_valid_identifier n \<and> join_denial X c n st = None"
  shows "rooms (handle_room_join X c msg st) = rooms st"
    and "client_rooms (handle_room_join X c msg st) = client_rooms st"
  using assms by (auto simp: handle_room_join_def split: option.split)

lemma rooms_ok_add:
  assumes "rooms_ok st" "rooms st' = entry_insert k c (rooms st)"
    "client_rooms st' = entry_insert c k (client_rooms st)"
    "presence st' = presence st" "pending_removals st' = pending_removals st"
  shows "rooms_ok st'"
  using assms unfolding rooms_ok_def
  by (auto simp: joined_def members_def dm_get_entry_insert split: if_splits option.splits)

lemma rooms_ok_join: "rooms_ok st \<Longrightarrow> rooms_ok (handle_room_join X c msg st)"
proof (cases "\<exists>n. room msg = Some n \<and> is_valid_identifier n \<and> join_denial X c n st = None")
  case True
  assume "rooms_ok st"
  with True join_granted show ?thesis by (metis rooms_ok_add join_frame)
next
  case False
  assume "rooms_ok st"
  with join_not_granted [OF False] show ?thesis
    by (simp add: rooms_ok_def joined_def members_def)
qed

lemma rooms_ok_presence: "rooms_ok st \<Longrightarrow> rooms_ok (handle_presence_update X c msg st)"
  by (auto simp: handle_presence_update_def store_presence_def Let_def rooms_ok_def joined_def members_def
      split: option.split)

lemma rooms_ok_leave: "rooms_ok st \<Longrightarrow> rooms_ok (handle_room_leave X c msg st)"
  by (simp add: handle_room_leave_def rooms_ok_remove split: option.split)

subsection \<open>Limits\<close>

lemma finite_members [simp]: "finite (members st r)" "finite (joined st c)"
  by (simp_all add: members_def joined_def entry_set_def split: option.split)

lemma card_members: "rooms_ok st \<Longrightarrow> dm_get (rooms st) r = Some ms \<Longrightarrow> card (members st r) = length ms"
  by (auto simp: rooms_ok_def members_def distinct_card)

lemma card_joined: "rooms_ok st \<Longrightarrow> dm_get (client_rooms st) c = Some rs \<Longrightarrow> card (joined st c) = length rs"
  by (auto simp: rooms_ok_def joined_def distinct_card)

lemma members_None: "dm_get (rooms st) r = None \<Longrightarrow> members st r = {}"
  by (simp add: members_def)

text \<open>The counts of the maps are those of the sets.\<close>

lemma abs_counts:
  assumes "rooms_ok st"
  shows "(case dm_get (client_rooms st) c of None \<Rightarrow> 0 | Some rs \<Rightarrow> length rs) = card (joined st c)"
    and "dm_len (rooms st) = card {r. members st r \<noteq> {}}"
    and "dm_contains_key (rooms st) k \<longleftrightarrow> members st k \<noteq> {}"
    and "dm_get (rooms st) k = Some ms \<Longrightarrow> length ms = card (members st k)"
proof -
  have keys: "dm_get (rooms st) r \<noteq> None \<longleftrightarrow> members st r \<noteq> {}" for r
    using assms by (auto simp: rooms_ok_def members_def entry_set_def split: option.split)
  show "(case dm_get (client_rooms st) c of None \<Rightarrow> 0 | Some rs \<Rightarrow> length rs) = card (joined st c)"
    using assms by (auto simp: rooms_ok_def joined_def entry_set_def distinct_card split: option.split)
  show "dm_len (rooms st) = card {r. members st r \<noteq> {}}"
    using assms dm_len_card [of "rooms st"] keys by (simp add: rooms_ok_def)
  show "dm_contains_key (rooms st) k \<longleftrightarrow> members st k \<noteq> {}" using keys by (simp add: dm_contains_key_def)
  show "dm_get (rooms st) k = Some ms \<Longrightarrow> length ms = card (members st k)"
    using assms by (simp add: rooms_ok_def members_def entry_set_def distinct_card)
qed

text \<open>The checks of a join, in terms of the memberships.\<close>

lemma join_denial_sets:
  assumes "rooms_ok st"
  defines "k \<equiv> \<lambda>c nm. room_key st c nm"
  shows "join_denial X c nm st =
    (if \<exists>claims. dm_get (client_claims st) c = Some claims \<and> \<not> room_allowed (x_json X) claims nm then Some ''auth_denied''
     else if k c nm \<notin> joined st c \<and> cfg_max_rooms_per_client (config st) \<noteq> 0 \<and>
        unat (cfg_max_rooms_per_client (config st)) \<le> card (joined st c) then Some ''client_room_limit''
     else if k c nm \<notin> joined st c \<and> members st (k c nm) = {} \<and> cfg_max_total_rooms (config st) \<noteq> 0 \<and>
        unat (cfg_max_total_rooms (config st)) \<le> card {r. members st r \<noteq> {}} then Some ''server_room_limit''
     else if cfg_max_room_size (config st) \<noteq> 0 \<and> unat (cfg_max_room_size (config st)) \<le> card (members st (k c nm)) then Some ''room_full''
     else None)"
proof -
  let ?k = "room_key st c nm"
  have acl: "(case dm_get (client_claims st) c of None \<Rightarrow> True | Some claims \<Rightarrow> room_allowed (x_json X) claims nm) \<longleftrightarrow>
      \<not> (\<exists>claims. dm_get (client_claims st) c = Some claims \<and> \<not> room_allowed (x_json X) claims nm)"
    by (simp split: option.split)
  have member: "(case dm_get (client_rooms st) c of None \<Rightarrow> False | Some rs \<Rightarrow> ?k \<in> set rs) \<longleftrightarrow> ?k \<in> joined st c"
    by (simp add: joined_def entry_set_def split: option.split)
  have full: "0 < limit \<and> (case dm_get (rooms st) ?k of None \<Rightarrow> False | Some ms \<Rightarrow> unat limit \<le> length ms) \<longleftrightarrow>
      limit \<noteq> 0 \<and> unat limit \<le> card (members st ?k)" for limit :: usize
  proof (cases "dm_get (rooms st) ?k")
    case None
    then show ?thesis by (simp add: members_def entry_set_def unat_eq_0)
  next
    case (Some ms)
    with abs_counts(4) [OF assms(1) Some] show ?thesis by (simp add: word_gt_0)
  qed
  have total: "\<not> b \<and> 0 < limit \<and> \<not> dm_contains_key (rooms st) ?k \<and> unat limit \<le> dm_len (rooms st) \<longleftrightarrow>
      \<not> b \<and> members st ?k = {} \<and> limit \<noteq> 0 \<and> unat limit \<le> card {r. members st r \<noteq> {}}" for limit :: usize and b
    unfolding abs_counts(2,3) [OF assms(1)] word_gt_0 by blast
  have own: "\<not> b \<and> 0 < limit \<and> unat limit \<le> i \<longleftrightarrow> \<not> b \<and> limit \<noteq> 0 \<and> unat limit \<le> i" for limit :: usize and b i
    by (simp add: word_gt_0)
  show ?thesis
    unfolding join_denial_def Let_def acl member abs_counts(1) [OF assms(1)] full total own k_def not_not by (rule refl)
qed

text \<open>What a granted join has passed, in terms of the memberships.\<close>

lemma join_denial_None:
  assumes "rooms_ok st" "join_denial X c n st = None"
  defines "k \<equiv> room_key st c n"
  shows "cfg_max_room_size (config st) \<noteq> 0 \<Longrightarrow>
           card (members st k) < unat (cfg_max_room_size (config st))"
    and "cfg_max_rooms_per_client (config st) \<noteq> 0 \<Longrightarrow> k \<notin> joined st c \<Longrightarrow>
           card (joined st c) < unat (cfg_max_rooms_per_client (config st))"
    and "cfg_max_total_rooms (config st) \<noteq> 0 \<Longrightarrow> k \<notin> joined st c \<Longrightarrow> dm_get (rooms st) k = None \<Longrightarrow>
           dm_len (rooms st) < unat (cfg_max_total_rooms (config st))"
    and "\<forall>claims. dm_get (client_claims st) c = Some claims \<longrightarrow> room_allowed (x_json X) claims n"
proof -
  show "card (members st k) < unat (cfg_max_room_size (config st))" if "cfg_max_room_size (config st) \<noteq> 0"
    using that assms(2) card_members [OF assms(1), of k] unat_gt_0 [of "cfg_max_room_size (config st)"]
    by (cases "dm_get (rooms st) k")
      (auto simp: join_denial_def Let_def k_def [symmetric] members_None word_neq_0_conv split: if_splits)
  show "card (joined st c) < unat (cfg_max_rooms_per_client (config st))"
    if "cfg_max_rooms_per_client (config st) \<noteq> 0" "k \<notin> joined st c"
    using that assms(2) card_joined [OF assms(1), of c] unat_gt_0 [of "cfg_max_rooms_per_client (config st)"]
    by (cases "dm_get (client_rooms st) c")
      (auto simp: join_denial_def Let_def k_def [symmetric] joined_def word_neq_0_conv split: if_splits)
  show "dm_len (rooms st) < unat (cfg_max_total_rooms (config st))"
    if "cfg_max_total_rooms (config st) \<noteq> 0" "k \<notin> joined st c" "dm_get (rooms st) k = None"
    using that assms(2)
    by (cases "dm_get (client_rooms st) c")
      (auto simp: join_denial_def Let_def k_def [symmetric] joined_def word_neq_0_conv dm_contains_key_def
        split: if_splits)
  show "\<forall>claims. dm_get (client_claims st) c = Some claims \<longrightarrow> room_allowed (x_json X) claims n"
    using assms(2) by (auto simp: join_denial_def Let_def split: if_splits)
qed

lemma caps_join:
  assumes "rooms_ok st" "within_caps st"
  shows "within_caps (handle_room_join X c msg st)"
proof (cases "\<exists>n. room msg = Some n \<and> is_valid_identifier n \<and> join_denial X c n st = None")
  case False
  with assms join_not_granted [OF False] show ?thesis
    by (simp add: within_caps_def members_def joined_def)
next
  case True
  then obtain n where n: "room msg = Some n" "is_valid_identifier n" "join_denial X c n st = None" by blast
  note passed = join_denial_None [OF assms(1) n(3)]
  note new = join_granted [OF n]
  let ?k = "room_key st c n" and ?st' = "handle_room_join X c msg st"
  have "members ?st' r = (if r = ?k then insert c (members st r) else members st r)"
    "joined ?st' d = (if d = c then insert ?k (joined st d) else joined st d)" for r d
    by (simp_all add: members_def joined_def new)
  moreover have "dm_len (rooms ?st') = (if dm_get (rooms st) ?k = None then Suc (dm_len (rooms st)) else dm_len (rooms st))"
    using assms(1) by (simp add: new entry_insert_def dm_len_insert rooms_ok_def)
  moreover have "?k \<in> joined st c \<Longrightarrow> dm_get (rooms st) ?k \<noteq> None"
    using assms(1) members_None [of st ?k] by (fastforce simp: rooms_ok_def)
  ultimately show ?thesis
    using assms(2) passed by (auto simp: within_caps_def card_insert_if Suc_leI)
qed

text \<open>A state with no more memberships and no more rooms stays within the limits.\<close>

lemma caps_shrink:
  assumes "within_caps st" "config st' = config st" "\<And>r. members st' r \<subseteq> members st r"
    "\<And>c. joined st' c \<subseteq> joined st c" "dm_len (rooms st') \<le> dm_len (rooms st)"
  shows "within_caps st'"
proof -
  have "card (members st' r) \<le> card (members st r)" "card (joined st' c) \<le> card (joined st c)" for r c
    using assms(3,4) by (simp_all add: card_mono)
  with assms(1,5) show ?thesis
    unfolding within_caps_def assms(2) by (meson le_trans)
qed

lemma dm_len_rooms_remove:
  assumes "rooms_ok st"
  shows "dm_len (rooms (remove_client_from_room X c k st)) \<le> dm_len (rooms st)"
proof -
  have "{r. dm_get (rooms (remove_client_from_room X c k st)) r \<noteq> None} \<subseteq> {r. dm_get (rooms st) r \<noteq> None}"
    by (auto simp: rooms_remove split: if_splits option.splits)
  moreover have "dm_wf (rooms (remove_client_from_room X c k st))" "dm_wf (rooms st)"
    using assms rooms_ok_remove [OF assms] by (simp_all add: rooms_ok_def)
  ultimately show ?thesis by (simp add: dm_len_card card_mono)
qed

lemma caps_remove:
  assumes "rooms_ok st" "within_caps st"
  shows "within_caps (remove_client_from_room X c k st)"
  by (rule caps_shrink [OF assms(2)])
    (auto simp: members_remove dm_len_rooms_remove [OF assms(1)] dest: joined_remove_subset [THEN subsetD])

lemma caps_remove_all:
  assumes "rooms_ok st" "within_caps st"
  shows "within_caps (fold (remove_client_from_room X c) ks st)"
proof -
  have "rooms_ok (fold (remove_client_from_room X c) ks st) \<and>
      within_caps (fold (remove_client_from_room X c) ks st)"
    by (rule fold_keeps) (use assms in \<open>auto intro: rooms_ok_remove caps_remove\<close>)
  then show ?thesis by simp
qed

text \<open>The operations that leave the room tables alone.\<close>

lemma caps_cong:
  "within_caps st \<Longrightarrow> config st' = config st \<Longrightarrow> rooms st' = rooms st \<Longrightarrow> client_rooms st' = client_rooms st \<Longrightarrow>
     within_caps st'"
  by (erule caps_shrink) (simp_all add: members_def joined_def)

lemma caps_irrelevant [simp]:
  "within_caps (st\<lparr>replay_buffer := x\<rparr>) = within_caps st"
  "within_caps (st\<lparr>pending_removals := x2\<rparr>) = within_caps st"
  "within_caps (st\<lparr>seq_counter := x4\<rparr>) = within_caps st"
  "within_caps (st\<lparr>clients := x3\<rparr>) = within_caps st"
  "within_caps (st\<lparr>ws_senders := x5\<rparr>) = within_caps st"
  "within_caps (emit_event e st) = within_caps st"
  "within_caps (redis_do f st) = within_caps st"
  "within_caps (release_connection_slot st) = within_caps st"
  "within_caps (send_to c d st) = within_caps st"
  "within_caps (send_all ms d st) = within_caps st"
  "within_caps (fan_out c ms d st) = within_caps st"
  by (simp_all add: within_caps_def members_def joined_def)

lemma caps_drop_client: "within_caps st \<Longrightarrow> within_caps (st\<lparr>client_rooms := dm_remove c (client_rooms st)\<rparr>)"
  by (erule caps_shrink) (auto simp: members_def joined_def)

lemma caps_disconnect:
  assumes "rooms_ok st" "within_caps st"
  shows "within_caps (remove_client_from_all_rooms X c st)"
proof -
  let ?st = "st\<lparr>client_rooms := dm_remove c (client_rooms st)\<rparr>"
  have "rooms_ok ?st" "within_caps ?st"
    using assms by (simp_all add: rooms_ok_drop_client caps_drop_client)
  then have "within_caps (fold (remove_client_from_room X c) rs ?st)" for rs
    by (rule caps_remove_all)
  with assms(2) \<open>within_caps ?st\<close> show ?thesis
    by (auto simp: remove_client_from_all_rooms_def immediate_remove_from_all_rooms_def forget_replay_def Let_def
        split: option.split)
qed

lemma caps_expire: "rooms_ok st \<Longrightarrow> within_caps st \<Longrightarrow> within_caps (expire_session X c st)"
  using rooms_ok_wf(1) [of st]
  by (simp add: expire_session_def caps_remove_all split: option.split)

lemma caps_cleanup:
  assumes "rooms_ok st" "within_caps st"
  shows "within_caps (cleanup_expired_sessions X st)"
proof -
  have "rooms_ok (fold (expire_session X) cs st) \<and> within_caps (fold (expire_session X) cs st)" for cs
    by (rule fold_keeps) (use assms in \<open>auto intro: rooms_ok_expire caps_expire\<close>)
  with assms(2) show ?thesis by (simp add: cleanup_expired_sessions_def)
qed

lemma caps_presence: "within_caps st \<Longrightarrow> within_caps (handle_presence_update X c msg st)"
  by (erule caps_cong) (simp_all add: handle_presence_update_def store_presence_def Let_def split: option.split)

lemma caps_leave: "rooms_ok st \<Longrightarrow> within_caps st \<Longrightarrow> within_caps (handle_room_leave X c msg st)"
  by (auto simp: handle_room_leave_def split: option.split intro: caps_remove)

text \<open>The two clients of \<open>demo_two\<close> in one room.\<close>

definition demo_lobby :: "config \<Rightarrow> (mem_redis, nat, demo_json) app_state" where
  "demo_lobby cfg = (demo_two cfg)\<lparr>rooms := [(''lobby'', [''a'', ''b''])],
     client_rooms := [(''a'', [''lobby'']), (''b'', [''lobby''])]\<rparr>"

lemma demo_lobby_ok: "rooms_ok (demo_lobby cfg)" "senders_ok (demo_lobby cfg)"
proof -
  show "senders_ok (demo_lobby cfg)" using demo_two_senders(1) by (simp add: demo_lobby_def)
  show "rooms_ok (demo_lobby cfg)"
    by (auto simp: rooms_ok_def joined_def members_def demo_lobby_def demo_two_def entry_set_def dm_get_def dm_wf_def
        dm_keys_def split: if_splits)
qed

lemma demo_lobby_config [simp]: "config (demo_lobby cfg) = cfg"
  by (simp add: demo_lobby_def)

lemma demo_lobby_members:
  "members (demo_lobby cfg) ''lobby'' = {''a'', ''b''}" "joined (demo_lobby cfg) ''a'' = {''lobby''}"
  "joined (demo_lobby cfg) ''b'' = {''lobby''}"
  by (simp_all add: members_def joined_def demo_lobby_def entry_set_def dm_get_def)

section \<open>Leaving\<close>

text \<open>What a client that leaves rooms sends to the others, and what it leaves of the presence data.\<close>

definition present :: "('r, 'g, 'v) app_state \<Rightarrow> string \<Rightarrow> string \<Rightarrow> string option" where
  "present st r d = Option.bind (dm_get (presence st) r) (\<lambda>ps. dm_get ps d)"

definition peers_frames :: "('r, 'g, 'v) ext \<Rightarrow> string \<Rightarrow> string \<Rightarrow> string list \<Rightarrow> ('r, 'g, 'v) app_state \<Rightarrow> string list" where
  "peers_frames X c d ks st =
     map (\<lambda>r. room_peers_frame X (room_display r) (hs_remove c (the (dm_get (rooms st) r)))) (filter (\<lambda>r. d \<in> members st r) ks)"

lemma room_tables_inbox [simp]:
  "inbox (st\<lparr>rooms := a\<rparr>) d = inbox st d" "inbox (st\<lparr>presence := b\<rparr>) d = inbox st d"
  "inbox (st\<lparr>client_rooms := a'\<rparr>) d = inbox st d" "inbox (st\<lparr>replay_buffer := b'\<rparr>) d = inbox st d"
  "reachable_client (st\<lparr>rooms := a\<rparr>) d = reachable_client st d" "reachable_client (st\<lparr>presence := b\<rparr>) d = reachable_client st d"
  "reachable_client (st\<lparr>client_rooms := a'\<rparr>) d = reachable_client st d" "reachable_client (st\<lparr>replay_buffer := b'\<rparr>) d = reachable_client st d"
  by (simp_all add: inbox_def reachable_client_def split: option.split)

lemma inbox_leave_room:
  assumes "rooms_ok st" "senders_ok st"
  defines "rest \<equiv> \<lambda>k c. hs_remove c (case dm_get (rooms st) k of None \<Rightarrow> [] | Some ms \<Rightarrow> ms)"
  shows "inbox (remove_client_from_room X c k st) d = inbox st d @
    (if d \<in> set (rest k c) \<and> reachable_client st d then [room_peers_frame X (room_display k) (rest k c)] else [])"
proof (cases "dm_get (rooms st) k")
  case None
  then show ?thesis by (simp add: remove_client_from_room_def rest_def)
next
  case (Some ms)
  then have "distinct ms" using assms(1) by (simp add: rooms_ok_def)
  moreover have "d \<in> set ms \<Longrightarrow> d \<noteq> c \<Longrightarrow> hs_remove c ms \<noteq> []" by (auto simp: hs_remove_eq_Nil)
  ultimately show ?thesis
    using assms(2) Some
    by (auto simp: remove_client_from_room_def Let_def inbox_send_all rest_def split: option.split)
qed

lemma inbox_leave:
  assumes "rooms_ok st" "senders_ok st" "d \<noteq> c"
  shows "inbox (remove_client_from_room X c k st) d = inbox st d @
    (if reachable_client st d then peers_frames X c d [k] st else [])"
  using assms(3) by (auto simp: inbox_leave_room [OF assms(1,2)] peers_frames_def members_def entry_set_def split: option.split)

lemma leave_keeps [simp]:
  "senders_ok (remove_client_from_room X c k st) = senders_ok st"
  "reachable_client (remove_client_from_room X c k st) d = reachable_client st d"
  by (simp_all add: senders_ok_def) (simp add: remove_client_from_room_def Let_def split: option.split)

lemma peers_frames_leave: "k \<notin> set ks \<Longrightarrow> peers_frames X c d ks (remove_client_from_room Y c k st) = peers_frames X c d ks st"
  by (induction ks) (auto simp: peers_frames_def rooms_remove members_def entry_set_def)

lemma inbox_leave_all:
  "distinct ks \<Longrightarrow> rooms_ok st \<Longrightarrow> senders_ok st \<Longrightarrow> d \<noteq> c \<Longrightarrow> inbox (fold (remove_client_from_room X c) ks st) d = inbox st d @
    (if reachable_client st d then peers_frames X c d ks st else [])"
proof (induction ks arbitrary: st)
  case (Cons k ks)
  let ?st = "remove_client_from_room X c k st"
  have "rooms_ok ?st" using rooms_ok_remove_all [OF Cons.prems(2), of X c "[k]"] by simp
  with Cons.IH [of ?st] Cons.prems inbox_leave [OF Cons.prems(2-4), of X k] peers_frames_leave [of k ks X c d X st]
  show ?case by (simp add: peers_frames_def)
qed (simp add: peers_frames_def)

lemma present_leave:
  "d \<noteq> c \<Longrightarrow> d \<in> members st r \<Longrightarrow> present (remove_client_from_room X c k st) r d = present st r d"
  "dm_get (rooms st) k \<noteq> None \<Longrightarrow> present (remove_client_from_room X c k st) k c = None"
  "present st r c = None \<Longrightarrow> present (remove_client_from_room X c k st) r c = None"
proof -
  show "present (remove_client_from_room X c k st) k c = None" if "dm_get (rooms st) k \<noteq> None"
    using that by (auto simp: present_def presence_remove split: bind_splits if_splits)
  show "present (remove_client_from_room X c k st) r d = present st r d" if "d \<noteq> c" "d \<in> members st r"
  proof (cases "dm_get (rooms st) k")
    case None
    then show ?thesis by (simp add: remove_client_from_room_def)
  next
    case (Some ms)
    with that show ?thesis
      by (cases "dm_get (presence st) r") (auto simp: present_def presence_remove hs_remove_eq_Nil members_def entry_set_def)
  qed
  show "present (remove_client_from_room X c k st) r c = None" if "present st r c = None"
  proof (cases "dm_get (rooms st) k")
    case None
    with that show ?thesis by (simp add: remove_client_from_room_def)
  next
    case (Some ms)
    with that show ?thesis by (auto simp: present_def presence_remove split: bind_splits if_splits)
  qed
qed

section \<open>Properties\<close>

text \<open>
  Tenants cannot meet in a room. With room names that pass the identifier check and tenant
  ids that do, two storage keys are equal only for the same tenant (or no tenant twice) and the
  same name, and the name echoed to clients is the one they asked for.
\<close>

theorem tenant_rooms_disjoint:
  assumes "is_valid_identifier n" "is_valid_identifier n'"
    and "\<forall>t \<in> set_option (dm_get (client_tenants st) c). is_valid_identifier t"
    and "\<forall>t \<in> set_option (dm_get (client_tenants st) c'). is_valid_identifier t"
  shows "(room_key st c n = room_key st c' n' \<longleftrightarrow>
      dm_get (client_tenants st) c = dm_get (client_tenants st) c' \<and> n = n') \<and>
    room_display (room_key st c n) = n"
proof (rule conjI)
  have sep: "is_valid_identifier s \<Longrightarrow> TENANT_SEP \<notin> set s" for s
    by (simp add: valid_identifier_no_sep TENANT_SEP_def)
  show "room_key st c n = room_key st c' n' \<longleftrightarrow>
      dm_get (client_tenants st) c = dm_get (client_tenants st) c' \<and> n = n'"
    unfolding room_key_def by (rule namespace_room_inj) (use assms sep in auto)
  show "room_display (room_key st c n) = n"
    unfolding room_key_def by (rule room_display_namespace) (use assms sep in auto)
qed

theorem tenant_rooms_disjoint_witness:
  "let st = (demo_state default_config)\<lparr>client_tenants := [(''a'', ''t_1''), (''b'', ''t_2'')]\<rparr>
   in room_key st ''a'' ''lobby'' \<noteq> room_key st ''b'' ''lobby'' \<and>
      room_display (room_key st ''a'' ''lobby'') = ''lobby''"
proof -
  have valid: "is_valid_identifier ''lobby''" "is_valid_identifier ''t_1''" "is_valid_identifier ''t_2''"
    by code_simp+
  show ?thesis
    using tenant_rooms_disjoint [OF valid(1) valid(1),
        of "(demo_state default_config)\<lparr>client_tenants := [(''a'', ''t_1''), (''b'', ''t_2'')]\<rparr>" "''a''" "''b''"]
    by (simp add: dm_get_def valid)
qed

text \<open>A join, by the outcome of its checks.\<close>

lemma join_membership:
  fixes X :: "('r, 'g, 'v) ext" and st :: "('r, 'g, 'v) app_state"
  assumes "senders_ok st" "room msg = Some n" "is_valid_identifier n" "reachable_client st c"
  defines "st' \<equiv> handle_room_join X c msg st" and "k \<equiv> room_key st c n"
  shows "(\<forall>d. d \<noteq> c \<longrightarrow> inbox st' d = inbox st d) \<and>
    (case join_denial X c n st of
        Some reason \<Rightarrow>
          members st' = members st \<and> joined st' = joined st \<and>
          inbox st' c = inbox st c @ [join_denied_frame n reason]
      | None \<Rightarrow>
          members st' = (members st)(k := insert c (members st k)) \<and>
          joined st' = (joined st)(c := insert k (joined st c)) \<and>
          (\<exists>ms. set ms = members st' k \<and>
             inbox st' c = inbox st c @ room_peers_frame X n ms #
               map (\<lambda>(peer, value). presence_frame peer n value)
                 (case dm_get (presence st) k of None \<Rightarrow> [] | Some ps \<Rightarrow> ps)))"
proof (rule conjI)
  let ?st1 = "add_to_room c k st"
  obtain ms where ms: "dm_get (rooms ?st1) k = Some ms"
    by (simp add: add_to_room_def dm_get_entry_insert)
  have st1: "senders_ok ?st1" "reachable_client ?st1 d = reachable_client st d" "inbox ?st1 d = inbox st d" for d
    using assms(1) by (simp_all add: add_to_room_def senders_ok_def reachable_client_def inbox_def split: option.split)
  have inbox': "inbox st' d = (case join_denial X c n st of
      Some reason \<Rightarrow> inbox st d @ (if d = c then [join_denied_frame n reason] else [])
    | None \<Rightarrow> inbox st d @ (if d = c then room_peers_frame X n ms #
        map (\<lambda>(peer, value). presence_frame peer n value)
          (case dm_get (presence st) k of None \<Rightarrow> [] | Some ps \<Rightarrow> ps) else []))" for d
    using assms(1-4) ms st1
    by (simp add: st'_def k_def handle_room_join_def Let_def inbox_send send_presence_inbox case_prod_beta
        add_to_room_def split: option.split)
  then show "\<forall>d. d \<noteq> c \<longrightarrow> inbox st' d = inbox st d" by (simp split: option.split)
  show "case join_denial X c n st of
        Some reason \<Rightarrow>
          members st' = members st \<and> joined st' = joined st \<and>
          inbox st' c = inbox st c @ [join_denied_frame n reason]
      | None \<Rightarrow>
          members st' = (members st)(k := insert c (members st k)) \<and>
          joined st' = (joined st)(c := insert k (joined st c)) \<and>
          (\<exists>ms. set ms = members st' k \<and>
             inbox st' c = inbox st c @ room_peers_frame X n ms #
               map (\<lambda>(peer, value). presence_frame peer n value)
                 (case dm_get (presence st) k of None \<Rightarrow> [] | Some ps \<Rightarrow> ps))"
  proof (cases "join_denial X c n st")
    case (Some reason)
    with join_not_granted [of msg X c st] assms(2) inbox' [of c] show ?thesis
      by (simp add: st'_def members_def joined_def fun_eq_iff)
  next
    case None
    note new = join_granted [OF assms(2,3) None, folded st'_def k_def]
    have "rooms st' = rooms ?st1" by (simp add: new add_to_room_def)
    with ms have "set ms = members st' k" by (simp add: members_def)
    with None new inbox' [of c] show ?thesis
      by (auto simp: members_def joined_def fun_eq_iff)
  qed
qed

text \<open>
  C18: A join with a well-formed room name is denied for exactly four reasons, in this order: a token of the client
  does not allow the room; the client is not in the room and is in as many rooms as the configuration allows
  a client; it is not in the room, the room does not exist, and as many rooms exist as the configuration
  allows; the room has as many members as the configuration allows a room (also when the client is one of
  them). The client then gets the reason and no membership changes. In every other case the join is granted:
  the client is added to that room and to no other, it receives the list of members and then the presence
  data of the room. No other client receives anything.
\<close>

theorem room_join_outcome:
  fixes X :: "('r, 'g, 'v) ext" and st :: "('r, 'g, 'v) app_state"
  assumes "rooms_ok st" "senders_ok st" "room msg = Some n" "is_valid_identifier n" "reachable_client st c"
  defines "st' \<equiv> handle_room_join X c msg st" and "k \<equiv> room_key st c n" and "cfg \<equiv> config st"
  defines "denied \<equiv> \<lambda>reason. members st' = members st \<and> joined st' = joined st \<and>
    inbox st' c = inbox st c @ [join_denied_frame n reason]"
  defines "granted \<equiv> members st' = (members st)(k := insert c (members st k)) \<and>
    joined st' = (joined st)(c := insert k (joined st c)) \<and>
    (\<exists>ms. set ms = members st' k \<and>
       inbox st' c = inbox st c @ room_peers_frame X n ms #
         map (\<lambda>(peer, value). presence_frame peer n value)
           (case dm_get (presence st) k of None \<Rightarrow> [] | Some ps \<Rightarrow> ps))"
  shows "(\<forall>d. d \<noteq> c \<longrightarrow> inbox st' d = inbox st d) \<and>
    (if \<exists>claims. dm_get (client_claims st) c = Some claims \<and> \<not> room_allowed (x_json X) claims n
       then denied ''auth_denied''
     else if k \<notin> joined st c \<and> cfg_max_rooms_per_client cfg \<noteq> 0 \<and>
         unat (cfg_max_rooms_per_client cfg) \<le> card (joined st c)
       then denied ''client_room_limit''
     else if k \<notin> joined st c \<and> members st k = {} \<and> cfg_max_total_rooms cfg \<noteq> 0 \<and>
         unat (cfg_max_total_rooms cfg) \<le> card {r. members st r \<noteq> {}}
       then denied ''server_room_limit''
     else if cfg_max_room_size cfg \<noteq> 0 \<and> unat (cfg_max_room_size cfg) \<le> card (members st k)
       then denied ''room_full''
     else granted)"
proof -
  have "case join_denial X c n st of Some reason \<Rightarrow> denied reason | None \<Rightarrow> granted"
    unfolding denied_def granted_def st'_def k_def using join_membership [OF assms(2-5), of X] by (rule conjunct2)
  moreover have "\<forall>d. d \<noteq> c \<longrightarrow> inbox st' d = inbox st d"
    using join_membership [OF assms(2-5), of X] by (simp add: st'_def)
  ultimately show ?thesis
    unfolding join_denial_sets [OF assms(1)] k_def cfg_def if_distrib [where f = "case_option granted denied"] option.case
    by (rule conjI [rotated])
qed

text \<open>The first client to join an empty server's lobby; a member that joins a full room again.\<close>

theorem room_join_outcome_witness:
  "let st = demo_two default_config; join = (bare_message RoomJoin None)\<lparr>room := Some ''lobby''\<rparr>;
       st' = handle_room_join demo_ext ''a'' join st;
       full = demo_lobby (default_config\<lparr>cfg_max_room_size := 2\<rparr>);
       full' = handle_room_join demo_ext ''a'' join full
   in members st' ''lobby'' = {''a''} \<and> joined st' ''a'' = {''lobby''} \<and> inbox st' ''b'' = inbox st ''b'' \<and>
      inbox full' ''a'' = inbox full ''a'' @ [join_denied_frame ''lobby'' ''room_full'']"
proof -
  let ?msg = "(bare_message RoomJoin None)\<lparr>room := Some ''lobby''\<rparr>"
  let ?full = "demo_lobby (default_config\<lparr>cfg_max_room_size := 2\<rparr>)"
  have valid: "is_valid_identifier ''lobby''" by code_simp
  have key: "room_key (demo_two default_config) ''a'' ''lobby'' = ''lobby''" "room_key ?full ''a'' ''lobby'' = ''lobby''"
    by (simp_all add: room_key_def namespace_room_def demo_two_def demo_lobby_def)
  have empty: "members (demo_two default_config) r = {}" "joined (demo_two default_config) c = {}" for r c
    by (simp_all add: members_def joined_def demo_two_def entry_set_def)
  have claims: "dm_get (client_claims (demo_two default_config)) ''a'' = None" "dm_get (client_claims ?full) ''a'' = None"
    by (simp_all add: demo_two_def demo_lobby_def dm_get_def)
  have ok: "rooms_ok (demo_two default_config)" by (simp add: rooms_ok_def members_def joined_def demo_two_def entry_set_def)
  have here: "reachable_client ?full ''a''"
    using demo_two_senders(2) [of "default_config\<lparr>cfg_max_room_size := 2\<rparr>"] by (simp add: demo_lobby_def reachable_client_def split: option.splits)
  note first = room_join_outcome [OF ok demo_two_senders(1) _ valid demo_two_senders(2), of ?msg demo_ext]
  note again = room_join_outcome [OF demo_lobby_ok _ valid here, of ?msg demo_ext]
  have limits: "cfg_max_room_size default_config = 50" "cfg_max_rooms_per_client default_config = 32"
    "cfg_max_total_rooms default_config = 10000" "config (demo_two default_config) = default_config"
    by (simp_all add: default_config_def demo_two_def)
  show ?thesis
    using first again by (simp add: key empty claims limits demo_lobby_members)
qed



text \<open>
  The periodic sweep of expired sessions removes exactly what it should: a client leaves
  exactly the rooms recorded at its disconnect, exactly when its grace period is over, and only
  those records are dropped.
\<close>

theorem session_sweep_exact:
  fixes X :: "('r, 'g, 'v) ext" and st :: "('r, 'g, 'v) app_state"
  assumes "rooms_ok st" "cfg_session_ttl (config st) \<noteq> 0"
  defines "over \<equiv> \<lambda>c. \<exists>p. dm_get (pending_removals st) c = Some p \<and>
      duration_from_millis (cfg_session_ttl (config st)) \<le> mono X - pr_disconnected_at p"
  shows "(members (cleanup_expired_sessions X st) r = members st r - {c. over c \<and> r \<in> pending st c}) \<and>
    (pending (cleanup_expired_sessions X st) c = (if over c then {} else pending st c))"
proof (rule conjI)
  have over: "session_over X st c = over c" for c
    by (simp add: session_over_def over_def session_expired_def duration_since_def split: option.split)
  show "members (cleanup_expired_sessions X st) r = members st r - {c. over c \<and> r \<in> pending st c}"
    by (simp add: members_sweep [OF assms(1,2)] over)
  show "pending (cleanup_expired_sessions X st) c = (if over c then {} else pending st c)"
    by (simp add: pending_sweep [OF assms(1,2)] over)
qed

theorem session_sweep_exact_witness:
  "let st = (demo_lobby default_config)\<lparr>client_rooms := [(''b'', [''lobby''])],
         pending_removals := [(''a'', \<lparr>pr_rooms = [''lobby''], pr_disconnected_at = 5\<rparr>)]\<rparr>
   in members (cleanup_expired_sessions (demo_ext\<lparr>mono := 30000000005\<rparr>) st) ''lobby'' = {''b''} \<and>
      members (cleanup_expired_sessions (demo_ext\<lparr>mono := 30000000004\<rparr>) st) ''lobby'' = {''a'', ''b''}"
proof -
  let ?st = "(demo_lobby default_config)\<lparr>client_rooms := [(''b'', [''lobby''])],
      pending_removals := [(''a'', \<lparr>pr_rooms = [''lobby''], pr_disconnected_at = 5\<rparr>)]\<rparr>"
  have ok: "rooms_ok ?st"
    by (auto simp: rooms_ok_def joined_def members_def demo_lobby_def demo_two_def entry_set_def dm_get_def dm_wf_def
        dm_keys_def split: if_splits)
  have "cfg_session_ttl (config ?st) \<noteq> 0" by simp
  from session_sweep_exact [OF ok this, of "demo_ext\<lparr>mono := 30000000005\<rparr>" "''lobby''"]
    session_sweep_exact [OF ok this, of "demo_ext\<lparr>mono := 30000000004\<rparr>" "''lobby''"]
  show ?thesis unfolding Let_def
    by (auto simp: pending_def dm_get_def demo_lobby_members duration_from_millis_def split: if_splits)
qed

end
