(* ===== verification/Message_Handler.thy ===== *)
theory Message_Handler
  imports Rooms
begin

text \<open>
  \<^verbatim>\<open>src/handlers/message.rs\<close>: the dispatch on the message type, heartbeats, the routing of
  signaling messages between peers, and the relay of DATA to a peer or a room. The room
  operations it calls are in \<open>Rooms\<close>.
\<close>

definition handle_heartbeat ::
  "('r, 'g, 'v) ext \<Rightarrow> string \<Rightarrow> ('r, 'g, 'v) app_state \<Rightarrow> ('r, 'g, 'v) app_state" where
  "handle_heartbeat X client_id st =
     (case dm_get (clients st) client_id of
        None \<Rightarrow> st
      | Some meta \<Rightarrow> st\<lparr>clients := dm_insert client_id (touch (wall X) meta) (clients st)\<rparr>)"

text \<open>\<^verbatim>\<open>if state.clients.remove(id).is_some() { state.release_connection_slot(); }\<close>.\<close>

definition drop_client :: "string \<Rightarrow> ('r, 'g, 'v) app_state \<Rightarrow> ('r, 'g, 'v) app_state" where
  "drop_client client_id st =
     (case dm_get (clients st) client_id of
        None \<Rightarrow> st
      | Some meta \<Rightarrow> release_connection_slot (st\<lparr>clients := dm_remove client_id (clients st)\<rparr>))"

definition remove_sender :: "string \<Rightarrow> ('r, 'g, 'v) app_state \<Rightarrow> ('r, 'g, 'v) app_state" where
  "remove_sender client_id st = st\<lparr>ws_senders := dm_remove client_id (ws_senders st)\<rparr>"

definition send_leave_to_source ::
  "('r, 'g, 'v) ext \<Rightarrow> string \<Rightarrow> string \<Rightarrow> ('r, 'g, 'v) app_state \<Rightarrow> ('r, 'g, 'v) app_state" where
  "send_leave_to_source X from_id to_id st =
     send_to to_id (serialize_relay X ((bare_message LEAVE None)\<lparr>src := Some from_id, dst := Some to_id\<rparr>)) st"

definition queue_message_raw ::
  "('r, 'g, 'v) ext \<Rightarrow> string \<Rightarrow> string \<Rightarrow> ('r, 'g, 'v) app_state \<Rightarrow> ('r, 'g, 'v) app_state" where
  "queue_message_raw X dst_id json_str st =
     redis_do (add_message_to_queue (x_redis X) (wall X) dst_id json_str) st"

text \<open>\<^verbatim>\<open>as_deref().unwrap_or("")\<close>.\<close>

definition or_empty :: "string option \<Rightarrow> string" where
  "or_empty s = (case s of None \<Rightarrow> [] | Some t \<Rightarrow> t)"

definition handle_transmission ::
  "('r, 'g, 'v) ext \<Rightarrow> message \<Rightarrow> ('r, 'g, 'v) app_state \<Rightarrow> ('r, 'g, 'v) app_state" where
  "handle_transmission X msg st =
     (let src_id = or_empty (src msg);
          dst_id = or_empty (dst msg)
      in if dst_id \<noteq> [] then
           let data = serialize_relay X msg
           in case dm_get (ws_senders st) dst_id of
                Some sender \<Rightarrow>
                  let (is_err, st) = chan_send sender data st
                  in if is_err then
                       let st = drop_client dst_id (remove_sender dst_id st);
                           st = redis_do (remove_client (x_redis X) dst_id) st
                       in send_leave_to_source X dst_id src_id st
                     else st
              | None \<Rightarrow>
                  if msg_type msg \<noteq> LEAVE \<and> msg_type msg \<noteq> EXPIRE then queue_message_raw X dst_id data st
                  else st
         else if msg_type msg = LEAVE then
           redis_do (remove_client (x_redis X) src_id) (drop_client src_id (remove_sender src_id st))
         else st)"

definition relay_disabled_frame :: string where
  "relay_disabled_frame = ''{\"type\":\"ERROR\",\"payload\":{\"msg\":\"Relay not enabled on this server\"}}''"

definition replay_push :: "('r, 'g, 'v) ext \<Rightarrow> string \<Rightarrow> u64 \<Rightarrow> string \<Rightarrow> ('r, 'g, 'v) app_state \<Rightarrow> ('r, 'g, 'v) app_state" where
  "replay_push X key seq_no data st = st\<lparr>replay_buffer := push (mono X) key seq_no data (replay_buffer st)\<rparr>"

definition handle_data ::
  "('r, 'g, 'v) ext \<Rightarrow> string \<Rightarrow> message \<Rightarrow> ('r, 'g, 'v) app_state \<Rightarrow> ('r, 'g, 'v) app_state" where
  "handle_data X client_id msg st =
     (if \<not> cfg_enable_relay (config st) then send_to client_id relay_disabled_frame st
      else if (case room msg of Some r \<Rightarrow> \<not> is_valid_identifier r | None \<Rightarrow> False) then st
      else if (case dst msg of Some d \<Rightarrow> \<not> is_valid_identifier d | None \<Rightarrow> False) then st
      else
        let seq_no = seq_counter st + 1;
            st = st\<lparr>seq_counter := seq_counter st + 1\<rparr>;
            msg = msg\<lparr>seq := Some seq_no, timestamp := Some (wall X)\<rparr>;
            data = serialize_relay X msg
        in case room msg of
             Some room_name \<Rightarrow>
               let key = room_key st client_id room_name;
                   st = (case dm_get (rooms st) key of None \<Rightarrow> st | Some ms \<Rightarrow> fan_out client_id ms data st)
               in if topic_class msg \<noteq> Some ''ephemeral'' then replay_push X key seq_no data st else st
           | None \<Rightarrow>
               (case dst msg of
                  Some dst_id \<Rightarrow>
                    let st = send_to dst_id data st
                    in if topic_class msg \<noteq> Some ''ephemeral'' then replay_push X dst_id seq_no data st else st
                | None \<Rightarrow> st))"

definition note_activity ::
  "('r, 'g, 'v) ext \<Rightarrow> string \<Rightarrow> ('r, 'g, 'v) app_state \<Rightarrow> ('r, 'g, 'v) app_state" where
  "note_activity X client_id st =
     (case dm_get (clients st) client_id of
        None \<Rightarrow> st
      | Some meta \<Rightarrow> st\<lparr>clients := dm_insert client_id (record_message (wall X) meta) (clients st)\<rparr>)"

definition handle_message ::
  "('r, 'g, 'v) ext \<Rightarrow> string \<Rightarrow> message \<Rightarrow> ('r, 'g, 'v) app_state \<Rightarrow> ('r, 'g, 'v) app_state" where
  "handle_message X client_id msg st =
     (let msg = msg\<lparr>src := Some client_id\<rparr>;
          st = (if msg_type msg \<noteq> HEARTBEAT then note_activity X client_id st else st)
      in case msg_type msg of
           HEARTBEAT \<Rightarrow> handle_heartbeat X client_id st
         | OFFER \<Rightarrow> handle_transmission X msg st
         | ANSWER \<Rightarrow> handle_transmission X msg st
         | CANDIDATE \<Rightarrow> handle_transmission X msg st
         | ACK \<Rightarrow> handle_transmission X msg st
         | LEAVE \<Rightarrow> handle_transmission X msg st
         | EXPIRE \<Rightarrow> handle_transmission X msg st
         | DATA \<Rightarrow> handle_data X client_id msg st
         | RoomJoin \<Rightarrow> handle_room_join X client_id msg st
         | RoomLeave \<Rightarrow> handle_room_leave X client_id msg st
         | PresenceUpdate \<Rightarrow> handle_presence_update X client_id msg st
         | _ \<Rightarrow> st)"

section \<open>Lemmas\<close>

lemma drop_client_frame [simp]:
  "ws_senders (drop_client c st) = ws_senders st"
  "redis (drop_client c st) = redis st"
  "config (drop_client c st) = config st"
  "rooms (drop_client c st) = rooms st"
  "client_rooms (drop_client c st) = client_rooms st"
  "seq_counter (drop_client c st) = seq_counter st"
  "start_time (drop_client c st) = start_time st"
  "rate_limiter (drop_client c st) = rate_limiter st"
  "replay_buffer (drop_client c st) = replay_buffer st"
  "pending_removals (drop_client c st) = pending_removals st"
  "presence (drop_client c st) = presence st"
  "client_claims (drop_client c st) = client_claims st"
  "client_tenants (drop_client c st) = client_tenants st"
  "tenant_cache (drop_client c st) = tenant_cache st"
  "mailer (drop_client c st) = mailer st"
  "webhook (drop_client c st) = webhook st"
  "polling_receivers (drop_client c st) = polling_receivers st"
  "chans (drop_client c st) = chans st"
  "next_chan (drop_client c st) = next_chan st"
  by (simp_all add: drop_client_def split: option.split)

lemma remove_sender_frame [simp]:
  "clients (remove_sender c st) = clients st"
  "redis (remove_sender c st) = redis st"
  "config (remove_sender c st) = config st"
  "rooms (remove_sender c st) = rooms st"
  "client_rooms (remove_sender c st) = client_rooms st"
  "seq_counter (remove_sender c st) = seq_counter st"
  "start_time (remove_sender c st) = start_time st"
  "rate_limiter (remove_sender c st) = rate_limiter st"
  "replay_buffer (remove_sender c st) = replay_buffer st"
  "pending_removals (remove_sender c st) = pending_removals st"
  "presence (remove_sender c st) = presence st"
  "client_claims (remove_sender c st) = client_claims st"
  "client_tenants (remove_sender c st) = client_tenants st"
  "tenant_cache (remove_sender c st) = tenant_cache st"
  "mailer (remove_sender c st) = mailer st"
  "webhook (remove_sender c st) = webhook st"
  "active_connections (remove_sender c st) = active_connections st"
  "polling_receivers (remove_sender c st) = polling_receivers st"
  "chans (remove_sender c st) = chans st"
  "next_chan (remove_sender c st) = next_chan st"
  by (simp_all add: remove_sender_def)

lemma note_activity_frame [simp]:
  "ws_senders (note_activity X c st) = ws_senders st"
  "redis (note_activity X c st) = redis st"
  "config (note_activity X c st) = config st"
  "rooms (note_activity X c st) = rooms st"
  "client_rooms (note_activity X c st) = client_rooms st"
  "seq_counter (note_activity X c st) = seq_counter st"
  "start_time (note_activity X c st) = start_time st"
  "rate_limiter (note_activity X c st) = rate_limiter st"
  "replay_buffer (note_activity X c st) = replay_buffer st"
  "pending_removals (note_activity X c st) = pending_removals st"
  "presence (note_activity X c st) = presence st"
  "client_claims (note_activity X c st) = client_claims st"
  "client_tenants (note_activity X c st) = client_tenants st"
  "tenant_cache (note_activity X c st) = tenant_cache st"
  "mailer (note_activity X c st) = mailer st"
  "webhook (note_activity X c st) = webhook st"
  "active_connections (note_activity X c st) = active_connections st"
  "polling_receivers (note_activity X c st) = polling_receivers st"
  "chans (note_activity X c st) = chans st"
  "next_chan (note_activity X c st) = next_chan st"
  by (simp_all add: note_activity_def split: option.split)

lemma heartbeat_frame [simp]:
  "ws_senders (handle_heartbeat X c st) = ws_senders st"
  "redis (handle_heartbeat X c st) = redis st"
  "config (handle_heartbeat X c st) = config st"
  "rooms (handle_heartbeat X c st) = rooms st"
  "client_rooms (handle_heartbeat X c st) = client_rooms st"
  "seq_counter (handle_heartbeat X c st) = seq_counter st"
  "start_time (handle_heartbeat X c st) = start_time st"
  "rate_limiter (handle_heartbeat X c st) = rate_limiter st"
  "replay_buffer (handle_heartbeat X c st) = replay_buffer st"
  "pending_removals (handle_heartbeat X c st) = pending_removals st"
  "presence (handle_heartbeat X c st) = presence st"
  "client_claims (handle_heartbeat X c st) = client_claims st"
  "client_tenants (handle_heartbeat X c st) = client_tenants st"
  "tenant_cache (handle_heartbeat X c st) = tenant_cache st"
  "mailer (handle_heartbeat X c st) = mailer st"
  "webhook (handle_heartbeat X c st) = webhook st"
  "active_connections (handle_heartbeat X c st) = active_connections st"
  "polling_receivers (handle_heartbeat X c st) = polling_receivers st"
  "chans (handle_heartbeat X c st) = chans st"
  "next_chan (handle_heartbeat X c st) = next_chan st"
  by (simp_all add: handle_heartbeat_def split: option.split)

lemma replay_push_frame [simp]:
  "ws_senders (replay_push X k n d st) = ws_senders st"
  "clients (replay_push X k n d st) = clients st"
  "redis (replay_push X k n d st) = redis st"
  "config (replay_push X k n d st) = config st"
  "rooms (replay_push X k n d st) = rooms st"
  "client_rooms (replay_push X k n d st) = client_rooms st"
  "seq_counter (replay_push X k n d st) = seq_counter st"
  "start_time (replay_push X k n d st) = start_time st"
  "rate_limiter (replay_push X k n d st) = rate_limiter st"
  "pending_removals (replay_push X k n d st) = pending_removals st"
  "presence (replay_push X k n d st) = presence st"
  "client_claims (replay_push X k n d st) = client_claims st"
  "client_tenants (replay_push X k n d st) = client_tenants st"
  "tenant_cache (replay_push X k n d st) = tenant_cache st"
  "mailer (replay_push X k n d st) = mailer st"
  "webhook (replay_push X k n d st) = webhook st"
  "active_connections (replay_push X k n d st) = active_connections st"
  "polling_receivers (replay_push X k n d st) = polling_receivers st"
  "chans (replay_push X k n d st) = chans st"
  "next_chan (replay_push X k n d st) = next_chan st"
  by (simp_all add: replay_push_def)

lemma leave_to_source_frame [simp]:
  "ws_senders (send_leave_to_source X c d st) = ws_senders st"
  "clients (send_leave_to_source X c d st) = clients st"
  "redis (send_leave_to_source X c d st) = redis st"
  "config (send_leave_to_source X c d st) = config st"
  "rooms (send_leave_to_source X c d st) = rooms st"
  "client_rooms (send_leave_to_source X c d st) = client_rooms st"
  "seq_counter (send_leave_to_source X c d st) = seq_counter st"
  "start_time (send_leave_to_source X c d st) = start_time st"
  "rate_limiter (send_leave_to_source X c d st) = rate_limiter st"
  "replay_buffer (send_leave_to_source X c d st) = replay_buffer st"
  "pending_removals (send_leave_to_source X c d st) = pending_removals st"
  "presence (send_leave_to_source X c d st) = presence st"
  "client_claims (send_leave_to_source X c d st) = client_claims st"
  "client_tenants (send_leave_to_source X c d st) = client_tenants st"
  "tenant_cache (send_leave_to_source X c d st) = tenant_cache st"
  "mailer (send_leave_to_source X c d st) = mailer st"
  "webhook (send_leave_to_source X c d st) = webhook st"
  "active_connections (send_leave_to_source X c d st) = active_connections st"
  "polling_receivers (send_leave_to_source X c d st) = polling_receivers st"
  "next_chan (send_leave_to_source X c d st) = next_chan st"
  by (simp_all add: send_leave_to_source_def)

lemma queue_raw_frame [simp]:
  "ws_senders (queue_message_raw X c d st) = ws_senders st"
  "clients (queue_message_raw X c d st) = clients st"
  "config (queue_message_raw X c d st) = config st"
  "rooms (queue_message_raw X c d st) = rooms st"
  "client_rooms (queue_message_raw X c d st) = client_rooms st"
  "seq_counter (queue_message_raw X c d st) = seq_counter st"
  "start_time (queue_message_raw X c d st) = start_time st"
  "rate_limiter (queue_message_raw X c d st) = rate_limiter st"
  "replay_buffer (queue_message_raw X c d st) = replay_buffer st"
  "pending_removals (queue_message_raw X c d st) = pending_removals st"
  "presence (queue_message_raw X c d st) = presence st"
  "client_claims (queue_message_raw X c d st) = client_claims st"
  "client_tenants (queue_message_raw X c d st) = client_tenants st"
  "tenant_cache (queue_message_raw X c d st) = tenant_cache st"
  "mailer (queue_message_raw X c d st) = mailer st"
  "webhook (queue_message_raw X c d st) = webhook st"
  "active_connections (queue_message_raw X c d st) = active_connections st"
  "polling_receivers (queue_message_raw X c d st) = polling_receivers st"
  "chans (queue_message_raw X c d st) = chans st"
  "next_chan (queue_message_raw X c d st) = next_chan st"
  by (simp_all add: queue_message_raw_def)

lemma transmission_frame [simp]:
  "config (handle_transmission X msg st) = config st"
  "rooms (handle_transmission X msg st) = rooms st"
  "client_rooms (handle_transmission X msg st) = client_rooms st"
  "seq_counter (handle_transmission X msg st) = seq_counter st"
  "start_time (handle_transmission X msg st) = start_time st"
  "rate_limiter (handle_transmission X msg st) = rate_limiter st"
  "replay_buffer (handle_transmission X msg st) = replay_buffer st"
  "pending_removals (handle_transmission X msg st) = pending_removals st"
  "presence (handle_transmission X msg st) = presence st"
  "client_claims (handle_transmission X msg st) = client_claims st"
  "client_tenants (handle_transmission X msg st) = client_tenants st"
  "tenant_cache (handle_transmission X msg st) = tenant_cache st"
  "mailer (handle_transmission X msg st) = mailer st"
  "webhook (handle_transmission X msg st) = webhook st"
  "polling_receivers (handle_transmission X msg st) = polling_receivers st"
  "next_chan (handle_transmission X msg st) = next_chan st"
  by (simp_all add: handle_transmission_def chan_send_def Let_def split: option.split)

lemma data_frame [simp]:
  "ws_senders (handle_data X c msg st) = ws_senders st"
  "clients (handle_data X c msg st) = clients st"
  "redis (handle_data X c msg st) = redis st"
  "config (handle_data X c msg st) = config st"
  "rooms (handle_data X c msg st) = rooms st"
  "client_rooms (handle_data X c msg st) = client_rooms st"
  "start_time (handle_data X c msg st) = start_time st"
  "rate_limiter (handle_data X c msg st) = rate_limiter st"
  "pending_removals (handle_data X c msg st) = pending_removals st"
  "presence (handle_data X c msg st) = presence st"
  "client_claims (handle_data X c msg st) = client_claims st"
  "client_tenants (handle_data X c msg st) = client_tenants st"
  "tenant_cache (handle_data X c msg st) = tenant_cache st"
  "mailer (handle_data X c msg st) = mailer st"
  "webhook (handle_data X c msg st) = webhook st"
  "active_connections (handle_data X c msg st) = active_connections st"
  "polling_receivers (handle_data X c msg st) = polling_receivers st"
  "next_chan (handle_data X c msg st) = next_chan st"
  by (simp_all add: handle_data_def Let_def split: option.split)

lemma senders_ok_remove_sender [simp]: "senders_ok st \<Longrightarrow> senders_ok (remove_sender c st)"
  by (auto simp: senders_ok_def remove_sender_def)

lemma senders_ok_cong:
  "senders_ok st \<Longrightarrow> ws_senders st' = ws_senders st \<Longrightarrow> next_chan st' = next_chan st \<Longrightarrow> senders_ok st'"
  by (simp add: senders_ok_def)

lemma senders_ok_transmission: "senders_ok st \<Longrightarrow> senders_ok (handle_transmission X msg st)"
  unfolding senders_ok_def
  by (auto simp: handle_transmission_def chan_send_def remove_sender_def Let_def split: option.splits if_splits)

lemma rooms_ok_cong:
  "rooms_ok st \<Longrightarrow> rooms st' = rooms st \<Longrightarrow> client_rooms st' = client_rooms st \<Longrightarrow> presence st' = presence st \<Longrightarrow>
     pending_removals st' = pending_removals st \<Longrightarrow> rooms_ok st'"
  by (simp add: rooms_ok_def joined_def members_def)

lemma rooms_ok_message:
  assumes "rooms_ok st"
  shows "rooms_ok (handle_message X c msg st)"
proof -
  have "rooms_ok (note_activity X c st)" by (rule rooms_ok_cong [OF assms]) simp_all
  then show ?thesis
    using assms rooms_ok_cong [of st "handle_heartbeat X c st"]
      rooms_ok_cong [of "note_activity X c st" "handle_transmission X m (note_activity X c st)" for m]
      rooms_ok_cong [of "note_activity X c st" "handle_data X c m (note_activity X c st)" for m]
    by (simp add: handle_message_def Let_def rooms_ok_join rooms_ok_leave rooms_ok_presence split: MessageType.split)
qed

lemma caps_message:
  assumes "rooms_ok st" "within_caps st"
  shows "within_caps (handle_message X c msg st)"
proof -
  have "rooms_ok (note_activity X c st)" by (rule rooms_ok_cong [OF assms(1)]) simp_all
  moreover have "within_caps (note_activity X c st)" by (rule caps_cong [OF assms(2)]) simp_all
  ultimately show ?thesis
    using assms caps_cong [of st "handle_heartbeat X c st"]
      caps_cong [of "note_activity X c st" "handle_transmission X m (note_activity X c st)" for m]
      caps_cong [of "note_activity X c st" "handle_data X c m (note_activity X c st)" for m]
    by (simp add: handle_message_def Let_def caps_join caps_leave caps_presence split: MessageType.split)
qed

lemma leave_frame [simp]:
  "ws_senders (handle_room_leave X c msg st) = ws_senders st"
  "clients (handle_room_leave X c msg st) = clients st"
  "redis (handle_room_leave X c msg st) = redis st"
  "config (handle_room_leave X c msg st) = config st"
  "seq_counter (handle_room_leave X c msg st) = seq_counter st"
  "start_time (handle_room_leave X c msg st) = start_time st"
  "rate_limiter (handle_room_leave X c msg st) = rate_limiter st"
  "replay_buffer (handle_room_leave X c msg st) = replay_buffer st"
  "pending_removals (handle_room_leave X c msg st) = pending_removals st"
  "client_claims (handle_room_leave X c msg st) = client_claims st"
  "client_tenants (handle_room_leave X c msg st) = client_tenants st"
  "tenant_cache (handle_room_leave X c msg st) = tenant_cache st"
  "mailer (handle_room_leave X c msg st) = mailer st"
  "active_connections (handle_room_leave X c msg st) = active_connections st"
  "polling_receivers (handle_room_leave X c msg st) = polling_receivers st"
  "next_chan (handle_room_leave X c msg st) = next_chan st"
  by (simp_all add: handle_room_leave_def split: option.split)

lemma presence_update_frame [simp]:
  "ws_senders (handle_presence_update X c msg st) = ws_senders st"
  "clients (handle_presence_update X c msg st) = clients st"
  "redis (handle_presence_update X c msg st) = redis st"
  "config (handle_presence_update X c msg st) = config st"
  "seq_counter (handle_presence_update X c msg st) = seq_counter st"
  "start_time (handle_presence_update X c msg st) = start_time st"
  "rate_limiter (handle_presence_update X c msg st) = rate_limiter st"
  "replay_buffer (handle_presence_update X c msg st) = replay_buffer st"
  "pending_removals (handle_presence_update X c msg st) = pending_removals st"
  "client_claims (handle_presence_update X c msg st) = client_claims st"
  "client_tenants (handle_presence_update X c msg st) = client_tenants st"
  "tenant_cache (handle_presence_update X c msg st) = tenant_cache st"
  "mailer (handle_presence_update X c msg st) = mailer st"
  "active_connections (handle_presence_update X c msg st) = active_connections st"
  "polling_receivers (handle_presence_update X c msg st) = polling_receivers st"
  "next_chan (handle_presence_update X c msg st) = next_chan st"
  "rooms (handle_presence_update X c msg st) = rooms st"
  "client_rooms (handle_presence_update X c msg st) = client_rooms st"
  "webhook (handle_presence_update X c msg st) = webhook st"
  by (simp_all add: handle_presence_update_def store_presence_def Let_def split: option.split)

lemma senders_ok_handlers [simp]:
  "senders_ok st \<Longrightarrow> senders_ok (note_activity X c st)"
  "senders_ok st \<Longrightarrow> senders_ok (handle_heartbeat X c st)"
  "senders_ok st \<Longrightarrow> senders_ok (handle_data X c msg st)"
  "senders_ok st \<Longrightarrow> senders_ok (handle_room_join X c msg st)"
  "senders_ok st \<Longrightarrow> senders_ok (handle_room_leave X c msg st)"
  "senders_ok st \<Longrightarrow> senders_ok (handle_presence_update X c msg st)"
  by (erule senders_ok_cong; simp)+

lemma senders_ok_message: "senders_ok st \<Longrightarrow> senders_ok (handle_message X c msg st)"
  by (simp add: handle_message_def Let_def senders_ok_transmission split: MessageType.split)

subsection \<open>The connection counter\<close>

text \<open>The counter is the number of registered clients.\<close>

definition slots_counted :: "('r, 'g, 'v) app_state \<Rightarrow> bool" where
  "slots_counted st \<longleftrightarrow> dm_wf (clients st) \<and> unat (active_connections st) = dm_len (clients st)"

lemma slots_counted_cong:
  "slots_counted st \<Longrightarrow> clients st' = clients st \<Longrightarrow> active_connections st' = active_connections st \<Longrightarrow> slots_counted st'"
  by (simp add: slots_counted_def)

lemma slots_counted_drop [simp]:
  assumes "slots_counted st"
  shows "slots_counted (drop_client c st)"
proof (cases "dm_get (clients st) c")
  case None
  with assms show ?thesis by (simp add: drop_client_def)
next
  case (Some meta)
  have "Suc (dm_len (dm_remove c (clients st))) = unat (active_connections st)"
    using assms dm_len_remove_Some [OF _ Some] by (simp add: slots_counted_def)
  moreover from this have "active_connections st \<noteq> 0" by auto
  ultimately show ?thesis
    using assms Some by (simp add: slots_counted_def drop_client_def release_connection_slot_def unat_minus_one)
qed

lemma slots_counted_update:
  "slots_counted st \<Longrightarrow> dm_get (clients st) c = Some m \<Longrightarrow> slots_counted (st\<lparr>clients := dm_insert c m' (clients st)\<rparr>)"
  by (simp add: slots_counted_def dm_len_insert)

lemma slots_counted_handlers [simp]:
  "slots_counted st \<Longrightarrow> slots_counted (note_activity X c st)"
  "slots_counted st \<Longrightarrow> slots_counted (handle_heartbeat X c st)"
  "slots_counted st \<Longrightarrow> slots_counted (handle_data X c msg st)"
  "slots_counted st \<Longrightarrow> slots_counted (handle_room_join X c msg st)"
  "slots_counted st \<Longrightarrow> slots_counted (handle_room_leave X c msg st)"
  "slots_counted st \<Longrightarrow> slots_counted (handle_presence_update X c msg st)"
  by (simp add: note_activity_def slots_counted_update split: option.split)
    (simp add: handle_heartbeat_def slots_counted_update split: option.split,
     (erule slots_counted_cong; simp)+)

lemma slots_counted_remove_sender [simp]: "slots_counted (remove_sender c st) = slots_counted st"
  by (simp add: slots_counted_def)

lemma slots_counted_other [simp]:
  "slots_counted (redis_do f st) = slots_counted st"
  "slots_counted (send_to c d st) = slots_counted st"
  "slots_counted (tx_send tx d st) = slots_counted st"
  "slots_counted (emit_event e st) = slots_counted st"
  "slots_counted (st\<lparr>chans := ch\<rparr>) = slots_counted st"
  "slots_counted (send_leave_to_source X a b st) = slots_counted st"
  "slots_counted (queue_message_raw X a b st) = slots_counted st"
  by (simp_all add: slots_counted_def)

lemma slots_counted_transmission: "slots_counted st \<Longrightarrow> slots_counted (handle_transmission X msg st)"
  by (simp add: handle_transmission_def chan_send_def Let_def split: option.split)

lemma slots_counted_message: "slots_counted st \<Longrightarrow> slots_counted (handle_message X c msg st)"
  by (simp add: handle_message_def Let_def slots_counted_transmission split: MessageType.split)

subsection \<open>Tenants\<close>

text \<open>Every member of a room got there under a valid name in its own tenant's name space.\<close>

definition tenants_apart :: "('r, 'g, 'v) app_state \<Rightarrow> bool" where
  "tenants_apart st \<longleftrightarrow>
     (\<forall>c t. dm_get (client_tenants st) c = Some t \<longrightarrow> is_valid_identifier t) \<and>
     (\<forall>r. \<forall>c \<in> members st r. \<exists>n. is_valid_identifier n \<and> r = room_key st c n)"

lemma tenants_apart_shrink:
  assumes "tenants_apart st" "client_tenants st' = client_tenants st" "\<And>r. members st' r \<subseteq> members st r"
  shows "tenants_apart st'"
  using assms unfolding tenants_apart_def room_key_def by fastforce

lemma tenants_apart_join:
  assumes "tenants_apart st"
  shows "tenants_apart (handle_room_join X c msg st)"
proof (cases "\<exists>n. room msg = Some n \<and> is_valid_identifier n \<and> join_denial X c n st = None")
  case True
  then obtain n where n: "room msg = Some n" "is_valid_identifier n" "join_denial X c n st = None" by blast
  from join_granted(1) [OF n] have "members (handle_room_join X c msg st) r =
      (if r = room_key st c n then insert c (members st r) else members st r)" for r
    by (simp add: members_def)
  with assms n(2) show ?thesis
    unfolding tenants_apart_def room_key_def by (auto split: if_splits)
next
  case False
  from join_not_granted(1) [OF False] show ?thesis
    by (intro tenants_apart_shrink [OF assms]) (simp_all add: members_def)
qed

lemma tenants_apart_message:
  assumes "tenants_apart st"
  shows "tenants_apart (handle_message X c msg st)"
proof -
  have act: "tenants_apart (note_activity X c st)"
    by (rule tenants_apart_shrink [OF assms]) (simp_all add: members_def)
  have "tenants_apart (handle_room_leave X c m s)" "tenants_apart (handle_presence_update X c m s)"
    "tenants_apart (handle_transmission X m s)" "tenants_apart (handle_data X c m s)"
    "tenants_apart (handle_heartbeat X c s)" if "tenants_apart s" for m s
    using that members_remove [of X c]
    by (auto intro!: tenants_apart_shrink [OF that] simp: handle_room_leave_def members_def split: option.splits if_splits)
  with act assms tenants_apart_join [OF act] show ?thesis
    by (simp add: handle_message_def Let_def split: MessageType.split)
qed

text \<open>Messages of several clients, handled one after the other, each with its environment.\<close>

definition handle_all ::
  "(('r, 'g, 'v) ext \<times> string \<times> message) list \<Rightarrow> ('r, 'g, 'v) app_state \<Rightarrow> ('r, 'g, 'v) app_state" where
  "handle_all = fold (\<lambda>(X, c, m). handle_message X c m)"

interpretation mh: safe_system "\<lambda>(X, c, m). handle_message X c m"
  "\<lambda>st. rooms_ok st \<and> within_caps st \<and> senders_ok st \<and> tenants_apart st \<and> slots_counted st"
  by unfold_locales
    (auto simp: rooms_ok_message caps_message senders_ok_message tenants_apart_message slots_counted_message)

lemma inbox_activity [simp]: "inbox (note_activity X c st) d = inbox st d"
  by (rule inbox_cong) simp_all

lemma reachable_activity [simp]: "reachable_client (note_activity X c st) d = reachable_client st d"
  by (simp add: reachable_client_def split: option.split)

lemma inbox_replay_push [simp]: "inbox (replay_push X k n d st) e = inbox st e"
  by (simp add: replay_push_def)

lemma inbox_fan_out:
  "senders_ok st \<Longrightarrow> distinct ms \<Longrightarrow> inbox (fan_out c ms d st) e =
     inbox st e @ (if e \<in> set ms \<and> e \<noteq> c \<and> reachable_client st e then [d] else [])"
  by (simp add: fan_out_send_all inbox_send_all)

subsection \<open>DATA to a room\<close>

text \<open>The message as it is relayed.\<close>

definition stamped :: "('r, 'g, 'v) ext \<Rightarrow> string \<Rightarrow> ('r, 'g, 'v) app_state \<Rightarrow> message \<Rightarrow> message" where
  "stamped X c st msg = msg\<lparr>src := Some c, seq := Some (seq_counter st + 1), timestamp := Some (wall X)\<rparr>"

definition relay_to_room ::
  "('r, 'g, 'v) ext \<Rightarrow> string \<Rightarrow> string \<Rightarrow> bool \<Rightarrow> string \<Rightarrow> ('r, 'g, 'v) app_state \<Rightarrow> ('r, 'g, 'v) app_state" where
  "relay_to_room X c k recorded data st =
     (let seq_no = seq_counter st + 1;
          st1 = (note_activity X c st)\<lparr>seq_counter := seq_no\<rparr>;
          st2 = (case dm_get (rooms st) k of None \<Rightarrow> st1 | Some ms \<Rightarrow> fan_out c ms data st1)
      in if recorded then replay_push X k seq_no data st2 else st2)"

lemma data_room_state:
  assumes "cfg_enable_relay (config st)" "msg_type msg = DATA" "room msg = Some n" "is_valid_identifier n"
    and "\<forall>d \<in> set_option (dst msg). is_valid_identifier d"
  shows "handle_message X c msg st = relay_to_room X c (room_key st c n) (topic_class msg \<noteq> Some ''ephemeral'')
    (serialize_relay X (stamped X c st msg)) st"
proof -
  have "(case dst msg of Some d \<Rightarrow> \<not> is_valid_identifier d | None \<Rightarrow> False) = False"
    using assms(5) by (simp split: option.split)
  with assms(1-4) show ?thesis
    by (simp add: handle_message_def handle_data_def relay_to_room_def stamped_def Let_def room_key_def
        split: option.split)
qed

lemma data_room_inbox:
  assumes "senders_ok st" "rooms_ok st" "cfg_enable_relay (config st)"
    and "msg_type msg = DATA" "room msg = Some n" "is_valid_identifier n"
    and "\<forall>d \<in> set_option (dst msg). is_valid_identifier d"
  shows "inbox (handle_message X c msg st) d = inbox st d @
    (if d \<in> members st (room_key st c n) - {c} \<and> reachable_client st d
     then [serialize_relay X (msg\<lparr>src := Some c, seq := Some (seq_counter st + 1), timestamp := Some (wall X)\<rparr>)] else [])"
proof -
  let ?k = "room_key st c n" and ?frame = "serialize_relay X (stamped X c st msg)"
  let ?st = "(note_activity X c st)\<lparr>seq_counter := seq_counter st + 1\<rparr>"
  have ok: "senders_ok ?st" using assms(1) by simp
  have "distinct ms \<and> members st ?k = set ms" if "dm_get (rooms st) ?k = Some ms" for ms
    using assms(2) that by (auto simp: rooms_ok_def members_def)
  then have "inbox (case dm_get (rooms st) ?k of None \<Rightarrow> ?st | Some ms \<Rightarrow> fan_out c ms ?frame ?st) d =
      inbox st d @ (if d \<in> members st ?k - {c} \<and> reachable_client st d then [?frame] else [])"
    using ok by (simp add: inbox_fan_out members_None split: option.split)
  then show ?thesis
    by (simp add: data_room_state [OF assms(3-7)] relay_to_room_def Let_def flip: stamped_def)
qed

section \<open>Properties\<close>

text \<open>
  C8: Routing of the signaling messages (OFFER, ANSWER, CANDIDATE, ACK, LEAVE, EXPIRE) with a
  destination. A destination with a live channel gets exactly one frame, with the true sender as
  \<^verbatim>\<open>src\<close> whatever the client wrote there, nobody else gets anything and Redis is not touched. A
  destination without a channel has the frame queued in Redis, LEAVE and EXPIRE being dropped
  instead. A destination whose writer is dead is deregistered, and a live sender is told by a
  LEAVE in the name of the destination.
\<close>

theorem signaling_routing:
  fixes X :: "('r, 'g, 'v) ext" and st :: "('r, 'g, 'v) app_state" and c :: string
  assumes "senders_ok st" "msg_type msg \<in> {OFFER, ANSWER, CANDIDATE, ACK, LEAVE, EXPIRE}"
    and "dst msg = Some d" "d \<noteq> []"
  defines "st' \<equiv> handle_message X c msg st" and "frame \<equiv> serialize_relay X (msg\<lparr>src := Some c\<rparr>)"
  shows "(reachable_client st d \<longrightarrow>
      (\<forall>e. inbox st' e = inbox st e @ (if e = d then [frame] else [])) \<and> redis st' = redis st) \<and>
    (dm_get (ws_senders st) d = None \<longrightarrow> (\<forall>e. inbox st' e = inbox st e) \<and>
      redis st' = (if msg_type msg \<in> {LEAVE, EXPIRE} then redis st
                   else fst (add_message_to_queue (x_redis X) (wall X) d frame (redis st)))) \<and>
    (dm_get (ws_senders st) d = Some tx \<longrightarrow> \<not> ch_open (chans st tx) \<longrightarrow>
      dm_get (ws_senders st') d = None \<and> dm_get (clients st') d = None \<and>
      redis st' = fst (remove_client (x_redis X) d (redis st)) \<and>
      (reachable_client st c \<longrightarrow> inbox st' c = inbox st c @
         [serialize_relay X ((bare_message LEAVE None)\<lparr>src := Some d, dst := Some c\<rparr>)]))"
proof (rule conjI3; (intro impI)?)
  let ?st = "note_activity X c st"
  have st': "st' = handle_transmission X (msg\<lparr>src := Some c\<rparr>) ?st"
    using assms(2) by (auto simp: st'_def handle_message_def)
  have ok: "senders_ok ?st" using assms(1) by simp
  show "(\<forall>e. inbox st' e = inbox st e @ (if e = d then [frame] else [])) \<and> redis st' = redis st"
    if live: "reachable_client st d"
  proof -
    obtain tx where tx: "dm_get (ws_senders st) d = Some tx" "ch_open (chans st tx)"
      using live by (auto simp: reachable_client_def split: option.splits)
    then have "st' = send_to d frame ?st"
      using assms(3,4) by (simp add: st' frame_def handle_transmission_def or_empty_def chan_send_def send_to_def tx_send_def)
    with live show ?thesis by (simp add: inbox_send [OF ok])
  qed
  show "(\<forall>e. inbox st' e = inbox st e) \<and>
      redis st' = (if msg_type msg \<in> {LEAVE, EXPIRE} then redis st
                   else fst (add_message_to_queue (x_redis X) (wall X) d frame (redis st)))"
    if "dm_get (ws_senders st) d = None"
    using that assms(3,4)
    by (auto simp: st' frame_def handle_transmission_def or_empty_def queue_message_raw_def redis_do_def inbox_def
        split: option.split)
  show "dm_get (ws_senders st') d = None \<and> dm_get (clients st') d = None \<and>
      redis st' = fst (remove_client (x_redis X) d (redis st)) \<and>
      (reachable_client st c \<longrightarrow> inbox st' c = inbox st c @
         [serialize_relay X ((bare_message LEAVE None)\<lparr>src := Some d, dst := Some c\<rparr>)])"
    if dead: "dm_get (ws_senders st) d = Some tx" "\<not> ch_open (chans st tx)"
  proof -
    let ?gone = "redis_do (remove_client (x_redis X) d) (drop_client d (remove_sender d ?st))"
    have eq: "st' = send_to c (serialize_relay X ((bare_message LEAVE None)\<lparr>src := Some d, dst := Some c\<rparr>)) ?gone"
      using dead assms(3,4)
      by (simp add: st' handle_transmission_def or_empty_def chan_send_def send_leave_to_source_def)
    have gone: "senders_ok ?gone" by (rule senders_ok_cong [of "remove_sender d ?st"]) (simp_all add: ok)
    have other: "inbox ?gone c = inbox st c \<and> reachable_client ?gone c" if "reachable_client st c"
      using that dead by (auto simp: inbox_def reachable_client_def remove_sender_def split: option.splits)
    have "dm_get (ws_senders ?gone) d = None" "dm_get (clients ?gone) d = None"
      "redis ?gone = fst (remove_client (x_redis X) d (redis st))"
      by (simp_all add: remove_sender_def drop_client_def redis_do_def split: option.split)
    with other show ?thesis by (simp add: eq inbox_send [OF gone])
  qed
qed

theorem signaling_routing_witness:
  "let msg = (bare_message OFFER None)\<lparr>src := Some ''mallory'', dst := Some ''b''\<rparr>;
       st = demo_two default_config; st' = handle_message demo_ext ''a'' msg st
   in inbox st' ''b'' = inbox st ''b'' @ [serialize_relay demo_ext (msg\<lparr>src := Some ''a''\<rparr>)] \<and>
      inbox st' ''a'' = inbox st ''a''"
  using signaling_routing [OF demo_two_senders(1) [of default_config],
      of "(bare_message OFFER None)\<lparr>src := Some ''mallory'', dst := Some ''b''\<rparr>" "''b''" demo_ext "''a''"]
    demo_two_senders(3) [of default_config]
  by (simp add: bare_message_def)

text \<open>
  C7: DATA to a room, with the relay enabled. Exactly the members other than the sender that
  have a live channel receive it, once each; the frame carries the true sender, the next value of
  the global counter and the server's time; it is recorded for replay under the room's key
  unless its topic class is \<^verbatim>\<open>ephemeral\<close>.
\<close>

theorem data_room_fanout:
  fixes X :: "('r, 'g, 'v) ext" and st :: "('r, 'g, 'v) app_state" and c :: string
  assumes "senders_ok st" "rooms_ok st" "cfg_enable_relay (config st)"
    and "msg_type msg = DATA" "room msg = Some n" "is_valid_identifier n"
    and "\<forall>d \<in> set_option (dst msg). is_valid_identifier d"
  defines "st' \<equiv> handle_message X c msg st" and "k \<equiv> room_key st c n"
    and "frame \<equiv> serialize_relay X
      (msg\<lparr>src := Some c, seq := Some (seq_counter st + 1), timestamp := Some (wall X)\<rparr>)"
  shows "(inbox st' d = inbox st d @ (if d \<in> members st k - {c} \<and> reachable_client st d then [frame] else [])) \<and>
    seq_counter st' = seq_counter st + 1 \<and>
    (replay_buffer st' = (if topic_class msg = Some ''ephemeral'' then replay_buffer st
       else push (mono X) k (seq_counter st + 1) frame (replay_buffer st)))"
  unfolding st'_def k_def frame_def
  by (intro conjI, rule data_room_inbox [OF assms(1-7)])
    (simp_all add: data_room_state [OF assms(3-7)] relay_to_room_def Let_def replay_push_def stamped_def split: option.split)

text \<open>A client that is not in the room sends to it: both members receive the frame.\<close>

theorem data_room_fanout_witness:
  "let st = demo_lobby (default_config\<lparr>cfg_enable_relay := True\<rparr>);
       msg = (bare_message DATA None)\<lparr>room := Some ''lobby''\<rparr>;
       frame = serialize_relay demo_ext (msg\<lparr>src := Some ''x'', seq := Some 1, timestamp := Some 1000\<rparr>);
       st' = handle_message demo_ext ''x'' msg st
   in inbox st' ''a'' = inbox st ''a'' @ [frame] \<and> inbox st' ''b'' = inbox st ''b'' @ [frame]"
proof -
  let ?cfg = "default_config\<lparr>cfg_enable_relay := True\<rparr>"
  let ?msg = "(bare_message DATA None)\<lparr>room := Some ''lobby''\<rparr>"
  have valid: "is_valid_identifier ''lobby''" by code_simp
  have st: "cfg_enable_relay (config (demo_lobby ?cfg))" "seq_counter (demo_lobby ?cfg) = 0"
      "room_key (demo_lobby ?cfg) ''x'' ''lobby'' = ''lobby''" "wall demo_ext = 1000"
      "reachable_client (demo_lobby ?cfg) ''a''" "reachable_client (demo_lobby ?cfg) ''b''"
    using demo_two_senders(2,3) [of ?cfg]
    by (simp_all add: demo_lobby_def demo_two_def room_key_def namespace_room_def demo_ext_def)
  from data_room_fanout [OF demo_lobby_ok(2,1) st(1) _ _ valid, where msg = ?msg and c = "''x''" and X = demo_ext]
  show ?thesis
    by (simp add: bare_message_def st(2-) demo_lobby_members)
qed

text \<open>
  DATA to one peer, with the relay enabled and no room: that peer alone receives it if it has
  a live channel, stamped as in a room, and unless ephemeral it is recorded for replay under the
  peer's id whether or not the peer is connected.
\<close>

theorem data_peer_relay:
  fixes X :: "('r, 'g, 'v) ext" and st :: "('r, 'g, 'v) app_state" and c :: string
  assumes "senders_ok st" "cfg_enable_relay (config st)"
    and "msg_type msg = DATA" "room msg = None" "dst msg = Some d" "is_valid_identifier d"
  defines "st' \<equiv> handle_message X c msg st"
    and "frame \<equiv> serialize_relay X
      (msg\<lparr>src := Some c, seq := Some (seq_counter st + 1), timestamp := Some (wall X)\<rparr>)"
  shows "(inbox st' e = inbox st e @ (if e = d \<and> reachable_client st d then [frame] else [])) \<and>
    seq_counter st' = seq_counter st + 1 \<and>
    (replay_buffer st' = (if topic_class msg = Some ''ephemeral'' then replay_buffer st
       else push (mono X) d (seq_counter st + 1) frame (replay_buffer st)))"
proof (rule conjI3)
  let ?st = "(note_activity X c st)\<lparr>seq_counter := seq_counter st + 1\<rparr>"
  have eq: "st' = (if topic_class msg \<noteq> Some ''ephemeral''
      then replay_push X d (seq_counter st + 1) frame (send_to d frame ?st) else send_to d frame ?st)"
    using assms(2-6) by (simp add: st'_def frame_def handle_message_def handle_data_def Let_def)
  have ok: "senders_ok ?st" using assms(1) by simp
  show "inbox st' e = inbox st e @ (if e = d \<and> reachable_client st d then [frame] else [])"
    by (simp add: eq inbox_send [OF ok])
  show "seq_counter st' = seq_counter st + 1" by (simp add: eq)
  show "replay_buffer st' = (if topic_class msg = Some ''ephemeral'' then replay_buffer st
       else push (mono X) d (seq_counter st + 1) frame (replay_buffer st))"
    by (simp add: eq replay_push_def)
qed

theorem data_peer_relay_witness:
  "let st = demo_two (default_config\<lparr>cfg_enable_relay := True\<rparr>);
       msg = (bare_message DATA None)\<lparr>dst := Some ''b''\<rparr>; st' = handle_message demo_ext ''a'' msg st
   in length (inbox st' ''b'') = Suc (length (inbox st ''b'')) \<and> seq_counter st' = 1"
proof -
  let ?cfg = "default_config\<lparr>cfg_enable_relay := True\<rparr>"
  let ?msg = "(bare_message DATA None)\<lparr>dst := Some ''b''\<rparr>"
  have valid: "is_valid_identifier ''b''" by code_simp
  have st: "cfg_enable_relay (config (demo_two ?cfg))" "seq_counter (demo_two ?cfg) = 0"
    by (simp, simp add: demo_two_def)
  from data_peer_relay [OF demo_two_senders(1) st(1) _ _ _ valid, where msg = ?msg and c = "''a''" and X = demo_ext]
  show ?thesis by (simp add: bare_message_def st(2) demo_two_senders(3))
qed

text \<open>
  C4: The limits hold, the two room indexes agree, no room is empty and the connection counter is
  the number of registered clients, after any sequence of messages of any clients from a state
  where this is so: no member set grows past \<^verbatim>\<open>max_room_size\<close>, no client is in more than
  \<^verbatim>\<open>max_rooms_per_client\<close> rooms, and there are never more than \<^verbatim>\<open>max_total_rooms\<close> rooms.
\<close>

theorem messages_keep_limits:
  assumes "rooms_ok st" "within_caps st" "senders_ok st" "tenants_apart st" "slots_counted st"
  shows "rooms_ok (handle_all events st) \<and> within_caps (handle_all events st) \<and>
    slots_counted (handle_all events st)"
  using mh.run_safe [of st events] assms by (simp_all add: handle_all_def)

definition demo_relay_config :: config where
  "demo_relay_config = default_config\<lparr>cfg_enable_relay := True\<rparr>"

lemma demo_relay_values [simp]:
  "cfg_enable_relay demo_relay_config" "cfg_max_room_size demo_relay_config = 50"
  "cfg_max_rooms_per_client demo_relay_config = 32" "cfg_max_total_rooms demo_relay_config = 10000"
  "cfg_session_ttl demo_relay_config = 30000"
  by (simp_all add: demo_relay_config_def)

lemma demo_lobby_inv:
  "within_caps (demo_lobby demo_relay_config)" "tenants_apart (demo_lobby demo_relay_config)"
  "slots_counted (demo_lobby demo_relay_config)"
proof -
  have valid: "is_valid_identifier ''lobby''" by code_simp
  have mem: "members (demo_lobby demo_relay_config) r = (if r = ''lobby'' then {''a'', ''b''} else {})"
    "joined (demo_lobby demo_relay_config) c = (if c \<in> {''a'', ''b''} then {''lobby''} else {})" for r c
    by (simp_all add: members_def joined_def demo_lobby_def entry_set_def dm_get_def)
  show "within_caps (demo_lobby demo_relay_config)"
    by (simp add: within_caps_def mem) (simp add: demo_lobby_def dm_len_def)
  show "tenants_apart (demo_lobby demo_relay_config)"
    unfolding tenants_apart_def mem using valid
    by (auto simp: demo_lobby_def demo_two_def room_key_def namespace_room_def)
  show "slots_counted (demo_lobby demo_relay_config)"
    by (simp add: slots_counted_def demo_lobby_def demo_two_def dm_wf_def dm_keys_def dm_len_def)
qed

theorem messages_keep_limits_witness:
  "within_caps (handle_all [(demo_ext, ''c'', (bare_message RoomJoin None)\<lparr>room := Some ''lobby''\<rparr>)]
     (demo_lobby demo_relay_config))"
  using messages_keep_limits [OF demo_lobby_ok(1) demo_lobby_inv(1) demo_lobby_ok(2) demo_lobby_inv(2,3)] by blast

text \<open>
  C3: Room traffic stays within a tenant. From a state in which every member of a room joined it
  under its own tenant, after any sequence of messages, DATA and presence updates of a client
  for a room reach only clients of the same tenant (or of no tenant, if the sender has none).
\<close>

theorem room_traffic_stays_in_tenant:
  fixes X :: "('r, 'g, 'v) ext" and st :: "('r, 'g, 'v) app_state" and c :: string
  assumes "rooms_ok st" "within_caps st" "senders_ok st" "tenants_apart st" "slots_counted st"
    and "st1 = handle_all events st"
    and "msg_type msg \<in> {DATA, PresenceUpdate}" "room msg = Some n" "cfg_enable_relay (config st1)"
    and "inbox (handle_message X c msg st1) d \<noteq> inbox st1 d"
  shows "dm_get (client_tenants st1) d = dm_get (client_tenants st1) c"
proof -
  have inv: "rooms_ok st1" "senders_ok st1" "tenants_apart st1"
    using mh.run_safe [of st events] assms(1-6) by (simp_all add: handle_all_def)
  let ?k = "room_key st1 c n"
  obtain ms where ms: "dm_get (rooms st1) ?k = Some ms" "d \<in> set ms" "is_valid_identifier n"
  proof -
    have distinct: "distinct ms" if "dm_get (rooms st1) ?k = Some ms" for ms
      using inv(1) that by (auto simp: rooms_ok_def)
    show ?thesis
      using assms(7-10) that distinct inv(2)
      by (auto simp: handle_message_def handle_data_def handle_presence_update_def store_presence_def Let_def
          inbox_fan_out room_key_def split: if_splits option.splits)
  qed
  then have "d \<in> members st1 ?k" by (simp add: members_def)
  with inv(3) obtain n' where n': "is_valid_identifier n'" "?k = room_key st1 d n'"
    unfolding tenants_apart_def by blast
  have sep: "is_valid_identifier s \<Longrightarrow> TENANT_SEP \<notin> set s" for s
    by (simp add: valid_identifier_no_sep TENANT_SEP_def)
  have "\<forall>t \<in> set_option (dm_get (client_tenants st1) e). TENANT_SEP \<notin> set t" for e
    using inv(3) sep by (auto simp: tenants_apart_def)
  with namespace_room_inj [OF sep [OF ms(3)] sep [OF n'(1)]] n'(2) show ?thesis
    unfolding room_key_def by metis
qed

theorem room_traffic_stays_in_tenant_witness:
  "dm_get (client_tenants (demo_lobby demo_relay_config)) ''b'' =
     dm_get (client_tenants (demo_lobby demo_relay_config)) ''a''"
proof -
  let ?st = "demo_lobby demo_relay_config" and ?msg = "(bare_message DATA None)\<lparr>room := Some ''lobby''\<rparr>"
  have "is_valid_identifier ''lobby''" by code_simp
  moreover have "room_key ?st ''a'' ''lobby'' = ''lobby''" "reachable_client ?st ''b''"
    using demo_two_senders(3) [of demo_relay_config]
    by (simp_all add: demo_lobby_def demo_two_def room_key_def namespace_room_def)
  ultimately have "inbox (handle_message demo_ext ''a'' ?msg ?st) ''b'' \<noteq> inbox ?st ''b''"
    using inbox_fan_out [of "(note_activity demo_ext ''a'' ?st)\<lparr>seq_counter := seq_counter ?st + 1\<rparr>"
        "[''a'', ''b'']" "''a''" _ "''b''"] demo_lobby_ok(2) [of demo_relay_config]
    by (simp add: handle_message_def handle_data_def bare_message_def Let_def room_key_def demo_lobby_def dm_get_def)
  from room_traffic_stays_in_tenant [OF demo_lobby_ok(1) demo_lobby_inv(1) demo_lobby_ok(2) demo_lobby_inv(2,3),
      where events = "[]" and msg = ?msg and c = "''a''" and d = "''b''" and X = demo_ext] this
  show ?thesis by (simp add: handle_all_def bare_message_def)
qed

end
