(* ===== verification/Ws_Handler.thy ===== *)
theory Ws_Handler
  imports Message_Handler
begin

text \<open>
  \<^verbatim>\<open>src/handlers/mod.rs\<close> and \<^verbatim>\<open>src/handlers/ws.rs\<close>: the admission of a WebSocket connection, the
  start of its session (OPEN, gap notice, queued messages, restored rooms), one turn of its read
  loop, and the cleanup when the socket closes. The socket itself is outside the model: a refused
  connection is the frame it gets before it is closed, an accepted one the channel of its writer
  task.
\<close>

section \<open>Authentication\<close>

text \<open>Whether the connection may go on, and the state with the verified claims.\<close>

definition enforce_jwt ::
  "('r, 'g, 'v) ext \<Rightarrow> tenant option \<Rightarrow> string option \<Rightarrow> string \<Rightarrow> ('r, 'g, 'v) app_state \<Rightarrow>
     bool \<times> ('r, 'g, 'v) app_state" where
  "enforce_jwt X resolved_tenant jwt_param client_id st =
     (case effective_jwt_secret (Option.bind resolved_tenant tn_jwt_secret) (cfg_jwt_secret (config st)) of
        None \<Rightarrow> (True, st)
      | Some secret \<Rightarrow>
          (case validate_jwt (x_jwt X) secret (or_empty jwt_param) of
             None \<Rightarrow> (False, st)
           | Some claims \<Rightarrow>
               if (case resolved_tenant of
                     None \<Rightarrow> False | Some t \<Rightarrow> \<not> tid_matches (x_json X) claims (tn_id t))
               then (False, st)
               else (True, st\<lparr>client_claims := dm_insert client_id claims (client_claims st)\<rparr>)))"

text \<open>
  The tenant rule shared by the transports: \<open>None\<close> refuses the connection, otherwise the tenant
  if there is one.
\<close>

definition resolve_tenant ::
  "('r, 'g, 'v) ext \<Rightarrow> string option \<Rightarrow> ('r, 'g, 'v) app_state \<Rightarrow>
     tenant option option \<times> ('r, 'g, 'v) app_state" where
  "resolve_tenant X api_key st =
     (case api_key of
        Some k \<Rightarrow>
          let (t, cache) = resolve_api_key (x_redis X) (x_codec X) (x_sha256 X) (mono X) k (redis st) (tenant_cache st)
          in (case t of None \<Rightarrow> None | Some tn \<Rightarrow> Some (Some tn), st\<lparr>tenant_cache := cache\<rparr>)
      | None \<Rightarrow> (if cfg_require_api_key (config st) then None else Some None, st))"

section \<open>The session\<close>

record ws_query =
  q_id :: "string option"
  q_token :: "string option"
  q_key :: "string option"
  q_last_seq :: "u64 option"
  q_jwt :: "string option"
  q_api_key :: "string option"

datatype ws_outcome = Refused string | Connected nat

fun deliver_loop ::
  "('r, 'g, 'v) ext \<Rightarrow> nat \<Rightarrow> string list \<Rightarrow> ('r, 'g, 'v) app_state \<Rightarrow> ('r, 'g, 'v) app_state" where
  "deliver_loop X tx [] st = st"
| "deliver_loop X tx (msg_json # rest) st =
     (case x_de X msg_json of
        None \<Rightarrow> deliver_loop X tx rest st
      | Some msg \<Rightarrow>
          let (is_err, st') = chan_send tx (serialize_relay X msg) st
          in if is_err then st' else deliver_loop X tx rest st')"

definition deliver_queued_messages ::
  "('r, 'g, 'v) ext \<Rightarrow> string \<Rightarrow> nat \<Rightarrow> ('r, 'g, 'v) app_state \<Rightarrow> ('r, 'g, 'v) app_state" where
  "deliver_queued_messages X cid tx st =
     (let (r, res) = read_all_messages (x_redis X) (wall X) cid (redis st);
          st = st\<lparr>redis := r\<rparr>;
          msgs = (case res of Inl e \<Rightarrow> [] | Inr ms \<Rightarrow> ms)
      in if msgs = [] then st
         else redis_do (clear_message_queue (x_redis X) cid) (deliver_loop X tx msgs st))"

definition gap_frame :: "u64 \<Rightarrow> u64 \<Rightarrow> string" where
  "gap_frame oldest requested_seq =
     ''{\"type\":\"ERROR\",\"payload\":{\"msg\":\"REPLAY_GAP\",\"oldest_seq\":'' @ show_u64 oldest @
       '',\"requested_seq\":'' @ show_u64 requested_seq @ ''}}''"

definition send_gap_notice ::
  "string \<Rightarrow> nat \<Rightarrow> u64 option \<Rightarrow> ('r, 'g, 'v) app_state \<Rightarrow> ('r, 'g, 'v) app_state" where
  "send_gap_notice cid tx last_seq st =
     (case last_seq of
        None \<Rightarrow> st
      | Some requested_seq \<Rightarrow>
          (case oldest_seq cid (replay_buffer st) of
             None \<Rightarrow> st
           | Some oldest \<Rightarrow>
               if requested_seq < oldest then tx_send tx (gap_frame oldest requested_seq) st else st))"

definition send_restored_rooms ::
  "('r, 'g, 'v) ext \<Rightarrow> nat \<Rightarrow> string list \<Rightarrow> ('r, 'g, 'v) app_state \<Rightarrow> ('r, 'g, 'v) app_state" where
  "send_restored_rooms X tx restored_rooms st =
     fold (\<lambda>stored_key s. case dm_get (rooms s) stored_key of
             None \<Rightarrow> s
           | Some ms \<Rightarrow> tx_send tx (room_peers_frame X (room_display stored_key) ms) s)
       restored_rooms st"

definition run_client ::
  "('r, 'g, 'v) ext \<Rightarrow> string \<Rightarrow> u64 option \<Rightarrow> string list \<Rightarrow> ('r, 'g, 'v) app_state \<Rightarrow>
     nat \<times> ('r, 'g, 'v) app_state" where
  "run_client X cid last_seq restored_rooms st =
     (let (tx, st) = chan_new st;
          st = st\<lparr>ws_senders := dm_insert cid tx (ws_senders st)\<rparr>;
          st = tx_send tx (serialize_relay X (bare_message OPEN None)) st;
          st = send_gap_notice cid tx last_seq st;
          st = deliver_queued_messages X cid tx st;
          st = send_restored_rooms X tx restored_rooms st
      in (tx, emit_event (peer_connected (wall X) cid) st))"

section \<open>Admission\<close>

text \<open>The client is registered in memory, with its tenant if it has one.\<close>

definition register_in_memory ::
  "('r, 'g, 'v) ext \<Rightarrow> string \<Rightarrow> string \<Rightarrow> string option \<Rightarrow> ('r, 'g, 'v) app_state \<Rightarrow> ('r, 'g, 'v) app_state" where
  "register_in_memory X cid token tenant_id st =
     (let st = st\<lparr>clients := dm_insert cid (client_meta_new (wall X) token) (clients st)\<rparr>
      in case tenant_id of
           None \<Rightarrow> st
         | Some t \<Rightarrow> st\<lparr>client_tenants := dm_insert cid t (client_tenants st)\<rparr>)"

text \<open>A pending removal is cancelled: the client is put back into the recorded rooms.\<close>

definition restore_session ::
  "string \<Rightarrow> ('r, 'g, 'v) app_state \<Rightarrow> string list \<times> ('r, 'g, 'v) app_state" where
  "restore_session cid st =
     (case dm_get (pending_removals st) cid of
        None \<Rightarrow> ([], st)
      | Some p \<Rightarrow>
          (pr_rooms p,
           st\<lparr>pending_removals := dm_remove cid (pending_removals st),
              rooms := fold (\<lambda>r. entry_insert r cid) (pr_rooms p) (rooms st),
              client_rooms := dm_insert cid (hs_collect (pr_rooms p) []) (client_rooms st)\<rparr>))"

definition reconnect ::
  "('r, 'g, 'v) ext \<Rightarrow> string \<Rightarrow> string \<Rightarrow> u64 option \<Rightarrow> string option \<Rightarrow> ('r, 'g, 'v) app_state \<Rightarrow>
     ws_outcome \<times> ('r, 'g, 'v) app_state" where
  "reconnect X cid token last_seq tenant_id st =
     (let st = register_in_memory X cid token tenant_id st;
          (restored_rooms, st) = restore_session cid st;
          st = redis_do (set_last_ping (x_redis X) (wall X) cid (cfg_alive_timeout (config st))) st;
          (tx, st) = run_client X cid last_seq restored_rooms st
      in (Connected tx, st))"

definition connect_new ::
  "('r, 'g, 'v) ext \<Rightarrow> string \<Rightarrow> string \<Rightarrow> u64 option \<Rightarrow> string option \<Rightarrow> ('r, 'g, 'v) app_state \<Rightarrow>
     ws_outcome \<times> ('r, 'g, 'v) app_state" where
  "connect_new X cid token last_seq tenant_id st =
     (let (reserved, st) = try_reserve_connection_slot (cfg_concurrent_limit (config st)) st
      in if \<not> reserved then (Refused (make_error_json ConnectionLimitExceed), st)
         else
           let (r, res) = register_client (x_redis X) (wall X) cid token (cfg_alive_timeout (config st)) (redis st);
               st = st\<lparr>redis := r\<rparr>
           in case res of
                Inl e \<Rightarrow> (Refused (make_error_json InvalidWsParameters), release_connection_slot st)
              | Inr u \<Rightarrow>
                  let (tx, st) = run_client X cid last_seq [] (register_in_memory X cid token tenant_id st)
                  in (Connected tx, st))"

definition id_taken_frame :: "('r, 'g, 'v) ext \<Rightarrow> string" where
  "id_taken_frame X = serialize_relay X (bare_message IdTaken (Some ''{\"msg\":\"ID is taken\"}''))"

text \<open>The token the id is registered with, in memory or else in Redis (an error counts as none).\<close>

definition existing_token :: "('r, 'g, 'v) ext \<Rightarrow> string \<Rightarrow> ('r, 'g, 'v) app_state \<Rightarrow> string option" where
  "existing_token X cid st =
     (case dm_get (clients st) cid of
        Some meta \<Rightarrow> Some (cm_token meta)
      | None \<Rightarrow> (case get_client_token (x_redis X) cid (redis st) of Inl e \<Rightarrow> None | Inr t \<Rightarrow> t))"

text \<open>The checks that need no state but the configuration: parameters, identifiers, shared key.\<close>

definition check_params :: "('r, 'g, 'v) ext \<Rightarrow> ws_query \<Rightarrow> config \<Rightarrow> PeerError + string \<times> string" where
  "check_params X params cfg =
     (case (q_id params, q_token params, q_key params) of
        (Some cid, Some token, Some key) \<Rightarrow>
          if \<not> is_valid_identifier cid \<or> \<not> is_valid_identifier token then Inl InvalidWsParameters
          else if \<not> constant_time_str_eq (x_ct_eq X) key (cfg_key cfg) then Inl InvalidKey
          else Inr (cid, token)
      | _ \<Rightarrow> Inl InvalidWsParameters)"

text \<open>All checks up to the connection token: the client id, its token and its tenant, or the error.\<close>

definition authenticate ::
  "('r, 'g, 'v) ext \<Rightarrow> ws_query \<Rightarrow> ('r, 'g, 'v) app_state \<Rightarrow>
     (PeerError + string \<times> string \<times> tenant option) \<times> ('r, 'g, 'v) app_state" where
  "authenticate X params st =
     (case check_params X params (config st) of
        Inl e \<Rightarrow> (Inl e, st)
      | Inr (cid, token) \<Rightarrow>
          (case resolve_tenant X (q_api_key params) st of
             (None, st) \<Rightarrow> (Inl InvalidKey, st)
           | (Some resolved_tenant, st) \<Rightarrow>
               (case enforce_jwt X resolved_tenant (q_jwt params) cid st of
                  (False, st) \<Rightarrow> (Inl InvalidToken, st)
                | (True, st) \<Rightarrow> (Inr (cid, token, resolved_tenant), st))))"

definition handle_socket ::
  "('r, 'g, 'v) ext \<Rightarrow> ws_query \<Rightarrow> ('r, 'g, 'v) app_state \<Rightarrow> ws_outcome \<times> ('r, 'g, 'v) app_state" where
  "handle_socket X params st =
     (case authenticate X params st of
        (Inl e, st) \<Rightarrow> (Refused (make_error_json e), st)
      | (Inr (cid, token, resolved_tenant), st) \<Rightarrow>
          (case existing_token X cid st of
             Some stored_token \<Rightarrow>
               if token \<noteq> stored_token then (Refused (id_taken_frame X), st)
               else reconnect X cid token (q_last_seq params) (map_option tn_id resolved_tenant) st
           | None \<Rightarrow> connect_new X cid token (q_last_seq params) (map_option tn_id resolved_tenant) st))"

section \<open>The read loop\<close>

definition oversize_frame :: "usize \<Rightarrow> string" where
  "oversize_frame max_msg_size =
     ''{\"type\":\"ERROR\",\"payload\":{\"msg\":\"Message exceeds maximum size of '' @ show_u64 max_msg_size @
       '' bytes\"}}''"

definition rate_limited_frame :: string where
  "rate_limited_frame = ''{\"type\":\"ERROR\",\"payload\":{\"msg\":\"Rate limit exceeded\"}}''"

text \<open>The bucket a message counts against.\<close>

definition rate_bucket :: "MessageType \<Rightarrow> string option" where
  "rate_bucket t = (case t of OFFER \<Rightarrow> Some ''signaling'' | ANSWER \<Rightarrow> Some ''signaling''
     | CANDIDATE \<Rightarrow> Some ''signaling'' | DATA \<Rightarrow> Some ''data'' | _ \<Rightarrow> None)"

definition rate_check ::
  "('r, 'g, 'v) ext \<Rightarrow> string \<Rightarrow> MessageType \<Rightarrow> ('r, 'g, 'v) app_state \<Rightarrow> bool \<times> ('r, 'g, 'v) app_state" where
  "rate_check X cid t st =
     (case rate_bucket t of
        None \<Rightarrow> (True, st)
      | Some bucket \<Rightarrow>
          let limit = (if bucket = ''data'' then cfg_rate_limit_data (config st)
                       else cfg_rate_limit_signaling (config st));
              (ok, rl) = check_and_consume (x_gov X) (mono X) cid bucket limit (rate_limiter st)
          in (ok, st\<lparr>rate_limiter := rl\<rparr>))"

definition ws_text ::
  "('r, 'g, 'v) ext \<Rightarrow> string \<Rightarrow> nat \<Rightarrow> string \<Rightarrow> ('r, 'g, 'v) app_state \<Rightarrow> ('r, 'g, 'v) app_state" where
  "ws_text X cid tx text st =
     (if unat (cfg_max_message_size (config st)) < length text then
        tx_send tx (oversize_frame (cfg_max_message_size (config st))) st
      else case x_de X text of
        None \<Rightarrow> st
      | Some msg \<Rightarrow>
          let (allowed, st) = rate_check X cid (msg_type msg) st
          in if \<not> allowed then
               tx_send tx rate_limited_frame
                 (emit_event (rate_limited (wall X) cid
                    (if msg_type msg = DATA then ''data'' else ''signaling'')) st)
             else handle_message X cid msg st)"

section \<open>Closing\<close>

definition ws_cleanup ::
  "('r, 'g, 'v) ext \<Rightarrow> string \<Rightarrow> ('r, 'g, 'v) app_state \<Rightarrow> ('r, 'g, 'v) app_state" where
  "ws_cleanup X cid st =
     (let st = drop_client cid (remove_sender cid st);
          st = st\<lparr>client_claims := dm_remove cid (client_claims st)\<rparr>;
          st = st\<lparr>client_tenants := dm_remove cid (client_tenants st)\<rparr>;
          st = st\<lparr>rate_limiter := limiter_remove_client cid (rate_limiter st)\<rparr>;
          st = remove_client_from_all_rooms X cid st;
          st = redis_do (remove_client (x_redis X) cid) st
      in emit_event (peer_disconnected (wall X) cid) st)"

text \<open>Only the socket whose channel is the registered one cleans up; the writer is aborted anyway.\<close>

definition ws_close ::
  "('r, 'g, 'v) ext \<Rightarrow> string \<Rightarrow> nat \<Rightarrow> ('r, 'g, 'v) app_state \<Rightarrow> ('r, 'g, 'v) app_state" where
  "ws_close X cid tx st =
     (let should_remove = (dm_get (ws_senders st) cid = Some tx)
      in chan_close tx (if should_remove then ws_cleanup X cid st else st))"

section \<open>Lemmas\<close>

text \<open>The steps of a session start only send frames and talk to Redis.\<close>

lemma deliver_loop_frame_step:
  "(\<And>d s. f (snd (chan_send tx d s)) = f s) \<Longrightarrow> f (deliver_loop X tx ms st) = f st"
  by (induction ms arbitrary: st) (auto simp: case_prod_beta Let_def split: option.split)

lemma chan_send_frame [simp]:
  "ws_senders (snd (chan_send tx d st)) = ws_senders st"
  "clients (snd (chan_send tx d st)) = clients st"
  "redis (snd (chan_send tx d st)) = redis st"
  "config (snd (chan_send tx d st)) = config st"
  "rooms (snd (chan_send tx d st)) = rooms st"
  "client_rooms (snd (chan_send tx d st)) = client_rooms st"
  "seq_counter (snd (chan_send tx d st)) = seq_counter st"
  "start_time (snd (chan_send tx d st)) = start_time st"
  "rate_limiter (snd (chan_send tx d st)) = rate_limiter st"
  "replay_buffer (snd (chan_send tx d st)) = replay_buffer st"
  "pending_removals (snd (chan_send tx d st)) = pending_removals st"
  "presence (snd (chan_send tx d st)) = presence st"
  "client_claims (snd (chan_send tx d st)) = client_claims st"
  "client_tenants (snd (chan_send tx d st)) = client_tenants st"
  "tenant_cache (snd (chan_send tx d st)) = tenant_cache st"
  "mailer (snd (chan_send tx d st)) = mailer st"
  "webhook (snd (chan_send tx d st)) = webhook st"
  "active_connections (snd (chan_send tx d st)) = active_connections st"
  "polling_receivers (snd (chan_send tx d st)) = polling_receivers st"
  "next_chan (snd (chan_send tx d st)) = next_chan st"
  by (simp_all add: chan_send_def)

lemma deliver_loop_frame [simp]:
  "ws_senders (deliver_loop X tx ms st) = ws_senders st"
  "clients (deliver_loop X tx ms st) = clients st"
  "redis (deliver_loop X tx ms st) = redis st"
  "config (deliver_loop X tx ms st) = config st"
  "rooms (deliver_loop X tx ms st) = rooms st"
  "client_rooms (deliver_loop X tx ms st) = client_rooms st"
  "seq_counter (deliver_loop X tx ms st) = seq_counter st"
  "start_time (deliver_loop X tx ms st) = start_time st"
  "rate_limiter (deliver_loop X tx ms st) = rate_limiter st"
  "replay_buffer (deliver_loop X tx ms st) = replay_buffer st"
  "pending_removals (deliver_loop X tx ms st) = pending_removals st"
  "presence (deliver_loop X tx ms st) = presence st"
  "client_claims (deliver_loop X tx ms st) = client_claims st"
  "client_tenants (deliver_loop X tx ms st) = client_tenants st"
  "tenant_cache (deliver_loop X tx ms st) = tenant_cache st"
  "mailer (deliver_loop X tx ms st) = mailer st"
  "webhook (deliver_loop X tx ms st) = webhook st"
  "active_connections (deliver_loop X tx ms st) = active_connections st"
  "polling_receivers (deliver_loop X tx ms st) = polling_receivers st"
  "next_chan (deliver_loop X tx ms st) = next_chan st"
  by (simp_all add: deliver_loop_frame_step)

lemma deliver_queued_frame [simp]:
  "ws_senders (deliver_queued_messages X c tx st) = ws_senders st"
  "clients (deliver_queued_messages X c tx st) = clients st"
  "config (deliver_queued_messages X c tx st) = config st"
  "rooms (deliver_queued_messages X c tx st) = rooms st"
  "client_rooms (deliver_queued_messages X c tx st) = client_rooms st"
  "seq_counter (deliver_queued_messages X c tx st) = seq_counter st"
  "start_time (deliver_queued_messages X c tx st) = start_time st"
  "rate_limiter (deliver_queued_messages X c tx st) = rate_limiter st"
  "replay_buffer (deliver_queued_messages X c tx st) = replay_buffer st"
  "pending_removals (deliver_queued_messages X c tx st) = pending_removals st"
  "presence (deliver_queued_messages X c tx st) = presence st"
  "client_claims (deliver_queued_messages X c tx st) = client_claims st"
  "client_tenants (deliver_queued_messages X c tx st) = client_tenants st"
  "tenant_cache (deliver_queued_messages X c tx st) = tenant_cache st"
  "mailer (deliver_queued_messages X c tx st) = mailer st"
  "webhook (deliver_queued_messages X c tx st) = webhook st"
  "active_connections (deliver_queued_messages X c tx st) = active_connections st"
  "polling_receivers (deliver_queued_messages X c tx st) = polling_receivers st"
  "next_chan (deliver_queued_messages X c tx st) = next_chan st"
  by (simp_all add: deliver_queued_messages_def case_prod_beta Let_def)

lemma gap_notice_frame [simp]:
  "ws_senders (send_gap_notice c tx ls st) = ws_senders st"
  "clients (send_gap_notice c tx ls st) = clients st"
  "redis (send_gap_notice c tx ls st) = redis st"
  "config (send_gap_notice c tx ls st) = config st"
  "rooms (send_gap_notice c tx ls st) = rooms st"
  "client_rooms (send_gap_notice c tx ls st) = client_rooms st"
  "seq_counter (send_gap_notice c tx ls st) = seq_counter st"
  "start_time (send_gap_notice c tx ls st) = start_time st"
  "rate_limiter (send_gap_notice c tx ls st) = rate_limiter st"
  "replay_buffer (send_gap_notice c tx ls st) = replay_buffer st"
  "pending_removals (send_gap_notice c tx ls st) = pending_removals st"
  "presence (send_gap_notice c tx ls st) = presence st"
  "client_claims (send_gap_notice c tx ls st) = client_claims st"
  "client_tenants (send_gap_notice c tx ls st) = client_tenants st"
  "tenant_cache (send_gap_notice c tx ls st) = tenant_cache st"
  "mailer (send_gap_notice c tx ls st) = mailer st"
  "webhook (send_gap_notice c tx ls st) = webhook st"
  "active_connections (send_gap_notice c tx ls st) = active_connections st"
  "polling_receivers (send_gap_notice c tx ls st) = polling_receivers st"
  "next_chan (send_gap_notice c tx ls st) = next_chan st"
  by (simp_all add: send_gap_notice_def split: option.split)

lemma restored_rooms_frame_step:
  "(\<And>d s. f (tx_send tx d s) = f s) \<Longrightarrow> f (send_restored_rooms X tx rs st) = f st"
  unfolding send_restored_rooms_def by (rule fold_frame) (simp split: option.split)

lemma restored_rooms_frame [simp]:
  "ws_senders (send_restored_rooms X tx rs st) = ws_senders st"
  "clients (send_restored_rooms X tx rs st) = clients st"
  "redis (send_restored_rooms X tx rs st) = redis st"
  "config (send_restored_rooms X tx rs st) = config st"
  "rooms (send_restored_rooms X tx rs st) = rooms st"
  "client_rooms (send_restored_rooms X tx rs st) = client_rooms st"
  "seq_counter (send_restored_rooms X tx rs st) = seq_counter st"
  "start_time (send_restored_rooms X tx rs st) = start_time st"
  "rate_limiter (send_restored_rooms X tx rs st) = rate_limiter st"
  "replay_buffer (send_restored_rooms X tx rs st) = replay_buffer st"
  "pending_removals (send_restored_rooms X tx rs st) = pending_removals st"
  "presence (send_restored_rooms X tx rs st) = presence st"
  "client_claims (send_restored_rooms X tx rs st) = client_claims st"
  "client_tenants (send_restored_rooms X tx rs st) = client_tenants st"
  "tenant_cache (send_restored_rooms X tx rs st) = tenant_cache st"
  "mailer (send_restored_rooms X tx rs st) = mailer st"
  "webhook (send_restored_rooms X tx rs st) = webhook st"
  "active_connections (send_restored_rooms X tx rs st) = active_connections st"
  "polling_receivers (send_restored_rooms X tx rs st) = polling_receivers st"
  "next_chan (send_restored_rooms X tx rs st) = next_chan st"
  by (simp_all add: restored_rooms_frame_step)

lemma run_client_frame [simp]:
  "clients (snd (run_client X c ls rs st)) = clients st"
  "config (snd (run_client X c ls rs st)) = config st"
  "rooms (snd (run_client X c ls rs st)) = rooms st"
  "client_rooms (snd (run_client X c ls rs st)) = client_rooms st"
  "seq_counter (snd (run_client X c ls rs st)) = seq_counter st"
  "start_time (snd (run_client X c ls rs st)) = start_time st"
  "rate_limiter (snd (run_client X c ls rs st)) = rate_limiter st"
  "replay_buffer (snd (run_client X c ls rs st)) = replay_buffer st"
  "pending_removals (snd (run_client X c ls rs st)) = pending_removals st"
  "presence (snd (run_client X c ls rs st)) = presence st"
  "client_claims (snd (run_client X c ls rs st)) = client_claims st"
  "client_tenants (snd (run_client X c ls rs st)) = client_tenants st"
  "tenant_cache (snd (run_client X c ls rs st)) = tenant_cache st"
  "mailer (snd (run_client X c ls rs st)) = mailer st"
  "active_connections (snd (run_client X c ls rs st)) = active_connections st"
  "polling_receivers (snd (run_client X c ls rs st)) = polling_receivers st"
  by (simp_all add: run_client_def chan_new_def Let_def)

lemma run_client_tx [simp]: "fst (run_client X c ls rs st) = next_chan st"
  "ws_senders (snd (run_client X c ls rs st)) = dm_insert c (next_chan st) (ws_senders st)"
  "next_chan (snd (run_client X c ls rs st)) = Suc (next_chan st)"
  by (simp_all add: run_client_def chan_new_def Let_def)

lemma register_frame [simp]:
  "ws_senders (register_in_memory X c tok tid st) = ws_senders st"
  "redis (register_in_memory X c tok tid st) = redis st"
  "config (register_in_memory X c tok tid st) = config st"
  "rooms (register_in_memory X c tok tid st) = rooms st"
  "client_rooms (register_in_memory X c tok tid st) = client_rooms st"
  "seq_counter (register_in_memory X c tok tid st) = seq_counter st"
  "start_time (register_in_memory X c tok tid st) = start_time st"
  "rate_limiter (register_in_memory X c tok tid st) = rate_limiter st"
  "replay_buffer (register_in_memory X c tok tid st) = replay_buffer st"
  "pending_removals (register_in_memory X c tok tid st) = pending_removals st"
  "presence (register_in_memory X c tok tid st) = presence st"
  "client_claims (register_in_memory X c tok tid st) = client_claims st"
  "tenant_cache (register_in_memory X c tok tid st) = tenant_cache st"
  "mailer (register_in_memory X c tok tid st) = mailer st"
  "webhook (register_in_memory X c tok tid st) = webhook st"
  "active_connections (register_in_memory X c tok tid st) = active_connections st"
  "polling_receivers (register_in_memory X c tok tid st) = polling_receivers st"
  "chans (register_in_memory X c tok tid st) = chans st"
  "next_chan (register_in_memory X c tok tid st) = next_chan st"
  by (simp_all add: register_in_memory_def Let_def split: option.split)

lemma restore_frame [simp]:
  "ws_senders (snd (restore_session c st)) = ws_senders st"
  "clients (snd (restore_session c st)) = clients st"
  "redis (snd (restore_session c st)) = redis st"
  "config (snd (restore_session c st)) = config st"
  "seq_counter (snd (restore_session c st)) = seq_counter st"
  "start_time (snd (restore_session c st)) = start_time st"
  "rate_limiter (snd (restore_session c st)) = rate_limiter st"
  "replay_buffer (snd (restore_session c st)) = replay_buffer st"
  "presence (snd (restore_session c st)) = presence st"
  "client_claims (snd (restore_session c st)) = client_claims st"
  "client_tenants (snd (restore_session c st)) = client_tenants st"
  "tenant_cache (snd (restore_session c st)) = tenant_cache st"
  "mailer (snd (restore_session c st)) = mailer st"
  "webhook (snd (restore_session c st)) = webhook st"
  "active_connections (snd (restore_session c st)) = active_connections st"
  "polling_receivers (snd (restore_session c st)) = polling_receivers st"
  "chans (snd (restore_session c st)) = chans st"
  "next_chan (snd (restore_session c st)) = next_chan st"
  by (simp_all add: restore_session_def split: option.split)

lemma rate_check_frame [simp]:
  "ws_senders (snd (rate_check X c mt st)) = ws_senders st"
  "clients (snd (rate_check X c mt st)) = clients st"
  "redis (snd (rate_check X c mt st)) = redis st"
  "config (snd (rate_check X c mt st)) = config st"
  "rooms (snd (rate_check X c mt st)) = rooms st"
  "client_rooms (snd (rate_check X c mt st)) = client_rooms st"
  "seq_counter (snd (rate_check X c mt st)) = seq_counter st"
  "start_time (snd (rate_check X c mt st)) = start_time st"
  "replay_buffer (snd (rate_check X c mt st)) = replay_buffer st"
  "pending_removals (snd (rate_check X c mt st)) = pending_removals st"
  "presence (snd (rate_check X c mt st)) = presence st"
  "client_claims (snd (rate_check X c mt st)) = client_claims st"
  "client_tenants (snd (rate_check X c mt st)) = client_tenants st"
  "tenant_cache (snd (rate_check X c mt st)) = tenant_cache st"
  "mailer (snd (rate_check X c mt st)) = mailer st"
  "webhook (snd (rate_check X c mt st)) = webhook st"
  "active_connections (snd (rate_check X c mt st)) = active_connections st"
  "polling_receivers (snd (rate_check X c mt st)) = polling_receivers st"
  "chans (snd (rate_check X c mt st)) = chans st"
  "next_chan (snd (rate_check X c mt st)) = next_chan st"
  by (simp_all add: rate_check_def case_prod_beta Let_def split: option.split)

lemma resolve_tenant_frame [simp]:
  "ws_senders (snd (resolve_tenant X k st)) = ws_senders st"
  "clients (snd (resolve_tenant X k st)) = clients st"
  "redis (snd (resolve_tenant X k st)) = redis st"
  "config (snd (resolve_tenant X k st)) = config st"
  "rooms (snd (resolve_tenant X k st)) = rooms st"
  "client_rooms (snd (resolve_tenant X k st)) = client_rooms st"
  "seq_counter (snd (resolve_tenant X k st)) = seq_counter st"
  "start_time (snd (resolve_tenant X k st)) = start_time st"
  "rate_limiter (snd (resolve_tenant X k st)) = rate_limiter st"
  "replay_buffer (snd (resolve_tenant X k st)) = replay_buffer st"
  "pending_removals (snd (resolve_tenant X k st)) = pending_removals st"
  "presence (snd (resolve_tenant X k st)) = presence st"
  "client_claims (snd (resolve_tenant X k st)) = client_claims st"
  "client_tenants (snd (resolve_tenant X k st)) = client_tenants st"
  "mailer (snd (resolve_tenant X k st)) = mailer st"
  "webhook (snd (resolve_tenant X k st)) = webhook st"
  "active_connections (snd (resolve_tenant X k st)) = active_connections st"
  "polling_receivers (snd (resolve_tenant X k st)) = polling_receivers st"
  "chans (snd (resolve_tenant X k st)) = chans st"
  "next_chan (snd (resolve_tenant X k st)) = next_chan st"
  by (simp_all add: resolve_tenant_def case_prod_beta split: option.split)

lemma enforce_jwt_frame [simp]:
  "ws_senders (snd (enforce_jwt X tn jwt c st)) = ws_senders st"
  "clients (snd (enforce_jwt X tn jwt c st)) = clients st"
  "redis (snd (enforce_jwt X tn jwt c st)) = redis st"
  "config (snd (enforce_jwt X tn jwt c st)) = config st"
  "rooms (snd (enforce_jwt X tn jwt c st)) = rooms st"
  "client_rooms (snd (enforce_jwt X tn jwt c st)) = client_rooms st"
  "seq_counter (snd (enforce_jwt X tn jwt c st)) = seq_counter st"
  "start_time (snd (enforce_jwt X tn jwt c st)) = start_time st"
  "rate_limiter (snd (enforce_jwt X tn jwt c st)) = rate_limiter st"
  "replay_buffer (snd (enforce_jwt X tn jwt c st)) = replay_buffer st"
  "pending_removals (snd (enforce_jwt X tn jwt c st)) = pending_removals st"
  "presence (snd (enforce_jwt X tn jwt c st)) = presence st"
  "client_tenants (snd (enforce_jwt X tn jwt c st)) = client_tenants st"
  "tenant_cache (snd (enforce_jwt X tn jwt c st)) = tenant_cache st"
  "mailer (snd (enforce_jwt X tn jwt c st)) = mailer st"
  "webhook (snd (enforce_jwt X tn jwt c st)) = webhook st"
  "active_connections (snd (enforce_jwt X tn jwt c st)) = active_connections st"
  "polling_receivers (snd (enforce_jwt X tn jwt c st)) = polling_receivers st"
  "chans (snd (enforce_jwt X tn jwt c st)) = chans st"
  "next_chan (snd (enforce_jwt X tn jwt c st)) = next_chan st"
  by (simp_all add: enforce_jwt_def split: option.split)

lemma clients_register [simp]:
  "clients (register_in_memory X c tok tid st) = dm_insert c (client_meta_new (wall X) tok) (clients st)"
  by (simp add: register_in_memory_def Let_def split: option.split)

lemma senders_ok_run_client [simp]: "senders_ok st \<Longrightarrow> senders_ok (snd (run_client X c ls rs st))"
  unfolding senders_ok_def run_client_tx dm_get_insert
  by (metis less_SucI lessI less_irrefl option.inject)

subsection \<open>Restoring a session\<close>

lemma entry_set_fold_insert:
  "entry_set (fold (\<lambda>r. entry_insert r c) rs m) r = (if r \<in> set rs then insert c (entry_set m r) else entry_set m r)"
  by (induction rs arbitrary: m) auto

lemma rooms_fold_insert:
  assumes "dm_wf m" "\<forall>r ms. dm_get m r = Some ms \<longrightarrow> ms \<noteq> [] \<and> distinct ms"
  shows "dm_wf (fold (\<lambda>r. entry_insert r c) rs m)"
    and "dm_get (fold (\<lambda>r. entry_insert r c) rs m) r = Some ms \<Longrightarrow> ms \<noteq> [] \<and> distinct ms"
proof -
  let ?P = "\<lambda>m. dm_wf m \<and> (\<forall>r ms. dm_get m r = Some ms \<longrightarrow> ms \<noteq> [] \<and> distinct ms)"
  have "?P (fold (\<lambda>r. entry_insert r c) rs m)"
    by (rule fold_keeps) (use assms in \<open>auto simp: dm_get_entry_insert split: if_splits option.splits\<close>)
  then show "dm_wf (fold (\<lambda>r. entry_insert r c) rs m)"
    "dm_get (fold (\<lambda>r. entry_insert r c) rs m) r = Some ms \<Longrightarrow> ms \<noteq> [] \<and> distinct ms" by auto
qed

lemma rooms_ok_restore:
  assumes "rooms_ok st"
  shows "rooms_ok (snd (restore_session c st))"
proof (cases "dm_get (pending_removals st) c")
  case None
  with assms show ?thesis by (simp add: restore_session_def)
next
  case (Some p)
  let ?st' = "snd (restore_session c st)"
  have fields: "rooms ?st' = fold (\<lambda>r. entry_insert r c) (pr_rooms p) (rooms st)"
    "client_rooms ?st' = dm_insert c (hs_collect (pr_rooms p) []) (client_rooms st)"
    "pending_removals ?st' = dm_remove c (pending_removals st)"
    using Some by (simp_all add: restore_session_def)
  have old: "dm_wf (rooms st)" "dm_wf (client_rooms st)" "dm_wf (presence st)" "dm_wf (pending_removals st)"
    "\<forall>r ms. dm_get (rooms st) r = Some ms \<longrightarrow> ms \<noteq> [] \<and> distinct ms"
    "\<And>c rs. dm_get (client_rooms st) c = Some rs \<Longrightarrow> distinct rs"
    "\<And>c r. r \<in> joined st c \<Longrightarrow> c \<in> members st r"
    using assms by (auto simp: rooms_ok_def)
  have "\<forall>r ms. dm_get (rooms ?st') r = Some ms \<longrightarrow> ms \<noteq> [] \<and> distinct ms"
    using rooms_fold_insert(2) [OF old(1,5)] unfolding fields by blast
  moreover have "\<forall>d rs. dm_get (client_rooms ?st') d = Some rs \<longrightarrow> distinct rs"
    using old(6) by (simp add: fields)
  moreover have "d \<in> members ?st' r" if "r \<in> joined ?st' d" for d r
    using that old(7) [of r d]
    by (cases "d = c") (simp_all add: members_def joined_def fields entry_set_fold_insert)
  ultimately show ?thesis
    using old(2-4) rooms_fold_insert(1) [OF old(1,5)] by (simp add: rooms_ok_def fields)
qed

lemma members_restore:
  "members (snd (restore_session c st)) r = (if r \<in> pending st c then insert c (members st r) else members st r)"
  by (simp add: restore_session_def members_def pending_def entry_set_fold_insert split: option.split)

lemma joined_restore:
  "dm_get (pending_removals st) c \<noteq> None \<Longrightarrow> joined (snd (restore_session c st)) c = pending st c"
  by (auto simp: restore_session_def joined_def pending_def)

subsection \<open>Shapes of the outcomes\<close>

lemma reserve_cases:
  "try_reserve_connection_slot limit st =
     (if limit \<le> active_connections st then (False, st)
      else (True, st\<lparr>active_connections := active_connections st + 1\<rparr>))"
  by (simp add: try_reserve_connection_slot_def Let_def)

lemma connect_new_cases:
  obtains (full) "cfg_concurrent_limit (config st) \<le> active_connections st"
      "connect_new X c tok ls tid st = (Refused (make_error_json ConnectionLimitExceed), st)"
  | (error) r e where "active_connections st < cfg_concurrent_limit (config st)"
      "register_client (x_redis X) (wall X) c tok (cfg_alive_timeout (config st)) (redis st) = (r, Inl e)"
      "connect_new X c tok ls tid st = (Refused (make_error_json InvalidWsParameters), st\<lparr>redis := r\<rparr>)"
  | (ok) r where "active_connections st < cfg_concurrent_limit (config st)"
      "register_client (x_redis X) (wall X) c tok (cfg_alive_timeout (config st)) (redis st) = (r, Inr ())"
      "connect_new X c tok ls tid st = (Connected (next_chan st),
         snd (run_client X c ls [] (register_in_memory X c tok tid
           (st\<lparr>active_connections := active_connections st + 1, redis := r\<rparr>))))"
proof (cases "cfg_concurrent_limit (config st) \<le> active_connections st")
  case True
  then show ?thesis by (intro full) (simp_all add: connect_new_def reserve_cases)
next
  case False
  obtain r res where reg:
      "register_client (x_redis X) (wall X) c tok (cfg_alive_timeout (config st)) (redis st) = (r, res)"
    by (cases "register_client (x_redis X) (wall X) c tok (cfg_alive_timeout (config st)) (redis st)")
  show ?thesis
  proof (cases res)
    case (Inl e)
    have "connect_new X c tok ls tid st = (Refused (make_error_json InvalidWsParameters), st\<lparr>redis := r\<rparr>)"
      using False reg Inl by (simp add: connect_new_def reserve_cases release_connection_slot_def)
    with False reg Inl show ?thesis by (intro error) simp_all
  next
    case (Inr u)
    have "connect_new X c tok ls tid st = (Connected (next_chan st),
         snd (run_client X c ls [] (register_in_memory X c tok tid
           (st\<lparr>active_connections := active_connections st + 1, redis := r\<rparr>))))"
      using False reg Inr by (simp add: connect_new_def reserve_cases case_prod_beta)
    with False reg Inr show ?thesis by (intro ok) simp_all
  qed
qed

text \<open>The state a reconnection starts its session from, and the rooms it restores.\<close>

definition reconnect_state ::
  "('r, 'g, 'v) ext \<Rightarrow> string \<Rightarrow> string \<Rightarrow> string option \<Rightarrow> ('r, 'g, 'v) app_state \<Rightarrow> ('r, 'g, 'v) app_state" where
  "reconnect_state X c tok tid st =
     redis_do (set_last_ping (x_redis X) (wall X) c (cfg_alive_timeout (config st)))
       (snd (restore_session c (register_in_memory X c tok tid st)))"

lemma reconnect_eq:
  "reconnect X c tok ls tid st = (Connected (next_chan st),
     snd (run_client X c ls (fst (restore_session c (register_in_memory X c tok tid st)))
       (reconnect_state X c tok tid st)))"
  by (simp add: reconnect_def reconnect_state_def case_prod_beta Let_def)

subsection \<open>What the checks let through\<close>

lemma check_params_Inr:
  "check_params X q cfg = Inr (c, tok) \<longleftrightarrow>
     q_id q = Some c \<and> q_token q = Some tok \<and> is_valid_identifier c \<and> is_valid_identifier tok \<and>
     (\<exists>key. q_key q = Some key \<and> constant_time_str_eq (x_ct_eq X) key (cfg_key cfg))"
  by (auto simp: check_params_def split: option.splits if_splits)

lemma resolve_tenant_state: "\<exists>cache. snd (resolve_tenant X k st) = st\<lparr>tenant_cache := cache\<rparr>"
  by (auto simp: resolve_tenant_def case_prod_beta intro: exI [of _ "tenant_cache st"] split: option.split)

lemma enforce_jwt_state: "\<exists>claims. snd (enforce_jwt X t j c st) = st\<lparr>client_claims := claims\<rparr>"
  by (auto simp: enforce_jwt_def intro: exI [of _ "client_claims st"] split: option.split)

text \<open>Authentication writes only the tenant cache and the claims.\<close>

lemma authenticate_state:
  "\<exists>cache claims. snd (authenticate X q st) = st\<lparr>tenant_cache := cache, client_claims := claims\<rparr>"
proof -
  obtain rt st0 where rt: "resolve_tenant X (q_api_key q) st = (rt, st0)" by fastforce
  with resolve_tenant_state [of X "q_api_key q" st] obtain cache where st0: "st0 = st\<lparr>tenant_cache := cache\<rparr>"
    by auto
  let ?P = "\<lambda>s. \<exists>cache claims. s = st\<lparr>tenant_cache := cache, client_claims := claims\<rparr>"
  have jwt: "?P (snd (enforce_jwt X t j c st0))" for t j c
    using enforce_jwt_state [of X t j c st0] st0 by auto
  have base: "?P st" by (rule exI [of _ "tenant_cache st"], rule exI [of _ "client_claims st"]) simp
  have tenant: "?P st0"
    by (rule exI [of _ cache], rule exI [of _ "client_claims st"]) (simp add: st0)
  show ?thesis
  proof (cases "check_params X q (config st)")
    case (Inl e)
    with base show ?thesis by (simp add: authenticate_def)
  next
    case (Inr ct)
    obtain c tok where ct: "ct = (c, tok)" by fastforce
    show ?thesis
    proof (cases rt)
      case None
      with Inr ct rt tenant show ?thesis by (simp add: authenticate_def)
    next
      case (Some resolved)
      obtain ok st1 where e: "enforce_jwt X resolved (q_jwt q) c st0 = (ok, st1)" by fastforce
      with jwt [of resolved "q_jwt q" c] have "?P st1" by simp
      with Inr ct rt Some e show ?thesis by (cases ok) (simp_all add: authenticate_def)
    qed
  qed
qed

lemma authenticate_frame [simp]:
  "ws_senders (snd (authenticate X q st)) = ws_senders st"
  "clients (snd (authenticate X q st)) = clients st"
  "redis (snd (authenticate X q st)) = redis st"
  "config (snd (authenticate X q st)) = config st"
  "rooms (snd (authenticate X q st)) = rooms st"
  "client_rooms (snd (authenticate X q st)) = client_rooms st"
  "seq_counter (snd (authenticate X q st)) = seq_counter st"
  "start_time (snd (authenticate X q st)) = start_time st"
  "rate_limiter (snd (authenticate X q st)) = rate_limiter st"
  "replay_buffer (snd (authenticate X q st)) = replay_buffer st"
  "pending_removals (snd (authenticate X q st)) = pending_removals st"
  "presence (snd (authenticate X q st)) = presence st"
  "client_tenants (snd (authenticate X q st)) = client_tenants st"
  "mailer (snd (authenticate X q st)) = mailer st"
  "webhook (snd (authenticate X q st)) = webhook st"
  "active_connections (snd (authenticate X q st)) = active_connections st"
  "polling_receivers (snd (authenticate X q st)) = polling_receivers st"
  "chans (snd (authenticate X q st)) = chans st"
  "next_chan (snd (authenticate X q st)) = next_chan st"
  by (rule exE [OF authenticate_state [of X q st]], erule exE, simp)+

text \<open>A refused connection changes nothing but the tenant cache and the claims, or Redis.\<close>

lemma handle_socket_cases:
  obtains (refused) m st' where "handle_socket X q st = (Refused m, st')"
      "\<exists>cache claims r. st' = st\<lparr>redis := r, tenant_cache := cache, client_claims := claims\<rparr>"
  | (again) c tok resolved st1 where "authenticate X q st = (Inr (c, tok, resolved), st1)"
      "existing_token X c st = Some tok"
      "handle_socket X q st = reconnect X c tok (q_last_seq q) (map_option tn_id resolved) st1"
  | (new) c tok resolved st1 tx st' where "authenticate X q st = (Inr (c, tok, resolved), st1)"
      "existing_token X c st = None" "handle_socket X q st = (Connected tx, st')"
      "connect_new X c tok (q_last_seq q) (map_option tn_id resolved) st1 = (Connected tx, st')"
proof -
  obtain res st1 where auth: "authenticate X q st = (res, st1)" by fastforce
  with authenticate_state [of X q st] obtain cache claims
    where st1: "st1 = st\<lparr>tenant_cache := cache, client_claims := claims\<rparr>" by auto
  then have st1': "\<exists>cache claims r. st1 = st\<lparr>redis := r, tenant_cache := cache, client_claims := claims\<rparr>"
    by (intro exI [of _ cache] exI [of _ claims] exI [of _ "redis st"]) simp
  show ?thesis
  proof (cases res)
    case (Inl e)
    with auth have "handle_socket X q st = (Refused (make_error_json e), st1)" by (simp add: handle_socket_def)
    from refused [OF this st1'] show ?thesis .
  next
    case (Inr r)
    then obtain c tok resolved where res: "res = Inr (c, tok, resolved)" by (cases r) auto
    have tok: "existing_token X c st1 = existing_token X c st" by (simp add: existing_token_def st1 split: option.split)
    show ?thesis
    proof (cases "existing_token X c st")
      case None
      then have eq: "handle_socket X q st = connect_new X c tok (q_last_seq q) (map_option tn_id resolved) st1"
        using auth res tok by (simp add: handle_socket_def)
      show ?thesis
      proof (cases rule: connect_new_cases [of st1 X c tok "q_last_seq q" "map_option tn_id resolved"])
        case full
        with refused [OF _ st1'] eq show ?thesis by simp
      next
        case (error r e)
        have "\<exists>cache claims r'. st1\<lparr>redis := r\<rparr> = st\<lparr>redis := r', tenant_cache := cache, client_claims := claims\<rparr>"
          by (intro exI [of _ cache] exI [of _ claims] exI [of _ r]) (simp add: st1)
        with refused error(3) eq show ?thesis by metis
      next
        case (ok r)
        with new auth res None eq show ?thesis by simp
      qed
    next
      case (Some stored)
      show ?thesis
      proof (cases "tok = stored")
        case True
        with again auth res Some tok show ?thesis by (simp add: handle_socket_def)
      next
        case False
        with auth res Some tok have "handle_socket X q st = (Refused (id_taken_frame X), st1)"
          by (simp add: handle_socket_def)
        from refused [OF this st1'] show ?thesis .
      qed
    qed
  qed
qed

end
