(* ===== verification/Sessions.thy ===== *)
theory Sessions
  imports Ws_Handler
begin

text \<open>
  Properties of the WebSocket sessions of \<open>Ws_Handler\<close>: the invariants every handler keeps, who is
  admitted, what a client receives first, what closing a socket does, and how sessions behave
  across a disconnect.
\<close>

section \<open>Invariants\<close>

lemma rooms_ok_new_state [simp]:
  "rooms_ok (register_in_memory X c tok tid st) = rooms_ok st"
  "rooms_ok (snd (run_client X c ls rs st)) = rooms_ok st"
  "rooms_ok (snd (rate_check X c mt st)) = rooms_ok st"
  by (simp_all add: rooms_ok_def joined_def members_def)

lemma rooms_ok_reconnect_state: "rooms_ok st \<Longrightarrow> rooms_ok (reconnect_state X c tok tid st)"
  by (simp add: reconnect_state_def rooms_ok_restore)

lemma rooms_ok_refused:
  "\<exists>cache claims r. st' = st\<lparr>redis := r, tenant_cache := cache, client_claims := claims\<rparr> \<Longrightarrow>
     rooms_ok st' = rooms_ok st \<and> senders_ok st' = senders_ok st \<and> slots_counted st' = slots_counted st \<and>
     within_caps st' = within_caps st"
  by (elim exE) (simp add: rooms_ok_def senders_ok_def slots_counted_def joined_def members_def within_caps_def)

lemma authenticated: "authenticate X q st = (res, st1) \<Longrightarrow> st1 = snd (authenticate X q st)"
  by simp

lemma rooms_ok_socket:
  assumes "rooms_ok st"
  shows "rooms_ok (snd (handle_socket X q st))"
proof (cases rule: handle_socket_cases [of X q st])
  case (refused m st')
  with assms rooms_ok_refused [of st' st] show ?thesis by simp
next
  case (again c tok resolved st1)
  have "rooms_ok st1"
    unfolding authenticated [OF again(1)] by (rule rooms_ok_cong [OF assms]) simp_all
  with again show ?thesis by (simp add: reconnect_eq rooms_ok_reconnect_state)
next
  case (new c tok resolved st1 tx st')
  have "rooms_ok st1"
    unfolding authenticated [OF new(1)] by (rule rooms_ok_cong [OF assms]) simp_all
  with new show ?thesis
    by (cases rule: connect_new_cases [of st1 X c tok "q_last_seq q" "map_option tn_id resolved"]) auto
qed

lemma senders_ok_socket:
  assumes "senders_ok st"
  shows "senders_ok (snd (handle_socket X q st))"
proof (cases rule: handle_socket_cases [of X q st])
  case (refused m st')
  with assms rooms_ok_refused [of st' st] show ?thesis by simp
next
  case (again c tok resolved st1)
  have "senders_ok (reconnect_state X c tok (map_option tn_id resolved) st1)"
    unfolding authenticated [OF again(1)]
    by (rule senders_ok_cong [OF assms]) (simp_all add: reconnect_state_def)
  with again show ?thesis by (simp add: reconnect_eq)
next
  case (new c tok resolved st1 tx st')
  then obtain r where st': "st' = snd (run_client X c (q_last_seq q) [] (register_in_memory X c tok
      (map_option tn_id resolved) (st1\<lparr>active_connections := active_connections st1 + 1, redis := r\<rparr>)))"
    by (cases rule: connect_new_cases [of st1 X c tok "q_last_seq q" "map_option tn_id resolved"]) auto
  have "senders_ok (register_in_memory X c tok (map_option tn_id resolved)
      (st1\<lparr>active_connections := active_connections st1 + 1, redis := r\<rparr>))"
    unfolding authenticated [OF new(1)] by (rule senders_ok_cong [OF assms]) simp_all
  with new st' show ?thesis by simp
qed

lemma unat_succ_below: "unat (w + 1) = Suc (unat w)" if "w < v" for w v :: usize
proof -
  have "unat w < unat v" using that by (simp add: word_less_nat_alt)
  moreover have "unat v < 2 ^ 64" using unsigned_less [of v] by simp
  ultimately show ?thesis using unat_word_ariths(1) [of w 1] by simp
qed

text \<open>
  The connection counter stays exact, provided a token found in Redis belongs to a client that
  is registered in memory.
\<close>

lemma slots_counted_socket:
  assumes "slots_counted st"
    and "\<And>c. dm_get (clients st) c = None \<Longrightarrow> existing_token X c st = None"
  shows "slots_counted (snd (handle_socket X q st))"
proof (cases rule: handle_socket_cases [of X q st])
  case (refused m st')
  with assms(1) rooms_ok_refused [of st' st] show ?thesis by simp
next
  case (again c tok resolved st1)
  then obtain meta where "dm_get (clients st) c = Some meta" using assms(2) by fastforce
  with assms(1) again show ?thesis
    unfolding authenticated [OF again(1)]
    by (simp add: reconnect_eq reconnect_state_def slots_counted_def dm_len_insert)
next
  case (new c tok resolved st1 tx st')
  then have fresh: "dm_get (clients st) c = None" by (simp add: existing_token_def split: option.splits)
  from new obtain r where room: "active_connections st1 < cfg_concurrent_limit (config st1)"
    and st': "st' = snd (run_client X c (q_last_seq q) [] (register_in_memory X c tok
      (map_option tn_id resolved) (st1\<lparr>active_connections := active_connections st1 + 1, redis := r\<rparr>)))"
    by (cases rule: connect_new_cases [of st1 X c tok "q_last_seq q" "map_option tn_id resolved"]) auto
  have "unat (active_connections st1 + 1) = Suc (unat (active_connections st1))"
    using room by (rule unat_succ_below)
  with assms(1) fresh new(3) show ?thesis
    by (simp add: st' slots_counted_def authenticated [OF new(1)] dm_len_insert)
qed

lemma slots_counted_cleanup: "slots_counted st \<Longrightarrow> slots_counted (ws_cleanup X c st)"
proof -
  assume "slots_counted st"
  then have "slots_counted (drop_client c (remove_sender c st))" by simp
  moreover have "clients (remove_client_from_all_rooms X c s) = clients s"
    "active_connections (remove_client_from_all_rooms X c s) = active_connections s" for s :: "('a, 'b, 'c) app_state"
    by (simp_all add: remove_client_from_all_rooms_def immediate_remove_from_all_rooms_def forget_replay_def Let_def
        split: option.split)
  ultimately show ?thesis by (simp add: ws_cleanup_def Let_def slots_counted_def)
qed

lemma disconnect_frame [simp]:
  "ws_senders (remove_client_from_all_rooms X c st) = ws_senders st"
  "clients (remove_client_from_all_rooms X c st) = clients st"
  "redis (remove_client_from_all_rooms X c st) = redis st"
  "config (remove_client_from_all_rooms X c st) = config st"
  "seq_counter (remove_client_from_all_rooms X c st) = seq_counter st"
  "start_time (remove_client_from_all_rooms X c st) = start_time st"
  "rate_limiter (remove_client_from_all_rooms X c st) = rate_limiter st"
  "client_claims (remove_client_from_all_rooms X c st) = client_claims st"
  "client_tenants (remove_client_from_all_rooms X c st) = client_tenants st"
  "tenant_cache (remove_client_from_all_rooms X c st) = tenant_cache st"
  "mailer (remove_client_from_all_rooms X c st) = mailer st"
  "webhook (remove_client_from_all_rooms X c st) = webhook st"
  "active_connections (remove_client_from_all_rooms X c st) = active_connections st"
  "polling_receivers (remove_client_from_all_rooms X c st) = polling_receivers st"
  "next_chan (remove_client_from_all_rooms X c st) = next_chan st"
  by (simp_all add: remove_client_from_all_rooms_def immediate_remove_from_all_rooms_def forget_replay_def Let_def
      split: option.split)

lemma rooms_ok_cleanup_ws: "rooms_ok st \<Longrightarrow> rooms_ok (ws_cleanup X c st)"
  by (simp add: ws_cleanup_def Let_def rooms_ok_disconnect rooms_ok_cong [of st])

lemma rooms_ok_close: "rooms_ok st \<Longrightarrow> rooms_ok (ws_close X c tx st)"
  by (simp add: ws_close_def Let_def rooms_ok_cleanup_ws)

lemma senders_ok_close: "senders_ok st \<Longrightarrow> senders_ok (ws_close X c tx st)"
  by (auto simp: ws_close_def ws_cleanup_def Let_def senders_ok_def remove_sender_def)

lemma slots_counted_close: "slots_counted st \<Longrightarrow> slots_counted (ws_close X c tx st)"
  using slots_counted_cleanup [of st X c] by (simp add: ws_close_def Let_def slots_counted_def)

lemma rooms_ok_text: "rooms_ok st \<Longrightarrow> rooms_ok (ws_text X c tx text st)"
  by (simp add: ws_text_def case_prod_beta Let_def rooms_ok_message split: option.split)

lemma senders_ok_text: "senders_ok st \<Longrightarrow> senders_ok (ws_text X c tx text st)"
proof -
  assume ok: "senders_ok st"
  have "senders_ok (snd (rate_check X c mt st))" for mt by (rule senders_ok_cong [OF ok]) simp_all
  then have "senders_ok (handle_message X c m (snd (rate_check X c mt st)))" for m mt by (rule senders_ok_message)
  with ok show ?thesis
    by (simp add: ws_text_def case_prod_beta Let_def split: option.split) (simp add: senders_ok_def)
qed

lemma slots_counted_text: "slots_counted st \<Longrightarrow> slots_counted (ws_text X c tx text st)"
proof -
  assume ok: "slots_counted st"
  have "slots_counted (snd (rate_check X c mt st))" for mt by (rule slots_counted_cong [OF ok]) simp_all
  then have "slots_counted (handle_message X c m (snd (rate_check X c mt st)))" for m mt
    by (rule slots_counted_message)
  with ok show ?thesis
    by (simp add: ws_text_def case_prod_beta Let_def split: option.split) (simp add: slots_counted_def)
qed

section \<open>Admission\<close>

lemma tenants_register [simp]:
  "client_tenants (register_in_memory X c tok None st) = client_tenants st"
  "client_tenants (register_in_memory X c tok (Some t) st) = dm_insert c t (client_tenants st)"
  by (simp_all add: register_in_memory_def)

text \<open>What the three kinds of credentials have to satisfy.\<close>

definition tenant_accepted ::
  "('r, 'g, 'v) ext \<Rightarrow> ws_query \<Rightarrow> ('r, 'g, 'v) app_state \<Rightarrow> tenant option \<Rightarrow> bool" where
  "tenant_accepted X q st resolved =
     (case q_api_key q of
        None \<Rightarrow> \<not> cfg_require_api_key (config st) \<and> resolved = None
      | Some k \<Rightarrow> (case resolved of None \<Rightarrow> False | Some t \<Rightarrow> tn_active t \<and>
          fst (resolve_api_key (x_redis X) (x_codec X) (x_sha256 X) (mono X) k (redis st) (tenant_cache st)) = Some t))"

definition jwt_accepted ::
  "('r, 'g, 'v) ext \<Rightarrow> ws_query \<Rightarrow> ('r, 'g, 'v) app_state \<Rightarrow> tenant option \<Rightarrow> 'v option \<Rightarrow> bool" where
  "jwt_accepted X q st resolved claims =
     (case effective_jwt_secret (Option.bind resolved tn_jwt_secret) (cfg_jwt_secret (config st)) of
        None \<Rightarrow> claims = None
      | Some secret \<Rightarrow> claims \<noteq> None \<and> validate_jwt (x_jwt X) secret (or_empty (q_jwt q)) = claims \<and>
          (case resolved of None \<Rightarrow> True | Some t \<Rightarrow> tid_matches (x_json X) (the claims) (tn_id t)))"

lemma resolve_tenant_accepted:
  "fst (resolve_tenant X (q_api_key q) st) = Some resolved \<Longrightarrow> tenant_accepted X q st resolved"
  using resolve_active
  by (fastforce simp: resolve_tenant_def tenant_accepted_def case_prod_beta split: option.splits if_splits)

lemma enforce_jwt_accepted:
  assumes "enforce_jwt X resolved (q_jwt q) c st = (True, st1)"
  obtains claims where "jwt_accepted X q st resolved claims"
    "\<forall>v \<in> set_option claims. dm_get (client_claims st1) c = Some v"
  using assms
  by (auto simp: enforce_jwt_def jwt_accepted_def split: option.splits if_splits)

lemma authenticate_accepted:
  assumes "authenticate X q st = (Inr (c, tok, resolved), st1)"
  obtains claims where "check_params X q (config st) = Inr (c, tok)" "tenant_accepted X q st resolved"
    "jwt_accepted X q st resolved claims" "\<forall>v \<in> set_option claims. dm_get (client_claims st1) c = Some v"
proof -
  obtain rt st0 where rt: "resolve_tenant X (q_api_key q) st = (rt, st0)" by fastforce
  from assms have params: "check_params X q (config st) = Inr (c, tok)" and res: "rt = Some resolved"
    and jwt: "enforce_jwt X resolved (q_jwt q) c st0 = (True, st1)"
    by (auto simp: authenticate_def rt split: sum.splits option.splits prod.splits bool.splits)
  have "config st0 = config st" using rt resolve_tenant_frame(4) [of X "q_api_key q" st] by simp
  then have "jwt_accepted X q st0 = jwt_accepted X q st" by (simp add: jwt_accepted_def fun_eq_iff)
  with that params enforce_jwt_accepted [OF jwt] resolve_tenant_accepted [of X q st resolved] rt res
  show ?thesis by (metis fst_conv)
qed

lemma authenticate_id: "authenticate X q st = (Inr (c, tok, resolved), st1) \<Longrightarrow> q_id q = Some c"
  using authenticate_accepted [of X q st c tok resolved st1] by (metis check_params_Inr)

text \<open>
  C1: Nobody gets in without credentials. A connection that is accepted named a well-formed id
  and token and the shared key of the server; it presented the API key of an active tenant, or
  none where none is required; where a JWT secret is in force (the tenant's, else the server's)
  its JWT verified under that secret, matched the tenant, and its claims are the ones room joins
  are checked against; the id was free or registered with the same token. The client is then
  registered with its token, its tenant and the channel of the connection.
\<close>

theorem admission_requires_credentials:
  assumes "handle_socket X q st = (Connected tx, st')" "ct_eq_ok (x_ct_eq X)"
  shows "\<exists>c tok resolved claims. q_id q = Some c \<and> q_token q = Some tok \<and>
    is_valid_identifier c \<and> is_valid_identifier tok \<and> q_key q = Some (cfg_key (config st)) \<and>
    tenant_accepted X q st resolved \<and> jwt_accepted X q st resolved claims \<and>
    existing_token X c st \<in> {None, Some tok} \<and>
    dm_get (ws_senders st') c = Some tx \<and> map_option cm_token (dm_get (clients st') c) = Some tok \<and>
    (\<forall>t \<in> set_option resolved. dm_get (client_tenants st') c = Some (tn_id t)) \<and>
    (\<forall>v \<in> set_option claims. dm_get (client_claims st') c = Some v)"
proof -
  have reg: "dm_get (ws_senders st') c = Some tx \<and> map_option cm_token (dm_get (clients st') c) = Some tok \<and>
      (\<forall>t \<in> set_option resolved. dm_get (client_tenants st') c = Some (tn_id t)) \<and>
      client_claims st' = client_claims st1 \<and> existing_token X c st \<in> {None, Some tok}"
    if "authenticate X q st = (Inr (c, tok, resolved), st1)" for c tok resolved st1
  proof (cases rule: handle_socket_cases [of X q st])
    case (refused m st')
    with assms show ?thesis by simp
  next
    case (again c' tok' resolved' st1')
    with that assms(1) show ?thesis
      by (auto simp: reconnect_eq reconnect_state_def client_meta_new_def)
  next
    case (new c' tok' resolved' st1' tx' st'')
    with that assms(1) show ?thesis
      by (cases rule: connect_new_cases [of st1 X c tok "q_last_seq q" "map_option tn_id resolved"])
        (auto simp: client_meta_new_def)
  qed
  obtain c tok resolved st1 where auth: "authenticate X q st = (Inr (c, tok, resolved), st1)"
    using assms(1) by (auto simp: handle_socket_def split: prod.splits sum.splits)
  obtain claims where params: "check_params X q (config st) = Inr (c, tok)"
    and ok: "tenant_accepted X q st resolved" "jwt_accepted X q st resolved claims"
      "\<forall>v \<in> set_option claims. dm_get (client_claims st1) c = Some v"
    using authenticate_accepted [OF auth] by blast
  from params have "q_id q = Some c" "q_token q = Some tok" "is_valid_identifier c" "is_valid_identifier tok"
    "q_key q = Some (cfg_key (config st))"
    using constant_time_str_eq_iff [OF assms(2)] by (auto simp: check_params_Inr)
  moreover have "\<forall>v \<in> set_option claims. dm_get (client_claims st') c = Some v"
    using ok(3) reg [OF auth] by simp
  ultimately show ?thesis using ok(1,2) reg [OF auth] by blast
qed

lemma demo_ext_fields: "x_redis demo_ext = mem_api" "wall demo_ext = 1000" "mono demo_ext = 0"
  by (simp_all add: demo_ext_def)

definition demo_query :: ws_query where
  "demo_query = \<lparr>q_id = Some ''a'', q_token = Some ''ta'', q_key = Some ''dendri'', q_last_seq = None,
     q_jwt = None, q_api_key = None\<rparr>"

lemma demo_authenticate:
  assumes "cfg_key (config st) = ''dendri''" "cfg_jwt_secret (config st) = None" "\<not> cfg_require_api_key (config st)"
  shows "authenticate demo_ext demo_query st = (Inr (''a'', ''ta'', None), st)"
proof -
  have "is_valid_identifier ''a''" "is_valid_identifier ''ta''" by code_simp+
  with assms show ?thesis
    by (simp add: authenticate_def check_params_def demo_query_def constant_time_str_eq_def demo_ext_def
        resolve_tenant_def enforce_jwt_def effective_jwt_secret_def)
qed

lemma demo_connect:
  "\<exists>st'. handle_socket demo_ext demo_query (demo_state default_config) = (Connected 0, st')"
proof -
  have "existing_token demo_ext ''a'' (demo_state default_config) = None"
    by (simp add: existing_token_def get_client_token_def demo_ext_def mem_api_def mem_empty_def)
  moreover have "\<exists>st'. connect_new demo_ext ''a'' ''ta'' ls None (demo_state default_config) = (Connected 0, st')" for ls
    by (cases rule: connect_new_cases [of "demo_state default_config" demo_ext "''a''" "''ta''" ls None])
      (auto simp: register_client_def demo_ext_def mem_api_def)
  ultimately show ?thesis
    by (simp add: handle_socket_def demo_authenticate)
qed

theorem admission_requires_credentials_witness:
  "\<exists>st'. handle_socket demo_ext demo_query (demo_state default_config) = (Connected 0, st') \<and>
     (\<exists>c. q_id demo_query = Some c \<and> dm_get (ws_senders st') c = Some 0)"
proof -
  have "ct_eq_ok (x_ct_eq demo_ext)" by (simp add: ct_eq_ok_def demo_ext_def)
  with demo_connect admission_requires_credentials [of demo_ext demo_query "demo_state default_config" 0]
  show ?thesis by blast
qed

section \<open>What a client receives first\<close>

text \<open>Frames appended to one channel.\<close>

definition chan_append :: "nat \<Rightarrow> string list \<Rightarrow> (nat \<Rightarrow> channel) \<Rightarrow> nat \<Rightarrow> channel" where
  "chan_append tx fs ch = ch(tx := (ch tx)\<lparr>ch_queue := ch_queue (ch tx) @ fs\<rparr>)"

lemma chan_append_simps [simp]:
  "chan_append tx [] ch = ch" "chan_append tx gs (chan_append tx fs ch) = chan_append tx (fs @ gs) ch"
  "ch_open (chan_append tx fs ch t) = ch_open (ch t)"
  by (simp_all add: chan_append_def)

lemma chans_tx_send: "ch_open (chans st tx) \<Longrightarrow> chans (tx_send tx d st) = chan_append tx [d] (chans st)"
  by (simp add: tx_send_def chan_send_def chan_append_def)

lemma chans_deliver_loop:
  "ch_open (chans st tx) \<Longrightarrow> chans (deliver_loop X tx ms st) =
     chan_append tx (map (serialize_relay X) (List.map_filter (x_de X) ms)) (chans st)"
proof (induction ms arbitrary: st)
  case Nil
  then show ?case by simp
next
  case (Cons m ms)
  show ?case
  proof (cases "x_de X m")
    case None
    with Cons show ?thesis by simp
  next
    case (Some msg)
    have "chan_send tx (serialize_relay X msg) st = (False, tx_send tx (serialize_relay X msg) st)"
      using Cons.prems by (simp add: chan_send_def tx_send_def)
    with Some Cons.IH [of "tx_send tx (serialize_relay X msg) st"] Cons.prems show ?thesis
      by (simp add: chans_tx_send)
  qed
qed

text \<open>The messages Redis returns for a client, none where it answers with an error.\<close>

definition queued_messages :: "('r, 'g, 'v) ext \<Rightarrow> string \<Rightarrow> 'r \<Rightarrow> string list" where
  "queued_messages X c r = (case snd (read_all_messages (x_redis X) (wall X) c r) of Inl e \<Rightarrow> [] | Inr ms \<Rightarrow> ms)"

lemma chans_deliver_queued:
  "ch_open (chans st tx) \<Longrightarrow> chans (deliver_queued_messages X c tx st) =
     chan_append tx (map (serialize_relay X) (List.map_filter (x_de X) (queued_messages X c (redis st)))) (chans st)"
  by (simp add: deliver_queued_messages_def queued_messages_def case_prod_beta Let_def chans_deliver_loop)

definition gap_frames :: "u64 option \<Rightarrow> u64 option \<Rightarrow> string list" where
  "gap_frames last_seq oldest =
     (case (last_seq, oldest) of
        (Some l, Some first) \<Rightarrow> if l < first then [gap_frame first l] else []
      | _ \<Rightarrow> [])"

lemma chans_gap_notice:
  "ch_open (chans st tx) \<Longrightarrow>
     chans (send_gap_notice c tx ls st) = chan_append tx (gap_frames ls (oldest_seq c (replay_buffer st))) (chans st)"
  by (simp add: send_gap_notice_def gap_frames_def chans_tx_send split: option.split)

definition restored_frames :: "('r, 'g, 'v) ext \<Rightarrow> string list \<Rightarrow> (string, string hashset) dashmap \<Rightarrow> string list" where
  "restored_frames X rs tbl =
     List.map_filter (\<lambda>k. map_option (room_peers_frame X (room_display k)) (dm_get tbl k)) rs"

lemma chans_restored_rooms:
  "ch_open (chans st tx) \<Longrightarrow>
     chans (send_restored_rooms X tx rs st) = chan_append tx (restored_frames X rs (rooms st)) (chans st)"
proof (induction rs arbitrary: st)
  case Nil
  then show ?case by (simp add: send_restored_rooms_def restored_frames_def)
next
  case (Cons k rs)
  let ?st = "case dm_get (rooms st) k of None \<Rightarrow> st | Some ms \<Rightarrow> tx_send tx (room_peers_frame X (room_display k) ms) st"
  have step: "send_restored_rooms X tx (k # rs) st = send_restored_rooms X tx rs ?st"
    by (simp add: send_restored_rooms_def)
  have "ch_open (chans ?st tx)" using Cons.prems by (simp add: chans_tx_send split: option.split)
  from Cons.IH [OF this] Cons.prems show ?case
    unfolding step by (simp add: restored_frames_def chans_tx_send split: option.split)
qed

lemma chans_run_client:
  "chans (snd (run_client X c ls rs st)) = (chans st)(next_chan st := \<lparr>ch_queue =
     serialize_relay X (bare_message OPEN None) #
     gap_frames ls (oldest_seq c (replay_buffer st)) @
     map (serialize_relay X) (List.map_filter (x_de X) (queued_messages X c (redis st))) @
     restored_frames X rs (rooms st), ch_open = True\<rparr>)"
  by (simp add: run_client_def chan_new_def Let_def chans_tx_send chans_gap_notice chans_deliver_queued
      chans_restored_rooms) (simp add: chan_append_def)

text \<open>
  What a client receives when its session starts, in this order and on a channel of its own:
  OPEN; a REPLAY_GAP notice exactly when it asked for messages older than the oldest one still
  buffered; the messages queued for it, in the order Redis returns them, those that no longer
  parse left out; the current member list of every restored room. Nobody else receives anything.
\<close>

theorem session_start_frames:
  fixes X :: "('r, 'g, 'v) ext" and st :: "('r, 'g, 'v) app_state" and c :: string and ls :: "u64 option"
    and rs :: "string list"
  assumes "senders_ok st"
  defines "st' \<equiv> snd (run_client X c ls rs st)"
  shows "inbox st' c = serialize_relay X (bare_message OPEN None) #
      gap_frames ls (oldest_seq c (replay_buffer st)) @
      map (serialize_relay X) (List.map_filter (x_de X) (queued_messages X c (redis st))) @
      restored_frames X rs (rooms st) \<and>
    reachable_client st' c \<and>
    (d \<noteq> c \<longrightarrow> inbox st' d = inbox st d)"
proof (rule conjI3; (intro impI)?)
  show "inbox st' c = serialize_relay X (bare_message OPEN None) #
      gap_frames ls (oldest_seq c (replay_buffer st)) @
      map (serialize_relay X) (List.map_filter (x_de X) (queued_messages X c (redis st))) @
      restored_frames X rs (rooms st)"
    by (simp add: st'_def inbox_def chans_run_client)
  show "reachable_client st' c" by (simp add: st'_def reachable_client_def chans_run_client)
  show "inbox st' d = inbox st d" if "d \<noteq> c"
    using that assms(1)
    by (auto simp: st'_def inbox_def chans_run_client senders_ok_def split: option.split)
qed

theorem session_start_frames_witness:
  "inbox (snd (run_client demo_ext ''a'' (Some 3) [] (demo_state default_config))) ''a'' = [''OPEN'']"
proof -
  have "senders_ok (demo_state default_config)" by (simp add: senders_ok_def)
  from session_start_frames [OF this, of demo_ext "''a''" "Some 3" "[]"] show ?thesis
    by (simp add: gap_frames_def oldest_seq_def replay_new_def queued_messages_def read_all_messages_def
        restored_frames_def serialize_relay_def demo_ext_def mem_api_def mem_empty_def bare_message_def)
qed

section \<open>Closing a socket\<close>

lemma joined_disconnect [simp]: "joined (remove_client_from_all_rooms X c st) c = {}"
proof (cases "dm_get (client_rooms st) c")
  case None
  then show ?thesis
    by (simp add: remove_client_from_all_rooms_def immediate_remove_from_all_rooms_def forget_replay_def joined_def)
next
  case (Some rs)
  have "joined (st\<lparr>client_rooms := dm_remove c (client_rooms st)\<rparr>) c = {}" by (simp add: joined_def)
  with joined_remove_all_subset [of X c rs "st\<lparr>client_rooms := dm_remove c (client_rooms st)\<rparr>" c] Some
  show ?thesis
    by (simp add: remove_client_from_all_rooms_def immediate_remove_from_all_rooms_def forget_replay_def joined_def Let_def)
qed

text \<open>The state the room operations of a closing socket start from.\<close>

definition closing_state :: "string \<Rightarrow> ('r, 'g, 'v) app_state \<Rightarrow> ('r, 'g, 'v) app_state" where
  "closing_state c st = (drop_client c (remove_sender c st))
     \<lparr>client_claims := dm_remove c (client_claims st), client_tenants := dm_remove c (client_tenants st),
      rate_limiter := limiter_remove_client c (rate_limiter st)\<rparr>"

lemma ws_close_registered:
  "dm_get (ws_senders st) c = Some tx \<Longrightarrow> ws_close X c tx st =
     chan_close tx (emit_event (peer_disconnected (wall X) c)
       (redis_do (remove_client (x_redis X) c) (remove_client_from_all_rooms X c (closing_state c st))))"
  by (simp add: ws_close_def ws_cleanup_def closing_state_def Let_def)

lemma closing_rooms [simp]:
  "rooms (closing_state c st) = rooms st" "client_rooms (closing_state c st) = client_rooms st"
  "pending_removals (closing_state c st) = pending_removals st" "config (closing_state c st) = config st"
  "redis (closing_state c st) = redis st" "presence (closing_state c st) = presence st"
  "next_chan (closing_state c st) = next_chan st"
  by (simp_all add: closing_state_def)

lemma closing_members [simp]:
  "members (closing_state c st) r = members st r" "joined (closing_state c st) d = joined st d"
  "pending (closing_state c st) d = pending st d"
  by (simp_all add: members_def joined_def pending_def)

lemma limiter_remove_get:
  "dm_wf rl \<Longrightarrow> dm_get (limiter_remove_client c rl) (d, b) = (if d = c then None else dm_get rl (d, b))"
  by (simp add: limiter_remove_client_def dm_get_retain split: option.split)

lemma members_outer [simp]:
  "members (chan_close tx st) r = members st r" "members (emit_event e st) r = members st r"
  "members (redis_do f st) r = members st r"
  "joined (chan_close tx st) d = joined st d" "joined (emit_event e st) d = joined st d"
  "joined (redis_do f st) d = joined st d"
  "pending (chan_close tx st) d = pending st d" "pending (emit_event e st) d = pending st d"
  "pending (redis_do f st) d = pending st d"
  by (simp_all add: members_def joined_def pending_def)

lemma present_leave_all:
  "d \<noteq> c \<Longrightarrow> d \<in> members st r \<Longrightarrow> present (fold (remove_client_from_room X c) ks st) r d = present st r d"
  "present st r c = None \<or> (r \<in> set ks \<and> dm_get (rooms st) r \<noteq> None) \<Longrightarrow> present (fold (remove_client_from_room X c) ks st) r c = None"
proof -
  show "d \<noteq> c \<Longrightarrow> d \<in> members st r \<Longrightarrow> present (fold (remove_client_from_room X c) ks st) r d = present st r d"
  proof (induction ks arbitrary: st)
    case (Cons k ks)
    then have "d \<in> members (remove_client_from_room X c k st) r" by (auto simp: members_remove)
    with Cons present_leave(1) [of d c st r X k] show ?case by simp
  qed simp
  show "present (fold (remove_client_from_room X c) ks st) r c = None"
    if "present st r c = None \<or> (r \<in> set ks \<and> dm_get (rooms st) r \<noteq> None)"
    using that
  proof (induction ks arbitrary: st)
    case (Cons k ks)
    let ?st = "remove_client_from_room X c k st"
    have "present ?st r c = None \<or> (r \<in> set ks \<and> dm_get (rooms ?st) r \<noteq> None)"
      using Cons.prems present_leave(2) [of st k X c] present_leave(3) [of st r c X k] by (cases "r = k") (auto simp: rooms_remove)
    from Cons.IH [OF this] show ?case by simp
  qed simp
qed

lemma inbox_outer [simp]:
  "inbox (chan_close tx st) d = inbox st d" "inbox (emit_event e st) d = inbox st d" "inbox (redis_do f st) d = inbox st d"
  by (auto simp: inbox_def chan_close_def redis_do_def emit_event_def split: option.split)

lemma present_outer [simp]:
  "present (chan_close tx st) r d = present st r d" "present (emit_event e st) r d = present st r d"
  "present (redis_do f st) r d = present st r d" "present (closing_state c st) r d = present st r d"
  by (simp_all add: present_def)

lemma peers_frames_closing [simp]: "peers_frames X c d ks (closing_state c' st) = peers_frames X c d ks st"
  by (simp add: peers_frames_def)

lemma closing_others:
  assumes "d \<noteq> c"
  shows "inbox (closing_state c st) d = inbox st d" "reachable_client (closing_state c st) d = reachable_client st d"
  using assms by (simp_all add: inbox_def reachable_client_def closing_state_def remove_sender_def drop_client_def
      release_connection_slot_def split: option.split)

lemma closing_ok: "rooms_ok st \<Longrightarrow> rooms_ok (closing_state c st)" "senders_ok st \<Longrightarrow> senders_ok (closing_state c st)"
proof -
  show "rooms_ok st \<Longrightarrow> rooms_ok (closing_state c st)" by (rule rooms_ok_cong) simp_all
  show "senders_ok st \<Longrightarrow> senders_ok (closing_state c st)"
    by (auto simp: senders_ok_def closing_state_def remove_sender_def split: if_splits)
qed

lemma dm_remove_absent: "dm_get m k = None \<Longrightarrow> dm_remove k m = m"
  by (simp add: dm_get_def dm_remove_def map_of_eq_None_iff delete_id)

text \<open>The rooms of a client when its socket closes, without and with a grace period.\<close>

lemma leave_at_once:
  fixes X :: "('r, 'g, 'v) ext" and st :: "('r, 'g, 'v) app_state" and c :: string
  assumes "rooms_ok st" "senders_ok st" "cfg_session_ttl (config st) = 0"
  defines "st' \<equiv> remove_client_from_all_rooms X c st"
  shows "members st' = (\<lambda>r. members st r - (if r \<in> joined st c then {c} else {}))"
    and "pending_removals st' = pending_removals st"
    and "r \<in> joined st c \<Longrightarrow> present st' r c = None"
    and "d \<noteq> c \<Longrightarrow> d \<in> members st r \<Longrightarrow> present st' r d = present st r d"
    and "d \<noteq> c \<Longrightarrow> inbox st' d = inbox st d @ (if reachable_client st d
      then peers_frames X c d (case dm_get (client_rooms st) c of None \<Rightarrow> [] | Some rs \<Rightarrow> rs) st else [])"
proof -
  let ?rs = "case dm_get (client_rooms st) c of None \<Rightarrow> [] | Some rs \<Rightarrow> rs"
  let ?st = "st\<lparr>client_rooms := dm_remove c (client_rooms st)\<rparr>"
  have eq: "st' = forget_replay c (fold (remove_client_from_room X c) ?rs ?st)"
    using assms(3) by (simp add: st'_def remove_client_from_all_rooms_def immediate_remove_from_all_rooms_def dm_remove_absent split: option.split)
  have rs: "set ?rs = joined st c" by (simp add: joined_def entry_set_def split: option.split)
  have ok: "rooms_ok ?st" "senders_ok ?st" "distinct ?rs"
    using rooms_ok_drop_client [OF assms(1), of c] assms(1,2) by (auto simp: senders_ok_def rooms_ok_def split: option.split)
  have same: "inbox (forget_replay c s) d = inbox s d" "members (forget_replay c s) = members s"
    "present (forget_replay c s) r d = present s r d" "pending_removals (forget_replay c s) = pending_removals s" for s :: "('r, 'g, 'v) app_state" and d r
    by (simp_all add: forget_replay_def members_def present_def fun_eq_iff)
  have st: "inbox ?st d = inbox st d" "members ?st r = members st r" "present ?st r d = present st r d"
    "reachable_client ?st d = reachable_client st d" "peers_frames X c d ?rs ?st = peers_frames X c d ?rs st" for d r
    by (simp_all add: members_def present_def peers_frames_def)
  show "members st' = (\<lambda>r. members st r - (if r \<in> joined st c then {c} else {}))"
    by (simp add: eq same fun_eq_iff rr.mem_leave_all rs)
  show "pending_removals st' = pending_removals st" by (simp add: eq same)
  show "present st' r c = None" if "r \<in> joined st c"
  proof -
    from that assms(1) have "c \<in> members st r" unfolding rooms_ok_def by blast
    then have "dm_get (rooms ?st) r \<noteq> None" by (auto simp: members_def entry_set_def split: option.splits)
    with present_leave_all(2) [of ?st r c ?rs X] that rs show ?thesis by (simp only: eq same) blast
  qed
  show "present st' r d = present st r d" if "d \<noteq> c" "d \<in> members st r"
    using present_leave_all(1) [of d c ?st r X ?rs] that unfolding eq same st by blast
  show "inbox st' d = inbox st d @ (if reachable_client st d then peers_frames X c d ?rs st else [])" if "d \<noteq> c"
    using inbox_leave_all [OF ok(3,1,2) that, of X] by (simp only: eq same st)
qed

lemma leave_later:
  fixes X :: "('r, 'g, 'v) ext" and st :: "('r, 'g, 'v) app_state" and c :: string
  assumes "cfg_session_ttl (config st) \<noteq> 0"
  defines "st' \<equiv> remove_client_from_all_rooms X c st"
  shows "rooms st' = rooms st" "presence st' = presence st" "inbox st' d = inbox st d"
    and "pending st' = (if joined st c = {} then pending st else (pending st)(c := joined st c))"
  using assms(1) by (auto simp: st'_def remove_client_from_all_rooms_def forget_replay_def inbox_def pending_def joined_def
      entry_set_def Let_def fun_eq_iff split: option.split)

lemma joined_disconnect_all:
  "joined (remove_client_from_all_rooms X c st) = (joined st)(c := {})"
proof
  fix d
  have fold_other: "d \<noteq> c \<Longrightarrow> joined (fold (remove_client_from_room X c) ks s) d = joined s d" for ks and s :: "('a, 'b, 'c) app_state"
    by (induction ks arbitrary: s) (simp_all add: joined_def entry_set_def client_rooms_remove)
  show "joined (remove_client_from_all_rooms X c st) d = ((joined st)(c := {})) d"
  proof (cases "d = c")
    case False
    with fold_other show ?thesis
      by (simp add: remove_client_from_all_rooms_def immediate_remove_from_all_rooms_def forget_replay_def Let_def split: option.split)
        (simp add: joined_def)
  qed simp
qed

lemma replay_disconnect:
  "replay_buffer (remove_client_from_all_rooms X c st) = replay_remove_client c (replay_buffer st)"
  by (simp add: remove_client_from_all_rooms_def immediate_remove_from_all_rooms_def forget_replay_def Let_def split: option.split)

text \<open>
  C26: Closing the socket a client is registered with, exactly. Removed are its sender, metadata, claims,
  tenant, rate-limit buckets, replay log, room index and Redis entry; its slot is free and its channel closed.
  Of every other client the entries in these tables stay as they are. The polling receiver of the client, if it
  has one, stays. Without a grace period the client leaves each of its rooms: it is out of the membership and
  the presence data, everything else there stays, and every other reachable client gets one ROOM-PEERS frame
  for each room it shares with the client, listing those that are left, and nothing else. With a grace period
  membership and presence stay, the rooms are recorded as pending, and no other client gets any frame.
\<close>

theorem close_forgets_client:
  fixes X :: "('r, 'g, 'v) ext" and st :: "('r, 'g, 'v) app_state" and c :: string and tx :: nat
  assumes "rooms_ok st" "senders_ok st" "dm_get (ws_senders st) c = Some tx" "dm_wf (rate_limiter st)"
  defines "st' \<equiv> ws_close X c tx st"
  shows "(\<forall>d. dm_get (ws_senders st') d = (if d = c then None else dm_get (ws_senders st) d)) \<and>
    (\<forall>d. dm_get (clients st') d = (if d = c then None else dm_get (clients st) d)) \<and>
    (\<forall>d. dm_get (client_claims st') d = (if d = c then None else dm_get (client_claims st) d)) \<and>
    (\<forall>d. dm_get (client_tenants st') d = (if d = c then None else dm_get (client_tenants st) d)) \<and>
    (\<forall>d b. dm_get (rate_limiter st') (d, b) = (if d = c then None else dm_get (rate_limiter st) (d, b))) \<and>
    replay_buffer st' = replay_remove_client c (replay_buffer st) \<and>
    joined st' = (joined st)(c := {}) \<and>
    redis st' = fst (remove_client (x_redis X) c (redis st)) \<and>
    \<not> ch_open (chans st' tx) \<and>
    (slots_counted st \<longrightarrow> slots_counted st') \<and>
    polling_receivers st' = polling_receivers st \<and>
    (if cfg_session_ttl (config st) = 0 then
       members st' = (\<lambda>r. members st r - (if r \<in> joined st c then {c} else {})) \<and>
       pending_removals st' = pending_removals st \<and>
       (\<forall>r \<in> joined st c. present st' r c = None) \<and>
       (\<forall>r d. d \<in> members st r - {c} \<longrightarrow> present st' r d = present st r d) \<and>
       (\<forall>d. d \<noteq> c \<longrightarrow> inbox st' d = inbox st d @ (if reachable_client st d
          then peers_frames X c d (case dm_get (client_rooms st) c of None \<Rightarrow> [] | Some rs \<Rightarrow> rs) st else []))
     else
       rooms st' = rooms st \<and> presence st' = presence st \<and>
       pending st' = (if joined st c = {} then pending st else (pending st)(c := joined st c)) \<and>
       (\<forall>d. d \<noteq> c \<longrightarrow> inbox st' d = inbox st d))"
proof (intro conjI allI impI)
  let ?s = "closing_state c st"
  note eq = ws_close_registered [OF assms(3), of X, folded st'_def]
  show "dm_get (ws_senders st') d = (if d = c then None else dm_get (ws_senders st) d)"
    "dm_get (client_claims st') d = (if d = c then None else dm_get (client_claims st) d)"
    "dm_get (client_tenants st') d = (if d = c then None else dm_get (client_tenants st) d)"
    "redis st' = fst (remove_client (x_redis X) c (redis st))" "\<not> ch_open (chans st' tx)" for d
    by (simp_all add: eq closing_state_def remove_sender_def redis_do_def) (simp add: chan_close_def)
  show "dm_get (clients st') d = (if d = c then None else dm_get (clients st) d)" for d
    by (simp add: eq closing_state_def drop_client_def split: option.split)
  show "dm_get (rate_limiter st') (d, b) = (if d = c then None else dm_get (rate_limiter st) (d, b))" for d b
    using assms(4) by (simp add: eq closing_state_def limiter_remove_get)
  show "replay_buffer st' = replay_remove_client c (replay_buffer st)" by (simp add: eq replay_disconnect closing_state_def)
  show "joined st' = (joined st)(c := {})" by (simp add: eq joined_disconnect_all fun_eq_iff)
  show "slots_counted st \<Longrightarrow> slots_counted st'" unfolding st'_def by (rule slots_counted_close)
  show "polling_receivers st' = polling_receivers st" by (simp add: eq closing_state_def)
  have ok: "rooms_ok ?s" "senders_ok ?s" using assms(1,2) by (simp_all add: closing_ok)
  show "if cfg_session_ttl (config st) = 0 then
       members st' = (\<lambda>r. members st r - (if r \<in> joined st c then {c} else {})) \<and>
       pending_removals st' = pending_removals st \<and>
       (\<forall>r \<in> joined st c. present st' r c = None) \<and>
       (\<forall>r d. d \<in> members st r - {c} \<longrightarrow> present st' r d = present st r d) \<and>
       (\<forall>d. d \<noteq> c \<longrightarrow> inbox st' d = inbox st d @ (if reachable_client st d
          then peers_frames X c d (case dm_get (client_rooms st) c of None \<Rightarrow> [] | Some rs \<Rightarrow> rs) st else []))
     else
       rooms st' = rooms st \<and> presence st' = presence st \<and>
       pending st' = (if joined st c = {} then pending st else (pending st)(c := joined st c)) \<and>
       (\<forall>d. d \<noteq> c \<longrightarrow> inbox st' d = inbox st d)"
  proof (cases "cfg_session_ttl (config st) = 0")
    case True
    then have "cfg_session_ttl (config ?s) = 0" by simp
    note left = leave_at_once [OF ok this]
    with True show ?thesis by (simp add: eq fun_eq_iff closing_others)
  next
    case False
    then have "cfg_session_ttl (config ?s) \<noteq> 0" by simp
    note left = leave_later [OF this]
    with False show ?thesis by (simp add: eq fun_eq_iff closing_others)
  qed
qed

text \<open>Client \<open>a\<close> leaves the lobby at once, and \<open>b\<close> is told; or it may come back, and \<open>b\<close> hears nothing.\<close>

theorem close_forgets_client_witness:
  "let st = demo_lobby (default_config\<lparr>cfg_session_ttl := 0\<rparr>); st' = ws_close demo_ext ''a'' 0 st;
       gr = demo_lobby default_config; gr' = ws_close demo_ext ''a'' 0 gr
   in dm_get (clients st') ''a'' = None \<and> dm_get (clients st') ''b'' = Some (client_meta_new 0 ''tb'') \<and>
      members st' ''lobby'' = {''b''} \<and> inbox st' ''b'' = inbox st ''b'' @ [room_peers_frame demo_ext ''lobby'' [''b'']] \<and>
      members gr' ''lobby'' = {''a'', ''b''} \<and> pending gr' ''a'' = {''lobby''} \<and> inbox gr' ''b'' = inbox gr ''b''"
proof -
  let ?st = "\<lambda>cfg. demo_lobby cfg"
  have demo: "dm_get (ws_senders (?st cfg)) ''a'' = Some 0" "dm_wf (rate_limiter (?st cfg))"
    "dm_get (clients (?st cfg)) ''b'' = Some (client_meta_new 0 ''tb'')" "dm_get (client_rooms (?st cfg)) ''a'' = Some [''lobby'']"
    "dm_get (rooms (?st cfg)) ''lobby'' = Some [''a'', ''b'']" for cfg
    by (simp_all add: demo_lobby_def demo_two_def dm_get_def)
  have here: "reachable_client (?st cfg) ''b''" for cfg
    using demo_two_senders(3) [of cfg] by (simp add: demo_lobby_def)
  have frames: "peers_frames demo_ext ''a'' ''b'' [''lobby''] (?st cfg) = [room_peers_frame demo_ext ''lobby'' [''b'']]" for cfg
    by (simp add: peers_frames_def demo_lobby_members demo hs_remove_def room_display_def TENANT_SEP_def)
  have ttl: "cfg_session_ttl default_config \<noteq> 0" by (simp add: default_config_def)
  note now = close_forgets_client [OF demo_lobby_ok demo(1,2), of demo_ext "default_config\<lparr>cfg_session_ttl := 0\<rparr>"]
  note later = close_forgets_client [OF demo_lobby_ok demo(1,2), of demo_ext default_config]
  from later ttl have "rooms (ws_close demo_ext ''a'' 0 (?st default_config)) = rooms (?st default_config)" by simp
  then have "members (ws_close demo_ext ''a'' 0 (?st default_config)) ''lobby'' = {''a'', ''b''}"
    using demo_lobby_members(1) [of default_config] by (simp add: members_def)
  with now later ttl here frames demo show ?thesis by (simp add: demo_lobby_members Let_def)
qed

text \<open>
  A stale socket does no harm. When a client has connected again under the same id, the close
  of its earlier socket leaves everything alone but the earlier channel, and the new session
  stays reachable.
\<close>

theorem stale_close_keeps_session:
  assumes "senders_ok st" "dm_get (ws_senders st) c = Some old" "q_id q = Some c"
    and "handle_socket X q st = (Connected tx, st')"
  shows "old \<noteq> tx \<and>
    ws_close X' c old st' = chan_close old st' \<and>
    reachable_client (ws_close X' c old st') c"
proof (rule conjI3)
  obtain s ls rs where st': "st' = snd (run_client X c ls rs s)" "next_chan s = next_chan st" "tx = next_chan st"
  proof (cases rule: handle_socket_cases [of X q st])
    case (refused m s)
    with assms(4) show ?thesis by simp
  next
    case (again c' tok resolved st1)
    from again(1) have "c' = c" "next_chan st1 = next_chan st"
      using assms(3) authenticate_accepted [OF again(1)] authenticate_frame [of X q st]
      by (auto simp: check_params_Inr)
    with again assms(4) that show ?thesis by (auto simp: reconnect_eq reconnect_state_def)
  next
    case (new c' tok resolved st1 tx' s)
    from new(1) have "c' = c" "next_chan st1 = next_chan st"
      using assms(3) authenticate_accepted [OF new(1)] authenticate_frame [of X q st]
      by (auto simp: check_params_Inr)
    with new assms(4) that show ?thesis
      by (cases rule: connect_new_cases [of st1 X c' tok "q_last_seq q" "map_option tn_id resolved"]) auto
  qed
  from assms(1,2) have "old < next_chan st" by (simp add: senders_ok_def)
  then show "old \<noteq> tx" by (simp add: st'(3))
  then show close: "ws_close X' c old st' = chan_close old st'"
    by (auto simp: ws_close_def st')
  show "reachable_client (ws_close X' c old st') c"
    unfolding close using \<open>old \<noteq> tx\<close>
    by (simp add: reachable_client_def chan_close_def st'(1,2) chans_run_client) (simp add: st'(3))
qed

lemma demo_reconnect: "\<exists>st'. handle_socket demo_ext demo_query (demo_two default_config) = (Connected 2, st')"
proof -
  have "existing_token demo_ext ''a'' (demo_two default_config) = Some ''ta''"
    by (simp add: existing_token_def demo_two_def dm_get_def client_meta_new_def)
  moreover have "next_chan (demo_two default_config) = 2" by (simp add: demo_two_def)
  ultimately show ?thesis by (simp add: handle_socket_def demo_authenticate reconnect_eq)
qed

theorem stale_close_keeps_session_witness:
  "\<exists>st'. handle_socket demo_ext demo_query (demo_two default_config) = (Connected 2, st') \<and>
     reachable_client (ws_close demo_ext ''a'' 0 st') ''a''"
proof -
  have "dm_get (ws_senders (demo_two default_config)) ''a'' = Some 0" "q_id demo_query = Some ''a''"
    by (simp_all add: demo_two_def demo_query_def dm_get_def)
  with demo_reconnect stale_close_keeps_session [OF demo_two_senders(1)] show ?thesis by blast
qed

section \<open>Sessions across a disconnect\<close>

lemma joined_restore_other: "d \<noteq> c \<Longrightarrow> joined (snd (restore_session c st)) d = joined st d"
  by (simp add: restore_session_def joined_def split: option.split)

lemma pending_restore: "pending (snd (restore_session c st)) c = {}"
  by (simp add: restore_session_def pending_def split: option.split)

text \<open>
  C27: A pending session is restored when the client's token is still known: the client is back in
  exactly the rooms recorded at its disconnect, in both indexes, nobody else's membership changes,
  and nothing is pending for it any more.
\<close>

theorem pending_session_restored:
  assumes "handle_socket X q st = (Connected tx, st')" "q_id q = Some c"
    and "existing_token X c st \<noteq> None" "dm_get (pending_removals st) c \<noteq> None"
  shows "joined st' c = pending st c \<and>
    pending st' c = {} \<and>
    (members st' r = (if r \<in> pending st c then insert c (members st r) else members st r)) \<and>
    (d \<noteq> c \<longrightarrow> joined st' d = joined st d)"
proof (rule conjI4; (intro impI)?)
  obtain tok resolved st1 where auth: "authenticate X q st = (Inr (c, tok, resolved), st1)"
    and st': "st' = snd (run_client X c (q_last_seq q)
      (fst (restore_session c (register_in_memory X c tok (map_option tn_id resolved) st1)))
      (reconnect_state X c tok (map_option tn_id resolved) st1))"
  proof (cases rule: handle_socket_cases [of X q st])
    case (refused m s)
    with assms(1) show ?thesis by simp
  next
    case (again c' tok resolved st1)
    with authenticate_id [OF again(1)] assms(1,2) that [of tok resolved st1] show ?thesis
      by (simp add: reconnect_eq)
  next
    case (new c' tok resolved st1 tx' s)
    with authenticate_id [OF new(1)] assms(2,3) show ?thesis by simp
  qed
  let ?s = "register_in_memory X c tok (map_option tn_id resolved) st1"
  have same: "pending ?s e = pending st e" "joined ?s e = joined st e" "members ?s e = members st e"
    "pending_removals st1 = pending_removals st" for e
    unfolding authenticated [OF auth] by (simp_all add: pending_def joined_def members_def)
  have up: "joined st' e = joined (snd (restore_session c ?s)) e" "members st' e = members (snd (restore_session c ?s)) e"
    "pending st' e = pending (snd (restore_session c ?s)) e" for e
    by (simp_all add: st' reconnect_state_def pending_def joined_def members_def)
  show "joined st' c = pending st c" using joined_restore [of ?s c] assms(4) by (simp add: up same)
  show "pending st' c = {}"
    by (simp add: up pending_restore)
  show "members st' r = (if r \<in> pending st c then insert c (members st r) else members st r)"
    by (simp add: up same members_restore)
  show "joined st' d = joined st d" if "d \<noteq> c"
    using that by (simp add: up joined_restore_other same)
qed

theorem pending_session_restored_witness:
  "let st = (demo_two default_config)\<lparr>rooms := [(''lobby'', [''b''])],
         pending_removals := [(''a'', \<lparr>pr_rooms = [''lobby''], pr_disconnected_at = 0\<rparr>)]\<rparr>
   in \<exists>st'. handle_socket demo_ext demo_query st = (Connected 2, st') \<and> joined st' ''a'' = {''lobby''}"
proof -
  let ?st = "(demo_two default_config)\<lparr>rooms := [(''lobby'', [''b''])],
      pending_removals := [(''a'', \<lparr>pr_rooms = [''lobby''], pr_disconnected_at = 0\<rparr>)]\<rparr>"
  have tok: "existing_token demo_ext ''a'' ?st = Some ''ta''"
    by (simp add: existing_token_def demo_two_def dm_get_def client_meta_new_def)
  moreover have "next_chan ?st = 2" by (simp add: demo_two_def)
  ultimately obtain st' where st': "handle_socket demo_ext demo_query ?st = (Connected 2, st')"
    by (simp add: handle_socket_def demo_authenticate reconnect_eq)
  have "pending ?st ''a'' = {''lobby''}" "dm_get (pending_removals ?st) ''a'' \<noteq> None" "q_id demo_query = Some ''a''"
    by (simp_all add: pending_def dm_get_def demo_query_def)
  with pending_session_restored [OF st'] st' tok show ?thesis by (auto simp: Let_def)
qed

text \<open>
  What the two steps, a close with a grace period and a new connection of the same client, do
  when the close has reached Redis: the token is gone, so the second step does not find the
  session, the pending record stays, and the client stays a member without being indexed.
\<close>

lemma close_then_connect:
  assumes redis: "redis_pipe_ok (x_redis X) ex" "redis_frame_ok (x_redis X) ex" "redis_hash_ok (x_redis X) ex"
    and close: "dm_get (ws_senders st) c = Some tx" "joined st c \<noteq> {}" "cfg_session_ttl (config st) \<noteq> 0"
      "snd (remove_client (x_redis X) c (redis st)) = Inr ()"
    and connect: "handle_socket X' q (ws_close X c tx st) = (Connected tx', st')" "q_id q = Some c"
      "x_redis X' = x_redis X"
  shows "members st' = members st" "pending st' = (pending st)(c := joined st c)" "joined st' c = {}"
    and "map_option pr_disconnected_at (dm_get (pending_removals st') c) = Some (mono X)"
    and "dm_get (ws_senders st') c = Some tx'" "config st' = config st" "reachable_client st' c"
    and "d \<noteq> c \<Longrightarrow> dm_get (client_tenants st') d = dm_get (client_tenants st) d"
    and "d \<noteq> c \<Longrightarrow> dm_get (ws_senders st') d = dm_get (ws_senders st) d"
proof -
  let ?st1 = "ws_close X c tx st"
  let ?away = "remove_client_from_all_rooms X c (closing_state c st)"
  note eq1 = ws_close_registered [OF close(1), of X]
  have away: "members ?away = members st" "pending ?away = (pending st)(c := joined st c)"
    "map_option pr_disconnected_at (dm_get (pending_removals ?away) c) = Some (mono X)"
    using disconnect_outcome(3) [of "closing_state c st" c X] close(2,3)
    by (simp_all add: fun_eq_iff)
  have "snd (remove_client (x_redis X) c (redis ?away)) = Inr ()" using close(4) by simp
  then have "get_client_token (x_redis X) c (redis ?st1) = Inr None"
    using remove_then_no_token [OF redis, of c "redis ?away" "fst (remove_client (x_redis X) c (redis ?away))"]
    by (simp add: eq1 redis_do_def prod_eq_iff)
  moreover have "dm_get (clients ?st1) c = None"
    by (simp add: eq1 closing_state_def drop_client_def split: option.split)
  ultimately have none: "existing_token X' c ?st1 = None" by (simp add: existing_token_def connect(3))
  obtain tok resolved st1 r where auth: "authenticate X' q ?st1 = (Inr (c, tok, resolved), st1)" and
    st': "tx' = next_chan st1" "st' = snd (run_client X' c (q_last_seq q) [] (register_in_memory X' c tok
      (map_option tn_id resolved) (st1\<lparr>active_connections := active_connections st1 + 1, redis := r\<rparr>)))"
  proof (cases rule: handle_socket_cases [of X' q ?st1])
    case (refused m s)
    with connect(1) show ?thesis by simp
  next
    case (again c' tok resolved st1)
    with authenticate_id [OF again(1)] none connect(2) show ?thesis by simp
  next
    case (new c' tok resolved st1 tx'' s)
    have "c' = c" "s = st'" "tx'' = tx'" using authenticate_id [OF new(1)] connect(1,2) new(3) by simp_all
    with new(1,4) show ?thesis
      by (cases rule: connect_new_cases [of st1 X' c tok "q_last_seq q" "map_option tn_id resolved"])
        (auto intro: that)
  qed
  have st1: "rooms st1 = rooms ?st1" "client_rooms st1 = client_rooms ?st1"
    "pending_removals st1 = pending_removals ?st1" "ws_senders st1 = ws_senders ?st1" "config st1 = config ?st1"
    "client_tenants st1 = client_tenants ?st1"
    unfolding authenticated [OF auth] by simp_all
  have up: "members st' e = members ?st1 e" "pending st' e = pending ?st1 e" "joined st' e = joined ?st1 e" for e
    by (simp_all add: st' members_def pending_def joined_def st1)
  show "members st' = members st" "pending st' = (pending st)(c := joined st c)" "joined st' c = {}"
    using away by (simp_all add: fun_eq_iff up eq1)
  show "map_option pr_disconnected_at (dm_get (pending_removals st') c) = Some (mono X)"
    using away(3) by (simp add: st' st1 eq1)
  show "dm_get (ws_senders st') c = Some tx'" "config st' = config st" by (simp_all add: st' st1 eq1)
  show "reachable_client st' c" by (simp add: st' reachable_client_def chans_run_client)
  show "dm_get (client_tenants st') d = dm_get (client_tenants st) d" if "d \<noteq> c"
    using that by (cases resolved) (simp_all add: st' st1 eq1 closing_state_def)
  show "dm_get (ws_senders st') d = dm_get (ws_senders st) d" if "d \<noteq> c"
    using that by (simp add: st' st1 eq1 closing_state_def remove_sender_def)
qed

text \<open>
  The grace period is not honoured. When a client in some rooms closes its socket, the close
  reaches Redis, and the client connects again within the grace period, its session is not
  restored: it has a live channel, but no room in its index although it is still a member; and when
  the grace period of the first connection is over, the sweep throws the connected client out of
  all those rooms.
\<close>

theorem reconnect_within_grace_loses_rooms:
  fixes X'' :: "('r, 'g, 'v) ext"
  assumes redis: "redis_pipe_ok (x_redis X) ex" "redis_frame_ok (x_redis X) ex" "redis_hash_ok (x_redis X) ex"
    and close: "dm_get (ws_senders st) c = Some tx" "joined st c \<noteq> {}" "cfg_session_ttl (config st) \<noteq> 0"
      "snd (remove_client (x_redis X) c (redis st)) = Inr ()"
    and connect: "handle_socket X' q (ws_close X c tx st) = (Connected tx', st')" "q_id q = Some c"
      "x_redis X' = x_redis X"
    and ok: "rooms_ok st" and later: "mono X + duration_from_millis (cfg_session_ttl (config st)) \<le> mono X''"
  shows "dm_get (ws_senders st') c = Some tx' \<and>
    joined st' c = {} \<and>
    (\<forall>r \<in> joined st c. c \<in> members st' r) \<and>
    (\<forall>r \<in> joined st c. c \<notin> members (cleanup_expired_sessions X'' st') r)"
proof (rule conjI4)
  note after = close_then_connect [OF redis close connect]
  show "dm_get (ws_senders st') c = Some tx'" "joined st' c = {}" by (simp_all add: after)
  show "\<forall>r \<in> joined st c. c \<in> members st' r" using ok by (simp add: after rooms_ok_def)
  have "rooms_ok st'" using rooms_ok_socket [OF rooms_ok_close [OF ok], of X' q X c tx] connect(1) by simp
  moreover have "cfg_session_ttl (config st') \<noteq> 0" using close(3) by (simp add: after)
  moreover obtain p where "dm_get (pending_removals st') c = Some p" "pr_disconnected_at p = mono X"
    using after(4) by auto
  ultimately show "\<forall>r \<in> joined st c. c \<notin> members (cleanup_expired_sessions X'' st') r"
    using members_sweep [of st' X''] later
    by (auto simp: after session_over_def session_expired_def duration_since_def)
qed

lemma demo_close_connect:
  assumes "cfg = default_config \<or> cfg = demo_relay_config"
  shows "\<exists>st'. handle_socket demo_ext demo_query (ws_close demo_ext ''a'' 0 (demo_lobby cfg)) = (Connected 2, st')"
proof -
  let ?st = "demo_lobby cfg" and ?st1 = "ws_close demo_ext ''a'' 0 (demo_lobby cfg)"
  have a: "dm_get (ws_senders ?st) ''a'' = Some 0" by (simp add: demo_lobby_def demo_two_def dm_get_def)
  note eq = ws_close_registered [OF a, of demo_ext]
  have cfg: "config ?st1 = cfg" by (simp add: eq)
  have "dm_get (clients ?st1) ''a'' = None"
    by (simp add: eq closing_state_def drop_client_def split: option.split)
  moreover have "get_client_token (x_redis demo_ext) ''a'' (redis ?st1) = Inr None"
    unfolding eq demo_ext_fields by (simp add: redis_do_def get_client_token_def remove_client_def mem_api_def)
  ultimately have "existing_token demo_ext ''a'' ?st1 = None" by (simp add: existing_token_def)
  moreover have "authenticate demo_ext demo_query ?st1 = (Inr (''a'', ''ta'', None), ?st1)"
    by (rule demo_authenticate) (use assms in \<open>auto simp: cfg demo_relay_config_def\<close>)
  moreover have "active_connections ?st1 = 1" "next_chan ?st1 = 2"
    unfolding eq by (simp_all add: closing_state_def drop_client_def demo_lobby_def demo_two_def dm_get_def
        release_connection_slot_def remove_sender_def)
  moreover have "cfg_concurrent_limit cfg = 10000" using assms by (auto simp: demo_relay_config_def)
  ultimately show ?thesis
    by (cases rule: connect_new_cases [of ?st1 demo_ext "''a''" "''ta''" "q_last_seq demo_query" None])
      (auto simp: handle_socket_def cfg register_client_def demo_ext_fields mem_api_def word_le_nat_alt)
qed

lemma demo_lobby_sender: "dm_get (ws_senders (demo_lobby cfg)) ''a'' = Some 0"
    "snd (remove_client (x_redis demo_ext) ''a'' (redis (demo_lobby cfg))) = Inr ()"
    "redis_pipe_ok (x_redis demo_ext) mem_exec" "redis_frame_ok (x_redis demo_ext) mem_exec"
    "redis_hash_ok (x_redis demo_ext) mem_exec" "q_id demo_query = Some ''a''"
  using mem_api_ok mem_frame_ok
  by (simp_all add: demo_lobby_def demo_two_def dm_get_def remove_client_def demo_ext_def demo_query_def)
    (simp add: mem_api_def)

theorem reconnect_within_grace_loses_rooms_witness:
  "\<exists>st'. handle_socket demo_ext demo_query (ws_close demo_ext ''a'' 0 (demo_lobby default_config)) = (Connected 2, st') \<and>
     dm_get (ws_senders st') ''a'' = Some 2 \<and>
     ''a'' \<notin> members (cleanup_expired_sessions (demo_ext\<lparr>mono := 30000000000\<rparr>) st') ''lobby''"
proof -
  obtain st' where st': "handle_socket demo_ext demo_query
      (ws_close demo_ext ''a'' 0 (demo_lobby default_config)) = (Connected 2, st')"
    using demo_close_connect by blast
  have j: "joined (demo_lobby default_config) ''a'' \<noteq> {}" "cfg_session_ttl (config (demo_lobby default_config)) \<noteq> 0"
    by (simp_all add: demo_lobby_members)
  have later: "mono demo_ext + duration_from_millis (cfg_session_ttl (config (demo_lobby default_config)))
      \<le> mono (demo_ext\<lparr>mono := 30000000000\<rparr>)"
    by (simp add: duration_from_millis_def demo_ext_def)
  note run = reconnect_within_grace_loses_rooms [OF demo_lobby_sender(3-5) demo_lobby_sender(1) j demo_lobby_sender(2)
      st' demo_lobby_sender(6) refl demo_lobby_ok(1) later]
  from run st' show ?thesis by (auto simp: demo_lobby_members)
qed

text \<open>
  C40: Room traffic can cross tenants after all. A client of one tenant that closes its socket and
  connects again under another tenant's API key is still a member of its old rooms for the grace
  period, and receives what the first tenant's clients send there.
\<close>

theorem grace_period_crosses_tenants:
  fixes X'' :: "('r, 'g, 'v) ext"
  assumes redis: "redis_pipe_ok (x_redis X) ex" "redis_frame_ok (x_redis X) ex" "redis_hash_ok (x_redis X) ex"
    and close: "dm_get (ws_senders st) c = Some tx" "joined st c \<noteq> {}" "cfg_session_ttl (config st) \<noteq> 0"
      "snd (remove_client (x_redis X) c (redis st)) = Inr ()"
    and connect: "handle_socket X' q (ws_close X c tx st) = (Connected tx', st')" "q_id q = Some c"
      "x_redis X' = x_redis X"
    and ok: "rooms_ok st" "senders_ok st" "cfg_enable_relay (config st)"
    and sender: "s \<noteq> c" "dm_get (client_tenants st) s = Some t1" "room_key st s n \<in> joined st c"
      "dm_get (client_tenants st') c = Some t2" "t2 \<noteq> t1"
    and msg: "msg_type msg = DATA" "room msg = Some n" "is_valid_identifier n" "dst msg = None"
  shows "dm_get (client_tenants st') s = Some t1 \<and>
    inbox (handle_message X'' s msg st') c = inbox st' c @ [serialize_relay X''
      (msg\<lparr>src := Some s, seq := Some (seq_counter st' + 1), timestamp := Some (wall X'')\<rparr>)]"
proof (rule conjI)
  note after = close_then_connect [OF redis close connect]
  show tenant: "dm_get (client_tenants st') s = Some t1" using sender(1,2) by (simp add: after)
  have "rooms_ok st'" "senders_ok st'"
    using rooms_ok_socket [OF rooms_ok_close [OF ok(1)], of X' q X c tx]
      senders_ok_socket [OF senders_ok_close [OF ok(2)], of X' q X c tx] connect(1) by simp_all
  moreover have "room_key st' s n = room_key st s n" using tenant sender(2) by (simp add: room_key_def)
  moreover have "c \<in> members st' (room_key st s n)"
    using ok(1) sender(3) by (simp add: after rooms_ok_def)
  ultimately show "inbox (handle_message X'' s msg st') c = inbox st' c @ [serialize_relay X''
      (msg\<lparr>src := Some s, seq := Some (seq_counter st' + 1), timestamp := Some (wall X'')\<rparr>)]"
    using data_room_inbox [of st' msg n X'' s c] ok(3) msg sender(1) by (simp add: after)
qed

text \<open>Two clients of tenant \<open>t_2\<close> in its lobby, and a store with the key of tenant \<open>t_1\<close>.\<close>

definition demo_hosted :: "(mem_redis, nat, demo_json) app_state" where
  "demo_hosted = (demo_two demo_relay_config)\<lparr>
     redis := fst (create_tenant mem_api demo_codec demo_sha demo_tenant ''dk_0'' mem_empty),
     rooms := [(namespace_room (Some ''t_2'') ''lobby'', [''a'', ''b''])],
     client_rooms := [(''a'', [namespace_room (Some ''t_2'') ''lobby''])],
     client_tenants := [(''a'', ''t_2''), (''b'', ''t_2'')]\<rparr>"

lemma demo_hosted_ok: "rooms_ok demo_hosted" "senders_ok demo_hosted"
    "joined demo_hosted ''a'' = {namespace_room (Some ''t_2'') ''lobby''}"
    "dm_get (ws_senders demo_hosted) ''a'' = Some 0" "config demo_hosted = demo_relay_config"
    "dm_get (client_tenants demo_hosted) ''b'' = Some ''t_2''"
proof -
  show "senders_ok demo_hosted" by (rule senders_ok_cong [OF demo_two_senders(1) [of demo_relay_config]]) (simp_all add: demo_hosted_def)
  show "rooms_ok demo_hosted"
    by (auto simp: rooms_ok_def joined_def members_def demo_hosted_def demo_two_def entry_set_def dm_get_def dm_wf_def
        dm_keys_def split: if_splits)
qed (simp_all add: demo_hosted_def demo_two_def joined_def entry_set_def dm_get_def)

lemma demo_hosted_connect:
  "\<exists>st'. handle_socket demo_ext (demo_query\<lparr>q_api_key := Some ''dk_0''\<rparr>) (ws_close demo_ext ''a'' 0 demo_hosted) =
     (Connected 2, st') \<and> dm_get (client_tenants st') ''a'' = Some ''t_1''"
proof -
  let ?q = "demo_query\<lparr>q_api_key := Some ''dk_0''\<rparr>" and ?st1 = "ws_close demo_ext ''a'' 0 demo_hosted"
  note eq = ws_close_registered [OF demo_hosted_ok(4), of demo_ext]
  have cfg: "config ?st1 = demo_relay_config" by (simp add: eq demo_hosted_ok)
  have redis: "redis ?st1 = fst (remove_client mem_api ''a'' (redis demo_hosted))"
    by (simp add: eq redis_do_def demo_ext_fields)
  have "fetch_by_hash mem_api demo_codec (hash_api_key demo_sha ''dk_0'') (redis demo_hosted) = Inr (Some demo_tenant)"
    using create_then_fetch(1) [OF mem_api_ok(1) mem_frame_ok mem_api_ok(4) demo_codec_ok]
    by (simp add: demo_hosted_def prod_eq_iff) (simp add: create_tenant_def Let_def mem_api_def)
  then have "fetch_by_hash mem_api demo_codec (hash_api_key demo_sha ''dk_0'') (redis ?st1) = Inr (Some demo_tenant)"
    by (simp add: redis fetch_by_hash_def remove_client_def mem_api_def key_by_hash_def client_key_def)
  moreover have "tenant_cache ?st1 = []" unfolding eq by (simp add: closing_state_def demo_hosted_def demo_two_def)
  ultimately have "fst (resolve_api_key mem_api demo_codec demo_sha 0 ''dk_0'' (redis ?st1) (tenant_cache ?st1)) = Some demo_tenant"
    by (simp add: resolve_miss cache_get_def) (simp add: demo_tenant_def)
  then obtain cache where res: "resolve_tenant demo_ext (Some ''dk_0'') ?st1 =
      (Some (Some demo_tenant), ?st1\<lparr>tenant_cache := cache\<rparr>)"
    by (auto simp: resolve_tenant_def demo_ext_def case_prod_beta)
  have "is_valid_identifier ''a''" "is_valid_identifier ''ta''" by code_simp+
  then have "check_params demo_ext ?q demo_relay_config = Inr (''a'', ''ta'')"
    by (simp add: check_params_def demo_query_def constant_time_str_eq_def demo_relay_config_def demo_ext_def)
  moreover have "enforce_jwt demo_ext (Some demo_tenant) None ''a'' s = (True, s)" if "config s = demo_relay_config" for s
    using that by (simp add: enforce_jwt_def effective_jwt_secret_def demo_relay_config_def demo_tenant_def)
  ultimately have auth: "authenticate demo_ext ?q ?st1 =
      (Inr (''a'', ''ta'', Some demo_tenant), ?st1\<lparr>tenant_cache := cache\<rparr>)"
    by (simp add: authenticate_def cfg res) (simp add: demo_query_def cfg)
  have "get_client_token mem_api ''a'' (redis ?st1) = Inr None"
    by (simp add: redis get_client_token_def remove_client_def mem_api_def)
  moreover have "dm_get (clients ?st1) ''a'' = None"
    by (simp add: eq closing_state_def drop_client_def split: option.split)
  ultimately have none: "existing_token demo_ext ''a'' (?st1\<lparr>tenant_cache := cache\<rparr>) = None"
    by (simp add: existing_token_def demo_ext_fields)
  have "active_connections ?st1 = 1" "next_chan ?st1 = 2"
    unfolding eq by (simp_all add: closing_state_def drop_client_def demo_hosted_def demo_two_def dm_get_def
        release_connection_slot_def remove_sender_def)
  with auth none show ?thesis
    by (cases rule: connect_new_cases [of "?st1\<lparr>tenant_cache := cache\<rparr>" demo_ext "''a''" "''ta''" None "Some ''t_1''"])
      (auto simp: handle_socket_def cfg register_client_def demo_ext_fields mem_api_def demo_relay_config_def
        demo_tenant_def demo_query_def word_le_nat_alt)
qed

theorem grace_period_crosses_tenants_witness:
  "\<exists>st'. handle_socket demo_ext (demo_query\<lparr>q_api_key := Some ''dk_0''\<rparr>) (ws_close demo_ext ''a'' 0 demo_hosted) =
     (Connected 2, st') \<and> dm_get (client_tenants st') ''a'' = Some ''t_1'' \<and>
     dm_get (client_tenants st') ''b'' = Some ''t_2'' \<and>
     length (inbox (handle_message demo_ext ''b'' ((bare_message DATA None)\<lparr>room := Some ''lobby''\<rparr>) st') ''a'') =
       Suc (length (inbox st' ''a''))"
proof -
  let ?q = "demo_query\<lparr>q_api_key := Some ''dk_0''\<rparr>" and ?msg = "(bare_message DATA None)\<lparr>room := Some ''lobby''\<rparr>"
  obtain st' where st': "handle_socket demo_ext ?q (ws_close demo_ext ''a'' 0 demo_hosted) = (Connected 2, st')"
    and t1: "dm_get (client_tenants st') ''a'' = Some ''t_1''"
    using demo_hosted_connect by blast
  have key: "room_key demo_hosted ''b'' ''lobby'' \<in> joined demo_hosted ''a''"
    by (simp add: demo_hosted_ok room_key_def)
  have valid: "is_valid_identifier ''lobby''" by code_simp
  have pre: "joined demo_hosted ''a'' \<noteq> {}" "cfg_session_ttl (config demo_hosted) \<noteq> 0"
    "snd (remove_client (x_redis demo_ext) ''a'' (redis demo_hosted)) = Inr ()" "q_id ?q = Some ''a''"
    "cfg_enable_relay (config demo_hosted)"
    by (simp_all add: demo_hosted_ok demo_ext_fields remove_client_def demo_query_def) (simp add: mem_api_def)
  note pre' = demo_lobby_sender(3-5) demo_hosted_ok(4) pre(1-3) st' pre(4) refl demo_hosted_ok(1,2) pre(5)
  have ba: "''b'' \<noteq> ''a''" "''t_1'' \<noteq> ''t_2''" by simp_all
  have msg: "msg_type ?msg = DATA" "room ?msg = Some ''lobby''" "dst ?msg = None" by (simp_all add: bare_message_def)
  note run = grace_period_crosses_tenants [OF pre' ba(1) demo_hosted_ok(6) key t1 ba(2) msg(1,2) valid msg(3)]
  from run [of demo_ext] st' t1 show ?thesis by auto
qed

text \<open>
  A refused connection changes the rights of the client it failed to impersonate. A connection
  with a valid JWT for the id of a connected client, but not its token, is refused with ID-TAKEN;
  the claims of that JWT have replaced those of the connected client by then, and its next room
  join is judged by them.
\<close>

theorem refused_connection_replaces_claims:
  assumes "authenticate X q st = (Inr (c, tok, resolved), st1)"
    and "effective_jwt_secret (Option.bind resolved tn_jwt_secret) (cfg_jwt_secret (config st)) = Some secret"
    and "existing_token X c st = Some stored" "stored \<noteq> tok"
  shows "handle_socket X q st = (Refused (id_taken_frame X), st1) \<and>
    (\<exists>claims. validate_jwt (x_jwt X) secret (or_empty (q_jwt q)) = Some claims \<and>
      dm_get (client_claims st1) c = Some claims \<and>
      (\<not> room_allowed (x_json X) claims n \<longrightarrow> join_denial X c n st1 = Some ''auth_denied''))"
proof (rule conjI)
  have "existing_token X c st1 = Some stored"
    using assms(3) unfolding authenticated [OF assms(1)] by (simp add: existing_token_def split: option.splits)
  with assms(1,4) show "handle_socket X q st = (Refused (id_taken_frame X), st1)"
    by (simp add: handle_socket_def)
  obtain claims where "jwt_accepted X q st resolved claims" "\<forall>v \<in> set_option claims. dm_get (client_claims st1) c = Some v"
    using authenticate_accepted [OF assms(1)] by blast
  with assms(2) obtain v where "validate_jwt (x_jwt X) secret (or_empty (q_jwt q)) = Some v"
    "dm_get (client_claims st1) c = Some v"
    by (auto simp: jwt_accepted_def)
  then show "\<exists>claims. validate_jwt (x_jwt X) secret (or_empty (q_jwt q)) = Some claims \<and>
      dm_get (client_claims st1) c = Some claims \<and>
      (\<not> room_allowed (x_json X) claims n \<longrightarrow> join_denial X c n st1 = Some ''auth_denied'')"
    by (auto simp: join_denial_def Let_def)
qed

theorem refused_connection_replaces_claims_witness:
  "let q = demo_query\<lparr>q_token := Some ''zz'', q_jwt := Some ''s''\<rparr>;
       st = demo_two (default_config\<lparr>cfg_jwt_secret := Some ''s''\<rparr>)
   in \<exists>st1. handle_socket demo_ext q st = (Refused (id_taken_frame demo_ext), st1) \<and>
        join_denial demo_ext ''a'' ''other'' st = None \<and> join_denial demo_ext ''a'' ''other'' st1 = Some ''auth_denied''"
proof -
  let ?q = "demo_query\<lparr>q_token := Some ''zz'', q_jwt := Some ''s''\<rparr>"
  let ?st = "demo_two (default_config\<lparr>cfg_jwt_secret := Some ''s''\<rparr>)"
  let ?claims = "JObj [(''rooms'', JArr [JStr ''lobby''])]"
  have valid: "is_valid_identifier ''a''" "is_valid_identifier ''zz''" by code_simp+
  have jwt: "validate_jwt (x_jwt demo_ext) ''s'' (or_empty (Some ''s'')) = Some ?claims"
    by (simp add: validate_jwt_def demo_ext_def or_empty_def)
  have "check_params demo_ext ?q (config ?st) = Inr (''a'', ''zz'')"
    using valid by (simp add: check_params_def demo_query_def constant_time_str_eq_def demo_ext_def)
  then obtain st1 where auth: "authenticate demo_ext ?q ?st = (Inr (''a'', ''zz'', None), st1)"
    by (simp add: authenticate_def resolve_tenant_def enforce_jwt_def effective_jwt_secret_def jwt demo_query_def)
  have secret: "effective_jwt_secret (Option.bind None tn_jwt_secret) (cfg_jwt_secret (config ?st)) = Some ''s''"
    by (simp add: effective_jwt_secret_def)
  have tok: "existing_token demo_ext ''a'' ?st = Some ''ta''"
    by (simp add: existing_token_def demo_two_def dm_get_def client_meta_new_def)
  have acl: "\<not> room_allowed (x_json demo_ext) ?claims ''other''"
    by (simp add: room_allowed_def demo_ext_def demo_json_api_def)
  have before: "join_denial demo_ext ''a'' ''other'' ?st = None"
    by (simp add: join_denial_def demo_two_def default_config_def dm_len_def room_key_def namespace_room_def)
  note refused = refused_connection_replaces_claims [OF auth secret tok]
  from refused [of "''other''"] jwt acl before
  show ?thesis by (auto simp: demo_query_def)
qed

text \<open>
  A client known to Redis only (registered by an earlier process, or evicted locally while
  Redis failed) connects without reserving a slot. When it is the only one and closes, the counter
  wraps to its maximum, and from then on every new client is refused, whatever the limit.
\<close>

theorem redis_only_reconnect_wraps_counter:
  assumes "handle_socket X q st = (Connected tx, st')" "q_id q = Some c"
    and "dm_get (clients st) c = None" "existing_token X c st \<noteq> None" "active_connections st = 0"
  shows "active_connections st' = 0 \<and>
    active_connections (ws_close X' c tx st') = - 1 \<and>
    fst (connect_new X'' d tok ls tid (ws_close X' c tx st')) = Refused (make_error_json ConnectionLimitExceed)"
proof (rule conjI3)
  obtain tok' resolved st1 where auth: "authenticate X q st = (Inr (c, tok', resolved), st1)"
    and con: "reconnect X c tok' (q_last_seq q) (map_option tn_id resolved) st1 = (Connected tx, st')"
  proof (cases rule: handle_socket_cases [of X q st])
    case (refused m s)
    with assms(1) show ?thesis by simp
  next
    case (again c' tok resolved st1)
    with authenticate_id [OF again(1)] assms(1,2) that [of tok resolved st1] show ?thesis by simp
  next
    case (new c' tok resolved st1 tx' s)
    with authenticate_id [OF new(1)] assms(2,4) show ?thesis by simp
  qed
  from con have tx: "dm_get (ws_senders st') c = Some tx" "dm_get (clients st') c \<noteq> None"
    by (auto simp: reconnect_eq reconnect_state_def)
  show zero: "active_connections st' = 0"
    using con assms(5) unfolding authenticated [OF auth] by (auto simp: reconnect_eq reconnect_state_def)
  with tx show wrapped: "active_connections (ws_close X' c tx st') = - 1"
    by (auto simp: ws_close_registered closing_state_def drop_client_def release_connection_slot_def remove_sender_def)
  show "fst (connect_new X'' d tok ls tid (ws_close X' c tx st')) = Refused (make_error_json ConnectionLimitExceed)"
    by (simp add: connect_new_def reserve_cases wrapped)
qed

theorem redis_only_reconnect_wraps_counter_witness:
  "let st = (demo_state default_config)\<lparr>redis := fst (register_client mem_api 0 ''a'' ''ta'' 60000 mem_empty)\<rparr>
   in \<exists>st'. handle_socket demo_ext demo_query st = (Connected 0, st') \<and>
        active_connections (ws_close demo_ext ''a'' 0 st') = - 1"
proof -
  let ?st = "(demo_state default_config)\<lparr>redis := fst (register_client mem_api 0 ''a'' ''ta'' 60000 mem_empty)\<rparr>"
  have tok: "existing_token demo_ext ''a'' ?st = Some ''ta''"
    by (simp add: existing_token_def demo_ext_fields get_client_token_def register_client_def mem_api_def)
  then obtain st' where st': "handle_socket demo_ext demo_query ?st = (Connected 0, st')"
    by (simp add: handle_socket_def demo_authenticate reconnect_eq)
  have "dm_get (clients ?st) ''a'' = None" "active_connections ?st = 0" "q_id demo_query = Some ''a''"
    by (simp_all add: demo_query_def)
  with redis_only_reconnect_wraps_counter [OF st', of "''a''" demo_ext] tok st' show ?thesis by (auto simp: Let_def)
qed

section \<open>What an admission registers\<close>

lemma connect_shape:
  assumes "handle_socket X q st = (Connected tx, st')" "q_id q = Some c"
  obtains s ls rs where "st' = snd (run_client X c ls rs s)" "tx = next_chan st" "next_chan s = next_chan st"
    "ws_senders s = ws_senders st" "chans s = chans st" "polling_receivers s = polling_receivers st"
    "dm_get (clients s) c \<noteq> None" "\<And>d. d \<noteq> c \<Longrightarrow> dm_get (clients s) d = dm_get (clients st) d"
proof (cases rule: handle_socket_cases [of X q st])
  case (refused m s)
  with assms show ?thesis by simp
next
  case (again c' tok resolved st1)
  have "c' = c" using authenticate_id [OF again(1)] assms(2) by simp
  with again(3) assms(1) have shape: "tx = next_chan st1" "st' = snd (run_client X c (q_last_seq q)
      (fst (restore_session c (register_in_memory X c tok (map_option tn_id resolved) st1)))
      (reconnect_state X c tok (map_option tn_id resolved) st1))"
    by (simp_all add: reconnect_eq)
  show ?thesis by (rule that [OF shape(2)]) (simp_all add: shape(1) authenticated [OF again(1)] reconnect_state_def)
next
  case (new c' tok resolved st1 tx' s)
  have c: "c' = c" using authenticate_id [OF new(1)] assms(2) by simp
  with new(3) assms(1) have con: "connect_new X c tok (q_last_seq q) (map_option tn_id resolved) st1 = (Connected tx, st')"
    using new(4) by simp
  then obtain r where shape: "tx = next_chan st1" "st' = snd (run_client X c (q_last_seq q) []
      (register_in_memory X c tok (map_option tn_id resolved)
        (st1\<lparr>active_connections := active_connections st1 + 1, redis := r\<rparr>)))"
    by (cases rule: connect_new_cases [of st1 X c tok "q_last_seq q" "map_option tn_id resolved"]) auto
  show ?thesis by (rule that [OF shape(2)]) (simp_all add: shape(1) authenticated [OF new(1)])
qed

lemma connect_senders:
  assumes "handle_socket X q st = (Connected tx, st')" "q_id q = Some c"
  shows "ws_senders st' = dm_insert c tx (ws_senders st)" "tx = next_chan st" "next_chan st' = Suc (next_chan st)"
    and "polling_receivers st' = polling_receivers st" "dm_get (clients st') c \<noteq> None"
    and "d \<noteq> c \<Longrightarrow> dm_get (clients st') d = dm_get (clients st) d" "t < next_chan st \<Longrightarrow> chans st' t = chans st t"
  by (rule connect_shape [OF assms], auto simp: chans_run_client)+

lemma refuse_senders:
  assumes "handle_socket X q st = (Refused m, st')"
  shows "ws_senders st' = ws_senders st" "next_chan st' = next_chan st" "clients st' = clients st"
    "polling_receivers st' = polling_receivers st"
  by (cases rule: handle_socket_cases [of X q st]; use assms in \<open>auto simp: reconnect_eq\<close>)+

end
