(* ===== verification/Services.thy ===== *)
theory Services
  imports Sessions
begin

text \<open>
  The background tasks under \<^verbatim>\<open>src/services/\<close>: eviction of silent clients with reconciliation of the
  connection counter, expiry of queued messages, eviction of the replay buffer, and the refresh of
  Redis. A tick is one turn of the task's loop; \<open>service_loop\<close> is the loop around it, over the wake-ups
  of its \<^verbatim>\<open>select!\<close>. How the tasks run beside the rest of the server is theory \<open>Lifecycle\<close>.
\<close>

section \<open>check_broken\<close>

text \<open>Both timeouts are cast to \<^verbatim>\<open>i64\<close>; the subtraction wraps and the comparison is signed.\<close>

definition ping_overdue :: "('r, 'g, 'v) ext \<Rightarrow> config \<Rightarrow> client_meta \<Rightarrow> bool" where
  "ping_overdue X cfg meta = (sint (cfg_alive_timeout cfg) \<le> sint (wall X - cm_last_ping meta))"

definition idle_overdue :: "('r, 'g, 'v) ext \<Rightarrow> config \<Rightarrow> client_meta \<Rightarrow> bool" where
  "idle_overdue X cfg meta =
     (0 < sint (cfg_idle_timeout cfg) \<and> sint (cfg_idle_timeout cfg) \<le> sint (wall X - cm_last_message meta))"

definition should_evict :: "('r, 'g, 'v) ext \<Rightarrow> config \<Rightarrow> client_meta \<Rightarrow> bool" where
  "should_evict X cfg meta = (if ping_overdue X cfg meta then True else idle_overdue X cfg meta)"

definition evict_client ::
  "('r, 'g, 'v) ext \<Rightarrow> string \<Rightarrow> ('r, 'g, 'v) app_state \<Rightarrow> ('r, 'g, 'v) app_state" where
  "evict_client X client_id st =
     (let st = drop_client client_id (remove_sender client_id st);
          st = redis_do (clear_message_queue (x_redis X) client_id) st
      in redis_do (remove_client (x_redis X) client_id) st)"

definition RECONCILE_TICKS :: u64 where
  "RECONCILE_TICKS = 60"

definition reconcile :: "('r, 'g, 'v) app_state \<Rightarrow> ('r, 'g, 'v) app_state" where
  "reconcile st =
     (let actual = of_nat (dm_len (clients st))
      in if actual \<noteq> active_connections st then st\<lparr>active_connections := actual\<rparr> else st)"

definition check_broken_tick ::
  "('r, 'g, 'v) ext \<Rightarrow> u64 \<Rightarrow> ('r, 'g, 'v) app_state \<Rightarrow> u64 \<times> ('r, 'g, 'v) app_state" where
  "check_broken_tick X tick st =
     (let tick = tick + 1;
          to_evict = map fst (filter (\<lambda>(_, meta). should_evict X (config st) meta) (clients st));
          st = fold (evict_client X) to_evict st;
          st = (if tick mod RECONCILE_TICKS = 0 then reconcile st else st)
      in (tick, cleanup_expired_sessions X st))"

section \<open>messages_expire\<close>

definition expire_frame :: "string \<Rightarrow> string \<Rightarrow> string" where
  "expire_frame dst_id src_id =
     ''{\"type\":\"EXPIRE\",\"src\":\"'' @ dst_id @ ''\",\"dst\":\"'' @ src_id @ ''\"}''"

fun expire_messages ::
  "('r, 'g, 'v) ext \<Rightarrow> string list \<Rightarrow> string hashset \<Rightarrow> ('r, 'g, 'v) app_state \<Rightarrow> ('r, 'g, 'v) app_state" where
  "expire_messages X [] seen st = st"
| "expire_messages X (msg_json # rest) seen st =
     (case x_de X msg_json of
        None \<Rightarrow> expire_messages X rest seen st
      | Some msg \<Rightarrow>
          let src_id = or_empty (src msg);
              dst_id = or_empty (dst msg);
              seen_key = src_id @ ''_'' @ dst_id
          in if seen_key \<in> set seen then expire_messages X rest seen st
             else expire_messages X rest (hs_insert seen_key seen) (send_to src_id (expire_frame dst_id src_id) st))"

definition expire_queue ::
  "('r, 'g, 'v) ext \<Rightarrow> string \<Rightarrow> ('r, 'g, 'v) app_state \<Rightarrow> ('r, 'g, 'v) app_state" where
  "expire_queue X dst_id st =
     (let last_read_at = (case get_queue_last_read_at (x_redis X) dst_id (redis st) of
            Inr (Some v) \<Rightarrow> v | _ \<Rightarrow> 0)
      in if sint (wall X - last_read_at) < sint (cfg_expire_timeout (config st)) then st
         else
           let (r, res) = read_all_messages (x_redis X) (wall X) dst_id (redis st);
               st = st\<lparr>redis := r\<rparr>;
               msgs = (case res of Inl e \<Rightarrow> [] | Inr ms \<Rightarrow> ms)
           in redis_do (clear_message_queue (x_redis X) dst_id) (expire_messages X msgs [] st))"

definition messages_expire_tick ::
  "('r, 'g, 'v) ext \<Rightarrow> ('r, 'g, 'v) app_state \<Rightarrow> ('r, 'g, 'v) app_state" where
  "messages_expire_tick X st =
     (case get_client_ids_with_queue (x_redis X) (redis st) of
        Inl e \<Rightarrow> st
      | Inr queue_ids \<Rightarrow> fold (expire_queue X) queue_ids st)"

section \<open>replay_evict and sync_redis\<close>

definition replay_evict_tick ::
  "('r, 'g, 'v) ext \<Rightarrow> ('r, 'g, 'v) app_state \<Rightarrow> ('r, 'g, 'v) app_state" where
  "replay_evict_tick X st = st\<lparr>replay_buffer := evict_expired (mono X) (replay_buffer st)\<rparr>"

definition sync_redis_tick ::
  "('r, 'g, 'v) ext \<Rightarrow> ('r, 'g, 'v) app_state \<Rightarrow> ('r, 'g, 'v) app_state" where
  "sync_redis_tick X st =
     fold (\<lambda>cid. redis_do (set_last_ping (x_redis X) (wall X) cid (cfg_alive_timeout (config st))))
       (dm_keys (clients st)) st"

section \<open>The loops\<close>

text \<open>
  What ends a wait of \<^verbatim>\<open>select!\<close>: the sleep, with the clocks and answers the turn then finds, or a change
  of the shutdown channel. The loop does a turn for the one and returns for the other; the result says
  whether it has returned.
\<close>

datatype 'x wake = Slept 'x | ShutdownChanged

fun service_loop :: "('x \<Rightarrow> 's \<Rightarrow> 's) \<Rightarrow> 'x wake list \<Rightarrow> 's \<Rightarrow> bool \<times> 's" where
  "service_loop turn [] s = (False, s)"
| "service_loop turn (Slept X # wakes) s = service_loop turn wakes (turn X s)"
| "service_loop turn (ShutdownChanged # wakes) s = (True, s)"

definition check_broken_service ::
  "('r, 'g, 'v) ext wake list \<Rightarrow> ('r, 'g, 'v) app_state \<Rightarrow> bool \<times> u64 \<times> ('r, 'g, 'v) app_state" where
  "check_broken_service wakes st = service_loop (\<lambda>X (tick, st). check_broken_tick X tick st) wakes (0, st)"

definition messages_expire_service ::
  "('r, 'g, 'v) ext wake list \<Rightarrow> ('r, 'g, 'v) app_state \<Rightarrow> bool \<times> ('r, 'g, 'v) app_state" where
  "messages_expire_service = service_loop messages_expire_tick"

definition replay_evict_service ::
  "('r, 'g, 'v) ext wake list \<Rightarrow> ('r, 'g, 'v) app_state \<Rightarrow> bool \<times> ('r, 'g, 'v) app_state" where
  "replay_evict_service = service_loop replay_evict_tick"

definition sync_redis_service ::
  "('r, 'g, 'v) ext wake list \<Rightarrow> ('r, 'g, 'v) app_state \<Rightarrow> bool \<times> ('r, 'g, 'v) app_state" where
  "sync_redis_service = service_loop sync_redis_tick"

section \<open>Lemmas\<close>

lemma service_loop_turns:
  "service_loop turn (map Slept Xs @ ShutdownChanged # later) s = (True, fold turn Xs s)"
  "service_loop turn (map Slept Xs) s = (False, fold turn Xs s)"
  by (induction Xs arbitrary: s) simp_all

lemma evict_frame [simp]:
  "config (evict_client X c st) = config st"
  "rooms (evict_client X c st) = rooms st"
  "client_rooms (evict_client X c st) = client_rooms st"
  "seq_counter (evict_client X c st) = seq_counter st"
  "start_time (evict_client X c st) = start_time st"
  "rate_limiter (evict_client X c st) = rate_limiter st"
  "replay_buffer (evict_client X c st) = replay_buffer st"
  "pending_removals (evict_client X c st) = pending_removals st"
  "presence (evict_client X c st) = presence st"
  "client_claims (evict_client X c st) = client_claims st"
  "client_tenants (evict_client X c st) = client_tenants st"
  "tenant_cache (evict_client X c st) = tenant_cache st"
  "mailer (evict_client X c st) = mailer st"
  "webhook (evict_client X c st) = webhook st"
  "polling_receivers (evict_client X c st) = polling_receivers st"
  "chans (evict_client X c st) = chans st"
  "next_chan (evict_client X c st) = next_chan st"
  by (simp_all add: evict_client_def Let_def)

lemma evict_all_frame [simp]:
  "config (fold (evict_client X) cs st) = config st"
  "rooms (fold (evict_client X) cs st) = rooms st"
  "client_rooms (fold (evict_client X) cs st) = client_rooms st"
  "seq_counter (fold (evict_client X) cs st) = seq_counter st"
  "start_time (fold (evict_client X) cs st) = start_time st"
  "rate_limiter (fold (evict_client X) cs st) = rate_limiter st"
  "replay_buffer (fold (evict_client X) cs st) = replay_buffer st"
  "pending_removals (fold (evict_client X) cs st) = pending_removals st"
  "presence (fold (evict_client X) cs st) = presence st"
  "client_claims (fold (evict_client X) cs st) = client_claims st"
  "client_tenants (fold (evict_client X) cs st) = client_tenants st"
  "tenant_cache (fold (evict_client X) cs st) = tenant_cache st"
  "mailer (fold (evict_client X) cs st) = mailer st"
  "webhook (fold (evict_client X) cs st) = webhook st"
  "polling_receivers (fold (evict_client X) cs st) = polling_receivers st"
  "chans (fold (evict_client X) cs st) = chans st"
  "next_chan (fold (evict_client X) cs st) = next_chan st"
  by (simp_all add: fold_frame)

lemma reconcile_frame [simp]:
  "ws_senders (reconcile st) = ws_senders st"
  "clients (reconcile st) = clients st"
  "redis (reconcile st) = redis st"
  "config (reconcile st) = config st"
  "rooms (reconcile st) = rooms st"
  "client_rooms (reconcile st) = client_rooms st"
  "seq_counter (reconcile st) = seq_counter st"
  "start_time (reconcile st) = start_time st"
  "rate_limiter (reconcile st) = rate_limiter st"
  "replay_buffer (reconcile st) = replay_buffer st"
  "pending_removals (reconcile st) = pending_removals st"
  "presence (reconcile st) = presence st"
  "client_claims (reconcile st) = client_claims st"
  "client_tenants (reconcile st) = client_tenants st"
  "tenant_cache (reconcile st) = tenant_cache st"
  "mailer (reconcile st) = mailer st"
  "webhook (reconcile st) = webhook st"
  "polling_receivers (reconcile st) = polling_receivers st"
  "chans (reconcile st) = chans st"
  "next_chan (reconcile st) = next_chan st"
  by (simp_all add: reconcile_def Let_def)

lemma expire_messages_frame_step:
  "(\<And>c d s. f (send_to c d s) = f s) \<Longrightarrow> f (expire_messages X ms seen st) = f st"
  by (induction X ms seen st rule: expire_messages.induct) (simp_all add: Let_def split: option.split)

lemma expire_messages_frame [simp]:
  "ws_senders (expire_messages X ms seen st) = ws_senders st"
  "clients (expire_messages X ms seen st) = clients st"
  "redis (expire_messages X ms seen st) = redis st"
  "config (expire_messages X ms seen st) = config st"
  "rooms (expire_messages X ms seen st) = rooms st"
  "client_rooms (expire_messages X ms seen st) = client_rooms st"
  "seq_counter (expire_messages X ms seen st) = seq_counter st"
  "start_time (expire_messages X ms seen st) = start_time st"
  "rate_limiter (expire_messages X ms seen st) = rate_limiter st"
  "replay_buffer (expire_messages X ms seen st) = replay_buffer st"
  "pending_removals (expire_messages X ms seen st) = pending_removals st"
  "presence (expire_messages X ms seen st) = presence st"
  "client_claims (expire_messages X ms seen st) = client_claims st"
  "client_tenants (expire_messages X ms seen st) = client_tenants st"
  "tenant_cache (expire_messages X ms seen st) = tenant_cache st"
  "mailer (expire_messages X ms seen st) = mailer st"
  "webhook (expire_messages X ms seen st) = webhook st"
  "active_connections (expire_messages X ms seen st) = active_connections st"
  "polling_receivers (expire_messages X ms seen st) = polling_receivers st"
  "next_chan (expire_messages X ms seen st) = next_chan st"
  by (simp_all add: expire_messages_frame_step)

lemma expire_queue_frame [simp]:
  "ws_senders (expire_queue X c st) = ws_senders st"
  "clients (expire_queue X c st) = clients st"
  "config (expire_queue X c st) = config st"
  "rooms (expire_queue X c st) = rooms st"
  "client_rooms (expire_queue X c st) = client_rooms st"
  "seq_counter (expire_queue X c st) = seq_counter st"
  "start_time (expire_queue X c st) = start_time st"
  "rate_limiter (expire_queue X c st) = rate_limiter st"
  "replay_buffer (expire_queue X c st) = replay_buffer st"
  "pending_removals (expire_queue X c st) = pending_removals st"
  "presence (expire_queue X c st) = presence st"
  "client_claims (expire_queue X c st) = client_claims st"
  "client_tenants (expire_queue X c st) = client_tenants st"
  "tenant_cache (expire_queue X c st) = tenant_cache st"
  "mailer (expire_queue X c st) = mailer st"
  "webhook (expire_queue X c st) = webhook st"
  "active_connections (expire_queue X c st) = active_connections st"
  "polling_receivers (expire_queue X c st) = polling_receivers st"
  "next_chan (expire_queue X c st) = next_chan st"
  by (simp_all add: expire_queue_def case_prod_beta Let_def)

lemma expire_tick_frame [simp]:
  "ws_senders (messages_expire_tick X st) = ws_senders st"
  "clients (messages_expire_tick X st) = clients st"
  "config (messages_expire_tick X st) = config st"
  "rooms (messages_expire_tick X st) = rooms st"
  "client_rooms (messages_expire_tick X st) = client_rooms st"
  "seq_counter (messages_expire_tick X st) = seq_counter st"
  "start_time (messages_expire_tick X st) = start_time st"
  "rate_limiter (messages_expire_tick X st) = rate_limiter st"
  "replay_buffer (messages_expire_tick X st) = replay_buffer st"
  "pending_removals (messages_expire_tick X st) = pending_removals st"
  "presence (messages_expire_tick X st) = presence st"
  "client_claims (messages_expire_tick X st) = client_claims st"
  "client_tenants (messages_expire_tick X st) = client_tenants st"
  "tenant_cache (messages_expire_tick X st) = tenant_cache st"
  "mailer (messages_expire_tick X st) = mailer st"
  "webhook (messages_expire_tick X st) = webhook st"
  "active_connections (messages_expire_tick X st) = active_connections st"
  "polling_receivers (messages_expire_tick X st) = polling_receivers st"
  "next_chan (messages_expire_tick X st) = next_chan st"
  by (simp_all add: messages_expire_tick_def fold_frame split: sum.split)

lemma sync_frame [simp]:
  "ws_senders (sync_redis_tick X st) = ws_senders st"
  "clients (sync_redis_tick X st) = clients st"
  "config (sync_redis_tick X st) = config st"
  "rooms (sync_redis_tick X st) = rooms st"
  "client_rooms (sync_redis_tick X st) = client_rooms st"
  "seq_counter (sync_redis_tick X st) = seq_counter st"
  "start_time (sync_redis_tick X st) = start_time st"
  "rate_limiter (sync_redis_tick X st) = rate_limiter st"
  "replay_buffer (sync_redis_tick X st) = replay_buffer st"
  "pending_removals (sync_redis_tick X st) = pending_removals st"
  "presence (sync_redis_tick X st) = presence st"
  "client_claims (sync_redis_tick X st) = client_claims st"
  "client_tenants (sync_redis_tick X st) = client_tenants st"
  "tenant_cache (sync_redis_tick X st) = tenant_cache st"
  "mailer (sync_redis_tick X st) = mailer st"
  "webhook (sync_redis_tick X st) = webhook st"
  "active_connections (sync_redis_tick X st) = active_connections st"
  "polling_receivers (sync_redis_tick X st) = polling_receivers st"
  "chans (sync_redis_tick X st) = chans st"
  "next_chan (sync_redis_tick X st) = next_chan st"
  by (simp_all add: sync_redis_tick_def fold_frame)

lemma clients_drop: "dm_get (clients (drop_client c st)) d = (if d = c then None else dm_get (clients st) d)"
  by (simp add: drop_client_def split: option.split)

lemma clients_evict: "dm_get (clients (evict_client X c st)) d = (if d = c then None else dm_get (clients st) d)"
  by (simp add: evict_client_def Let_def clients_drop)

lemma senders_evict:
  "dm_get (ws_senders (evict_client X c st)) d = (if d = c then None else dm_get (ws_senders st) d)"
  by (simp add: evict_client_def Let_def remove_sender_def)

lemma clients_evict_all:
  "dm_get (clients (fold (evict_client X) cs st)) d = (if d \<in> set cs then None else dm_get (clients st) d)"
  by (induction cs arbitrary: st) (auto simp: clients_evict)

lemma senders_evict_all:
  "dm_get (ws_senders (fold (evict_client X) cs st)) d = (if d \<in> set cs then None else dm_get (ws_senders st) d)"
  by (induction cs arbitrary: st) (auto simp: senders_evict)

lemma slots_counted_evict: "slots_counted st \<Longrightarrow> slots_counted (evict_client X c st)"
  by (simp add: evict_client_def Let_def)

lemma slots_counted_evict_all: "slots_counted st \<Longrightarrow> slots_counted (fold (evict_client X) cs st)"
  by (rule fold_keeps) (auto intro: slots_counted_evict)

lemma expire_session_frame [simp]:
  "ws_senders (expire_session X c st) = ws_senders st"
  "clients (expire_session X c st) = clients st"
  "redis (expire_session X c st) = redis st"
  "config (expire_session X c st) = config st"
  "seq_counter (expire_session X c st) = seq_counter st"
  "start_time (expire_session X c st) = start_time st"
  "rate_limiter (expire_session X c st) = rate_limiter st"
  "replay_buffer (expire_session X c st) = replay_buffer st"
  "client_claims (expire_session X c st) = client_claims st"
  "client_tenants (expire_session X c st) = client_tenants st"
  "tenant_cache (expire_session X c st) = tenant_cache st"
  "mailer (expire_session X c st) = mailer st"
  "webhook (expire_session X c st) = webhook st"
  "active_connections (expire_session X c st) = active_connections st"
  "polling_receivers (expire_session X c st) = polling_receivers st"
  "next_chan (expire_session X c st) = next_chan st"
  by (simp_all add: expire_session_def split: option.split)

lemma cleanup_frame [simp]:
  "ws_senders (cleanup_expired_sessions X st) = ws_senders st"
  "clients (cleanup_expired_sessions X st) = clients st"
  "redis (cleanup_expired_sessions X st) = redis st"
  "config (cleanup_expired_sessions X st) = config st"
  "seq_counter (cleanup_expired_sessions X st) = seq_counter st"
  "start_time (cleanup_expired_sessions X st) = start_time st"
  "rate_limiter (cleanup_expired_sessions X st) = rate_limiter st"
  "replay_buffer (cleanup_expired_sessions X st) = replay_buffer st"
  "client_claims (cleanup_expired_sessions X st) = client_claims st"
  "client_tenants (cleanup_expired_sessions X st) = client_tenants st"
  "tenant_cache (cleanup_expired_sessions X st) = tenant_cache st"
  "mailer (cleanup_expired_sessions X st) = mailer st"
  "webhook (cleanup_expired_sessions X st) = webhook st"
  "active_connections (cleanup_expired_sessions X st) = active_connections st"
  "polling_receivers (cleanup_expired_sessions X st) = polling_receivers st"
  "next_chan (cleanup_expired_sessions X st) = next_chan st"
  by (simp_all add: cleanup_expired_sessions_def fold_frame)

text \<open>With clock values of the last 292 million years the wrapping difference is the difference.\<close>

lemma sint_diff:
  fixes a b :: i64
  assumes "0 \<le> sint a" "0 \<le> sint b"
  shows "sint (a - b) = sint a - sint b"
proof -
  have "sint a < 2 ^ 63" "sint b < 2 ^ 63" using sint_less [of a] sint_less [of b] by simp_all
  with assms show ?thesis
    by (simp add: sint_word_ariths(2) signed_take_bit_int_eq_self)
qed

subsection \<open>The counter under reconciliation\<close>

lemma slots_counted_reconcile:
  assumes "dm_wf (clients st)" "dm_len (clients st) < 2 ^ 64"
  shows "slots_counted (reconcile st)"
proof -
  have "unat (of_nat (dm_len (clients st)) :: usize) = dm_len (clients st)"
    using assms(2) by (simp add: unat_of_nat)
  with assms(1) show ?thesis by (auto simp: slots_counted_def reconcile_def Let_def)
qed

lemma unat_u64_less: "unat w < 2 ^ 64" for w :: u64
  using unsigned_less [of w] by simp

lemma slots_counted_len: "slots_counted st \<Longrightarrow> dm_len (clients st) < 2 ^ 64"
  using unat_u64_less [of "active_connections st"] by (simp add: slots_counted_def)

lemma slots_counted_tick:
  assumes "slots_counted st"
  shows "slots_counted (snd (check_broken_tick X tick st))"
proof -
  let ?st = "fold (evict_client X) (map fst (filter (\<lambda>(_, m). should_evict X (config st) m) (clients st))) st"
  have ok: "slots_counted ?st" using assms by (rule slots_counted_evict_all)
  have "slots_counted (reconcile ?st)"
    by (rule slots_counted_reconcile) (use ok slots_counted_len in \<open>auto simp: slots_counted_def\<close>)
  with ok show ?thesis by (simp add: check_broken_tick_def Let_def slots_counted_def)
qed

lemma dm_wf_drop: "dm_wf (clients st) \<Longrightarrow> dm_wf (clients (drop_client c st)) \<and>
    dm_len (clients (drop_client c st)) \<le> dm_len (clients st)"
  by (simp add: drop_client_def dm_len_remove split: option.split)

lemma dm_wf_evict_all:
  assumes "dm_wf (clients st)"
  shows "dm_wf (clients (fold (evict_client X) cs st)) \<and>
    dm_len (clients (fold (evict_client X) cs st)) \<le> dm_len (clients st)"
proof -
  have step: "dm_wf (clients (evict_client X c s)) \<and> dm_len (clients (evict_client X c s)) \<le> dm_len (clients s)"
    if "dm_wf (clients s)" for c s
    using dm_wf_drop [of "remove_sender c s" c] that by (simp add: evict_client_def Let_def)
  show ?thesis
    by (rule fold_keeps [where P = "\<lambda>s. dm_wf (clients s) \<and> dm_len (clients s) \<le> dm_len (clients st)"])
      (use assms step in \<open>auto intro: order_trans\<close>)
qed

lemma tick_clients_wf:
  assumes "dm_wf (clients st)"
  shows "dm_wf (clients (snd (check_broken_tick X tick st))) \<and>
    dm_len (clients (snd (check_broken_tick X tick st))) \<le> dm_len (clients st)"
  using dm_wf_evict_all [OF assms] by (simp add: check_broken_tick_def Let_def)

lemma reconciling_tick:
  assumes "dm_wf (clients st)" "dm_len (clients st) < 2 ^ 64" "(tick + 1) mod RECONCILE_TICKS = 0"
  shows "slots_counted (snd (check_broken_tick X tick st))"
proof -
  let ?st = "fold (evict_client X) (map fst (filter (\<lambda>(_, m). should_evict X (config st) m) (clients st))) st"
  have "slots_counted (reconcile ?st)"
    using dm_wf_evict_all [OF assms(1)] assms(2) by (intro slots_counted_reconcile) (auto intro: le_less_trans)
  with assms(3) show ?thesis by (simp add: check_broken_tick_def Let_def slots_counted_def)
qed

text \<open>Consecutive turns of the task, each in its environment.\<close>

fun check_broken_run ::
  "('r, 'g, 'v) ext list \<Rightarrow> u64 \<Rightarrow> ('r, 'g, 'v) app_state \<Rightarrow> ('r, 'g, 'v) app_state" where
  "check_broken_run [] tick st = st"
| "check_broken_run (X # Xs) tick st =
     (case check_broken_tick X tick st of (tick', st') \<Rightarrow> check_broken_run Xs tick' st')"

lemma run_keeps_counted: "slots_counted st \<Longrightarrow> slots_counted (check_broken_run Xs tick st)"
  by (induction Xs arbitrary: tick st) (auto simp: case_prod_beta slots_counted_tick)

lemma run_reconciles:
  assumes "dm_wf (clients st)" "dm_len (clients st) < 2 ^ 64"
    and "k < length Xs" "(tick + of_nat (Suc k)) mod RECONCILE_TICKS = 0"
  shows "slots_counted (check_broken_run Xs tick st)"
  using assms
proof (induction Xs arbitrary: k tick st)
  case Nil
  then show ?case by simp
next
  case (Cons X Xs)
  have fst: "fst (check_broken_tick X tick st) = tick + 1" by (simp add: check_broken_tick_def Let_def)
  show ?case
  proof (cases k)
    case 0
    with Cons.prems have "slots_counted (snd (check_broken_tick X tick st))" by (intro reconciling_tick) simp_all
    then show ?thesis by (simp add: case_prod_beta run_keeps_counted)
  next
    case (Suc j)
    with Cons.prems tick_clients_wf [OF Cons.prems(1), of X tick] show ?thesis
      using Cons.IH [of "snd (check_broken_tick X tick st)" j "tick + 1"]
      by (simp add: case_prod_beta fst add.assoc)
  qed
qed

text \<open>Among sixty consecutive values of the tick, wrap-around included, one is a multiple of sixty.\<close>

lemma reconcile_tick_near:
  fixes tick :: u64
  shows "\<exists>k < 60. (tick + of_nat (Suc k)) mod RECONCILE_TICKS = 0"
proof -
  define m where "m = 60 - unat tick mod 60"
  have "(n + (60 - n mod 60)) mod 60 = 0" for n :: nat by presburger
  then have m: "0 < m" "m \<le> 60" "(unat tick + m) mod 60 = 0" unfolding m_def by simp_all
  show ?thesis
  proof (cases "unat tick + m < 2 ^ 64")
    case True
    then have "unat (tick + of_nat m) = unat tick + m"
      by (simp add: unat_word_ariths unat_of_nat)
    with m(3) have "unat ((tick + of_nat m) mod 60) = 0" by (simp add: unat_mod)
    then have "(tick + of_nat (Suc (m - 1))) mod RECONCILE_TICKS = 0"
      using m(1) by (simp add: RECONCILE_TICKS_def unat_eq_0)
    with m show ?thesis by (intro exI [of _ "m - 1"]) auto
  next
    case False
    define j where "j = 2 ^ 64 - unat tick"
    have "unat tick < 2 ^ 64" by (rule unat_u64_less)
    then have j: "0 < j" "j \<le> m" "unat tick + j = 2 ^ 64" using False by (simp_all add: j_def)
    have "tick + of_nat j = of_nat (unat tick + j)" by simp
    also have "\<dots> = (0 :: u64)" unfolding j(3) by simp
    finally have "(tick + of_nat (Suc (j - 1))) mod RECONCILE_TICKS = 0" using j(1) by simp
    with j m show ?thesis by (intro exI [of _ "j - 1"]) auto
  qed
qed

subsection \<open>Expiry of queued messages\<close>

text \<open>The senders of the messages of a queue that parse.\<close>

definition queue_senders :: "('r, 'g, 'v) ext \<Rightarrow> string list \<Rightarrow> string set" where
  "queue_senders X ms = {s. \<exists>j \<in> set ms. \<exists>m. x_de X j = Some m \<and> s = or_empty (src m)}"

lemma inbox_expire_messages:
  assumes "senders_ok st"
    and "\<forall>j \<in> set ms. \<forall>m. x_de X j = Some m \<longrightarrow> or_empty (dst m) = d"
  shows "inbox (expire_messages X ms seen st) s = inbox st s @
    (if s \<in> queue_senders X ms \<and> s @ ''_'' @ d \<notin> set seen \<and> reachable_client st s then [expire_frame d s] else [])"
  using assms
proof (induction ms arbitrary: seen st)
  case Nil
  then show ?case by (simp add: queue_senders_def)
next
  case (Cons j ms)
  show ?case
  proof (cases "x_de X j")
    case None
    then have "queue_senders X (j # ms) = queue_senders X ms" by (auto simp: queue_senders_def)
    with None Cons show ?thesis by simp
  next
    case (Some m)
    let ?s = "or_empty (src m)"
    have d: "or_empty (dst m) = d" using Cons.prems(2) Some by simp
    have senders: "queue_senders X (j # ms) = insert ?s (queue_senders X ms)"
      using Some by (auto simp: queue_senders_def)
    show ?thesis
    proof (cases "?s @ ''_'' @ d \<in> set seen")
      case True
      with Some d Cons senders show ?thesis by auto
    next
      case False
      have "inbox (expire_messages X ms (hs_insert (?s @ ''_'' @ d) seen) (send_to ?s (expire_frame d ?s) st)) s =
          inbox (send_to ?s (expire_frame d ?s) st) s @
          (if s \<in> queue_senders X ms \<and> s \<noteq> ?s \<and> s @ ''_'' @ d \<notin> set seen \<and> reachable_client st s
           then [expire_frame d s] else [])"
        using Cons.IH [of "send_to ?s (expire_frame d ?s) st" "hs_insert (?s @ ''_'' @ d) seen"] Cons.prems
        by (auto split: if_splits)
      with Some d False senders inbox_send [OF Cons.prems(1), of ?s "expire_frame d ?s" s] show ?thesis
        by (cases "s = ?s") (simp_all add: Let_def)
    qed
  qed
qed

section \<open>Properties\<close>

text \<open>
  C28: A turn of the eviction task removes exactly the clients that are overdue: no heartbeat for
  \<^verbatim>\<open>alive_timeout\<close> milliseconds, or, with an idle timeout, no other message for that long. All
  other registrations stay, and the connection counter stays exact. Clock readings since 1970 are
  non-negative, so that the wrapping subtraction is the true difference.
\<close>

theorem overdue_clients_evicted:
  fixes X :: "('r, 'g, 'v) ext" and st :: "('r, 'g, 'v) app_state" and tick :: u64
  assumes "dm_wf (clients st)" "0 \<le> sint (wall X)"
    and "\<forall>c m. dm_get (clients st) c = Some m \<longrightarrow> 0 \<le> sint (cm_last_ping m) \<and> 0 \<le> sint (cm_last_message m)"
  defines "overdue \<equiv> \<lambda>m. sint (cfg_alive_timeout (config st)) \<le> sint (wall X) - sint (cm_last_ping m) \<or>
      0 < sint (cfg_idle_timeout (config st)) \<and>
      sint (cfg_idle_timeout (config st)) \<le> sint (wall X) - sint (cm_last_message m)"
    and "st' \<equiv> snd (check_broken_tick X tick st)"
  shows "(dm_get (clients st') c =
      (case dm_get (clients st) c of None \<Rightarrow> None | Some m \<Rightarrow> if overdue m then None else Some m)) \<and>
    (dm_get (ws_senders st') c =
      (if \<exists>m. dm_get (clients st) c = Some m \<and> overdue m then None else dm_get (ws_senders st) c)) \<and>
    (slots_counted st \<longrightarrow> slots_counted st')"
proof (rule conjI3; (intro impI)?)
  let ?out = "map fst (filter (\<lambda>(_, meta). should_evict X (config st) meta) (clients st))"
  have "should_evict X (config st) m = overdue m" if "dm_get (clients st) c = Some m" for c m
    using assms(2,3) that
    by (auto simp: should_evict_def ping_overdue_def idle_overdue_def overdue_def sint_diff)
  then have out: "c \<in> set ?out \<longleftrightarrow> (\<exists>m. dm_get (clients st) c = Some m \<and> overdue m)" for c
    unfolding set_selected_keys [OF assms(1), of "\<lambda>_ m. should_evict X (config st) m"] by auto
  have st': "clients st' = clients (fold (evict_client X) ?out st)"
    "ws_senders st' = ws_senders (fold (evict_client X) ?out st)"
    by (simp_all add: st'_def check_broken_tick_def Let_def)
  show "dm_get (clients st') c =
      (case dm_get (clients st) c of None \<Rightarrow> None | Some m \<Rightarrow> if overdue m then None else Some m)"
    using out [of c] by (auto simp: st' clients_evict_all split: option.split)
  show "dm_get (ws_senders st') c =
      (if \<exists>m. dm_get (clients st) c = Some m \<and> overdue m then None else dm_get (ws_senders st) c)"
    unfolding st' senders_evict_all out by simp
  show "slots_counted st \<Longrightarrow> slots_counted st'" unfolding st'_def by (rule slots_counted_tick)
qed

theorem overdue_clients_evicted_witness:
  "dm_get (clients (snd (check_broken_tick (demo_ext\<lparr>wall := 60000\<rparr>) 0 (demo_two default_config)))) ''a'' = None \<and>
   dm_get (clients (snd (check_broken_tick (demo_ext\<lparr>wall := 59999\<rparr>) 0 (demo_two default_config)))) ''a'' =
     Some (client_meta_new 0 ''ta'')"
proof -
  have wf: "dm_wf (clients (demo_two default_config))"
    by (simp add: demo_two_def dm_wf_def dm_keys_def)
  have a: "dm_get (clients (demo_two default_config)) ''a'' = Some (client_meta_new 0 ''ta'')"
    by (simp add: demo_two_def dm_get_def)
  have past: "\<forall>c m. dm_get (clients (demo_two default_config)) c = Some m \<longrightarrow>
      0 \<le> sint (cm_last_ping m) \<and> 0 \<le> sint (cm_last_message m)"
    by (auto simp: demo_two_def dm_get_def client_meta_new_def split: if_splits)
  have sints: "sint (60000 :: i64) = 60000" "sint (59999 :: i64) = 59999" "sint (900000 :: i64) = 900000" by simp_all
  from overdue_clients_evicted [OF wf _ past, of "demo_ext\<lparr>wall := 60000\<rparr>" 0 "''a''"]
    overdue_clients_evicted [OF wf _ past, of "demo_ext\<lparr>wall := 59999\<rparr>" 0 "''a''"] a
  show ?thesis by (simp add: sints client_meta_new_def)
qed

text \<open>
  A task stops at once and only when told: up to a shutdown signal it has done exactly the turns of its
  sleeps, the signal ends it, and whatever would wake it later has no effect.
\<close>

theorem tasks_stop_when_told:
  fixes Xs :: "('r, 'g, 'v) ext list"
  shows "messages_expire_service (map Slept Xs @ ShutdownChanged # later) st = (True, fold messages_expire_tick Xs st) \<and>
    messages_expire_service (map Slept Xs) st = (False, fold messages_expire_tick Xs st) \<and>
    replay_evict_service (map Slept Xs @ ShutdownChanged # later) st = (True, fold replay_evict_tick Xs st) \<and>
    sync_redis_service (map Slept Xs @ ShutdownChanged # later) st = (True, fold sync_redis_tick Xs st) \<and>
    fst (check_broken_service (map Slept Xs @ ShutdownChanged # later) st) \<and>
    snd (snd (check_broken_service (map Slept Xs @ ShutdownChanged # later) st)) = check_broken_run Xs 0 st"
proof -
  have "snd (fold (\<lambda>X (tick, st). check_broken_tick X tick st) Xs (t, st)) = check_broken_run Xs t st" for t
    by (induction Xs arbitrary: t st) (simp_all split: prod.split)
  then show ?thesis
    by (simp add: service_loop_turns messages_expire_service_def replay_evict_service_def sync_redis_service_def check_broken_service_def)
qed

text \<open>
  Whatever the connection counter has drifted to, sixty consecutive turns of the task make it
  exact again, and it stays exact in the turns that follow; the tick counter may wrap on the way.
\<close>

theorem counter_recovers:
  assumes "dm_wf (clients st)" "dm_len (clients st) < 2 ^ 64" "60 \<le> length Xs"
  shows "slots_counted (check_broken_run Xs tick st)"
  using reconcile_tick_near [of tick] run_reconciles [OF assms(1,2)] assms(3) by (meson less_le_trans)

theorem counter_recovers_witness:
  "slots_counted (check_broken_run (replicate 60 demo_ext) (- 3) ((demo_two default_config)\<lparr>active_connections := - 1\<rparr>))"
  by (rule counter_recovers) (simp_all add: demo_two_def dm_wf_def dm_keys_def dm_len_def)

text \<open>
  C29: When a queue has not been read for \<^verbatim>\<open>expire_timeout\<close> milliseconds, every sender of a message in
  it that is still connected gets exactly one EXPIRE, however many of its messages were queued,
  nobody else gets anything, and the queue is cleared; before that time nothing happens. The
  messages are those the server queues, addressed to the owner of the queue.
\<close>

theorem expired_queue_notifies_once:
  fixes X :: "('r, 'g, 'v) ext" and st :: "('r, 'g, 'v) app_state" and d :: string
  assumes "senders_ok st"
    and "get_queue_last_read_at (x_redis X) d (redis st) = Inr (Some read_at)" "0 \<le> sint (wall X)" "0 \<le> sint read_at"
    and "\<forall>j \<in> set (queued_messages X d (redis st)). \<forall>m. x_de X j = Some m \<longrightarrow> or_empty (dst m) = d"
  shows "(sint (wall X) - sint read_at < sint (cfg_expire_timeout (config st)) \<longrightarrow> expire_queue X d st = st) \<and>
    (sint (cfg_expire_timeout (config st)) \<le> sint (wall X) - sint read_at \<longrightarrow> inbox (expire_queue X d st) s = inbox st s @
        (if s \<in> queue_senders X (queued_messages X d (redis st)) \<and> reachable_client st s then [expire_frame d s] else []) \<and>
      redis (expire_queue X d st) = fst (clear_message_queue (x_redis X) d
        (fst (read_all_messages (x_redis X) (wall X) d (redis st)))))"
proof (rule conjI; (intro impI)?)
  have diff: "sint (wall X - read_at) = sint (wall X) - sint read_at" using assms(3,4) by (rule sint_diff)
  show "expire_queue X d st = st" if "sint (wall X) - sint read_at < sint (cfg_expire_timeout (config st))"
    using that assms(2) by (simp add: expire_queue_def diff)
  show "inbox (expire_queue X d st) s = inbox st s @
        (if s \<in> queue_senders X (queued_messages X d (redis st)) \<and> reachable_client st s then [expire_frame d s] else []) \<and>
      redis (expire_queue X d st) = fst (clear_message_queue (x_redis X) d
        (fst (read_all_messages (x_redis X) (wall X) d (redis st))))"
    if late: "sint (cfg_expire_timeout (config st)) \<le> sint (wall X) - sint read_at"
  proof -
    let ?st = "st\<lparr>redis := fst (read_all_messages (x_redis X) (wall X) d (redis st))\<rparr>"
    have eq: "expire_queue X d st = redis_do (clear_message_queue (x_redis X) d)
        (expire_messages X (queued_messages X d (redis st)) [] ?st)"
      using late assms(2) by (simp add: expire_queue_def diff queued_messages_def case_prod_beta Let_def)
    have "senders_ok ?st" "inbox ?st s = inbox st s" "reachable_client ?st s = reachable_client st s"
      using assms(1) by (simp_all add: senders_ok_def inbox_def reachable_client_def split: option.split)
    with inbox_expire_messages [OF _ assms(5), of ?st "[]" s] show ?thesis
      by (simp add: eq) (simp add: redis_do_def)
  qed
qed

theorem expired_queue_notifies_once_witness:
  "let ex = demo_ext\<lparr>wall := 6000, x_de := (\<lambda>j. Some ((bare_message OFFER None)\<lparr>src := Some ''b'', dst := Some ''z''\<rparr>))\<rparr>;
       st = (demo_two default_config)\<lparr>redis := the (enqueue_all mem_api [(0, ''z'', ''x''), (0, ''z'', ''y'')] mem_empty)\<rparr>
   in inbox (expire_queue ex ''z'' st) ''b'' = inbox st ''b'' @ [expire_frame ''z'' ''b'']"
proof -
  let ?m = "(bare_message OFFER None)\<lparr>src := Some ''b'', dst := Some ''z''\<rparr>"
  let ?X = "demo_ext\<lparr>wall := 6000, x_de := (\<lambda>j. Some ?m)\<rparr>"
  let ?r = "the (enqueue_all mem_api [(0, ''z'', ''x''), (0, ''z'', ''y'')] mem_empty)"
  let ?st = "(demo_two default_config)\<lparr>redis := ?r\<rparr>"
  have ok: "senders_ok ?st" "reachable_client ?st ''b''"
    using demo_two_senders [of default_config] by (simp_all add: senders_ok_def reachable_client_def split: option.splits)
  have q: "queued_messages ?X ''z'' ?r = [''x'', ''y'']"
    by (simp add: queued_messages_def read_all_messages_def demo_ext_fields add_message_to_queue_def mem_api_def
        mem_empty_def)
  have "parse_i64 (show_i64 0) = Some 0" by (rule parse_i64_show_i64)
  then have read: "get_queue_last_read_at (x_redis ?X) ''z'' (redis ?st) = Inr (Some 0)"
    by (simp add: get_queue_last_read_at_def demo_ext_fields add_message_to_queue_def mem_api_def mem_empty_def)
  have sints: "sint (6000 :: i64) = 6000" "sint (5000 :: i64) = 5000" by simp_all
  have "queue_senders ?X [''x'', ''y''] = {''b''}" by (auto simp: queue_senders_def or_empty_def)
  moreover have dsts: "\<forall>j \<in> set (queued_messages ?X ''z'' (redis ?st)). \<forall>m. x_de ?X j = Some m \<longrightarrow> or_empty (dst m) = ''z''"
    by (simp add: or_empty_def)
  ultimately show ?thesis
    using expired_queue_notifies_once [OF ok(1) read _ _ dsts, of "''b''"] ok(2) q by (simp add: sints)
qed

text \<open>
  Eviction forgets the client but not its memberships, and the close of its socket does not make
  up for it. An evicted client that was in a room stays a member, indexed, with its claims and
  its tenant; when its socket finally closes, the closing task no longer finds itself registered and
  cleans nothing up, so that the ghost member stays.
\<close>

theorem evicted_client_stays_in_rooms:
  assumes "c \<in> members st r" "r \<in> joined st c"
  shows "dm_get (clients (evict_client X c st)) c = None \<and>
    c \<in> members (ws_close X' c tx (evict_client X c st)) r \<and>
    r \<in> joined (ws_close X' c tx (evict_client X c st)) c \<and>
    pending (ws_close X' c tx (evict_client X c st)) c = pending st c \<and>
    client_claims (ws_close X' c tx (evict_client X c st)) = client_claims st"
proof (rule conjI5)
  have "dm_get (ws_senders (evict_client X c st)) c = None" by (simp add: senders_evict)
  then have close: "ws_close X' c tx (evict_client X c st) = chan_close tx (evict_client X c st)"
    by (simp add: ws_close_def)
  show "dm_get (clients (evict_client X c st)) c = None" by (simp add: clients_evict)
  show "c \<in> members (ws_close X' c tx (evict_client X c st)) r"
    "r \<in> joined (ws_close X' c tx (evict_client X c st)) c"
    "pending (ws_close X' c tx (evict_client X c st)) c = pending st c"
    using assms by (simp_all add: close members_def joined_def pending_def)
  show "client_claims (ws_close X' c tx (evict_client X c st)) = client_claims st" by (simp add: close)
qed

theorem evicted_client_stays_in_rooms_witness:
  "''a'' \<in> members (ws_close demo_ext ''a'' 0 (evict_client demo_ext ''a'' (demo_lobby default_config))) ''lobby''"
  by (rule evicted_client_stays_in_rooms [THEN conjunct2, THEN conjunct1]) (simp_all add: demo_lobby_members)

lemma set_pings_get:
  assumes "redis_pipe_ok R ex" "redis_frame_ok R ex" "redis_hash_ok R ex"
    and "\<And>c r. snd (set_last_ping R now c ttl r) = Inr ()"
  shows "r_hget R (client_key c) ''last_ping'' (fold (\<lambda>c r. fst (set_last_ping R now c ttl r)) cs r) =
    (if c \<in> set cs then Inr (Some (show_i64 now)) else r_hget R (client_key c) ''last_ping'' r)"
proof (induction cs arbitrary: r)
  case Nil
  then show ?case by simp
next
  case (Cons d cs)
  have "fst (set_last_ping R now d ttl r) = fold ex [Hset (client_key d) ''last_ping'' (show_i64 now),
      Expire (client_key d) (ttl_seconds ttl)] r"
    using redis_pipeD [OF assms(1)] assms(4) [of d r] by (metis prod.collapse set_last_ping_def)
  then have "r_hget R (client_key c) ''last_ping'' (fst (set_last_ping R now d ttl r)) =
      (if c = d then Inr (Some (show_i64 now)) else r_hget R (client_key c) ''last_ping'' r)"
    using assms(2,3) ttl_seconds_pos [of ttl] by (simp add: redis_frames redis_hash_ok_def)
  with Cons.IH show ?case by (cases "c = d") simp_all
qed

lemma redis_fold_do: "redis (fold (\<lambda>c. redis_do (f c)) cs st) = fold (\<lambda>c r. fst (f c r)) cs (redis st)"
  by (induction cs arbitrary: st) (simp_all add: redis_do_def)

text \<open>
  The refresh of Redis writes the time of the refresh, not the client's last heartbeat: after a
  turn of the task every registered client has the current time as its \<^verbatim>\<open>last_ping\<close>, however long
  it has been silent.
\<close>

theorem sync_writes_current_time:
  assumes "redis_pipe_ok (x_redis X) ex" "redis_frame_ok (x_redis X) ex" "redis_hash_ok (x_redis X) ex"
    and "\<forall>c r. snd (set_last_ping (x_redis X) (wall X) c (cfg_alive_timeout (config st)) r) = Inr ()"
    and "dm_get (clients st) c = Some meta"
  shows "r_hget (x_redis X) (client_key c) ''last_ping'' (redis (sync_redis_tick X st)) = Inr (Some (show_i64 (wall X)))"
  using set_pings_get [OF assms(1-3), of "wall X" "cfg_alive_timeout (config st)" c "dm_keys (clients st)" "redis st"]
    assms(4) dm_get_in_keys [OF assms(5)]
  by (simp add: sync_redis_tick_def redis_fold_do)

theorem sync_writes_current_time_witness:
  "r_hget mem_api (client_key ''a'') ''last_ping'' (redis (sync_redis_tick demo_ext (demo_two default_config))) =
     Inr (Some (show_i64 1000))"
proof -
  have ok: "redis_pipe_ok (x_redis demo_ext) mem_exec" "redis_frame_ok (x_redis demo_ext) mem_exec"
    "redis_hash_ok (x_redis demo_ext) mem_exec"
    using mem_api_ok mem_frame_ok by (simp_all add: demo_ext_fields)
  have succ: "\<forall>c r. snd (set_last_ping (x_redis demo_ext) (wall demo_ext) c
      (cfg_alive_timeout (config (demo_two default_config))) r) = Inr ()"
    by (simp add: set_last_ping_def demo_ext_fields mem_api_def)
  have "dm_get (clients (demo_two default_config)) ''a'' = Some (client_meta_new 0 ''ta'')"
    by (simp add: demo_two_def dm_get_def)
  from sync_writes_current_time [OF ok succ this] show ?thesis by (simp add: demo_ext_fields)
qed

end
