(* ===== verification/Connection_Slots.thy ===== *)
theory Connection_Slots
  imports App_State
begin

text \<open>
  \<^verbatim>\<open>AppState::try_reserve_connection_slot\<close> and \<^verbatim>\<open>release_connection_slot\<close> of
  \<^verbatim>\<open>src/state.rs\<close> at the granularity of their atomic operations. Any number of threads run
  them at once; a step of the system is one \<^verbatim>\<open>fetch_add\<close> or \<^verbatim>\<open>fetch_sub\<close> of one thread. Between
  its \<^verbatim>\<open>fetch_add\<close> and its next operation a thread remembers the previous value it was given.
\<close>

text \<open>\<open>Added prev\<close>: after the \<^verbatim>\<open>fetch_add\<close>; \<open>Holding\<close>: \<^verbatim>\<open>true\<close> was returned, not yet released.\<close>

datatype slot_pc = Idle | Added usize | Holding

record slots =
  counter :: usize
  pc :: "nat \<Rightarrow> slot_pc"

inductive slot_step :: "usize \<Rightarrow> nat \<Rightarrow> slots \<Rightarrow> slots \<Rightarrow> bool" for limit n where
  fetch_add: "t < n \<Longrightarrow> pc s t = Idle \<Longrightarrow>
    slot_step limit n s (s\<lparr>counter := counter s + 1, pc := (pc s)(t := Added (counter s))\<rparr>)"
| refuse: "t < n \<Longrightarrow> pc s t = Added prev \<Longrightarrow> limit \<le> prev \<Longrightarrow>
    slot_step limit n s (s\<lparr>counter := counter s - 1, pc := (pc s)(t := Idle)\<rparr>)"
| grant: "t < n \<Longrightarrow> pc s t = Added prev \<Longrightarrow> \<not> limit \<le> prev \<Longrightarrow>
    slot_step limit n s (s\<lparr>pc := (pc s)(t := Holding)\<rparr>)"
| release: "t < n \<Longrightarrow> pc s t = Holding \<Longrightarrow>
    slot_step limit n s (s\<lparr>counter := counter s - 1, pc := (pc s)(t := Idle)\<rparr>)"

inductive_cases slot_stepE: "slot_step limit n s s'"

definition slots_init :: slots where
  "slots_init = \<lparr>counter = 0, pc = (\<lambda>_. Idle)\<rparr>"

inductive slots_reachable :: "usize \<Rightarrow> nat \<Rightarrow> slots \<Rightarrow> bool" for limit n where
  init: "slots_reachable limit n slots_init"
| step: "slots_reachable limit n s \<Longrightarrow> slot_step limit n s s' \<Longrightarrow> slots_reachable limit n s'"

definition holders :: "nat \<Rightarrow> slots \<Rightarrow> nat set" where
  "holders n s = {t. t < n \<and> pc s t = Holding}"

text \<open>Threads the counter counts, and threads that hold a slot or are bound to get one.\<close>

definition counted :: "nat \<Rightarrow> slots \<Rightarrow> nat set" where
  "counted n s = {t. t < n \<and> pc s t \<noteq> Idle}"

definition granted :: "usize \<Rightarrow> nat \<Rightarrow> slots \<Rightarrow> nat set" where
  "granted limit n s =
     {t. t < n \<and> (case pc s t of Idle \<Rightarrow> False | Added prev \<Rightarrow> prev < limit | Holding \<Rightarrow> True)}"

definition slots_ok :: "usize \<Rightarrow> nat \<Rightarrow> slots \<Rightarrow> bool" where
  "slots_ok limit n s \<longleftrightarrow>
     unat (counter s) = card (counted n s) \<and> card (granted limit n s) \<le> unat limit"

lemma finite_counted [simp]: "finite (counted n s)" "finite (granted limit n s)"
  by (rule finite_subset [of _ "{..<n}"]; auto simp: counted_def granted_def)+

lemma granted_counted: "granted limit n s \<subseteq> counted n s"
  by (auto simp: counted_def granted_def)

lemma card_counted_le: "card (counted n s) \<le> n"
  using card_mono [of "{..<n}" "counted n s"] by (auto simp: counted_def)

lemma counted_upd: "t < n \<Longrightarrow> counted n (s\<lparr>counter := k, pc := (pc s)(t := p)\<rparr>) =
    (if p = Idle then counted n s - {t} else insert t (counted n s))"
  by (auto simp: counted_def)

lemma granted_upd: "t < n \<Longrightarrow> granted limit n (s\<lparr>counter := k, pc := (pc s)(t := p)\<rparr>) =
    (if (case p of Idle \<Rightarrow> False | Added prev \<Rightarrow> prev < limit | Holding \<Rightarrow> True)
     then insert t (granted limit n s) else granted limit n s - {t})"
  by (auto simp: granted_def)

lemma unat_pred: "unat w = Suc k \<Longrightarrow> unat (w - 1) = k" for w :: usize
proof -
  assume "unat w = Suc k"
  moreover from this have "w \<noteq> 0" by auto
  ultimately show ?thesis by (simp add: unat_minus_one)
qed

lemma unat_succ: "unat w = k \<Longrightarrow> k < 2 ^ 64 - 1 \<Longrightarrow> unat (w + 1) = Suc k" for w :: usize
  using unat_word_ariths(1) [of w 1] by simp

text \<open>A step keeps the invariant, provided the threads are fewer than the counter can count.\<close>

lemma slot_step_ok:
  assumes "slot_step limit n s s'" "slots_ok limit n s" "n < 2 ^ 64"
  shows "slots_ok limit n s'"
  using assms(1)
proof (cases rule: slot_step.cases)
  case (fetch_add t)
  have new: "t \<notin> counted n s" "t \<notin> granted limit n s"
    using fetch_add by (auto simp: counted_def granted_def)
  have "card (insert t (counted n s)) \<le> n"
    using fetch_add(2) card_mono [of "{..<n}" "insert t (counted n s)"] by (auto simp: counted_def)
  with new have room: "card (counted n s) < 2 ^ 64 - 1" using assms(3) by simp
  have count: "unat (counter s) = card (counted n s)" and cap: "card (granted limit n s) \<le> unat limit"
    using assms(2) by (simp_all add: slots_ok_def)
  have "card (granted limit n s) \<le> unat (counter s)"
    unfolding count by (rule card_mono) (simp_all add: granted_counted)
  then have "counter s < limit \<Longrightarrow> Suc (card (granted limit n s)) \<le> unat limit"
    by (metis Suc_leI order_le_less_trans word_less_nat_alt)
  with fetch_add new cap unat_succ [OF count room] show ?thesis
    by (simp add: slots_ok_def counted_upd granted_upd)
next
  case (refuse t prev)
  have "t \<in> counted n s" "t \<notin> granted limit n s"
    using refuse by (auto simp: counted_def granted_def)
  moreover from this(1) have "card (counted n s) = Suc (card (counted n s - {t}))"
    by (metis card_Suc_Diff1 finite_counted(1))
  ultimately show ?thesis
    using refuse assms(2) unat_pred by (simp add: slots_ok_def counted_upd granted_upd)
next
  case (grant t prev)
  then have "counted n s' = counted n s" "granted limit n s' = granted limit n s"
    by (auto simp: counted_def granted_def)
  with grant assms(2) show ?thesis by (simp add: slots_ok_def)
next
  case (release t)
  have "t \<in> counted n s"
    using release by (auto simp: counted_def)
  then have "card (counted n s) = Suc (card (counted n s - {t}))"
    by (metis card_Suc_Diff1 finite_counted(1))
  moreover have "card (granted limit n s - {t}) \<le> card (granted limit n s)"
    by (rule card_mono) auto
  ultimately show ?thesis
    using release assms(2) unat_pred by (simp add: slots_ok_def counted_upd granted_upd)
qed

lemma slots_reachable_ok: "slots_reachable limit n s \<Longrightarrow> n < 2 ^ 64 \<Longrightarrow> slots_ok limit n s"
proof (induction rule: slots_reachable.induct)
  case init
  then show ?case by (simp add: slots_ok_def slots_init_def counted_def granted_def)
next
  case (step s s')
  then show ?case by (simp add: slot_step_ok)
qed

lemma holders_granted: "holders n s \<subseteq> granted limit n s"
  by (auto simp: holders_def granted_def)

section \<open>Properties\<close>

text \<open>
  C10: However the atomic operations of concurrent connection attempts interleave, the number of
  connections that hold a slot never exceeds the limit, and when no attempt is between its two
  operations the counter is exactly the number of holders. The bound on the number of threads
  keeps the counter from wrapping.
\<close>

theorem slot_limit_never_exceeded:
  assumes "slots_reachable limit n s" "n < 2 ^ 64"
  shows "card (holders n s) \<le> unat limit \<and>
    ((\<forall>t < n. \<forall>prev. pc s t \<noteq> Added prev) \<longrightarrow> unat (counter s) = card (holders n s))"
proof (rule conjI; (intro impI)?)
  note ok = slots_reachable_ok [OF assms]
  have "card (holders n s) \<le> card (granted limit n s)"
    by (rule card_mono) (simp_all add: holders_granted)
  with ok show "card (holders n s) \<le> unat limit" by (simp add: slots_ok_def)
  assume quiet: "\<forall>t < n. \<forall>prev. pc s t \<noteq> Added prev"
  have "pc s t = Holding" if "t < n" "pc s t \<noteq> Idle" for t
    using that quiet by (cases "pc s t") auto
  then have "counted n s = holders n s" by (auto simp: counted_def holders_def)
  with ok show "unat (counter s) = card (holders n s)" by (simp add: slots_ok_def)
qed

text \<open>Two threads race for one slot; both have added, the first is granted.\<close>

theorem slot_limit_never_exceeded_witness:
  "\<exists>s. slots_reachable 1 2 s \<and> pc s 0 = Holding \<and> pc s 1 = Added 1 \<and> card (holders 2 s) \<le> 1"
proof -
  let ?s1 = "slots_init\<lparr>counter := counter slots_init + 1,
      pc := (pc slots_init)(0 := Added (counter slots_init))\<rparr>"
  let ?s2 = "?s1\<lparr>counter := counter ?s1 + 1, pc := (pc ?s1)(1 := Added (counter ?s1))\<rparr>"
  let ?s3 = "?s2\<lparr>pc := (pc ?s2)(0 := Holding)\<rparr>"
  have "slot_step 1 2 slots_init ?s1" by (rule slot_step.fetch_add) (simp_all add: slots_init_def)
  moreover have "slot_step 1 2 ?s1 ?s2" by (rule slot_step.fetch_add) (simp_all add: slots_init_def)
  moreover have "slot_step 1 2 ?s2 ?s3"
    by (rule slot_step.grant [where prev = 0]) (simp_all add: slots_init_def)
  ultimately have "slots_reachable 1 2 ?s3" by (meson slots_reachable.intros)
  with slot_limit_never_exceeded [OF this] show ?thesis
    by (intro exI [of _ ?s3]) (simp add: slots_init_def)
qed

end
