(* ===== verification/Http_Handler.thy ===== *)
theory Http_Handler
  imports Sessions
begin

text \<open>
  \<^verbatim>\<open>src/handlers/http.rs\<close>: the HTTP fallback transports. \<open>sse_handler\<close> opens an event stream,
  \<open>poll_handler\<close> registers a polling client or reuses its receiver, \<open>send_handler\<close> takes a
  message from either. A handler returns a status with a text, or the channel whose receiver it
  hands on: the stream of an SSE client, the shared receiver of a polling client.

  The end of a stream, one look of its watchdog and the batch a poll returns are operations of
  their own, because other handlers run in between.
\<close>

section \<open>The code\<close>

record http_query =
  hq_id :: string
  hq_token :: string
  hq_key :: "string option"
  hq_last_seq :: "u64 option"
  hq_api_key :: "string option"
  hq_jwt :: "string option"

type_synonym http_error = "nat \<times> string"

text \<open>The checks that open both receiving handlers.\<close>

definition http_authenticate ::
  "('r, 'g, 'v) ext \<Rightarrow> http_query \<Rightarrow> ('r, 'g, 'v) app_state \<Rightarrow>
     (http_error + tenant option) \<times> ('r, 'g, 'v) app_state" where
  "http_authenticate X params st =
     (if \<not> (case hq_key params of None \<Rightarrow> False | Some key \<Rightarrow> constant_time_str_eq (x_ct_eq X) key (cfg_key (config st)))
      then (Inl (401, ''Invalid key''), st)
      else case resolve_tenant X (hq_api_key params) st of
        (None, st) \<Rightarrow>
          (Inl (401, if hq_api_key params = None then ''api_key required'' else ''Invalid api_key''), st)
      | (Some resolved_tenant, st) \<Rightarrow>
          (case enforce_jwt X resolved_tenant (hq_jwt params) (hq_id params) st of
             (False, st) \<Rightarrow> (Inl (403, ''Invalid token''), st)
           | (True, st) \<Rightarrow> (Inr resolved_tenant, st)))"

text \<open>Token of a known client, slot for a new one: whether the client is new, or the refusal.\<close>

definition http_admit ::
  "http_query \<Rightarrow> ('r, 'g, 'v) app_state \<Rightarrow> (http_error + bool) \<times> ('r, 'g, 'v) app_state" where
  "http_admit params st =
     (case dm_get (clients st) (hq_id params) of
        Some existing \<Rightarrow>
          if cm_token existing \<noteq> hq_token params then (Inl (409, ''ID is taken''), st)
          else (Inr False, st)
      | None \<Rightarrow>
          let (reserved, st) = try_reserve_connection_slot (cfg_concurrent_limit (config st)) st
          in if \<not> reserved then (Inl (503, ''Connection limit reached''), st) else (Inr True, st))"

definition register_client_backend ::
  "('r, 'g, 'v) ext \<Rightarrow> string \<Rightarrow> string \<Rightarrow> ('r, 'g, 'v) app_state \<Rightarrow> ('r, 'g, 'v) app_state" where
  "register_client_backend X cid token st =
     redis_do (register_client (x_redis X) (wall X) cid token (cfg_alive_timeout (config st))) st"

definition http_deliver_queued_messages ::
  "('r, 'g, 'v) ext \<Rightarrow> string \<Rightarrow> nat \<Rightarrow> ('r, 'g, 'v) app_state \<Rightarrow> ('r, 'g, 'v) app_state" where
  "http_deliver_queued_messages X cid tx st =
     (let (r, res) = read_all_messages (x_redis X) (wall X) cid (redis st);
          st = st\<lparr>redis := r\<rparr>;
          msgs = (case res of Inl e \<Rightarrow> [] | Inr ms \<Rightarrow> ms)
      in if msgs = [] then st
         else redis_do (clear_message_queue (x_redis X) cid) (deliver_loop X tx msgs st))"

text \<open>The client's entry with its transport, and its tenant if it has one.\<close>

definition http_register ::
  "('r, 'g, 'v) ext \<Rightarrow> string \<Rightarrow> string \<Rightarrow> TransportKind \<Rightarrow> string option \<Rightarrow>
     ('r, 'g, 'v) app_state \<Rightarrow> ('r, 'g, 'v) app_state" where
  "http_register X cid token transport tenant_id st =
     (let st = st\<lparr>clients := dm_insert cid (client_meta_with_transport (wall X) token transport) (clients st)\<rparr>
      in case tenant_id of
           None \<Rightarrow> st
         | Some t \<Rightarrow> st\<lparr>client_tenants := dm_insert cid t (client_tenants st)\<rparr>)"

definition http_open_frame :: string where
  "http_open_frame = ''{\"type\":\"OPEN\"}''"

text \<open>The gap notice and the buffered messages after the requested one.\<close>

definition http_replay ::
  "('r, 'g, 'v) ext \<Rightarrow> string \<Rightarrow> nat \<Rightarrow> u64 option \<Rightarrow> ('r, 'g, 'v) app_state \<Rightarrow> ('r, 'g, 'v) app_state" where
  "http_replay X cid tx last_seq st =
     (case last_seq of
        None \<Rightarrow> st
      | Some requested_seq \<Rightarrow>
          let st = (case oldest_seq cid (replay_buffer st) of
                      None \<Rightarrow> st
                    | Some oldest \<Rightarrow>
                        if requested_seq < oldest then tx_send tx (gap_frame oldest requested_seq) st else st)
          in fold (tx_send tx) (replay_since (mono X) cid requested_seq (replay_buffer st)) st)"

text \<open>An admitted SSE client: registration, channel, OPEN, queued messages, replay.\<close>

definition sse_session ::
  "('r, 'g, 'v) ext \<Rightarrow> string \<Rightarrow> string \<Rightarrow> u64 option \<Rightarrow> string option \<Rightarrow> ('r, 'g, 'v) app_state \<Rightarrow>
     nat \<times> ('r, 'g, 'v) app_state" where
  "sse_session X cid token last_seq tenant_id st =
     (let st = register_client_backend X cid token st;
          (tx, st) = chan_new st;
          st = http_register X cid token Sse tenant_id (st\<lparr>ws_senders := dm_insert cid tx (ws_senders st)\<rparr>);
          st = tx_send tx http_open_frame st;
          st = http_deliver_queued_messages X cid tx st;
          st = http_replay X cid tx last_seq st
      in (tx, emit_event (peer_connected (wall X) cid) st))"

definition sse_handler ::
  "('r, 'g, 'v) ext \<Rightarrow> http_query \<Rightarrow> ('r, 'g, 'v) app_state \<Rightarrow> (http_error + nat) \<times> ('r, 'g, 'v) app_state" where
  "sse_handler X params st =
     (case http_authenticate X params st of
        (Inl e, st) \<Rightarrow> (Inl e, st)
      | (Inr resolved_tenant, st) \<Rightarrow>
          (case http_admit params st of
             (Inl e, st) \<Rightarrow> (Inl e, st)
           | (Inr is_new_client, st) \<Rightarrow>
               let (tx, st) = sse_session X (hq_id params) (hq_token params) (hq_last_seq params)
                     (map_option tn_id resolved_tenant) st
               in (Inr tx, st)))"

definition cleanup_client ::
  "('r, 'g, 'v) ext \<Rightarrow> string \<Rightarrow> ('r, 'g, 'v) app_state \<Rightarrow> ('r, 'g, 'v) app_state" where
  "cleanup_client X cid st =
     (let st = remove_sender cid st;
          st = st\<lparr>polling_receivers := dm_remove cid (polling_receivers st)\<rparr>;
          st = drop_client cid st;
          st = st\<lparr>client_claims := dm_remove cid (client_claims st)\<rparr>;
          st = st\<lparr>client_tenants := dm_remove cid (client_tenants st)\<rparr>;
          st = st\<lparr>rate_limiter := limiter_remove_client cid (rate_limiter st)\<rparr>;
          st = remove_client_from_all_rooms X cid st;
          st = redis_do (remove_client (x_redis X) cid) st
      in emit_event (peer_disconnected (wall X) cid) st)"

text \<open>One look of the watchdog, every five seconds: whether it goes on looking.\<close>

definition sse_watchdog ::
  "('r, 'g, 'v) ext \<Rightarrow> string \<Rightarrow> nat \<Rightarrow> ('r, 'g, 'v) app_state \<Rightarrow> bool \<times> ('r, 'g, 'v) app_state" where
  "sse_watchdog X cid tx st =
     (if \<not> ch_open (chans st tx) then (False, cleanup_client X cid st)
      else if \<not> dm_contains_key (clients st) cid then (False, st)
      else (True, st))"

text \<open>The stream ends because every sender of its channel is gone.\<close>

definition sse_stream_end ::
  "('r, 'g, 'v) ext \<Rightarrow> string \<Rightarrow> nat \<Rightarrow> ('r, 'g, 'v) app_state \<Rightarrow> ('r, 'g, 'v) app_state" where
  "sse_stream_end X cid tx st = chan_close tx (cleanup_client X cid st)"

text \<open>The bucket and the limit of a message, unmetered types apart.\<close>

definition http_bucket :: "MessageType \<Rightarrow> config \<Rightarrow> (string \<times> u32) option" where
  "http_bucket t cfg =
     (case t of
        OFFER \<Rightarrow> Some (''signaling'', cfg_rate_limit_signaling cfg)
      | ANSWER \<Rightarrow> Some (''signaling'', cfg_rate_limit_signaling cfg)
      | CANDIDATE \<Rightarrow> Some (''signaling'', cfg_rate_limit_signaling cfg)
      | DATA \<Rightarrow> Some (''data'', cfg_rate_limit_data cfg)
      | _ \<Rightarrow> None)"

definition apply_rate_limit ::
  "('r, 'g, 'v) ext \<Rightarrow> string \<Rightarrow> message \<Rightarrow> ('r, 'g, 'v) app_state \<Rightarrow> bool \<times> ('r, 'g, 'v) app_state" where
  "apply_rate_limit X client_id msg st =
     (case http_bucket (msg_type msg) (config st) of
        None \<Rightarrow> (True, st)
      | Some (bucket, limit) \<Rightarrow>
          let (allowed, rl) = check_and_consume (x_gov X) (mono X) client_id bucket limit (rate_limiter st);
              st = st\<lparr>rate_limiter := rl\<rparr>
          in (allowed, if \<not> allowed then emit_event (rate_limited (wall X) client_id bucket) st else st))"

text \<open>\<open>body\<close> is the parsed JSON body, \<open>from_value\<close> the decoder of messages from JSON values.\<close>

definition send_handler ::
  "('r, 'g, 'v) ext \<Rightarrow> ('v \<Rightarrow> message option) \<Rightarrow> http_query \<Rightarrow> 'v \<Rightarrow> ('r, 'g, 'v) app_state \<Rightarrow>
     http_error \<times> ('r, 'g, 'v) app_state" where
  "send_handler X from_value params body st =
     (let cid = hq_id params in
      case dm_get (clients st) cid of
        None \<Rightarrow> ((401, ''Client not registered''), st)
      | Some client \<Rightarrow>
          if cm_token client \<noteq> hq_token params then ((401, ''Client not registered''), st)
          else
            let st = st\<lparr>clients := dm_insert cid (touch (wall X) client) (clients st)\<rparr>
            in case from_value body of
                 None \<Rightarrow> ((400, ''Invalid message''), st)
               | Some msg \<Rightarrow>
                   (case apply_rate_limit X cid msg st of
                      (False, st) \<Rightarrow> ((429, ''Rate limit exceeded''), st)
                    | (True, st) \<Rightarrow> ((200, ''ok''), handle_message X cid msg st)))"

text \<open>The sender and the receiver of a polling client: the ones it has, or a fresh pair.\<close>

definition poll_channel ::
  "string \<Rightarrow> ('r, 'g, 'v) app_state \<Rightarrow> (nat \<times> nat) \<times> ('r, 'g, 'v) app_state" where
  "poll_channel cid st =
     (case (dm_get (polling_receivers st) cid, dm_get (ws_senders st) cid) of
        (Some rx, Some tx) \<Rightarrow> ((tx, rx), st)
      | _ \<Rightarrow>
          let (tx, st) = chan_new st;
              st = st\<lparr>ws_senders := dm_insert cid tx (ws_senders st)\<rparr>;
              st = st\<lparr>polling_receivers := dm_insert cid tx (polling_receivers st)\<rparr>
          in ((tx, tx), st))"

text \<open>An admitted poll: the receiver to drain, after registration or the heartbeat of a known client.\<close>

definition poll_session ::
  "('r, 'g, 'v) ext \<Rightarrow> bool \<Rightarrow> string \<Rightarrow> string \<Rightarrow> u64 option \<Rightarrow> string option \<Rightarrow> ('r, 'g, 'v) app_state \<Rightarrow>
     nat \<times> ('r, 'g, 'v) app_state" where
  "poll_session X is_new_client cid token last_seq tenant_id st =
     (let ((tx, rx), st) = poll_channel cid st;
          st = (if is_new_client then
                  let st = register_client_backend X cid token st;
                      st = http_register X cid token Polling tenant_id st;
                      st = tx_send tx http_open_frame st;
                      st = http_deliver_queued_messages X cid tx st
                  in emit_event (peer_connected (wall X) cid) st
                else
                  (case dm_get (clients st) cid of
                     None \<Rightarrow> st
                   | Some client \<Rightarrow> st\<lparr>clients := dm_insert cid (touch (wall X) client) (clients st)\<rparr>));
          st = http_replay X cid tx last_seq st
      in (rx, st))"

definition poll_handler ::
  "('r, 'g, 'v) ext \<Rightarrow> http_query \<Rightarrow> ('r, 'g, 'v) app_state \<Rightarrow> (http_error + nat) \<times> ('r, 'g, 'v) app_state" where
  "poll_handler X params st =
     (case http_authenticate X params st of
        (Inl e, st) \<Rightarrow> (Inl e, st)
      | (Inr resolved_tenant, st) \<Rightarrow>
          (case http_admit params st of
             (Inl e, st) \<Rightarrow> (Inl e, st)
           | (Inr is_new_client, st) \<Rightarrow>
               let (rx, st) = poll_session X is_new_client (hq_id params) (hq_token params) (hq_last_seq params)
                     (map_option tn_id resolved_tenant) st
               in (Inr rx, st)))"

definition MAX_BATCH :: nat where
  "MAX_BATCH = 500"

text \<open>
  What a poll returns and leaves in the channel, from the queue at the moment the wait for the
  first message ends; an empty queue is the timeout.
\<close>

fun poll_drain :: "string list \<Rightarrow> string list \<Rightarrow> string list \<times> string list" where
  "poll_drain msgs [] = (msgs, [])"
| "poll_drain msgs (m # queue) =
     (if length msgs < MAX_BATCH then poll_drain (msgs @ [m]) queue else (msgs, m # queue))"

definition collect_poll_messages_shared ::
  "nat \<Rightarrow> ('r, 'g, 'v) app_state \<Rightarrow> string list \<times> ('r, 'g, 'v) app_state" where
  "collect_poll_messages_shared rx st =
     (case ch_queue (chans st rx) of
        [] \<Rightarrow> ([], st)
      | m # queue \<Rightarrow>
          let (msgs, rest) = poll_drain [m] queue
          in (msgs, st\<lparr>chans := (chans st)(rx := (chans st rx)\<lparr>ch_queue := rest\<rparr>)\<rparr>))"

section \<open>Lemmas\<close>

lemma http_deliver_eq: "http_deliver_queued_messages = deliver_queued_messages"
  by (simp add: fun_eq_iff http_deliver_queued_messages_def deliver_queued_messages_def)

lemma poll_drain_eq: "length msgs \<le> MAX_BATCH \<Longrightarrow>
    poll_drain msgs q = (msgs @ take (MAX_BATCH - length msgs) q, drop (MAX_BATCH - length msgs) q)"
  by (induction msgs q rule: poll_drain.induct) (auto simp: take_Cons' drop_Cons' Suc_diff_Suc)

text \<open>A poll takes the first 500 messages and leaves the rest.\<close>

lemma collect_eq:
  "fst (collect_poll_messages_shared rx st) = take MAX_BATCH (ch_queue (chans st rx))"
  "ch_queue (chans (snd (collect_poll_messages_shared rx st)) rx) = drop MAX_BATCH (ch_queue (chans st rx))"
  by (simp_all add: collect_poll_messages_shared_def poll_drain_eq MAX_BATCH_def case_prod_beta take_Cons' drop_Cons'
      split: list.split)

lemma http_replay_frame_step:
  "(\<And>d s. f (tx_send tx d s) = f s) \<Longrightarrow> f (http_replay X c tx ls st) = f st"
  by (simp add: http_replay_def Let_def fold_frame [of f] split: option.split)

lemma http_replay_frame [simp]:
  "ws_senders (http_replay X c tx ls st) = ws_senders st"
  "clients (http_replay X c tx ls st) = clients st"
  "redis (http_replay X c tx ls st) = redis st"
  "config (http_replay X c tx ls st) = config st"
  "rooms (http_replay X c tx ls st) = rooms st"
  "client_rooms (http_replay X c tx ls st) = client_rooms st"
  "seq_counter (http_replay X c tx ls st) = seq_counter st"
  "rate_limiter (http_replay X c tx ls st) = rate_limiter st"
  "replay_buffer (http_replay X c tx ls st) = replay_buffer st"
  "pending_removals (http_replay X c tx ls st) = pending_removals st"
  "presence (http_replay X c tx ls st) = presence st"
  "client_claims (http_replay X c tx ls st) = client_claims st"
  "client_tenants (http_replay X c tx ls st) = client_tenants st"
  "active_connections (http_replay X c tx ls st) = active_connections st"
  "polling_receivers (http_replay X c tx ls st) = polling_receivers st"
  "next_chan (http_replay X c tx ls st) = next_chan st"
  by (simp_all add: http_replay_frame_step)

lemma http_register_frame [simp]:
  "ws_senders (http_register X c tok tr tid st) = ws_senders st"
  "clients (http_register X c tok tr tid st) = dm_insert c (client_meta_with_transport (wall X) tok tr) (clients st)"
  "redis (http_register X c tok tr tid st) = redis st"
  "config (http_register X c tok tr tid st) = config st"
  "rooms (http_register X c tok tr tid st) = rooms st"
  "client_rooms (http_register X c tok tr tid st) = client_rooms st"
  "seq_counter (http_register X c tok tr tid st) = seq_counter st"
  "rate_limiter (http_register X c tok tr tid st) = rate_limiter st"
  "replay_buffer (http_register X c tok tr tid st) = replay_buffer st"
  "pending_removals (http_register X c tok tr tid st) = pending_removals st"
  "presence (http_register X c tok tr tid st) = presence st"
  "client_claims (http_register X c tok tr tid st) = client_claims st"
  "active_connections (http_register X c tok tr tid st) = active_connections st"
  "polling_receivers (http_register X c tok tr tid st) = polling_receivers st"
  "chans (http_register X c tok tr tid st) = chans st"
  "next_chan (http_register X c tok tr tid st) = next_chan st"
  by (simp_all add: http_register_def Let_def split: option.split)

lemma sse_session_frame [simp]:
  "fst (sse_session X c tok ls tid st) = next_chan st"
  "ws_senders (snd (sse_session X c tok ls tid st)) = dm_insert c (next_chan st) (ws_senders st)"
  "clients (snd (sse_session X c tok ls tid st)) = dm_insert c (client_meta_with_transport (wall X) tok Sse) (clients st)"
  "config (snd (sse_session X c tok ls tid st)) = config st"
  "rooms (snd (sse_session X c tok ls tid st)) = rooms st"
  "client_rooms (snd (sse_session X c tok ls tid st)) = client_rooms st"
  "seq_counter (snd (sse_session X c tok ls tid st)) = seq_counter st"
  "rate_limiter (snd (sse_session X c tok ls tid st)) = rate_limiter st"
  "replay_buffer (snd (sse_session X c tok ls tid st)) = replay_buffer st"
  "pending_removals (snd (sse_session X c tok ls tid st)) = pending_removals st"
  "presence (snd (sse_session X c tok ls tid st)) = presence st"
  "client_claims (snd (sse_session X c tok ls tid st)) = client_claims st"
  "active_connections (snd (sse_session X c tok ls tid st)) = active_connections st"
  "polling_receivers (snd (sse_session X c tok ls tid st)) = polling_receivers st"
  "next_chan (snd (sse_session X c tok ls tid st)) = Suc (next_chan st)"
  by (simp_all add: sse_session_def register_client_backend_def chan_new_def http_deliver_eq Let_def)

text \<open>Whether a poll makes a fresh pair, and the state it goes on with.\<close>

definition poll_pair :: "string \<Rightarrow> ('r, 'g, 'v) app_state \<Rightarrow> (nat \<times> nat) option" where
  "poll_pair c st = (case (dm_get (polling_receivers st) c, dm_get (ws_senders st) c) of
     (Some rx, Some tx) \<Rightarrow> Some (tx, rx) | _ \<Rightarrow> None)"

lemma poll_channel_eq:
  "poll_channel c st = (case poll_pair c st of
     Some p \<Rightarrow> (p, st)
   | None \<Rightarrow> ((next_chan st, next_chan st),
       st\<lparr>chans := (chans st)(next_chan st := \<lparr>ch_queue = [], ch_open = True\<rparr>), next_chan := Suc (next_chan st),
          ws_senders := dm_insert c (next_chan st) (ws_senders st),
          polling_receivers := dm_insert c (next_chan st) (polling_receivers st)\<rparr>))"
  by (simp add: poll_channel_def poll_pair_def chan_new_def split: option.split)

lemma poll_session_frame [simp]:
  "config (snd (poll_session X b c tok ls tid st)) = config st"
  "rooms (snd (poll_session X b c tok ls tid st)) = rooms st"
  "client_rooms (snd (poll_session X b c tok ls tid st)) = client_rooms st"
  "seq_counter (snd (poll_session X b c tok ls tid st)) = seq_counter st"
  "rate_limiter (snd (poll_session X b c tok ls tid st)) = rate_limiter st"
  "replay_buffer (snd (poll_session X b c tok ls tid st)) = replay_buffer st"
  "pending_removals (snd (poll_session X b c tok ls tid st)) = pending_removals st"
  "presence (snd (poll_session X b c tok ls tid st)) = presence st"
  "client_claims (snd (poll_session X b c tok ls tid st)) = client_claims st"
  "active_connections (snd (poll_session X b c tok ls tid st)) = active_connections st"
  by (simp_all add: poll_session_def poll_channel_eq register_client_backend_def http_deliver_eq Let_def
      split: option.split)

lemma poll_session_senders:
  "ws_senders (snd (poll_session X b c tok ls tid st)) =
     (if poll_pair c st = None then dm_insert c (next_chan st) (ws_senders st) else ws_senders st)"
  "polling_receivers (snd (poll_session X b c tok ls tid st)) =
     (if poll_pair c st = None then dm_insert c (next_chan st) (polling_receivers st) else polling_receivers st)"
  "next_chan (snd (poll_session X b c tok ls tid st)) = (if poll_pair c st = None then Suc (next_chan st) else next_chan st)"
  "fst (poll_session X b c tok ls tid st) = (case poll_pair c st of None \<Rightarrow> next_chan st | Some p \<Rightarrow> snd p)"
  by (simp_all add: poll_session_def poll_channel_eq register_client_backend_def http_deliver_eq Let_def
      split: option.split)

lemma poll_session_clients:
  "clients (snd (poll_session X b c tok ls tid st)) =
     (if b then dm_insert c (client_meta_with_transport (wall X) tok Polling) (clients st)
      else case dm_get (clients st) c of None \<Rightarrow> clients st | Some m \<Rightarrow> dm_insert c (touch (wall X) m) (clients st))"
  by (simp add: poll_session_def poll_channel_eq register_client_backend_def http_deliver_eq Let_def
      split: option.split)

text \<open>The checks of both handlers in one: the tenant and whether the client is new, or the refusal.\<close>

definition http_enter ::
  "('r, 'g, 'v) ext \<Rightarrow> http_query \<Rightarrow> ('r, 'g, 'v) app_state \<Rightarrow>
     (http_error + tenant option \<times> bool) \<times> ('r, 'g, 'v) app_state" where
  "http_enter X q st =
     (case http_authenticate X q st of
        (Inl e, s) \<Rightarrow> (Inl e, s)
      | (Inr t, s) \<Rightarrow> (case http_admit q s of (Inl e, s') \<Rightarrow> (Inl e, s') | (Inr b, s') \<Rightarrow> (Inr (t, b), s')))"

lemma sse_handler_enter:
  "sse_handler X q st = (case http_enter X q st of
     (Inl e, s) \<Rightarrow> (Inl e, s)
   | (Inr (t, b), s) \<Rightarrow> (Inr (next_chan s),
       snd (sse_session X (hq_id q) (hq_token q) (hq_last_seq q) (map_option tn_id t) s)))"
  by (simp add: sse_handler_def http_enter_def case_prod_beta Let_def split: sum.split prod.split)

lemma poll_handler_enter:
  "poll_handler X q st = (case http_enter X q st of
     (Inl e, s) \<Rightarrow> (Inl e, s)
   | (Inr (t, b), s) \<Rightarrow> map_prod Inr id
       (poll_session X b (hq_id q) (hq_token q) (hq_last_seq q) (map_option tn_id t) s))"
  by (simp add: poll_handler_def http_enter_def case_prod_beta map_prod_def Let_def split: sum.split prod.split)

lemma http_authenticate_state:
  "\<exists>cache claims. snd (http_authenticate X q st) = st\<lparr>tenant_cache := cache, client_claims := claims\<rparr>"
proof -
  obtain rt s0 where rt: "resolve_tenant X (hq_api_key q) st = (rt, s0)" by fastforce
  with resolve_tenant_state [of X "hq_api_key q" st] obtain cache where s0: "s0 = st\<lparr>tenant_cache := cache\<rparr>" by auto
  let ?P = "\<lambda>s. \<exists>cache claims. s = st\<lparr>tenant_cache := cache, client_claims := claims\<rparr>"
  have base: "?P st" by (rule exI [of _ "tenant_cache st"], rule exI [of _ "client_claims st"]) simp
  have tenant: "?P s0" by (rule exI [of _ cache], rule exI [of _ "client_claims st"]) (simp add: s0)
  show ?thesis
  proof (cases rt)
    case None
    with rt base tenant show ?thesis by (simp add: http_authenticate_def)
  next
    case (Some t)
    obtain ok s1 where e: "enforce_jwt X t (hq_jwt q) (hq_id q) s0 = (ok, s1)" by fastforce
    with enforce_jwt_state [of X t "hq_jwt q" "hq_id q" s0] have "?P s1" by (auto simp: s0)
    with rt Some e base show ?thesis by (cases ok) (simp_all add: http_authenticate_def)
  qed
qed

lemma http_admit_cases:
  obtains (taken) m where "dm_get (clients st) (hq_id q) = Some m" "cm_token m \<noteq> hq_token q"
      "http_admit q st = (Inl (409, ''ID is taken''), st)"
  | (known) m where "dm_get (clients st) (hq_id q) = Some m" "cm_token m = hq_token q"
      "http_admit q st = (Inr False, st)"
  | (full) "dm_get (clients st) (hq_id q) = None" "cfg_concurrent_limit (config st) \<le> active_connections st"
      "http_admit q st = (Inl (503, ''Connection limit reached''), st)"
  | (fresh) "dm_get (clients st) (hq_id q) = None" "active_connections st < cfg_concurrent_limit (config st)"
      "http_admit q st = (Inr True, st\<lparr>active_connections := active_connections st + 1\<rparr>)"
proof (cases "dm_get (clients st) (hq_id q)")
  case None
  show ?thesis
  proof (cases "cfg_concurrent_limit (config st) \<le> active_connections st")
    case True
    show ?thesis by (rule full [OF None True]) (simp add: http_admit_def None reserve_cases True)
  next
    case False
    then have lt: "active_connections st < cfg_concurrent_limit (config st)" by simp
    show ?thesis by (rule fresh [OF None lt]) (simp add: http_admit_def None reserve_cases False)
  qed
next
  case (Some m)
  show ?thesis
  proof (cases "cm_token m = hq_token q")
    case True
    show ?thesis by (rule known [OF Some True]) (simp add: http_admit_def Some True)
  next
    case False
    show ?thesis by (rule taken [OF Some False]) (simp add: http_admit_def Some False)
  qed
qed

lemma http_enter_cases:
  obtains (refused) e cache claims where
      "http_enter X q st = (Inl e, st\<lparr>tenant_cache := cache, client_claims := claims\<rparr>)"
  | (known) t cache claims m where
      "http_enter X q st = (Inr (t, False), st\<lparr>tenant_cache := cache, client_claims := claims\<rparr>)"
      "dm_get (clients st) (hq_id q) = Some m" "cm_token m = hq_token q"
  | (fresh) t cache claims where
      "http_enter X q st = (Inr (t, True), st\<lparr>tenant_cache := cache, client_claims := claims,
         active_connections := active_connections st + 1\<rparr>)"
      "dm_get (clients st) (hq_id q) = None" "active_connections st < cfg_concurrent_limit (config st)"
proof -
  obtain r s where auth: "http_authenticate X q st = (r, s)" by fastforce
  with http_authenticate_state [of X q st] obtain cache claims
    where s: "s = st\<lparr>tenant_cache := cache, client_claims := claims\<rparr>" by auto
  show ?thesis
  proof (cases r)
    case (Inl e)
    show ?thesis by (rule refused [where e = e and cache = cache and claims = claims]) (simp add: http_enter_def auth Inl s)
  next
    case (Inr t)
    show ?thesis
    proof (cases rule: http_admit_cases [of s q])
      case (taken m)
      show ?thesis
        by (rule refused [where e = "(409, ''ID is taken'')" and cache = cache and claims = claims]) (simp add: http_enter_def auth Inr taken(3), simp add: s)
    next
      case full
      show ?thesis
        by (rule refused [where e = "(503, ''Connection limit reached'')" and cache = cache and claims = claims])
          (simp add: http_enter_def auth Inr full(3), simp add: s)
    next
      case kn: (known m)
      show ?thesis
        by (rule known [where t = t and cache = cache and claims = claims and m = m]) (use kn in \<open>simp_all add: http_enter_def auth Inr s\<close>)
    next
      case fr: fresh
      show ?thesis
        by (rule fresh [where t = t and cache = cache and claims = claims]) (use fr in \<open>simp_all add: http_enter_def auth Inr s\<close>)
    qed
  qed
qed

subsection \<open>Invariants\<close>

lemma rooms_ok_sse: "rooms_ok st \<Longrightarrow> rooms_ok (snd (sse_handler X q st))"
  by (cases rule: http_enter_cases [of X q st]) (simp_all add: sse_handler_enter rooms_ok_cong [of st])

lemma rooms_ok_poll: "rooms_ok st \<Longrightarrow> rooms_ok (snd (poll_handler X q st))"
  by (cases rule: http_enter_cases [of X q st]) (simp_all add: poll_handler_enter rooms_ok_cong [of st])

lemma senders_ok_insert:
  assumes "senders_ok st" "ws_senders st' = dm_insert c (next_chan st) (ws_senders st)" "next_chan st' = Suc (next_chan st)"
  shows "senders_ok st'"
  using assms(1) unfolding senders_ok_def assms(2,3) dm_get_insert
  by (metis less_SucI lessI less_irrefl option.inject)

lemma senders_ok_sse: "senders_ok st \<Longrightarrow> senders_ok (snd (sse_handler X q st))"
  by (cases rule: http_enter_cases [of X q st])
    (auto simp: sse_handler_enter intro: senders_ok_cong senders_ok_insert)

lemma senders_ok_poll_session: "senders_ok st \<Longrightarrow> senders_ok (snd (poll_session X b c tok ls tid st))"
proof (cases "poll_pair c st = None")
  case True
  assume "senders_ok st"
  then show ?thesis by (rule senders_ok_insert) (simp_all add: poll_session_senders True)
next
  case False
  assume "senders_ok st"
  then show ?thesis by (rule senders_ok_cong) (simp_all add: poll_session_senders False)
qed

lemma senders_ok_poll: "senders_ok st \<Longrightarrow> senders_ok (snd (poll_handler X q st))"
  by (cases rule: http_enter_cases [of X q st])
    (simp_all add: poll_handler_enter senders_ok_poll_session senders_ok_cong [of st])

lemma slots_counted_insert_new:
  assumes "slots_counted st" "dm_get (clients st) c = None" "active_connections st < v"
    and "clients st' = dm_insert c m (clients st)" "active_connections st' = active_connections st + 1"
  shows "slots_counted st'"
  using assms unat_succ_below [OF assms(3)] by (simp add: slots_counted_def dm_len_insert)

lemma slots_counted_insert_known:
  assumes "slots_counted st" "dm_get (clients st) c = Some m0"
    and "clients st' = dm_insert c m (clients st)" "active_connections st' = active_connections st"
  shows "slots_counted st'"
  using assms by (simp add: slots_counted_def dm_len_insert)

lemma slots_counted_sse: "slots_counted st \<Longrightarrow> slots_counted (snd (sse_handler X q st))"
  by (cases rule: http_enter_cases [of X q st])
    (auto simp: sse_handler_enter intro: slots_counted_cong slots_counted_insert_new slots_counted_insert_known)

lemma slots_counted_poll: "slots_counted st \<Longrightarrow> slots_counted (snd (poll_handler X q st))"
  by (cases rule: http_enter_cases [of X q st])
    (auto simp: poll_handler_enter poll_session_clients
      intro: slots_counted_cong slots_counted_insert_new slots_counted_insert_known)

lemma apply_rate_limit_eq:
  "apply_rate_limit X c msg st =
     (let (ok, s) = rate_check X c (msg_type msg) st
      in (ok, if ok then s else emit_event (rate_limited (wall X) c
           (if msg_type msg = DATA then ''data'' else ''signaling'')) s))"
  by (cases "msg_type msg")
    (simp_all add: apply_rate_limit_def rate_check_def http_bucket_def rate_bucket_def case_prod_beta Let_def)

subsection \<open>Cleaning up\<close>

lemma cleanup_client_ws:
  "cleanup_client X c st = ws_cleanup X c (st\<lparr>polling_receivers := dm_remove c (polling_receivers st)\<rparr>)"
proof -
  have "(remove_sender c st)\<lparr>polling_receivers := dm_remove c (polling_receivers st)\<rparr> =
      remove_sender c (st\<lparr>polling_receivers := dm_remove c (polling_receivers st)\<rparr>)"
    by (rule app_state.equality) (simp_all add: remove_sender_def)
  then show ?thesis by (simp add: cleanup_client_def ws_cleanup_def Let_def)
qed

lemma cleanup_client_frame [simp]:
  "ws_senders (cleanup_client X c st) = dm_remove c (ws_senders st)"
  "polling_receivers (cleanup_client X c st) = dm_remove c (polling_receivers st)"
  "seq_counter (cleanup_client X c st) = seq_counter st"
  "config (cleanup_client X c st) = config st"
  "next_chan (cleanup_client X c st) = next_chan st"
  by (simp_all add: cleanup_client_ws ws_cleanup_def remove_sender_def Let_def)

lemma cleanup_client_gone: "dm_get (clients (cleanup_client X c st)) c = None"
  by (simp add: cleanup_client_ws ws_cleanup_def drop_client_def Let_def split: option.split)

lemma cleanup_client_ok:
  "rooms_ok st \<Longrightarrow> rooms_ok (cleanup_client X c st)"
  "senders_ok st \<Longrightarrow> senders_ok (cleanup_client X c st)"
  "slots_counted st \<Longrightarrow> slots_counted (cleanup_client X c st)"
proof -
  let ?st = "st\<lparr>polling_receivers := dm_remove c (polling_receivers st)\<rparr>"
  show "rooms_ok (cleanup_client X c st)" if "rooms_ok st"
    unfolding cleanup_client_ws by (rule rooms_ok_cleanup_ws) (rule rooms_ok_cong [OF that], simp_all)
  show "senders_ok (cleanup_client X c st)" if "senders_ok st"
    using that by (auto simp: senders_ok_def)
  show "slots_counted (cleanup_client X c st)" if "slots_counted st"
    unfolding cleanup_client_ws by (rule slots_counted_cleanup) (rule slots_counted_cong [OF that], simp_all)
qed

lemma send_handler_cases:
  obtains (unknown) "send_handler X fv q body st = ((401, ''Client not registered''), st)"
      "\<forall>m. dm_get (clients st) (hq_id q) = Some m \<longrightarrow> cm_token m \<noteq> hq_token q"
  | (known) m st1 where "dm_get (clients st) (hq_id q) = Some m" "cm_token m = hq_token q"
      "st1 = st\<lparr>clients := dm_insert (hq_id q) (touch (wall X) m) (clients st)\<rparr>"
      "send_handler X fv q body st = (case fv body of
         None \<Rightarrow> ((400, ''Invalid message''), st1)
       | Some msg \<Rightarrow>
           (case apply_rate_limit X (hq_id q) msg st1 of
              (False, s) \<Rightarrow> ((429, ''Rate limit exceeded''), s)
            | (True, s) \<Rightarrow> ((200, ''ok''), handle_message X (hq_id q) msg s)))"
proof (cases "dm_get (clients st) (hq_id q)")
  case None
  then show ?thesis by (intro unknown) (simp_all add: send_handler_def Let_def)
next
  case (Some m)
  show ?thesis
  proof (cases "cm_token m = hq_token q")
    case True
    from Some True refl show ?thesis by (rule known) (simp add: send_handler_def Let_def Some True)
  next
    case False
    with Some show ?thesis by (intro unknown) (simp_all add: send_handler_def Let_def)
  qed
qed

section \<open>Properties\<close>

text \<open>The WebSocket query with the same parameters, and the protocol error a refusal stands for.\<close>

definition ws_query_of :: "http_query \<Rightarrow> ws_query" where
  "ws_query_of q = \<lparr>q_id = Some (hq_id q), q_token = Some (hq_token q), q_key = hq_key q,
     q_last_seq = hq_last_seq q, q_jwt = hq_jwt q, q_api_key = hq_api_key q\<rparr>"

definition ws_error_of :: "http_error \<Rightarrow> PeerError" where
  "ws_error_of e = (if fst e = 403 then InvalidToken else InvalidKey)"

text \<open>
  C22: The HTTP transports authenticate like the WebSocket transport: a request with a well-formed id
  and token and a key passes the shared key, tenant and JWT checks on one exactly if it does on the
  other, with the same tenant, the same claims stored and the corresponding error. The difference is
  the identifier check: what the HTTP transports decide does not depend on it, while a WebSocket
  connection with a malformed id or token is always refused.
\<close>

theorem http_authenticates_like_ws:
  assumes "hq_key q \<noteq> None"
  shows "authenticate X (ws_query_of q) st =
    (if is_valid_identifier (hq_id q) \<and> is_valid_identifier (hq_token q) then
       (case http_authenticate X q st of
          (Inl e, s) \<Rightarrow> (Inl (ws_error_of e), s)
        | (Inr t, s) \<Rightarrow> (Inr (hq_id q, hq_token q, t), s))
     else (Inl InvalidWsParameters, st))"
proof -
  obtain key where key: "hq_key q = Some key" using assms by blast
  show ?thesis
    by (simp add: authenticate_def check_params_def ws_query_of_def http_authenticate_def key ws_error_of_def
        case_prod_beta split: option.split bool.split prod.split)
qed

definition demo_http :: http_query where
  "demo_http = \<lparr>hq_id = ''a'', hq_token = ''ta'', hq_key = Some ''dendri'', hq_last_seq = None,
     hq_api_key = None, hq_jwt = None\<rparr>"

lemma demo_http_authenticate:
  "cfg_key (config st) = ''dendri'' \<Longrightarrow> \<not> cfg_require_api_key (config st) \<Longrightarrow> cfg_jwt_secret (config st) = None \<Longrightarrow>
     http_authenticate demo_ext (demo_http\<lparr>hq_id := c, hq_token := t\<rparr>) st = (Inr None, st)"
  by (simp add: http_authenticate_def demo_http_def constant_time_str_eq_def demo_ext_def resolve_tenant_def
      enforce_jwt_def effective_jwt_secret_def)

theorem http_authenticates_like_ws_witness:
  "authenticate demo_ext (ws_query_of (demo_http\<lparr>hq_id := ''a b''\<rparr>)) (demo_state default_config) =
     (Inl InvalidWsParameters, demo_state default_config) \<and>
   fst (http_authenticate demo_ext (demo_http\<lparr>hq_id := ''a b''\<rparr>) (demo_state default_config)) = Inr None"
proof -
  have "\<not> is_valid_identifier ''a b''" by code_simp
  moreover have "http_authenticate demo_ext (demo_http\<lparr>hq_id := ''a b'', hq_token := ''ta''\<rparr>) (demo_state default_config) =
      (Inr None, demo_state default_config)"
    by (rule demo_http_authenticate) simp_all
  moreover have "hq_key (demo_http\<lparr>hq_id := ''a b''\<rparr>) \<noteq> None" by (simp add: demo_http_def)
  ultimately show ?thesis
    using http_authenticates_like_ws [of "demo_http\<lparr>hq_id := ''a b''\<rparr>" demo_ext "demo_state default_config"]
    by (simp add: demo_http_def)
qed

text \<open>
  C9: Posting a message over HTTP needs the session token and then does exactly what the same message
  does on a WebSocket. Without the token of a registered client nothing changes at all. With it the
  client's heartbeat is noted; a message that parses goes through the same rate limiter and the same
  handler as a WebSocket frame of that client, with status 200 where it is handled and 429 where the
  frame would only have been answered by an error frame.
\<close>

theorem http_send_like_ws:
  assumes "x_de X text = Some msg" "length text \<le> unat (cfg_max_message_size (config st))" "fv body = Some msg"
  shows "case dm_get (clients st) (hq_id q) of
      None \<Rightarrow> send_handler X fv q body st = ((401, ''Client not registered''), st)
    | Some m \<Rightarrow>
        if cm_token m \<noteq> hq_token q then send_handler X fv q body st = ((401, ''Client not registered''), st)
        else let st1 = st\<lparr>clients := dm_insert (hq_id q) (touch (wall X) m) (clients st)\<rparr>;
                 (e, st') = send_handler X fv q body st
             in (fst e = 200 \<and> ws_text X (hq_id q) tx text st1 = st') \<or>
                (fst e = 429 \<and> ws_text X (hq_id q) tx text st1 = tx_send tx rate_limited_frame st')"
proof (cases rule: send_handler_cases [of X fv q body st])
  case unknown
  then show ?thesis by (simp split: option.split)
next
  case (known m st1)
  have big: "\<not> unat (cfg_max_message_size (config st1)) < length text" using assms(2) known(3) by simp
  obtain ok s where rc: "rate_check X (hq_id q) (msg_type msg) st1 = (ok, s)" by fastforce
  have "send_handler X fv q body st = (if ok then ((200, ''ok''), handle_message X (hq_id q) msg s)
      else ((429, ''Rate limit exceeded''), emit_event (rate_limited (wall X) (hq_id q)
        (if msg_type msg = DATA then ''data'' else ''signaling'')) s))"
    unfolding known(4) by (simp add: assms(3) apply_rate_limit_eq rc)
  moreover have "ws_text X (hq_id q) tx text st1 = (if ok then handle_message X (hq_id q) msg s
      else tx_send tx rate_limited_frame (emit_event (rate_limited (wall X) (hq_id q)
        (if msg_type msg = DATA then ''data'' else ''signaling'')) s))"
    unfolding ws_text_def using big by (simp add: assms(1) rc)
  ultimately show ?thesis using known(1-3) by simp
qed

theorem http_send_like_ws_witness:
  "let fv = \<lambda>v. Some (bare_message HEARTBEAT None); st = demo_two default_config
   in send_handler demo_ext fv (demo_http\<lparr>hq_token := ''tb''\<rparr>) (JStr ''x'') st = ((401, ''Client not registered''), st) \<and>
      fst (fst (send_handler demo_ext fv demo_http (JStr ''x'') st)) \<in> {200, 429}"
proof -
  let ?fv = "\<lambda>v. Some (bare_message HEARTBEAT None)" and ?st = "demo_two default_config"
  have a: "dm_get (clients ?st) ''a'' = Some (client_meta_new 0 ''ta'')" by (simp add: demo_two_def dm_get_def)
  have q: "hq_id demo_http = ''a''" "hq_token demo_http = ''ta''" by (simp_all add: demo_http_def)
  have de: "x_de demo_ext ''HEARTBEAT'' = Some (bare_message HEARTBEAT None)"
    by (simp add: demo_ext_def from_serde_name_def all_message_types_def)
  have len: "length ''HEARTBEAT'' \<le> unat (cfg_max_message_size (config ?st))" by (simp add: default_config_def)
  note rule = http_send_like_ws [OF de len, of ?fv "JStr ''x''", OF refl]
  from rule [of "demo_http\<lparr>hq_token := ''tb''\<rparr>" 0] rule [of demo_http 0] show ?thesis
    by (auto simp: q a client_meta_new_def case_prod_beta Let_def)
qed

text \<open>
  A refused HTTP connection leaves no trace but a cached tenant lookup and, where the JWT was
  good, its claims: no client, sender, receiver, room, slot or Redis entry changes. The status tells
  why: 401 for the key or the API key, 403 for the JWT, 409 for an id registered with another
  token, 503 exactly when the limit of connections is reached by a client that is not registered.
\<close>

theorem http_refusal_leaves_no_trace:
  assumes "sse_handler X q st = (Inl (code, text), st') \<or> poll_handler X q st = (Inl (code, text), st')"
  shows "(\<exists>cache claims. st' = st\<lparr>tenant_cache := cache, client_claims := claims\<rparr>) \<and>
    code \<in> {401, 403, 409, 503} \<and>
    (code = 409 \<longrightarrow> (\<exists>m. dm_get (clients st) (hq_id q) = Some m \<and> cm_token m \<noteq> hq_token q)) \<and>
    (code = 503 \<longrightarrow> dm_get (clients st) (hq_id q) = None \<and> cfg_concurrent_limit (config st) \<le> active_connections st)"
proof -
  from assms have enter: "http_enter X q st = (Inl (code, text), st')"
    by (auto simp: sse_handler_enter poll_handler_enter map_prod_def split: prod.splits sum.splits)
  then have "\<exists>cache claims. st' = st\<lparr>tenant_cache := cache, client_claims := claims\<rparr>"
    by (cases rule: http_enter_cases [of X q st]) auto
  moreover obtain r s where auth: "http_authenticate X q st = (r, s)" by fastforce
  with http_authenticate_state [of X q st] have s: "clients s = clients st" "config s = config st"
      "active_connections s = active_connections st" by auto
  have "code \<in> {401, 403, 409, 503} \<and>
    (code = 409 \<longrightarrow> (\<exists>m. dm_get (clients st) (hq_id q) = Some m \<and> cm_token m \<noteq> hq_token q)) \<and>
    (code = 503 \<longrightarrow> dm_get (clients st) (hq_id q) = None \<and> cfg_concurrent_limit (config st) \<le> active_connections st)"
  proof (cases r)
    case (Inl e)
    then have "fst e \<in> {401, 403}"
      using auth by (auto simp: http_authenticate_def split: if_splits option.splits prod.splits bool.splits)
    with enter auth Inl show ?thesis by (auto simp: http_enter_def)
  next
    case (Inr t)
    show ?thesis
      by (cases rule: http_admit_cases [of s q]) (use enter auth Inr s in \<open>auto simp: http_enter_def\<close>)
  qed
  ultimately show ?thesis by blast
qed

theorem http_refusal_leaves_no_trace_witness:
  "\<exists>cache claims. snd (sse_handler demo_ext (demo_http\<lparr>hq_token := ''zz''\<rparr>) (demo_two default_config)) =
     (demo_two default_config)\<lparr>tenant_cache := cache, client_claims := claims\<rparr>"
proof -
  have "http_authenticate demo_ext (demo_http\<lparr>hq_id := ''a'', hq_token := ''zz''\<rparr>) (demo_two default_config) =
      (Inr None, demo_two default_config)" by (rule demo_http_authenticate) simp_all
  then have eq: "sse_handler demo_ext (demo_http\<lparr>hq_token := ''zz''\<rparr>) (demo_two default_config) =
      (Inl (409, ''ID is taken''), demo_two default_config)"
    by (simp add: sse_handler_def http_admit_def demo_http_def demo_two_def dm_get_def client_meta_new_def)
  from http_refusal_leaves_no_trace [OF disjI1 [OF this]] show ?thesis unfolding eq snd_conv by (rule conjunct1)
qed

text \<open>Frames for a client queue up in its channel.\<close>

lemma send_to_chan:
  "dm_get (ws_senders st) c = Some tx \<Longrightarrow> ch_open (chans st tx) \<Longrightarrow>
     chans (send_to c d st) = chan_append tx [d] (chans st)"
  by (simp add: send_to_def chans_tx_send)

lemma send_all_to_chan:
  "dm_get (ws_senders st) c = Some tx \<Longrightarrow> ch_open (chans st tx) \<Longrightarrow>
     chans (fold (send_to c) fs st) = chan_append tx fs (chans st)"
proof (induction fs arbitrary: st)
  case Nil
  then show ?case by simp
next
  case (Cons f fs)
  with Cons.IH [of "send_to c f st"] show ?case by (simp add: send_to_chan)
qed

lemma fold_send_frame [simp]:
  "ws_senders (fold (send_to c) fs st) = ws_senders st"
  "clients (fold (send_to c) fs st) = clients st"
  "polling_receivers (fold (send_to c) fs st) = polling_receivers st"
  by (simp_all add: fold_frame)

lemma poll_known:
  assumes "poll_handler X q st = (Inr rx, st')" "dm_get (clients st) (hq_id q) \<noteq> None" "hq_last_seq q = None"
    and "poll_pair (hq_id q) st = Some (tx', rx')"
  shows "rx = rx' \<and> chans st' = chans st \<and> ws_senders st' = ws_senders st \<and> polling_receivers st' = polling_receivers st"
proof (cases rule: http_enter_cases [of X q st])
  case (refused e cache claims)
  with assms(1) show ?thesis by (simp add: poll_handler_enter)
next
  case (known t cache claims m)
  have "poll_pair (hq_id q) (st\<lparr>tenant_cache := cache, client_claims := claims\<rparr>) = Some (tx', rx')"
    using assms(4) by (simp add: poll_pair_def)
  with known assms(1,3) show ?thesis
    by (auto simp: poll_handler_enter poll_session_def poll_channel_eq http_replay_def map_prod_def)
next
  case (fresh t cache claims)
  with assms(2) show ?thesis by simp
qed

text \<open>
  Long polling loses nothing and keeps the order: for a polling client whose sender and receiver
  are the two ends of one channel, the next poll returns the first 500 of what was waiting and what
  has been sent since, in the order it was sent, and leaves the rest for the poll after it.
\<close>

theorem polling_loses_nothing:
  assumes "dm_get (ws_senders st) (hq_id q) = Some ch" "dm_get (polling_receivers st) (hq_id q) = Some ch"
    and "ch_open (chans st ch)" "dm_get (clients st) (hq_id q) \<noteq> None" "hq_last_seq q = None"
    and "poll_handler X q (fold (send_to (hq_id q)) frames st) = (Inr rx, st')"
  shows "fst (collect_poll_messages_shared rx st') = take 500 (ch_queue (chans st ch) @ frames) \<and>
    ch_queue (chans (snd (collect_poll_messages_shared rx st')) ch) = drop 500 (ch_queue (chans st ch) @ frames)"
proof -
  let ?st = "fold (send_to (hq_id q)) frames st"
  have "poll_pair (hq_id q) ?st = Some (ch, ch)" using assms(1,2) by (simp add: poll_pair_def)
  moreover have "dm_get (clients ?st) (hq_id q) \<noteq> None" using assms(4) by simp
  ultimately have "rx = ch" "chans st' = chans ?st" using poll_known [OF assms(6)] assms(5) by auto
  then have "ch_queue (chans st' rx) = ch_queue (chans st ch) @ frames"
    using send_all_to_chan [OF assms(1,3)] by (simp add: chan_append_def)
  with collect_eq [of rx st'] \<open>rx = ch\<close> show ?thesis by (simp add: MAX_BATCH_def)
qed

text \<open>Client \<open>a\<close> of the demo server as a polling client.\<close>

definition demo_polling :: "(mem_redis, nat, demo_json) app_state" where
  "demo_polling = (demo_two default_config)\<lparr>polling_receivers := [(''a'', 0)]\<rparr>"

lemma demo_polling_fields:
  "dm_get (ws_senders demo_polling) ''a'' = Some 0" "dm_get (polling_receivers demo_polling) ''a'' = Some 0"
  "ch_open (chans demo_polling n)" "ch_queue (chans demo_polling n) = []" "config demo_polling = default_config"
  "dm_get (clients demo_polling) ''a'' = Some (client_meta_new 0 ''ta'')" "next_chan demo_polling = 2"
  by (simp_all add: demo_polling_def demo_two_def dm_get_def)

theorem polling_loses_nothing_witness:
  "\<exists>rx st'. poll_handler demo_ext demo_http (fold (send_to ''a'') [''x'', ''y''] demo_polling) = (Inr rx, st') \<and>
     fst (collect_poll_messages_shared rx st') = [''x'', ''y'']"
proof -
  let ?st = "fold (send_to ''a'') [''x'', ''y''] demo_polling"
  have id: "hq_id demo_http = ''a''" "hq_last_seq demo_http = None" by (simp_all add: demo_http_def)
  have "demo_http\<lparr>hq_id := ''a'', hq_token := ''ta''\<rparr> = demo_http" by (simp add: demo_http_def)
  then have "http_authenticate demo_ext demo_http ?st = (Inr None, ?st)"
    using demo_http_authenticate [of ?st "''ta''" "''a''"] by (simp add: demo_polling_fields)
  moreover have "http_admit demo_http ?st = (Inr False, ?st)"
    by (simp add: http_admit_def demo_http_def demo_polling_fields client_meta_new_def)
  ultimately obtain rx st' where poll: "poll_handler demo_ext demo_http ?st = (Inr rx, st')"
    by (simp add: poll_handler_def case_prod_beta)
  have "fst (collect_poll_messages_shared rx st') = take 500 (ch_queue (chans demo_polling 0) @ [''x'', ''y''])"
    using polling_loses_nothing [of demo_polling demo_http 0 demo_ext "[''x'', ''y'']" rx st'] poll
    by (simp add: id demo_polling_fields)
  with poll show ?thesis by (auto simp: demo_polling_fields)
qed

subsection \<open>What goes wrong\<close>

lemma ch_open_tx_send [simp]: "ch_open (chans (tx_send tx d st) t) = ch_open (chans st t)"
  by (simp add: tx_send_def chan_send_def)

lemma ch_open_send_to [simp]: "ch_open (chans (send_to c d st) t) = ch_open (chans st t)"
  by (simp add: send_to_def split: option.split)

lemma ch_open_send_all [simp]: "ch_open (chans (send_all ms d st) t) = ch_open (chans st t)"
  unfolding send_all_def by (rule fold_frame [of "\<lambda>s. ch_open (chans s t)"]) simp

lemma ch_open_leave [simp]: "ch_open (chans (remove_client_from_room X c k st) t) = ch_open (chans st t)"
  by (simp add: remove_client_from_room_def Let_def split: option.split)

lemma ch_open_disconnect [simp]: "ch_open (chans (remove_client_from_all_rooms X c st) t) = ch_open (chans st t)"
  by (simp add: remove_client_from_all_rooms_def immediate_remove_from_all_rooms_def forget_replay_def Let_def
      fold_frame [of "\<lambda>s. ch_open (chans s t)"] split: option.split)

lemma ch_open_cleanup [simp]: "ch_open (chans (cleanup_client X c st) t) = ch_open (chans st t)"
  by (simp add: cleanup_client_ws ws_cleanup_def Let_def)

lemma chans_replay:
  "ch_open (chans st tx) \<Longrightarrow> chans (http_replay X c tx ls st) = chan_append tx
     (gap_frames ls (oldest_seq c (replay_buffer st)) @
      (case ls of None \<Rightarrow> [] | Some n \<Rightarrow> replay_since (mono X) c n (replay_buffer st))) (chans st)"
proof -
  have all: "chans (fold (tx_send tx) fs s) = chan_append tx fs (chans s)" if "ch_open (chans s tx)" for fs and s :: "('a, 'b, 'c) app_state"
    using that by (induction fs arbitrary: s) (simp_all add: chans_tx_send)
  assume "ch_open (chans st tx)"
  then show ?thesis
    by (simp add: http_replay_def gap_frames_def Let_def all chans_tx_send split: option.split)
qed

lemma chans_sse_session:
  "chans (snd (sse_session X c tok ls tid st)) = (chans st)(next_chan st := \<lparr>ch_queue =
     http_open_frame #
     map (serialize_relay X) (List.map_filter (x_de X) (queued_messages X c
       (fst (register_client (x_redis X) (wall X) c tok (cfg_alive_timeout (config st)) (redis st))))) @
     gap_frames ls (oldest_seq c (replay_buffer st)) @
     (case ls of None \<Rightarrow> [] | Some n \<Rightarrow> replay_since (mono X) c n (replay_buffer st)), ch_open = True\<rparr>)"
  by (simp add: sse_session_def chan_new_def register_client_backend_def Let_def http_deliver_eq chans_tx_send
      chans_deliver_queued chans_replay cong: option.case_cong) (simp add: chan_append_def redis_do_def)

lemma sse_connected:
  assumes "sse_handler X q st = (Inr tx, st')"
  obtains s t where "tx = next_chan st" "s = snd (http_enter X q st)" "chans s = chans st" "next_chan s = next_chan st"
    "st' = snd (sse_session X (hq_id q) (hq_token q) (hq_last_seq q) t s)"
  by (cases rule: http_enter_cases [of X q st]) (use assms in \<open>auto simp: sse_handler_enter intro: that\<close>)

text \<open>
  A stale watchdog kills the session it should not touch. An SSE client whose stream has broken
  and that has opened a new stream before the watchdog of the first one looked loses the new one:
  the watchdog sees its own channel closed and cleans up whatever is registered under the id. The
  new stream stays open and receives nothing.
\<close>

theorem stale_watchdog_kills_session:
  assumes "sse_handler X q st = (Inr tx, st')" "old < next_chan st" "\<not> ch_open (chans st old)"
  shows "fst (sse_watchdog X' (hq_id q) old st') = False \<and>
    dm_get (ws_senders (snd (sse_watchdog X' (hq_id q) old st'))) (hq_id q) = None \<and>
    dm_get (clients (snd (sse_watchdog X' (hq_id q) old st'))) (hq_id q) = None \<and>
    ch_open (chans (snd (sse_watchdog X' (hq_id q) old st')) tx)"
proof -
  obtain s t where s: "tx = next_chan st" "chans s = chans st" "next_chan s = next_chan st"
    and st': "st' = snd (sse_session X (hq_id q) (hq_token q) (hq_last_seq q) t s)"
    by (rule sse_connected [OF assms(1)])
  have chans: "\<not> ch_open (chans st' old)" "ch_open (chans st' tx)"
    using assms(2,3) s by (simp_all add: st' chans_sse_session)
  then show ?thesis by (simp add: sse_watchdog_def cleanup_client_gone)
qed

definition demo_broken_stream :: "(mem_redis, nat, demo_json) app_state" where
  "demo_broken_stream = chan_close 0 (demo_two default_config)"

theorem stale_watchdog_kills_session_witness:
  "\<exists>st'. sse_handler demo_ext demo_http demo_broken_stream = (Inr 2, st') \<and>
     dm_get (ws_senders st') ''a'' = Some 2 \<and>
     dm_get (ws_senders (snd (sse_watchdog demo_ext ''a'' 0 st'))) ''a'' = None"
proof -
  let ?st = demo_broken_stream
  have fields: "next_chan ?st = 2" "config ?st = default_config" "\<not> ch_open (chans ?st 0)"
    "dm_get (clients ?st) ''a'' = Some (client_meta_new 0 ''ta'')"
    by (simp_all add: demo_broken_stream_def chan_close_def demo_two_def dm_get_def)
  have "demo_http\<lparr>hq_id := ''a'', hq_token := ''ta''\<rparr> = demo_http" and id: "hq_id demo_http = ''a''"
    by (simp_all add: demo_http_def)
  then have "http_authenticate demo_ext demo_http ?st = (Inr None, ?st)"
    using demo_http_authenticate [of ?st "''ta''" "''a''"] by (simp add: fields)
  moreover have "http_admit demo_http ?st = (Inr False, ?st)"
    by (simp add: http_admit_def demo_http_def fields client_meta_new_def)
  ultimately have enter: "http_enter demo_ext demo_http ?st = (Inr (None, False), ?st)" by (simp add: http_enter_def)
  then obtain st' where st': "sse_handler demo_ext demo_http ?st = (Inr 2, st')"
    "dm_get (ws_senders st') ''a'' = Some 2"
    by (simp add: sse_handler_enter fields id)
  with stale_watchdog_kills_session [OF st'(1), of 0 demo_ext] show ?thesis by (simp add: fields id)
qed

text \<open>
  A client that has polled and then opens a WebSocket cannot poll any more: the receiver of its
  polling channel is still there, so the next poll pairs it with the WebSocket's sender. The poll
  drains a channel nothing is sent to, whatever is sent to the client.
\<close>

theorem poll_after_websocket_is_deaf:
  assumes "dm_get (polling_receivers st) c = Some rx" "rx < next_chan st"
    and "handle_socket X w st = (Connected tx, st1)" "q_id w = Some c"
    and "poll_handler X' q st1 = (Inr r, st2)" "hq_id q = c" "hq_last_seq q = None"
  shows "r = rx \<and> ch_queue (chans (fold (send_to c) frames st2) rx) = ch_queue (chans st rx)"
proof -
  note con = connect_senders [OF assms(3,4)]
  have "poll_pair c st1 = Some (tx, rx)" using con(1,4) assms(1) by (simp add: poll_pair_def)
  then have r: "r = rx" "chans st2 = chans st1" "ws_senders st2 = ws_senders st1"
    using poll_known [OF assms(5), of tx rx] con(5) assms(6,7) by auto
  have tx: "dm_get (ws_senders st2) c = Some tx" "tx \<noteq> rx" using con(1,2) r(3) assms(2) by auto
  have "ch_queue (chans (fold (send_to c) frames s) rx) = ch_queue (chans s rx)"
    if "dm_get (ws_senders s) c = Some tx" for s :: "('a, 'b, 'c) app_state"
    using that
  proof (induction frames arbitrary: s)
    case (Cons f frames)
    with Cons.IH [of "send_to c f s"] tx(2) show ?case
      by (simp add: send_to_def tx_send_def chan_send_def)
  qed simp
  with tx(1) have "ch_queue (chans (fold (send_to c) frames st2) rx) = ch_queue (chans st2 rx)" by blast
  with r con(7) [OF assms(2)] show ?thesis by simp
qed

theorem poll_after_websocket_is_deaf_witness:
  "\<exists>st1 st2. handle_socket demo_ext demo_query demo_polling = (Connected 2, st1) \<and>
     poll_handler demo_ext demo_http st1 = (Inr 0, st2) \<and>
     ch_queue (chans (fold (send_to ''a'') [''x'', ''y''] st2) 0) = []"
proof -
  have "existing_token demo_ext ''a'' demo_polling = Some ''ta''"
    by (simp add: existing_token_def demo_polling_fields client_meta_new_def)
  then obtain st1 where st1: "handle_socket demo_ext demo_query demo_polling = (Connected 2, st1)"
    by (simp add: handle_socket_def demo_authenticate demo_polling_fields reconnect_eq)
  have q: "q_id demo_query = Some ''a''" "hq_id demo_http = ''a''" "hq_last_seq demo_http = None"
    and same: "demo_http\<lparr>hq_id := ''a'', hq_token := ''ta''\<rparr> = demo_http"
    by (simp_all add: demo_query_def demo_http_def)
  have tok: "config st1 = default_config" "map_option cm_token (dm_get (clients st1) ''a'') = Some ''ta''"
    using st1 \<open>existing_token demo_ext ''a'' demo_polling = Some ''ta''\<close>
    by (auto simp: handle_socket_def demo_authenticate demo_polling_fields reconnect_eq reconnect_state_def client_meta_new_def)
  then have "http_authenticate demo_ext demo_http st1 = (Inr None, st1)" "http_admit demo_http st1 = (Inr False, st1)"
    using demo_http_authenticate [of st1 "''ta''" "''a''"] same by (auto simp: http_admit_def demo_http_def)
  then obtain r st2 where st2: "poll_handler demo_ext demo_http st1 = (Inr r, st2)"
    by (simp add: poll_handler_def case_prod_beta)
  have "0 < next_chan demo_polling" by (simp add: demo_polling_fields)
  from poll_after_websocket_is_deaf [OF demo_polling_fields(2) this st1 q(1) st2 q(2,3), of "[''x'', ''y'']"] st1 st2
  show ?thesis by (simp add: demo_polling_fields)
qed

end
