(* ===== verification/Admin.thy ===== *)
theory Admin
  imports Ws_Handler
begin

text \<open>
  \<^verbatim>\<open>src/handlers/admin.rs\<close>: the operator's API on tenants. Every handler takes the text of the
  \<^verbatim>\<open>Authorization\<close> header (\<open>None\<close> where there is none, or it is not visible ASCII) and
  returns a status with a body and the new state; the UUIDs a handler draws are its arguments.

  The properties follow a tenant through its life: nothing happens without the operator's token,
  a created tenant's key works at once and stops working with its removal, and a rotated JWT
  secret is the only one its connections are checked against.
\<close>

section \<open>The code\<close>

text \<open>\<^verbatim>\<open>value.strip_prefix("Bearer ")\<close> of the header.\<close>

definition bearer :: "string option \<Rightarrow> string option" where
  "bearer authorization = Option.bind authorization (\<lambda>value. strip_prefix value ''Bearer '')"

record tenant_view =
  tv_id :: string
  tv_name :: string
  tv_origins :: "string list"
  tv_active :: bool
  tv_max_rooms :: usize
  tv_max_peers :: usize
  tv_email :: "string option"
  tv_has_jwt_secret :: bool

definition tenant_view_from :: "tenant \<Rightarrow> tenant_view" where
  "tenant_view_from t = \<lparr>tv_id = tn_id t, tv_name = tn_name t, tv_origins = tn_origins t, tv_active = tn_active t,
     tv_max_rooms = tn_max_rooms t, tv_max_peers = tn_max_peers t, tv_email = tn_email t,
     tv_has_jwt_secret = (tn_jwt_secret t \<noteq> None)\<rparr>"

datatype admin_body =
    AdminError string
  | TenantCreated tenant string
  | TenantList "tenant_view list"
  | JwtSecret string
  | NoBody

type_synonym admin_response = "nat \<times> admin_body"

record create_tenant_request =
  cr_name :: string
  cr_origins :: "string list"
  cr_max_rooms :: usize
  cr_max_peers :: usize
  cr_email :: "string option"
  cr_jwt_secret :: "string option"

definition reject_unauthorized ::
  "('r, 'g, 'v) ext \<Rightarrow> string option \<Rightarrow> ('r, 'g, 'v) app_state \<Rightarrow> admin_response option" where
  "reject_unauthorized X authorization st =
     (let expected = (case cfg_admin_token (config st) of None \<Rightarrow> [] | Some t \<Rightarrow> t);
          provided = (case bearer authorization of None \<Rightarrow> [] | Some p \<Rightarrow> p)
      in if expected = [] \<or> \<not> constant_time_str_eq (x_ct_eq X) provided expected
         then Some (401, AdminError ''unauthorized'') else None)"

definition flush_tenants :: "('r, 'g, 'v) app_state \<Rightarrow> ('r, 'g, 'v) app_state" where
  "flush_tenants st = st\<lparr>tenant_cache := invalidate_all (tenant_cache st)\<rparr>"

definition admin_create_tenant ::
  "('r, 'g, 'v) ext \<Rightarrow> string \<Rightarrow> string \<Rightarrow> string option \<Rightarrow> create_tenant_request \<Rightarrow>
     ('r, 'g, 'v) app_state \<Rightarrow> admin_response \<times> ('r, 'g, 'v) app_state" where
  "admin_create_tenant X uuid1 uuid2 authorization req st =
     (case reject_unauthorized X authorization st of
        Some resp \<Rightarrow> (resp, st)
      | None \<Rightarrow>
          let name = trim (cr_name req)
          in if name = [] then ((422, AdminError ''name is required''), st)
             else
               let t = \<lparr>tn_id = generate_tenant_id uuid1, tn_name = name, tn_origins = cr_origins req, tn_active = True,
                        tn_max_rooms = cr_max_rooms req, tn_max_peers = cr_max_peers req, tn_email = cr_email req,
                        tn_jwt_secret = cr_jwt_secret req\<rparr>;
                   api_key = generate_api_key uuid2
               in case create_tenant (x_redis X) (x_codec X) (x_sha256 X) t api_key (redis st) of
                    (r, Inr _) \<Rightarrow> ((201, TenantCreated t api_key), flush_tenants (st\<lparr>redis := r\<rparr>))
                  | (r, Inl e) \<Rightarrow> ((500, AdminError ''storage error''), st\<lparr>redis := r\<rparr>))"

definition admin_list_tenants ::
  "('r, 'g, 'v) ext \<Rightarrow> string option \<Rightarrow> ('r, 'g, 'v) app_state \<Rightarrow> admin_response \<times> ('r, 'g, 'v) app_state" where
  "admin_list_tenants X authorization st =
     (case reject_unauthorized X authorization st of
        Some resp \<Rightarrow> (resp, st)
      | None \<Rightarrow>
          (case list_tenants (x_redis X) (x_codec X) (redis st) of
             Inr ts \<Rightarrow> ((200, TenantList (map tenant_view_from ts)), st)
           | Inl e \<Rightarrow> ((500, AdminError ''storage error''), st)))"

definition admin_remove_tenant ::
  "('r, 'g, 'v) ext \<Rightarrow> string option \<Rightarrow> string \<Rightarrow> ('r, 'g, 'v) app_state \<Rightarrow>
     admin_response \<times> ('r, 'g, 'v) app_state" where
  "admin_remove_tenant X authorization tid st =
     (case reject_unauthorized X authorization st of
        Some resp \<Rightarrow> (resp, st)
      | None \<Rightarrow>
          (case delete_tenant (x_redis X) (x_codec X) tid (redis st) of
             (r, Inr True) \<Rightarrow> ((204, NoBody), flush_tenants (st\<lparr>redis := r\<rparr>))
           | (r, Inr False) \<Rightarrow> ((404, AdminError ''unknown tenant''), st\<lparr>redis := r\<rparr>)
           | (r, Inl e) \<Rightarrow> ((500, AdminError ''storage error''), st\<lparr>redis := r\<rparr>)))"

definition admin_rotate_jwt_secret ::
  "('r, 'g, 'v) ext \<Rightarrow> string \<Rightarrow> string option \<Rightarrow> string \<Rightarrow> ('r, 'g, 'v) app_state \<Rightarrow>
     admin_response \<times> ('r, 'g, 'v) app_state" where
  "admin_rotate_jwt_secret X uuid authorization tid st =
     (case reject_unauthorized X authorization st of
        Some resp \<Rightarrow> (resp, st)
      | None \<Rightarrow>
          (case get_tenant_by_id (x_redis X) (x_codec X) tid (redis st) of
             Inl e \<Rightarrow> ((500, AdminError ''storage error''), st)
           | Inr None \<Rightarrow> ((404, AdminError ''unknown tenant''), st)
           | Inr (Some t) \<Rightarrow>
               let new_secret = generate_jwt_secret uuid;
                   t = t\<lparr>tn_jwt_secret := Some new_secret\<rparr>
               in case update_tenant (x_redis X) (x_codec X) t (redis st) of
                    (r, Inr True) \<Rightarrow> ((200, JwtSecret new_secret), flush_tenants (st\<lparr>redis := r\<rparr>))
                  | (r, Inr False) \<Rightarrow> ((404, AdminError ''unknown tenant''), st\<lparr>redis := r\<rparr>)
                  | (r, Inl e) \<Rightarrow> ((500, AdminError ''storage error''), st\<lparr>redis := r\<rparr>)))"

section \<open>Lemmas\<close>

lemma strip_prefix_iff: "strip_prefix s p = Some rest \<longleftrightarrow> s = p @ rest"
  by (auto simp: strip_prefix_def starts_with_def) (metis append_take_drop_id)

lemma bearer_Some: "bearer a = Some p \<longleftrightarrow> a = Some (''Bearer '' @ p)"
  unfolding bearer_def bind_eq_Some_conv strip_prefix_iff by blast

lemma bearer_operator [simp]: "bearer (Some (''Bearer '' @ p)) = Some p"
  unfolding bearer_Some by (rule refl)

text \<open>The one header the operator's routes accept.\<close>

definition operator :: "string option \<Rightarrow> ('r, 'g, 'v) app_state \<Rightarrow> bool" where
  "operator authorization st \<longleftrightarrow>
     (\<exists>tok. cfg_admin_token (config st) = Some tok \<and> tok \<noteq> [] \<and> authorization = Some (''Bearer '' @ tok))"

lemma reject_unauthorized_iff:
  assumes "ct_eq_ok (x_ct_eq X)"
  shows "reject_unauthorized X a st = (if operator a st then None else Some (401, AdminError ''unauthorized''))"
proof (cases "bearer a")
  case None
  then have "a \<noteq> Some (''Bearer '' @ tok)" for tok by (metis bearer_operator option.distinct(1))
  with None show ?thesis
    by (auto simp: reject_unauthorized_def operator_def constant_time_str_eq_iff [OF assms] Let_def)
next
  case (Some p)
  then have "a = Some (''Bearer '' @ p)" by (simp only: bearer_Some)
  with Some show ?thesis
    by (auto simp: reject_unauthorized_def operator_def constant_time_str_eq_iff [OF assms] split: option.splits)
qed

lemma rejected_code: "reject_unauthorized X a st = Some resp \<Longrightarrow> resp = (401, AdminError ''unauthorized'')"
  by (auto simp: reject_unauthorized_def Let_def split: if_splits)

text \<open>The operator's routes touch the store and the cache of lookups only.\<close>

lemma admin_frame:
  "\<exists>r c. snd (admin_create_tenant X u1 u2 a req st) = st\<lparr>redis := r, tenant_cache := c\<rparr>"
  "\<exists>r c. snd (admin_remove_tenant X a tid st) = st\<lparr>redis := r, tenant_cache := c\<rparr>"
  "\<exists>r c. snd (admin_rotate_jwt_secret X u1 a tid st) = st\<lparr>redis := r, tenant_cache := c\<rparr>"
  "snd (admin_list_tenants X a st) = st"
proof -
  have same: "\<exists>r c. st = st\<lparr>redis := r, tenant_cache := c\<rparr>"
    by (rule exI [of _ "redis st"], rule exI [of _ "tenant_cache st"]) simp
  have stored: "\<exists>r' c. st\<lparr>redis := r\<rparr> = st\<lparr>redis := r', tenant_cache := c\<rparr>" for r
    by (rule exI [of _ r], rule exI [of _ "tenant_cache st"]) simp
  have flushed: "\<exists>r' c. flush_tenants (st\<lparr>redis := r\<rparr>) = st\<lparr>redis := r', tenant_cache := c\<rparr>" for r
    unfolding flush_tenants_def by (rule exI [of _ r]) auto
  note cases = same stored flushed
  show "\<exists>r c. snd (admin_create_tenant X u1 u2 a req st) = st\<lparr>redis := r, tenant_cache := c\<rparr>"
    using cases by (simp add: admin_create_tenant_def Let_def split: option.split prod.split sum.split)
  show "\<exists>r c. snd (admin_remove_tenant X a tid st) = st\<lparr>redis := r, tenant_cache := c\<rparr>"
    using cases by (simp add: admin_remove_tenant_def Let_def split: option.split prod.split sum.split bool.split)
  show "\<exists>r c. snd (admin_rotate_jwt_secret X u1 a tid st) = st\<lparr>redis := r, tenant_cache := c\<rparr>"
    using cases by (simp add: admin_rotate_jwt_secret_def Let_def split: option.split prod.split sum.split bool.split)
  show "snd (admin_list_tenants X a st) = st"
    by (simp add: admin_list_tenants_def split: option.split sum.split)
qed

lemma created:
  assumes "admin_create_tenant X u1 u2 a req st = ((201, body), st')"
  obtains t r where "body = TenantCreated t (generate_api_key u2)" "tn_active t"
    "tn_id t = generate_tenant_id u1" "tn_name t = trim (cr_name req)" "trim (cr_name req) \<noteq> []"
    "tn_email t = cr_email req" "tn_jwt_secret t = cr_jwt_secret req"
    "create_tenant (x_redis X) (x_codec X) (x_sha256 X) t (generate_api_key u2) (redis st) = (r, Inr ())"
    "st' = flush_tenants (st\<lparr>redis := r\<rparr>)"
proof (cases "reject_unauthorized X a st")
  case (Some resp)
  with assms rejected_code [OF Some] show ?thesis by (simp add: admin_create_tenant_def)
next
  case None
  with assms that show ?thesis
    by (auto simp: admin_create_tenant_def Let_def split: if_splits prod.splits sum.splits)
qed

lemma removed:
  assumes "admin_remove_tenant X a tid st = ((204, body), st')"
  obtains r where "delete_tenant (x_redis X) (x_codec X) tid (redis st) = (r, Inr True)"
    "st' = flush_tenants (st\<lparr>redis := r\<rparr>)"
proof (cases "reject_unauthorized X a st")
  case (Some resp)
  with assms rejected_code [OF Some] show ?thesis by (simp add: admin_remove_tenant_def)
next
  case None
  with assms that show ?thesis
    by (auto simp: admin_remove_tenant_def split: prod.splits sum.splits bool.splits)
qed

lemma rotated_jwt:
  assumes "admin_rotate_jwt_secret X u a tid st = ((200, body), st')"
  obtains t r where "body = JwtSecret (generate_jwt_secret u)"
    "get_tenant_by_id (x_redis X) (x_codec X) tid (redis st) = Inr (Some t)"
    "update_tenant (x_redis X) (x_codec X) (t\<lparr>tn_jwt_secret := Some (generate_jwt_secret u)\<rparr>) (redis st) = (r, Inr True)"
    "st' = flush_tenants (st\<lparr>redis := r\<rparr>)"
proof (cases "reject_unauthorized X a st")
  case (Some resp)
  with assms rejected_code [OF Some] show ?thesis by (simp add: admin_rotate_jwt_secret_def)
next
  case None
  with assms that show ?thesis
    by (auto simp: admin_rotate_jwt_secret_def Let_def split: option.splits prod.splits sum.splits bool.splits)
qed

lemma update_then_fetch:
  assumes "redis_pipe_ok R ex" "redis_frame_ok R ex" "redis_string_ok R ex" "codec_ok C t"
    and "r_get R (key_by_id (tn_id t)) r = Inr (Some hash)" "update_tenant R C t r = (r', Inr True)"
  shows "fetch_by_hash R C hash r' = Inr (Some t)" "get_tenant_by_id R C (tn_id t) r' = Inr (Some t)"
proof -
  from assms(5,6) have "r_pipe R [Set (key_by_hash hash) (tenant_json C t)] r = (r', Inr ())"
    by (auto simp: update_tenant_def split: prod.splits sum.splits)
  from redis_pipeD [OF assms(1) this] assms(2-5)
  show "fetch_by_hash R C hash r' = Inr (Some t)" "get_tenant_by_id R C (tn_id t) r' = Inr (Some t)"
    by (simp_all add: redis_frames redis_string_ok_def fetch_by_hash_def get_tenant_by_id_def codec_ok_def)
qed

lemma create_then_email:
  assumes "redis_pipe_ok R ex" "redis_frame_ok R ex" "redis_string_ok R ex"
    and "create_tenant R C sha t k r = (r', Inr ())" "tn_email t = Some e"
  shows "get_tenant_id_by_email R e r' = Inr (Some (tn_id t))"
  using redis_pipeD [OF assms(1) assms(4) [unfolded create_tenant_def Let_def]] assms(2,3,5)
  by (simp add: get_tenant_id_by_email_def redis_string_ok_def)

section \<open>Properties\<close>

text \<open>
  C19: Nothing happens on the operator's routes without the operator's token. Unless the header is
  exactly the word Bearer, a space and the configured, non-empty token, each of the four handlers
  answers 401 and changes nothing, whatever the request; with that header none of them answers
  401. A server whose token is unset or empty accepts nobody.
\<close>

theorem admin_needs_token:
  assumes "ct_eq_ok (x_ct_eq X)"
  shows "if operator a st then
      fst (fst (admin_create_tenant X u1 u2 a req st)) \<noteq> 401 \<and> fst (fst (admin_list_tenants X a st)) \<noteq> 401 \<and>
      fst (fst (admin_remove_tenant X a tid st)) \<noteq> 401 \<and> fst (fst (admin_rotate_jwt_secret X u1 a tid st)) \<noteq> 401
    else
      admin_create_tenant X u1 u2 a req st = ((401, AdminError ''unauthorized''), st) \<and>
      admin_list_tenants X a st = ((401, AdminError ''unauthorized''), st) \<and>
      admin_remove_tenant X a tid st = ((401, AdminError ''unauthorized''), st) \<and>
      admin_rotate_jwt_secret X u1 a tid st = ((401, AdminError ''unauthorized''), st)"
  by (simp add: reject_unauthorized_iff [OF assms] admin_create_tenant_def admin_list_tenants_def
      admin_remove_tenant_def admin_rotate_jwt_secret_def Let_def
      split: prod.split sum.split option.split bool.split)

theorem admin_needs_token_witness:
  "let st = demo_state (default_config\<lparr>cfg_admin_token := Some ''s3''\<rparr>)
   in admin_remove_tenant demo_ext (Some ''Bearer s4'') ''t_1'' st = ((401, AdminError ''unauthorized''), st) \<and>
      fst (fst (admin_remove_tenant demo_ext (Some ''Bearer s3'') ''t_1'' st)) \<noteq> 401"
proof -
  have ct: "ct_eq_ok (x_ct_eq demo_ext)" by (simp add: ct_eq_ok_def demo_ext_def)
  show ?thesis
    using admin_needs_token [OF ct, of "Some ''Bearer s4''" "demo_state (default_config\<lparr>cfg_admin_token := Some ''s3''\<rparr>)"]
      admin_needs_token [OF ct, of "Some ''Bearer s3''" "demo_state (default_config\<lparr>cfg_admin_token := Some ''s3''\<rparr>)"]
    by (simp add: operator_def Let_def)
qed

text \<open>
  A tenant's key works from the moment its creation is answered and stops working the moment its
  removal is answered: after a 201 the returned key resolves to the returned tenant, and after a
  204 for its id from any state of this process with that store (whatever lookups were cached
  meanwhile) the key resolves to nothing and the id is unknown.
\<close>

theorem tenant_lives_until_removed:
  assumes "redis_pipe_ok (x_redis X) ex" "redis_frame_ok (x_redis X) ex" "redis_string_ok (x_redis X) ex"
    and "codec_ok (x_codec X) t"
    and "admin_create_tenant X u1 u2 a req st = ((201, TenantCreated t k), st1)"
    and "redis st2 = redis st1" "admin_remove_tenant X a' (tn_id t) st2 = ((204, body), st3)"
  shows "fst (resolve_tenant X (Some k) st1) = Some (Some t) \<and>
    fst (resolve_tenant X (Some k) st3) = None \<and>
    get_tenant_by_id (x_redis X) (x_codec X) (tn_id t) (redis st3) = Inr None"
proof -
  from created [OF assms(5)] obtain r
    where k: "k = generate_api_key u2" and act: "tn_active t"
      and cr: "create_tenant (x_redis X) (x_codec X) (x_sha256 X) t k (redis st) = (r, Inr ())"
      and st1: "st1 = flush_tenants (st\<lparr>redis := r\<rparr>)"
    by auto
  from removed [OF assms(7)] obtain r' where del: "delete_tenant (x_redis X) (x_codec X) (tn_id t) (redis st2) = (r', Inr True)"
    and st3: "st3 = flush_tenants (st2\<lparr>redis := r'\<rparr>)" by blast
  from delete_then_fetch [OF assms(1-3) del] obtain hash
    where hash: "r_get (x_redis X) (key_by_id (tn_id t)) (redis st2) = Inr (Some hash)"
      and gone: "fetch_by_hash (x_redis X) (x_codec X) hash r' = Inr None"
        "get_tenant_by_id (x_redis X) (x_codec X) (tn_id t) r' = Inr None" by blast
  from create_then_index [OF assms(1-3) cr] hash assms(6) have "hash = hash_api_key (x_sha256 X) k"
    by (simp add: st1 flush_tenants_def)
  with gone create_then_fetch(1) [OF assms(1-3) assms(4) cr] act show ?thesis
    by (simp add: resolve_tenant_def st1 st3 flush_tenants_def resolve_miss case_prod_beta split: option.split)
qed

definition demo_create :: create_tenant_request where
  "demo_create = \<lparr>cr_name = ''Acme'', cr_origins = [], cr_max_rooms = 0, cr_max_peers = 0,
     cr_email = Some ''A@b.c'', cr_jwt_secret = None\<rparr>"

definition demo_admin :: "(mem_redis, nat, demo_json) app_state" where
  "demo_admin = demo_state (default_config\<lparr>cfg_admin_token := Some ''s3''\<rparr>)"

lemma demo_operator: "redis st = r \<Longrightarrow> config st = config demo_admin \<Longrightarrow>
    x_ct_eq X = (=) \<Longrightarrow> reject_unauthorized X (Some ''Bearer s3'') st = None"
  by (subst reject_unauthorized_iff) (simp_all add: ct_eq_ok_def operator_def demo_admin_def)

lemma demo_trim: "trim ''Acme'' = ''Acme''"
  by code_simp

lemma demo_created:
  assumes "x_redis X = mem_api" "x_ct_eq X = (=)"
  obtains r where "admin_create_tenant X ''1'' ''0'' (Some ''Bearer s3'') demo_create demo_admin =
      ((201, TenantCreated demo_tenant ''dk_0''), flush_tenants (demo_admin\<lparr>redis := r\<rparr>))"
    "create_tenant mem_api (x_codec X) (x_sha256 X) demo_tenant ''dk_0'' mem_empty = (r, Inr ())"
proof -
  obtain r where r: "create_tenant mem_api (x_codec X) (x_sha256 X) demo_tenant ''dk_0'' mem_empty = (r, Inr ())"
    by (simp add: create_tenant_def mem_api_def Let_def)
  have "redis demo_admin = mem_empty" by (simp add: demo_admin_def)
  with r assms(1) that show ?thesis
    by (simp add: admin_create_tenant_def demo_operator [OF refl refl assms(2)] demo_create_def demo_trim
        generate_tenant_id_def generate_api_key_def demo_tenant_def [symmetric])
qed

theorem tenant_lives_until_removed_witness:
  "\<exists>st1 st3. admin_create_tenant demo_ext ''1'' ''0'' (Some ''Bearer s3'') demo_create demo_admin =
       ((201, TenantCreated demo_tenant ''dk_0''), st1) \<and>
     admin_remove_tenant demo_ext (Some ''Bearer s3'') ''t_1'' st1 = ((204, NoBody), st3) \<and>
     fst (resolve_tenant demo_ext (Some ''dk_0'') st1) = Some (Some demo_tenant) \<and>
     fst (resolve_tenant demo_ext (Some ''dk_0'') st3) = None"
proof -
  have X: "x_redis demo_ext = mem_api" "x_ct_eq demo_ext = (=)" "x_codec demo_ext = demo_codec"
    by (simp_all add: demo_ext_def)
  from demo_created [OF X(1,2)] obtain r
    where st1: "admin_create_tenant demo_ext ''1'' ''0'' (Some ''Bearer s3'') demo_create demo_admin =
        ((201, TenantCreated demo_tenant ''dk_0''), flush_tenants (demo_admin\<lparr>redis := r\<rparr>))"
      and r: "create_tenant mem_api demo_codec (x_sha256 demo_ext) demo_tenant ''dk_0'' mem_empty = (r, Inr ())"
    unfolding X(3) by blast
  let ?st1 = "flush_tenants (demo_admin\<lparr>redis := r\<rparr>)"
  have tid: "tn_id demo_tenant = ''t_1''" by (simp add: demo_tenant_def)
  from create_then_index [OF mem_api_ok(1) mem_frame_ok mem_api_ok(4) r]
    create_then_fetch(1) [OF mem_api_ok(1) mem_frame_ok mem_api_ok(4) demo_codec_ok r]
  obtain r' where "delete_tenant mem_api demo_codec ''t_1'' r = (r', Inr True)"
    by (simp add: delete_tenant_def tid) (simp add: mem_api_def)
  then obtain st3 where st3: "admin_remove_tenant demo_ext (Some ''Bearer s3'') ''t_1'' ?st1 = ((204, NoBody), st3)"
    using X by (simp add: admin_remove_tenant_def demo_operator flush_tenants_def)
  have ok: "redis_pipe_ok (x_redis demo_ext) mem_exec" "redis_frame_ok (x_redis demo_ext) mem_exec"
      "redis_string_ok (x_redis demo_ext) mem_exec" "codec_ok (x_codec demo_ext) demo_tenant"
    unfolding X by (rule mem_api_ok mem_frame_ok demo_codec_ok)+
  from tenant_lives_until_removed [OF ok st1 refl] st1 st3 show ?thesis by (simp add: tid)
qed

text \<open>
  A rotated JWT secret is the only one from then on. When the rotation is answered with a secret,
  every later connection with the tenant's API key is admitted exactly for a token that verifies
  under that secret and whose \<^verbatim>\<open>tid\<close> claim, if it has one, is this tenant, whatever the
  tenant's old secret and the server's global secret were.
\<close>

theorem rotated_jwt_secret_enforced:
  assumes "redis_pipe_ok (x_redis X) ex" "redis_frame_ok (x_redis X) ex" "redis_string_ok (x_redis X) ex"
    and "get_tenant_by_id (x_redis X) (x_codec X) tid (redis st) = Inr (Some t)" "tn_id t = tid" "tn_active t"
    and "r_get (x_redis X) (key_by_id tid) (redis st) = Inr (Some (hash_api_key (x_sha256 X) k))"
    and "codec_ok (x_codec X) (t\<lparr>tn_jwt_secret := Some secret\<rparr>)"
    and "admin_rotate_jwt_secret X u a tid st = ((200, JwtSecret secret), st')"
  shows "fst (resolve_tenant X (Some k) st') = Some (Some (t\<lparr>tn_jwt_secret := Some secret\<rparr>)) \<and>
    (fst (enforce_jwt X (Some (t\<lparr>tn_jwt_secret := Some secret\<rparr>)) tok c s) \<longleftrightarrow>
      (\<exists>claims. validate_jwt (x_jwt X) secret (or_empty tok) = Some claims \<and> tid_matches (x_json X) claims tid))"
proof -
  let ?t = "t\<lparr>tn_jwt_secret := Some secret\<rparr>"
  from rotated_jwt [OF assms(9)] assms(4) obtain r
    where upd: "update_tenant (x_redis X) (x_codec X) ?t (redis st) = (r, Inr True)"
      and st': "st' = flush_tenants (st\<lparr>redis := r\<rparr>)"
    by auto
  have idx: "r_get (x_redis X) (key_by_id (tn_id ?t)) (redis st) = Inr (Some (hash_api_key (x_sha256 X) k))"
    using assms(5,7) by simp
  from update_then_fetch(1) [OF assms(1-3,8) idx upd] assms(6)
  have "fst (resolve_tenant X (Some k) st') = Some (Some ?t)"
    by (simp add: resolve_tenant_def st' flush_tenants_def resolve_miss case_prod_beta)
  then show ?thesis
    using assms(5) by (auto simp: enforce_jwt_def effective_jwt_secret_def split: option.splits if_splits)
qed

text \<open>A codec that keeps the secret of the demo tenant.\<close>

definition demo_secret_codec :: tenant_codec where
  "demo_secret_codec = \<lparr>ser_tenant = (\<lambda>t. Some (case tn_jwt_secret t of None \<Rightarrow> [] | Some s \<Rightarrow> s)),
     de_tenant = (\<lambda>s. Some (if s = [] then demo_tenant else demo_tenant\<lparr>tn_jwt_secret := Some s\<rparr>))\<rparr>"

lemma demo_secret_codec_ok:
  "codec_ok demo_secret_codec demo_tenant"
  "s \<noteq> [] \<Longrightarrow> codec_ok demo_secret_codec (demo_tenant\<lparr>tn_jwt_secret := Some s\<rparr>)"
  by (simp_all add: codec_ok_def demo_secret_codec_def tenant_json_def demo_tenant_def)

theorem rotated_jwt_secret_enforced_witness:
  "\<exists>st1 st2. let X = demo_ext\<lparr>x_codec := demo_secret_codec\<rparr>; t = demo_tenant\<lparr>tn_jwt_secret := Some ''jwt_7''\<rparr> in
     admin_rotate_jwt_secret X ''7'' (Some ''Bearer s3'') ''t_1'' st1 = ((200, JwtSecret ''jwt_7''), st2) \<and>
     fst (resolve_tenant X (Some ''dk_0'') st2) = Some (Some t) \<and>
     \<not> fst (enforce_jwt X (Some t) (Some ''old'') ''a'' st2) \<and> fst (enforce_jwt X (Some t) (Some ''jwt_7'') ''a'' st2)"
proof -
  let ?X = "demo_ext\<lparr>x_codec := demo_secret_codec\<rparr>" and ?t = "demo_tenant\<lparr>tn_jwt_secret := Some ''jwt_7''\<rparr>"
  have X: "x_redis ?X = mem_api" "x_ct_eq ?X = (=)" "x_codec ?X = demo_secret_codec" by (simp_all add: demo_ext_def)
  obtain r where r: "create_tenant mem_api demo_secret_codec (x_sha256 ?X) demo_tenant ''dk_0'' mem_empty = (r, Inr ())"
    using demo_created [OF X(1,2)] unfolding X(3) by metis
  have tid: "tn_id demo_tenant = ''t_1''" "tn_active demo_tenant" by (simp_all add: demo_tenant_def)
  note got = create_then_fetch(2) [OF mem_api_ok(1) mem_frame_ok mem_api_ok(4) demo_secret_codec_ok(1) r, unfolded tid]
  note idx = create_then_index [OF mem_api_ok(1) mem_frame_ok mem_api_ok(4) r, unfolded tid]
  let ?st1 = "demo_admin\<lparr>redis := r\<rparr>"
  obtain r' where "update_tenant mem_api demo_secret_codec ?t r = (r', Inr True)"
    using idx by (simp add: update_tenant_def tid) (simp add: mem_api_def)
  then obtain st2 where st2: "admin_rotate_jwt_secret ?X ''7'' (Some ''Bearer s3'') ''t_1'' ?st1 = ((200, JwtSecret ''jwt_7''), st2)"
    using X got by (simp add: admin_rotate_jwt_secret_def demo_operator generate_jwt_secret_def)
  have ok: "redis_pipe_ok (x_redis ?X) mem_exec" "redis_frame_ok (x_redis ?X) mem_exec"
      "redis_string_ok (x_redis ?X) mem_exec" "codec_ok (x_codec ?X) ?t"
    unfolding X by (rule mem_api_ok mem_frame_ok demo_secret_codec_ok(2), simp?)+
  have pre: "get_tenant_by_id (x_redis ?X) (x_codec ?X) ''t_1'' (redis ?st1) = Inr (Some demo_tenant)"
      "r_get (x_redis ?X) (key_by_id ''t_1'') (redis ?st1) = Inr (Some (hash_api_key (x_sha256 ?X) ''dk_0''))"
    unfolding X using got idx by simp_all
  note rule = rotated_jwt_secret_enforced [OF ok(1-3) pre(1) tid pre(2) ok(4) st2]
  from rule [of "Some ''old''" "''a''" st2] rule [of "Some ''jwt_7''" "''a''" st2] st2
  have "fst (resolve_tenant ?X (Some ''dk_0'') st2) = Some (Some ?t) \<and>
     \<not> fst (enforce_jwt ?X (Some ?t) (Some ''old'') ''a'' st2) \<and> fst (enforce_jwt ?X (Some ?t) (Some ''jwt_7'') ''a'' st2)"
    by (simp add: demo_ext_def validate_jwt_def or_empty_def tid_matches_def demo_json_api_def)
  with st2 show ?thesis unfolding Let_def by blast
qed

section \<open>Two tenants with one address\<close>

text \<open>
  The email index has one entry per address: the second tenant created with an address takes it
  over, and removing that tenant removes the entry, while the first one is still there and can no
  longer be found by its address.
\<close>

lemma shared_email_loses_first_tenant:
  assumes "redis_pipe_ok R ex" "redis_frame_ok R ex" "redis_string_ok R ex" "codec_ok C t1" "codec_ok C t2"
    and "create_tenant R C sha t1 k1 r = (r1, Inr ())" "create_tenant R C sha t2 k2 r1 = (r2, Inr ())"
    and "delete_tenant R C (tn_id t2) r2 = (r3, Inr True)"
    and "tn_email t1 = Some e" "tn_email t2 = Some e" "tn_id t1 \<noteq> tn_id t2" "hash_api_key sha k1 \<noteq> hash_api_key sha k2"
  shows "get_tenant_id_by_email R e r1 = Inr (Some (tn_id t1))" "get_tenant_id_by_email R e r2 = Inr (Some (tn_id t2))"
    "get_tenant_id_by_email R e r3 = Inr None" "get_tenant_by_id R C (tn_id t1) r3 = Inr (Some t1)"
proof -
  note fetch = create_then_fetch(1) [OF assms(1-3,5,7)] and index = create_then_index [OF assms(1-3,7)]
  have del: "r_pipe R [Del (key_by_hash (hash_api_key sha k2)), Del (key_by_id (tn_id t2)), Del (key_by_email e)] r2 = (r3, Inr ())"
    using assms(8,10) fetch index by (simp add: delete_tenant_def split: sum.splits prod.splits)
  note r1 = redis_pipeD [OF assms(1) assms(6) [unfolded create_tenant_def Let_def]]
  note r2 = redis_pipeD [OF assms(1) assms(7) [unfolded create_tenant_def Let_def]]
  note r3 = redis_pipeD [OF assms(1) del]
  show "get_tenant_id_by_email R e r1 = Inr (Some (tn_id t1))" "get_tenant_id_by_email R e r2 = Inr (Some (tn_id t2))"
    "get_tenant_id_by_email R e r3 = Inr None"
    using r1 r2 r3 assms(2,3,9,10) by (simp_all add: get_tenant_id_by_email_def redis_string_ok_def redis_frames)
  show "get_tenant_by_id R C (tn_id t1) r3 = Inr (Some t1)"
    using r1 r2 r3 assms(2-4,9-12)
    by (simp add: get_tenant_by_id_def fetch_by_hash_def redis_string_ok_def redis_frames codec_ok_def)
qed

end
