(* ===== verification/Calendar.thy ===== *)
theory Calendar
  imports Text_Format "HOL-Library.Signed_Division"
begin

text \<open>
  The dates of \<^verbatim>\<open>src/email.rs\<close>: \<^verbatim>\<open>iso8601_utc\<close> and the conversion of a day number to a
  date it is built on. The reference is the Gregorian calendar as a successor function on dates,
  starting from 1 January 1970.

  \<^verbatim>\<open>/\<close> on \<^verbatim>\<open>i64\<close> truncates (\<open>sdiv\<close>), \<^verbatim>\<open>div_euclid\<close> with a positive divisor is \<open>div\<close>. The
  arithmetic is on unbounded integers: the day number of an \<^verbatim>\<open>i64\<close> of seconds is at most
  \<open>2^63 / 86400\<close> in size, so that nothing in \<^verbatim>\<open>civil_from_days\<close> leaves the range of \<^verbatim>\<open>i64\<close>.
\<close>

section \<open>The code\<close>

definition civil_from_days :: "int \<Rightarrow> int \<times> int \<times> int" where
  "civil_from_days z0 =
     (let z = z0 + 719468;
          era = (if z \<ge> 0 then z else z - 146096) sdiv 146097;
          doe = z - era * 146097;
          yoe = (doe - doe sdiv 1460 + doe sdiv 36524 - doe sdiv 146096) sdiv 365;
          y = yoe + era * 400;
          doy = doe - (365 * yoe + yoe sdiv 4 - yoe sdiv 100);
          mp = (5 * doy + 2) sdiv 153;
          d = doy - (153 * mp + 2) sdiv 5 + 1;
          m = (if mp < 10 then mp + 3 else mp - 9)
      in (if m \<le> 2 then y + 1 else y, m, d))"

text \<open>\<^verbatim>\<open>{i:0w}\<close>: padded with zeros to \<open>w\<close> characters, the sign first.\<close>

definition zero_pad :: "nat \<Rightarrow> int \<Rightarrow> string" where
  "zero_pad w i =
     (let ds = show_nat (nat \<bar>i\<bar>); sign = (if i < 0 then ''-'' else [])
      in sign @ replicate (w - length sign - length ds) CHR ''0'' @ ds)"

text \<open>The seconds since the epoch, \<open>None\<close> for a clock before it.\<close>

definition iso8601_utc :: "u64 option \<Rightarrow> string" where
  "iso8601_utc t =
     (let secs = sint (case t of None \<Rightarrow> 0 | Some d \<Rightarrow> d);
          days = secs div 86400;
          rem = secs mod 86400;
          (h, mi, s) = (rem sdiv 3600, (rem smod 3600) sdiv 60, rem smod 60);
          (y, m, d) = civil_from_days days
      in zero_pad 4 y @ ''-'' @ zero_pad 2 m @ ''-'' @ zero_pad 2 d @ ''T'' @
         zero_pad 2 h @ '':'' @ zero_pad 2 mi @ '':'' @ zero_pad 2 s @ ''Z'')"

section \<open>The calendar\<close>

definition leap_year :: "int \<Rightarrow> bool" where
  "leap_year y \<longleftrightarrow> 4 dvd y \<and> (\<not> 100 dvd y \<or> 400 dvd y)"

definition days_in_month :: "int \<Rightarrow> int \<Rightarrow> int" where
  "days_in_month y m = (if m = 2 then if leap_year y then 29 else 28
     else if m = 4 \<or> m = 6 \<or> m = 9 \<or> m = 11 then 30 else 31)"

fun valid_date :: "int \<times> int \<times> int \<Rightarrow> bool" where
  "valid_date (y, m, d) \<longleftrightarrow> 1 \<le> m \<and> m \<le> 12 \<and> 1 \<le> d \<and> d \<le> days_in_month y m"

fun next_day :: "int \<times> int \<times> int \<Rightarrow> int \<times> int \<times> int" where
  "next_day (y, m, d) =
     (if d < days_in_month y m then (y, m, d + 1)
      else if m < 12 then (y, m + 1, 1)
      else (y + 1, 1, 1))"

section \<open>Years that start in March\<close>

text \<open>
  Counted from 1 March of year 0 of an era of 400 years, year \<open>y\<close> starts on day \<open>year_start y\<close>;
  its last day is 28 or 29 February.
\<close>

definition year_start :: "int \<Rightarrow> int" where
  "year_start y = 365 * y + y div 4 - y div 100 + y div 400"

definition year_of_era :: "int \<Rightarrow> int" where
  "year_of_era doe = (doe - doe div 1460 + doe div 36524 - doe div 146096) div 365"

text \<open>The month (March is 0) and the day, from the day of such a year.\<close>

definition month_index :: "int \<Rightarrow> int" where
  "month_index doy = (5 * doy + 2) div 153"

definition day_of_month :: "int \<Rightarrow> int" where
  "day_of_month doy = doy - (153 * month_index doy + 2) div 5 + 1"

definition month_of :: "int \<Rightarrow> int" where
  "month_of mp = (if mp < 10 then mp + 3 else mp - 9)"

definition date_of :: "int \<Rightarrow> int \<Rightarrow> int \<times> int \<times> int" where
  "date_of y doy = (let m = month_of (month_index doy) in (if m \<le> 2 then y + 1 else y, m, day_of_month doy))"

lemma sdiv_nonneg: "0 \<le> a \<Longrightarrow> 0 < b \<Longrightarrow> a sdiv b = a div b" for a b :: int
  by (simp add: signed_divide_int_def sgn_if)

lemma sdiv_neg:
  fixes a b :: int
  assumes "a < 0" "0 < b"
  shows "(a - (b - 1)) sdiv b = a div b"
proof -
  have "(b - 1 - a) div b = - (a div b)"
  proof (rule int_div_pos_eq)
    show "b - 1 - a = b * - (a div b) + (b - 1 - a mod b)"
      using div_mult_mod_eq [of a b] by (simp add: algebra_simps)
    show "0 \<le> b - 1 - a mod b" "b - 1 - a mod b < b"
      using pos_mod_bound [OF assms(2), of a] pos_mod_sign [OF assms(2), of a] by linarith+
  qed
  with assms show ?thesis by (simp add: signed_divide_int_def sgn_if)
qed

lemma div_step:
  fixes n y :: int
  assumes "0 < n"
  shows "(y + 1) div n = y div n + (if n dvd y + 1 then 1 else 0)"
proof (cases "n dvd y + 1")
  case True
  then obtain k where k: "y + 1 = n * k" ..
  have "y div n = k - 1"
    by (rule int_div_pos_eq [where r = "n - 1"]) (use k assms in \<open>simp_all add: algebra_simps\<close>)
  with True k assms show ?thesis by simp
next
  case False
  have r: "0 \<le> y mod n" "y mod n < n" using assms by simp_all
  have "y + 1 = n * (y div n) + (y mod n + 1)" using mult_div_mod_eq [of n y] by linarith
  moreover from False this have "y mod n + 1 \<noteq> n" by (metis dvd_add dvd_refl dvd_triv_left)
  ultimately have "(y + 1) div n = y div n" using r by (intro int_div_pos_eq [where r = "y mod n + 1"]) linarith+
  with False show ?thesis by simp
qed

lemma leap_day_count:
  fixes y a b c :: int
  assumes "r \<longrightarrow> q" "q \<longrightarrow> p"
  shows "365 * (y + 1) + (a + (if p then 1 else 0)) - (b + (if q then 1 else 0)) + (c + (if r then 1 else 0)) =
    365 * y + a - b + c + (if p \<and> (\<not> q \<or> r) then 366 else 365)"
  by (insert assms, cases p; cases q; cases r; simp)

lemma year_start_step:
  "year_start (y + 1) = year_start y + (if leap_year (y + 1) then 366 else 365)"
proof -
  have "400 dvd y + 1 \<longrightarrow> 100 dvd y + 1" using dvd_trans [of 100 400 "y + 1"] by simp
  moreover have "100 dvd y + 1 \<longrightarrow> 4 dvd y + 1" using dvd_trans [of 4 100 "y + 1"] by simp
  moreover have "(y + 1) div 4 = y div 4 + (if 4 dvd y + 1 then 1 else 0)"
    "(y + 1) div 100 = y div 100 + (if 100 dvd y + 1 then 1 else 0)"
    "(y + 1) div 400 = y div 400 + (if 400 dvd y + 1 then 1 else 0)"
    by (rule div_step, simp)+
  ultimately show ?thesis unfolding year_start_def leap_year_def by (simp only: leap_day_count)
qed

definition era_quotient :: "int \<Rightarrow> int" where
  "era_quotient a = a - a div 1460 + a div 36524 - a div 146096"

lemma era_quotient_step: "era_quotient a \<le> era_quotient (a + 1)"
proof -
  have "146096 dvd a + 1 \<Longrightarrow> 36524 dvd a + 1"
    by (rule dvd_trans [of 36524 146096]) simp_all
  then show ?thesis by (auto simp: era_quotient_def div_step)
qed

lemma era_quotient_mono: "a \<le> b \<Longrightarrow> era_quotient a \<le> era_quotient b"
proof (induction b rule: int_ge_induct)
  case base
  then show ?case by simp
next
  case (step b)
  with era_quotient_step [of b] show ?case by linarith
qed

lemma year_of_era_mono: "a \<le> b \<Longrightarrow> year_of_era a \<le> year_of_era b"
  unfolding year_of_era_def era_quotient_def [symmetric] by (intro zdiv_mono1 era_quotient_mono) simp_all

text \<open>The first and the last day of each of the 400 years fall into that year.\<close>

lemma year_ends:
  "\<forall>y \<in> set [0..399]. year_of_era (year_start y) = y \<and> year_of_era (year_start (y + 1) - 1) = y"
  by code_simp

lemma month_ends:
  "\<forall>doy \<in> set [0..364]. month_index doy \<in> {0..11} \<and>
     (if day_of_month doy < (if month_index doy = 11 then 29 else days_in_month 0 (month_of (month_index doy)))
      then month_index (doy + 1) = month_index doy \<and> day_of_month (doy + 1) = day_of_month doy + 1
      else month_index (doy + 1) = month_index doy + 1 \<and> day_of_month (doy + 1) = 1)"
  by code_simp

lemma year_exists:
  "0 \<le> doe \<Longrightarrow> doe < year_start (int n) \<Longrightarrow> \<exists>y. 0 \<le> y \<and> y < int n \<and> year_start y \<le> doe \<and> doe < year_start (y + 1)"
proof (induction n)
  case 0
  then show ?case by (simp add: year_start_def)
next
  case (Suc n)
  show ?case
  proof (cases "doe < year_start (int n)")
    case True
    with Suc.IH Suc.prems(1) obtain y where "0 \<le> y" "y < int n" "year_start y \<le> doe" "doe < year_start (y + 1)" by blast
    then show ?thesis by (intro exI [of _ y]) simp
  next
    case False
    with Suc.prems(2) show ?thesis by (intro exI [of _ "int n"]) (simp add: add.commute)
  qed
qed

lemma year_of_era_eq:
  assumes "0 \<le> y" "y \<le> 399" "year_start y \<le> doe" "doe < year_start (y + 1)"
  shows "year_of_era doe = y"
proof -
  have "year_of_era (year_start y) = y" "year_of_era (year_start (y + 1) - 1) = y"
    using year_ends assms(1,2) by auto
  with year_of_era_mono [OF assms(3)] year_of_era_mono [of doe "year_start (y + 1) - 1"] assms(4)
  show ?thesis by linarith
qed

lemma year_of_era_bounds:
  assumes "0 \<le> doe" "doe < 146097"
  shows "0 \<le> year_of_era doe" "year_of_era doe \<le> 399"
    and "year_start (year_of_era doe) \<le> doe" "doe < year_start (year_of_era doe + 1)"
proof -
  have "year_start (int 400) = 146097" by (simp add: year_start_def)
  with assms year_exists [of doe 400] obtain y where
    y: "0 \<le> y" "y < int 400" "year_start y \<le> doe" "doe < year_start (y + 1)" by auto
  with year_of_era_eq [of y doe] have "year_of_era doe = y" by simp
  with y show "0 \<le> year_of_era doe" "year_of_era doe \<le> 399"
    "year_start (year_of_era doe) \<le> doe" "doe < year_start (year_of_era doe + 1)" by simp_all
qed

lemma year_bounds_doy:
  assumes "0 \<le> doe" "doe < 146097"
  shows "0 \<le> doe - year_start (year_of_era doe)"
    and "doe - year_start (year_of_era doe) < (if leap_year (year_of_era doe + 1) then 366 else 365)"
  using year_of_era_bounds [OF assms] year_start_step [of "year_of_era doe"] by simp_all

section \<open>The code in these terms\<close>

lemma era_sdiv: "(if z \<ge> 0 then z else z - 146096) sdiv 146097 = z div 146097" for z :: int
  using sdiv_neg [of z 146097] by (simp add: sdiv_nonneg)

lemma civil_eq:
  fixes z0 :: int
  defines "era \<equiv> (z0 + 719468) div 146097" and "doe \<equiv> (z0 + 719468) mod 146097"
  shows "civil_from_days z0 = date_of (year_of_era doe + era * 400) (doe - year_start (year_of_era doe))"
proof -
  let ?y = "year_of_era doe" and ?doy = "doe - year_start (year_of_era doe)"
  have doe: "0 \<le> doe" "doe < 146097" by (simp_all add: doe_def)
  note y = year_of_era_bounds [OF doe] and doy = year_bounds_doy(1) [OF doe]
  have z: "z0 + 719468 - era * 146097 = doe" by (simp add: era_def doe_def minus_div_mult_eq_mod)
  have "era_quotient 0 \<le> era_quotient doe" using doe by (intro era_quotient_mono) simp
  then have q: "0 \<le> doe - doe div 1460 + doe div 36524 - doe div 146096" by (simp add: era_quotient_def)
  have yoe: "(doe - doe sdiv 1460 + doe sdiv 36524 - doe sdiv 146096) sdiv 365 = ?y"
    using doe q by (simp add: sdiv_nonneg year_of_era_def)
  have start: "365 * ?y + ?y sdiv 4 - ?y sdiv 100 = year_start ?y"
    using y by (simp add: sdiv_nonneg year_start_def)
  have mp: "(5 * ?doy + 2) sdiv 153 = month_index ?doy" "0 \<le> month_index ?doy"
    using doy by (simp_all add: sdiv_nonneg month_index_def)
  then have "?doy - (153 * month_index ?doy + 2) sdiv 5 + 1 = day_of_month ?doy"
    by (simp add: sdiv_nonneg day_of_month_def)
  with mp show ?thesis
    unfolding civil_from_days_def Let_def era_sdiv era_def [symmetric] z yoe start
    by (simp only: date_of_def month_of_def Let_def mp)
qed

lemma leap_year_era: "leap_year (y + era * 400) = leap_year y"
proof -
  have "4 dvd era * 400" "100 dvd era * 400" "400 dvd era * 400"
    by (simp_all add: dvd_mult)
  then show ?thesis by (simp add: leap_year_def dvd_add_left_iff)
qed

lemma days_in_month_of:
  "0 \<le> mp \<Longrightarrow> mp \<le> 11 \<Longrightarrow> mp \<noteq> 11 \<Longrightarrow> days_in_month y (month_of mp) = days_in_month 0 (month_of mp)"
  by (auto simp: days_in_month_def month_of_def)

lemma last_days: "month_index 364 = 11" "day_of_month 364 = 28" "month_index 365 = 11" "day_of_month 365 = 29"
    "month_index 0 = 0" "day_of_month 0 = 1"
  by (simp_all add: month_index_def day_of_month_def)

lemma days_positive: "\<forall>doy \<in> set [0..365]. 1 \<le> day_of_month doy \<and>
    day_of_month doy \<le> (if month_index doy = 11 then 29 else days_in_month 0 (month_of (month_index doy))) \<and>
    (month_index doy = 11 \<longrightarrow> day_of_month doy = doy - 336) \<and> 0 \<le> month_index doy \<and> month_index doy \<le> 11"
  by code_simp

definition year_length :: "int \<Rightarrow> int" where
  "year_length y = (if leap_year (y + 1) then 366 else 365)"

lemma year_length_cases: "year_length y = 365 \<or> year_length y = 366"
  by (simp add: year_length_def)

lemma date_valid:
  assumes "0 \<le> doy" "doy < year_length y"
  shows "valid_date (date_of y doy)"
proof -
  have "doy \<in> set [0..365]" using assms by (auto simp: year_length_def split: if_splits)
  with days_positive have d: "1 \<le> day_of_month doy" "0 \<le> month_index doy" "month_index doy \<le> 11"
    "day_of_month doy \<le> (if month_index doy = 11 then 29 else days_in_month 0 (month_of (month_index doy)))"
    "month_index doy = 11 \<longrightarrow> day_of_month doy = doy - 336" by blast+
  show ?thesis
  proof (cases "month_index doy = 11")
    case True
    with d assms show ?thesis
      by (simp add: date_of_def month_of_def days_in_month_def year_length_def split: if_splits)
  next
    case False
    then have len: "days_in_month y' (month_of (month_index doy)) = days_in_month 0 (month_of (month_index doy))" for y'
      using d by (intro days_in_month_of) auto
    have "1 \<le> month_of (month_index doy)" "month_of (month_index doy) \<le> 12" using d by (simp_all add: month_of_def)
    with d False show ?thesis by (simp add: date_of_def Let_def len [of y] len [of "y + 1"])
  qed
qed

lemma date_step:
  assumes "0 \<le> doy" "doy + 1 < year_length y"
  shows "date_of y (doy + 1) = next_day (date_of y doy)"
proof -
  let ?len = "if month_index doy = 11 then 29 else days_in_month 0 (month_of (month_index doy))"
  have range: "doy \<in> set [0..364]" "doy \<in> set [0..365]" using assms by (auto simp: year_length_def split: if_splits)
  note ends = bspec [OF month_ends range(1)] and days = bspec [OF days_positive range(2)]
  have mp: "0 \<le> month_index doy" "month_index doy \<le> 11" "month_index doy = 11 \<longrightarrow> day_of_month doy = doy - 336"
    and day: "day_of_month doy \<le> ?len" using days by blast+
  have step: "if day_of_month doy < ?len
      then month_index (doy + 1) = month_index doy \<and> day_of_month (doy + 1) = day_of_month doy + 1
      else month_index (doy + 1) = month_index doy + 1 \<and> day_of_month (doy + 1) = 1" using ends by (rule conjunct2)
  show ?thesis
  proof (cases "month_index doy = 11")
    case True
    then have d: "day_of_month doy = doy - 336" using mp(3) by blast
    then have "day_of_month doy < 29" "day_of_month doy < days_in_month (y + 1) 2"
      using assms(2) by (cases "leap_year (y + 1)"; simp add: year_length_def days_in_month_def)+
    with True step show ?thesis by (simp add: date_of_def month_of_def)
  next
    case False
    let ?m = "month_of (month_index doy)"
    have len: "days_in_month y' ?m = days_in_month 0 ?m" for y' using mp False by (intro days_in_month_of) auto
    show ?thesis
    proof (cases "day_of_month doy < days_in_month 0 ?m")
      case True
      with step False show ?thesis by (simp add: date_of_def Let_def len [of y] len [of "y + 1"])
    next
      case full: False
      with step False have "month_index (doy + 1) = month_index doy + 1" "day_of_month (doy + 1) = 1" by simp_all
      with full mp(1,2) False show ?thesis
        by (simp add: date_of_def Let_def len [of y] len [of "y + 1"]) (auto simp: month_of_def)
    qed
  qed
qed

lemma date_last: "next_day (date_of y (year_length y - 1)) = date_of (y + 1) 0"
  by (simp add: year_length_def date_of_def last_days month_of_def days_in_month_def)

text \<open>Splitting a day number into era, year of the era and day of the year.\<close>

lemma civil_of_parts:
  assumes "0 \<le> yoe" "yoe \<le> 399" "0 \<le> doy" "doy < year_length yoe"
  shows "civil_from_days (era * 146097 + year_start yoe + doy - 719468) = date_of (yoe + era * 400) doy"
proof -
  let ?doe = "year_start yoe + doy"
  have "?doe < year_start (yoe + 1)" using assms(4) by (simp add: year_start_step year_length_def)
  moreover have "year_start (yoe + 1) \<le> 146097" "0 \<le> year_start yoe"
    using assms(1,2) by (simp_all add: year_start_def)
  ultimately have doe: "0 \<le> ?doe" "?doe < 146097" "year_of_era ?doe = yoe"
    using assms by (auto intro: year_of_era_eq)
  have "era * 146097 + year_start yoe + doy - 719468 + 719468 = ?doe + era * 146097" by simp
  moreover have "(?doe + era * 146097) div 146097 = era" "(?doe + era * 146097) mod 146097 = ?doe"
    using doe by simp_all
  ultimately show ?thesis unfolding civil_eq by (simp only: doe(3)) simp
qed

lemma parts_exist:
  obtains era yoe doy where "z = era * 146097 + year_start yoe + doy - 719468"
    "0 \<le> yoe" "yoe \<le> 399" "0 \<le> doy" "doy < year_length yoe"
proof -
  let ?doe = "(z + 719468) mod 146097" and ?era = "(z + 719468) div 146097"
  have doe: "0 \<le> ?doe" "?doe < 146097" by simp_all
  note y = year_of_era_bounds [OF doe] and doy = year_bounds_doy [OF doe]
  have "z = ?era * 146097 + year_start (year_of_era ?doe) + (?doe - year_start (year_of_era ?doe)) - 719468"
    using div_mult_mod_eq [of "z + 719468" 146097] by linarith
  with that y(1,2) doy show ?thesis unfolding year_length_def by blast
qed

lemma year_length_era: "year_length (yoe + era * 400) = year_length yoe"
  using leap_year_era [of "yoe + 1" era] by (simp add: year_length_def algebra_simps)

section \<open>Properties\<close>

text \<open>
  C30: The conversion of a day number to a date follows the Gregorian calendar for every day, before
  and after the epoch: day 0 is 1 January 1970, every result is a date of the calendar, and the
  next day number gives the next date.
\<close>

theorem civil_from_days_is_calendar:
  "civil_from_days 0 = (1970, 1, 1) \<and>
   (\<forall>z. valid_date (civil_from_days z) \<and> civil_from_days (z + 1) = next_day (civil_from_days z))"
proof (intro conjI allI)
  show "civil_from_days 0 = (1970, 1, 1)" by code_simp
next
  fix z
  obtain era yoe doy where z: "z = era * 146097 + year_start yoe + doy - 719468"
    and parts: "0 \<le> yoe" "yoe \<le> 399" "0 \<le> doy" "doy < year_length yoe" by (rule parts_exist)
  let ?y = "yoe + era * 400"
  have this_day: "civil_from_days z = date_of ?y doy" unfolding z using parts by (rule civil_of_parts)
  show "valid_date (civil_from_days z)"
    unfolding this_day using parts by (intro date_valid) (simp_all add: year_length_era)
  show "civil_from_days (z + 1) = next_day (civil_from_days z)"
  proof (cases "doy + 1 < year_length yoe")
    case True
    with parts have "civil_from_days (era * 146097 + year_start yoe + (doy + 1) - 719468) = date_of ?y (doy + 1)"
      by (intro civil_of_parts) simp_all
    moreover have "z + 1 = era * 146097 + year_start yoe + (doy + 1) - 719468" by (simp add: z)
    ultimately show ?thesis
      unfolding this_day using True parts by (simp only:) (simp add: date_step year_length_era)
  next
    case False
    then have last: "doy = year_length yoe - 1" using parts by simp
    have next_z: "z + 1 = era * 146097 + year_start (yoe + 1) - 719468"
      by (simp add: z last year_start_step year_length_def)
    have "civil_from_days (era * 146097 + year_start (yoe + 1) - 719468) = date_of (?y + 1) 0"
    proof (cases "yoe = 399")
      case True
      with civil_of_parts [of 0 0 "era + 1"] show ?thesis
        by (simp add: year_start_def year_length_def leap_year_def algebra_simps)
    next
      case False
      with parts civil_of_parts [of "yoe + 1" 0 era] year_length_cases [of "yoe + 1"] show ?thesis
        by (auto simp: algebra_simps)
    qed
    then show ?thesis
      using date_last [of ?y] unfolding next_z this_day last year_length_era by (simp only:)
  qed
qed

end
