(* ===== verification/Email.thy ===== *)
theory Email
  imports App_State Calendar "HOL-Library.Multiset" "HOL-Library.List_Lexorder" "HOL-Library.Char_ord"
begin

text \<open>
  \<^verbatim>\<open>src/email.rs\<close>: a DirectMail request with its parameters, canonical query string and
  signature. HMAC-SHA1, the Base64 encoder and the HTTP client are parameters; the nonce and the
  clock are arguments of the call. The dates are in \<open>Calendar\<close>.

  What the signature is for: the string that is signed determines the parameters, so a request
  with any other parameters has a different string (\<open>signature_covers_params\<close>).
\<close>

section \<open>Percent encoding\<close>

definition unreserved :: "char \<Rightarrow> bool" where
  "unreserved b \<longleftrightarrow> is_ascii_alphanumeric b \<or>
     b = CHR ''-'' \<or> b = CHR ''_'' \<or> b = CHR ''.'' \<or> b = CHR ''~''"

text \<open>\<^verbatim>\<open>{b:02X}\<close>.\<close>

definition upper_hex_digit :: "nat \<Rightarrow> char" where
  "upper_hex_digit d = (if d < 10 then char_of (48 + d) else char_of (55 + d))"

definition upper_hex_byte :: "char \<Rightarrow> string" where
  "upper_hex_byte b = [upper_hex_digit (of_char b div 16), upper_hex_digit (of_char b mod 16)]"

fun rfc3986 :: "string \<Rightarrow> string" where
  "rfc3986 [] = []"
| "rfc3986 (b # bs) =
     (if unreserved b then b # rfc3986 bs else CHR ''%'' # upper_hex_byte b @ rfc3986 bs)"

section \<open>Signing\<close>

fun join :: "string \<Rightarrow> string list \<Rightarrow> string" where
  "join sep [] = []"
| "join sep [x] = x"
| "join sep (x # y # xs) = x @ sep @ join sep (y # xs)"

definition canonical_query :: "(string \<times> string) list \<Rightarrow> string" where
  "canonical_query params = join ''&'' (map (\<lambda>(k, v). rfc3986 k @ ''='' @ rfc3986 v) params)"

definition string_to_sign :: "string \<Rightarrow> (string \<times> string) list \<Rightarrow> string" where
  "string_to_sign meth params = meth @ ''&'' @ rfc3986 ''/'' @ ''&'' @ rfc3986 (canonical_query params)"

text \<open>HMAC-SHA1 of a message under a key, and standard Base64.\<close>

record mail_crypto =
  mc_hmac_sha1 :: "string \<Rightarrow> string \<Rightarrow> u8 list"
  mc_base64 :: "u8 list \<Rightarrow> string"

text \<open>The signature, and the parameters in the order it leaves them in.\<close>

definition sign ::
  "mail_crypto \<Rightarrow> mailer_cfg \<Rightarrow> string \<Rightarrow> (string \<times> string) list \<Rightarrow> string \<times> (string \<times> string) list" where
  "sign C M meth params =
     (let params = sort_key fst params
      in (mc_base64 C (mc_hmac_sha1 C (ml_ak_secret M @ ''&'') (string_to_sign meth params)), params))"

definition mail_params ::
  "mailer_cfg \<Rightarrow> string \<Rightarrow> string \<Rightarrow> string \<Rightarrow> string \<Rightarrow> string \<Rightarrow> (string \<times> string) list" where
  "mail_params M nonce ts to subject html =
     [(''Format'', ''JSON''), (''Version'', ''2015-11-23''), (''AccessKeyId'', ml_ak_id M),
      (''SignatureMethod'', ''HMAC-SHA1''), (''SignatureVersion'', ''1.0''), (''SignatureNonce'', nonce),
      (''Timestamp'', ts), (''RegionId'', ml_region M), (''Action'', ''SingleSendMail''),
      (''AccountName'', ml_from M), (''AddressType'', ''1''), (''ReplyToAddress'', ''false''),
      (''FromAlias'', ''Dendri''), (''ToAddress'', to), (''Subject'', subject), (''HtmlBody'', html)]"

text \<open>The answer of the HTTP client: an error, or the status, its text and the body if it could be read.\<close>

type_synonym mail_post = "string \<Rightarrow> (string \<times> string) list \<Rightarrow> string + nat \<times> string \<times> string option"

definition mail_form ::
  "mail_crypto \<Rightarrow> mailer_cfg \<Rightarrow> string \<Rightarrow> u64 option \<Rightarrow> string \<Rightarrow> string \<Rightarrow> string \<Rightarrow> (string \<times> string) list" where
  "mail_form C M nonce now to subject html =
     (let (signature, params) = sign C M ''POST'' (mail_params M nonce (iso8601_utc now) to subject html)
      in params @ [(''Signature'', signature)])"

definition send_mail ::
  "mail_crypto \<Rightarrow> mail_post \<Rightarrow> mailer_cfg \<Rightarrow> string \<Rightarrow> u64 option \<Rightarrow> string \<Rightarrow> string \<Rightarrow> string \<Rightarrow> string + unit" where
  "send_mail C post M nonce now to subject html =
     (case post (''https://dm.'' @ ml_region M @ ''.aliyuncs.com/'') (mail_form C M nonce now to subject html) of
        Inl e \<Rightarrow> Inl (''directmail request failed: '' @ e)
      | Inr (code, text, body) \<Rightarrow>
          if 200 \<le> code \<and> code < 300 then Inr ()
          else Inl (''directmail '' @ text @ '': '' @ (case body of None \<Rightarrow> [] | Some b \<Rightarrow> b)))"

section \<open>Lemmas\<close>

text \<open>The decoder of RFC 3986, section 2.1.\<close>

definition hex_value :: "char \<Rightarrow> nat option" where
  "hex_value c = (let b = (of_char c :: nat) in
     if 48 \<le> b \<and> b \<le> 57 then Some (b - 48)
     else if 65 \<le> b \<and> b \<le> 70 then Some (b - 55)
     else if 97 \<le> b \<and> b \<le> 102 then Some (b - 87) else None)"

fun percent_decode :: "string \<Rightarrow> string option" where
  "percent_decode [] = Some []"
| "percent_decode (c # cs) =
     (if c \<noteq> CHR ''%'' then map_option ((#) c) (percent_decode cs)
      else case cs of
        h # l # rest \<Rightarrow>
          (case (hex_value h, hex_value l) of
             (Some a, Some b) \<Rightarrow> map_option ((#) (char_of (16 * a + b))) (percent_decode rest)
           | _ \<Rightarrow> None)
      | _ \<Rightarrow> None)"

lemma hex_value_upper: "d < 16 \<Longrightarrow> hex_value (upper_hex_digit d) = Some d"
  by (simp add: hex_value_def upper_hex_digit_def)

lemma unreserved_not:
  assumes "unreserved c"
  shows "c \<noteq> CHR ''%''" "c \<noteq> CHR ''&''" "c \<noteq> CHR ''=''"
  using assms by (auto simp: unreserved_def is_ascii_alphanumeric_def)

lemma unreserved_hex: "d < 16 \<Longrightarrow> unreserved (upper_hex_digit d)"
  by (simp add: unreserved_def is_ascii_alphanumeric_def upper_hex_digit_def)

lemma byte_halves: "(of_char c :: nat) div 16 < 16" "16 * ((of_char c :: nat) div 16) + of_char c mod 16 = of_char c"
proof -
  have "(of_char c :: nat) < 16 * 16" using nat_of_char_less_256 [of c] by simp
  then show "(of_char c :: nat) div 16 < 16" by (rule less_mult_imp_div_less)
qed simp

lemma percent_decode_encode: "percent_decode (rfc3986 s) = Some s"
  by (induction s)
    (simp_all add: unreserved_not(1) upper_hex_byte_def hex_value_upper byte_halves del: mult_div_mod_eq)

lemma rfc3986_chars: "list_all (\<lambda>c. unreserved c \<or> c = CHR ''%'') (rfc3986 s)"
  by (induction s) (simp_all add: upper_hex_byte_def unreserved_hex byte_halves)

lemma rfc3986_inj: "rfc3986 a = rfc3986 b \<Longrightarrow> a = b"
  by (metis option.inject percent_decode_encode)

lemma rfc3986_no_sep: "CHR ''&'' \<notin> set (rfc3986 s)" "CHR ''='' \<notin> set (rfc3986 s)"
proof -
  have "unreserved c \<or> c = CHR ''%''" if "c \<in> set (rfc3986 s)" for c
    using rfc3986_chars [of s] that by (simp add: list_all_iff)
  then show "CHR ''&'' \<notin> set (rfc3986 s)" "CHR ''='' \<notin> set (rfc3986 s)"
    using unreserved_not(2,3) by blast+
qed

text \<open>A separated list of separator-free parts can be taken apart again.\<close>

lemma append_sep_inj:
  fixes c :: char
  assumes "c \<notin> set a" "c \<notin> set b" "a @ c # xs = b @ c # ys"
  shows "a = b \<and> xs = ys"
proof -
  have "split_once c (a @ c # xs) = split_once c (b @ c # ys)" by (simp only: assms(3))
  then show ?thesis unfolding split_once_append [OF assms(1)] split_once_append [OF assms(2)] by simp
qed

lemma join_Cons: "join sep (x # xs) = (if xs = [] then x else x @ sep @ join sep xs)"
  by (cases xs) simp_all

lemma join_inj:
  assumes "\<forall>x \<in> set xs. c \<notin> set x \<and> x \<noteq> []" "\<forall>y \<in> set ys. c \<notin> set y \<and> y \<noteq> []" "join [c] xs = join [c] ys"
  shows "xs = ys"
  using assms
proof (induction xs arbitrary: ys)
  case Nil
  then show ?case by (cases ys) (auto simp: join_Cons split: if_splits)
next
  case (Cons x xs)
  then obtain y ys' where ys: "ys = y # ys'" by (cases ys) (auto simp: join_Cons split: if_splits)
  have c: "c \<notin> set x" "c \<notin> set y" using Cons.prems ys by auto
  have eq: "(if xs = [] then x else x @ [c] @ join [c] xs) = (if ys' = [] then y else y @ [c] @ join [c] ys')"
    using Cons.prems(3) unfolding ys by (simp only: join_Cons)
  have "set x \<subseteq> - {c}" "set y \<subseteq> - {c}" using c by auto
  then have one: "x \<noteq> y @ [c] @ zs" "x @ [c] @ zs \<noteq> y" for zs by auto
  show ?case
  proof (cases "xs = []")
    case True
    with eq one(1) have "ys' = []" by (metis (full_types))
    with True eq ys show ?thesis by simp
  next
    case False
    with eq one(2) have "ys' \<noteq> []" by (metis (full_types))
    with False eq have "x @ c # join [c] xs = y @ c # join [c] ys'" by simp
    from append_sep_inj [OF c this] have "x = y" "join [c] xs = join [c] ys'" by simp_all
    with Cons.IH [of ys'] Cons.prems ys show ?thesis by simp
  qed
qed

lemma pair_text_inj:
  "rfc3986 k @ CHR ''='' # rfc3986 v = rfc3986 k' @ CHR ''='' # rfc3986 v' \<Longrightarrow> k = k' \<and> v = v'"
  using append_sep_inj [of "CHR ''=''" "rfc3986 k" "rfc3986 k'" "rfc3986 v" "rfc3986 v'"] rfc3986_no_sep(2)
  by (auto dest: rfc3986_inj)

lemma canonical_query_inj: "canonical_query ps = canonical_query qs \<Longrightarrow> ps = qs"
proof -
  let ?text = "\<lambda>(k, v). rfc3986 k @ ''='' @ rfc3986 v"
  assume "canonical_query ps = canonical_query qs"
  then have "map ?text ps = map ?text qs"
    unfolding canonical_query_def by (intro join_inj) (auto simp: rfc3986_no_sep)
  moreover have "inj ?text" by (rule injI) (auto dest: pair_text_inj split: prod.splits)
  ultimately show ?thesis by (metis map_injective)
qed

lemma string_to_sign_inj: "string_to_sign m ps = string_to_sign m qs \<Longrightarrow> ps = qs"
  by (auto simp: string_to_sign_def dest!: rfc3986_inj canonical_query_inj)

lemma sort_by_key_cong:
  assumes "mset ps = mset qs" "distinct (map fst qs)"
  shows "sort_key fst ps = sort_key fst qs"
proof (rule sort_key_inj_key_eq)
  show "mset ps = mset (sort_key fst qs)" using assms(1) by simp
  show "inj_on fst (set ps)"
    using assms mset_eq_setD [OF assms(1)] by (simp add: distinct_map)
qed simp

section \<open>Properties\<close>

text \<open>
  Percent encoding loses nothing and leaves nothing that could be mistaken for syntax: the
  decoder of RFC 3986 gives the bytes back, and the encoding consists of unreserved characters and
  the percent sign, so neither a separator of the query string nor a parameter value can pass for
  the other.
\<close>

theorem rfc3986_roundtrip:
  "percent_decode (rfc3986 s) = Some s \<and> list_all (\<lambda>c. unreserved c \<or> c = CHR ''%'') (rfc3986 s)"
  by (simp add: percent_decode_encode rfc3986_chars)

text \<open>
  C31: The signature of a mail request does not depend on the order the parameters are listed in, and
  covers all of them: two requests have the same string to sign exactly if they have the same
  parameters, whatever bytes these contain.
\<close>

theorem signature_covers_params:
  assumes "distinct (map fst ps)" "distinct (map fst qs)"
  shows "string_to_sign m (snd (sign C M m ps)) = string_to_sign m (snd (sign C M m qs)) \<longleftrightarrow> mset ps = mset qs"
    (is "?same \<longleftrightarrow> _")
proof
  assume ?same
  then have "sort_key fst ps = sort_key fst qs" by (auto simp: sign_def Let_def dest: string_to_sign_inj)
  then show "mset ps = mset qs" by (metis mset_sort)
next
  assume "mset ps = mset qs"
  then have "sort_key fst ps = sort_key fst qs" using assms(2) by (rule sort_by_key_cong)
  then show ?same by (simp add: sign_def Let_def)
qed

definition demo_mailer :: mailer_cfg where
  "demo_mailer = \<lparr>ml_ak_id = ''id'', ml_ak_secret = ''s'', ml_region = ''r'', ml_from = ''f''\<rparr>"

definition demo_crypto :: mail_crypto where
  "demo_crypto = \<lparr>mc_hmac_sha1 = (\<lambda>k m. map (\<lambda>c. of_char c) (k @ m)), mc_base64 = map (\<lambda>b. char_of (unat b))\<rparr>"

theorem signature_covers_params_witness:
  "string_to_sign ''POST'' (snd (sign demo_crypto demo_mailer ''POST'' (mail_params demo_mailer ''n'' ''t'' ''x@y.z'' ''hi'' ''<p>''))) \<noteq>
   string_to_sign ''POST'' (snd (sign demo_crypto demo_mailer ''POST'' (mail_params demo_mailer ''n'' ''t'' ''w@y.z'' ''hi'' ''<p>'')))"
proof -
  let ?p = "\<lambda>to. mail_params demo_mailer ''n'' ''t'' to ''hi'' ''<p>''"
  have keys: "distinct (map fst (?p to))" for to by (simp add: mail_params_def)
  have "(''ToAddress'', ''x@y.z'') \<in># mset (?p ''x@y.z'')" "(''ToAddress'', ''x@y.z'') \<notin># mset (?p ''w@y.z'')"
    by (simp_all add: mail_params_def)
  then have "mset (?p ''x@y.z'') \<noteq> mset (?p ''w@y.z'')" by metis
  with signature_covers_params [OF keys keys] show ?thesis by blast
qed

end
