(* ===== verification/Customer.thy ===== *)
theory Customer
  imports Admin Email
begin

text \<open>
  \<^verbatim>\<open>src/handlers/customer.rs\<close>: sign-in to the dashboard by API key or by a link in an email, and
  the routes of a signed-in customer. Encoding and decoding of session tokens
  (\<^verbatim>\<open>jsonwebtoken\<close>) and Redis' \<^verbatim>\<open>SET ... EX ... NX\<close> are parameters; the clock is an argument,
  \<open>None\<close> where it is before 1970.

  A mail is sent by a task of its own after the answer: \<open>request_magic_link\<close> returns the tasks it
  spawns and \<open>run_mail_task\<close> is what such a task does, up to the call of \<open>send_mail\<close>.
\<close>

section \<open>The code\<close>

definition SESSION_TTL_SECS :: u64 where
  "SESSION_TTL_SECS = 7 * 24 * 60 * 60"

definition MAGIC_TTL_SECS :: u64 where
  "MAGIC_TTL_SECS = 15 * 60"

record session_claims =
  sc_sub :: string
  sc_purpose :: string
  sc_exp :: usize

text \<open>Encoder: algorithm, claims, secret. Decoder: clock, algorithm, mandatory claims, secret, token.\<close>

record session_jwt =
  sj_encode :: "jwt_algorithm \<Rightarrow> session_claims \<Rightarrow> string \<Rightarrow> string option"
  sj_decode :: "u64 \<Rightarrow> jwt_algorithm \<Rightarrow> string list \<Rightarrow> string \<Rightarrow> string \<Rightarrow> session_claims option"

definition now_secs :: "u64 option \<Rightarrow> u64" where
  "now_secs clock = (case clock of None \<Rightarrow> 0 | Some s \<Rightarrow> s)"

definition sign_token ::
  "session_jwt \<Rightarrow> u64 option \<Rightarrow> string \<Rightarrow> string \<Rightarrow> string \<Rightarrow> u64 \<Rightarrow> string option" where
  "sign_token J clock secret tenant_id purpose ttl =
     sj_encode J HS256 \<lparr>sc_sub = tenant_id, sc_purpose = purpose, sc_exp = now_secs clock + ttl\<rparr> secret"

definition decode_token :: "session_jwt \<Rightarrow> u64 option \<Rightarrow> string \<Rightarrow> string \<Rightarrow> session_claims option" where
  "decode_token J clock secret token = sj_decode J (now_secs clock) HS256 [''exp''] secret token"

definition signing_secret :: "('r, 'g, 'v) app_state \<Rightarrow> string option" where
  "signing_secret st = cfg_admin_token (config st)"

definition sign_session :: "session_jwt \<Rightarrow> u64 option \<Rightarrow> string \<Rightarrow> string \<Rightarrow> string option" where
  "sign_session J clock secret tenant_id = sign_token J clock secret tenant_id ''session'' SESSION_TTL_SECS"

record dashboard_view =
  dv_id :: string
  dv_name :: string
  dv_email :: "string option"
  dv_active :: bool
  dv_max_rooms :: usize
  dv_max_peers :: usize

definition customer_tenant_view :: "tenant \<Rightarrow> dashboard_view" where
  "customer_tenant_view t = \<lparr>dv_id = tn_id t, dv_name = tn_name t, dv_email = tn_email t, dv_active = tn_active t,
     dv_max_rooms = tn_max_rooms t, dv_max_peers = tn_max_peers t\<rparr>"

datatype customer_body =
    CustomerError string
  | SignedIn string dashboard_view
  | Me dashboard_view
  | NewApiKey string
  | Notice string

type_synonym customer_response = "nat \<times> customer_body"

definition session_tenant_id ::
  "session_jwt \<Rightarrow> u64 option \<Rightarrow> string option \<Rightarrow> ('r, 'g, 'v) app_state \<Rightarrow> customer_response + string" where
  "session_tenant_id J clock authorization st =
     (let unauthorized = Inl (401, CustomerError ''unauthorized'') in
      case signing_secret st of
        None \<Rightarrow> unauthorized
      | Some secret \<Rightarrow>
          (case bearer authorization of
             None \<Rightarrow> unauthorized
           | Some token \<Rightarrow>
               (case decode_token J clock secret token of
                  Some claims \<Rightarrow> if sc_purpose claims = ''session'' then Inr (sc_sub claims) else unauthorized
                | None \<Rightarrow> unauthorized)))"

text \<open>The end of both ways to sign in.\<close>

definition grant_session :: "session_jwt \<Rightarrow> u64 option \<Rightarrow> string \<Rightarrow> tenant \<Rightarrow> customer_response" where
  "grant_session J clock secret t =
     (case sign_session J clock secret (tn_id t) of
        Some token \<Rightarrow> (200, SignedIn token (customer_tenant_view t))
      | None \<Rightarrow> (500, CustomerError ''could not issue session''))"

definition login ::
  "('r, 'g, 'v) ext \<Rightarrow> session_jwt \<Rightarrow> u64 option \<Rightarrow> string \<Rightarrow> ('r, 'g, 'v) app_state \<Rightarrow>
     customer_response \<times> ('r, 'g, 'v) app_state" where
  "login X J clock api_key st =
     (case signing_secret st of
        None \<Rightarrow> ((503, CustomerError ''dashboard not configured''), st)
      | Some secret \<Rightarrow>
          let (t, cache) = resolve_api_key (x_redis X) (x_codec X) (x_sha256 X) (mono X) api_key (redis st) (tenant_cache st);
              st = st\<lparr>tenant_cache := cache\<rparr>
          in case t of
               None \<Rightarrow> ((401, CustomerError ''invalid api key''), st)
             | Some t \<Rightarrow> (grant_session J clock secret t, st))"

definition NO_ACCOUNT_COOLDOWN_SECS :: nat where
  "NO_ACCOUNT_COOLDOWN_SECS = 10 * 60"

text \<open>The control characters U+0000 to U+001F and U+007F to U+009F, by their UTF-8 encodings.\<close>

definition control_chars :: "string list" where
  "control_chars = map (\<lambda>n. [char_of n]) [0..<32] @ [[CHR 0x7F]] @ map (\<lambda>n. [CHR 0xC2, char_of n]) [128..<160]"

text \<open>Whether a text has one of the given characters.\<close>

fun contains_any :: "string list \<Rightarrow> string \<Rightarrow> bool" where
  "contains_any ws [] = False"
| "contains_any ws (c # s) \<longleftrightarrow> find (starts_with (c # s)) ws \<noteq> None \<or> contains_any ws s"

definition plausible_email :: "string \<Rightarrow> bool" where
  "plausible_email email =
     (if length email < 3 \<or> 254 < length email then False
      else if contains_any (white_space @ control_chars) email then False
      else case split_once (CHR ''@'') email of
             None \<Rightarrow> False
           | Some (local, domain) \<Rightarrow>
               local \<noteq> [] \<and> CHR ''.'' \<in> set domain \<and> CHR ''@'' \<notin> set domain \<and>
               \<not> starts_with domain ''.'' \<and> \<not> ends_with domain ''.'')"

definition no_account_cooldown_key :: "string \<Rightarrow> string" where
  "no_account_cooldown_key email = ''auth:no-account:'' @ to_ascii_lowercase email"

text \<open>\<^verbatim>\<open>SET key value EX seconds NX\<close> at a second of Redis' clock: the value's acknowledgement, or nothing
  where the key is taken.\<close>

type_synonym 'r set_nx = "nat \<Rightarrow> string \<Rightarrow> string \<Rightarrow> nat \<Rightarrow> 'r \<Rightarrow> 'r \<times> string option redis_result"

definition acquire_no_account_slot :: "'r set_nx \<Rightarrow> nat \<Rightarrow> string \<Rightarrow> 'r \<Rightarrow> bool \<times> 'r" where
  "acquire_no_account_slot set_nx now email r =
     (let (r, res) = set_nx now (no_account_cooldown_key email) ''1'' NO_ACCOUNT_COOLDOWN_SECS r
      in (case res of Inr (Some _) \<Rightarrow> True | _ \<Rightarrow> False, r))"

definition em_dash :: string where
  "em_dash = [CHR 0xE2, CHR 0x80, CHR 0x94]"

definition no_account_email_html :: "string \<Rightarrow> string \<Rightarrow> string" where
  "no_account_email_html website_url dashboard_url =
     ''<p>You requested a sign-in link for the Dendri dashboard, but this email '' @
     ''address doesn't have a hosted account yet.</p>'' @
     ''<p><strong>To get one:</strong> choose a hosted plan on the '' @
     ''<a href=\"'' @ website_url @ ''/pricing/\">Dendri pricing page</a>. After checkout '' @
     ''your API key arrives by email, and you can sign in at the '' @
     ''<a href=\"'' @ dashboard_url @ ''\">Dendri dashboard</a> with this address.</p>'' @
     ''<p>Prefer to run it yourself? The Dendri server is open source and free '' @
     ''forever '' @ em_dash @ '' follow the '' @
     ''<a href=\"'' @ website_url @ ''/docs/self-hosting/\">self-hosting guide</a>.</p>'' @
     ''<p>If you didn't request this, you can ignore this email.</p>''"

definition magic_link :: "string \<Rightarrow> string \<Rightarrow> string" where
  "magic_link dashboard_url token = dashboard_url @ ''/#magic='' @ token"

definition magic_html :: "string \<Rightarrow> string" where
  "magic_html link =
     ''<p>Click to sign in to your Dendri dashboard. This link expires in 15 minutes.</p>'' @
     ''<p><a href=\"'' @ link @ ''\">Sign in to Dendri</a></p>'' @
     ''<p>If you didn't request this, you can ignore this email.</p>''"

text \<open>\<^verbatim>\<open>trim_end_matches('/')\<close>.\<close>

definition trim_end_slashes :: "string \<Rightarrow> string" where
  "trim_end_slashes s = rev (dropWhile (\<lambda>c. c = CHR ''/'') (rev s))"

datatype mail_task =
    SendMagicLink string string
  | SendNoAccount string string string

definition generic :: customer_response where
  "generic = (200, Notice ''Check your inbox for an email from Dendri.'')"

definition request_magic_link ::
  "('r, 'g, 'v) ext \<Rightarrow> session_jwt \<Rightarrow> u64 option \<Rightarrow> string \<Rightarrow> ('r, 'g, 'v) app_state \<Rightarrow>
     customer_response \<times> mail_task list" where
  "request_magic_link X J clock email st =
     (case (signing_secret st, mailer st) of
        (Some secret, Some m) \<Rightarrow>
          let email = trim email
          in if \<not> plausible_email email then (generic, [])
             else case get_tenant_id_by_email (x_redis X) email (redis st) of
                    Inr (Some tenant_id) \<Rightarrow>
                      (case sign_token J clock secret tenant_id ''magic'' MAGIC_TTL_SECS of
                         None \<Rightarrow> (generic, [])
                       | Some token \<Rightarrow>
                           (generic, [SendMagicLink email
                              (magic_html (magic_link (trim_end_slashes (cfg_dashboard_url (config st))) token))]))
                  | Inr None \<Rightarrow>
                      (generic, [SendNoAccount email (trim_end_slashes (cfg_website_url (config st)))
                         (trim_end_slashes (cfg_dashboard_url (config st)))])
                  | Inl e \<Rightarrow> (generic, [])
      | _ \<Rightarrow> (generic, []))"

text \<open>What a spawned task does: the mail it hands to the mailer, with recipient and subject, and the store.\<close>

fun run_mail_task :: "'r set_nx \<Rightarrow> nat \<Rightarrow> mail_task \<Rightarrow> 'r \<Rightarrow> (string \<times> string \<times> string) option \<times> 'r" where
  "run_mail_task set_nx now (SendMagicLink email html) r = (Some (email, ''Sign in to Dendri'', html), r)"
| "run_mail_task set_nx now (SendNoAccount email website_url dashboard_url) r =
     (case acquire_no_account_slot set_nx now email r of
        (False, r) \<Rightarrow> (None, r)
      | (True, r) \<Rightarrow>
          (Some (email, ''Sign in to Dendri '' @ em_dash @ '' no account found'',
             no_account_email_html website_url dashboard_url), r))"

definition exchange_magic ::
  "('r, 'g, 'v) ext \<Rightarrow> session_jwt \<Rightarrow> u64 option \<Rightarrow> string \<Rightarrow> ('r, 'g, 'v) app_state \<Rightarrow> customer_response" where
  "exchange_magic X J clock token st =
     (case signing_secret st of
        None \<Rightarrow> (503, CustomerError ''dashboard not configured'')
      | Some secret \<Rightarrow>
          (case decode_token J clock secret token of
             None \<Rightarrow> (401, CustomerError ''invalid or expired link'')
           | Some claims \<Rightarrow>
               if sc_purpose claims \<noteq> ''magic'' then (401, CustomerError ''invalid or expired link'')
               else case get_tenant_by_id (x_redis X) (x_codec X) (sc_sub claims) (redis st) of
                      Inr (Some t) \<Rightarrow> grant_session J clock secret t
                    | _ \<Rightarrow> (404, CustomerError ''account not found'')))"

definition me ::
  "('r, 'g, 'v) ext \<Rightarrow> session_jwt \<Rightarrow> u64 option \<Rightarrow> string option \<Rightarrow> ('r, 'g, 'v) app_state \<Rightarrow> customer_response" where
  "me X J clock authorization st =
     (case session_tenant_id J clock authorization st of
        Inl resp \<Rightarrow> resp
      | Inr tenant_id \<Rightarrow>
          (case get_tenant_by_id (x_redis X) (x_codec X) tenant_id (redis st) of
             Inr (Some t) \<Rightarrow> (200, Me (customer_tenant_view t))
           | Inr None \<Rightarrow> (404, CustomerError ''tenant not found'')
           | Inl e \<Rightarrow> (500, CustomerError ''storage error'')))"

definition rotate_key ::
  "('r, 'g, 'v) ext \<Rightarrow> session_jwt \<Rightarrow> u64 option \<Rightarrow> string \<Rightarrow> string option \<Rightarrow> ('r, 'g, 'v) app_state \<Rightarrow>
     customer_response \<times> ('r, 'g, 'v) app_state" where
  "rotate_key X J clock uuid authorization st =
     (case session_tenant_id J clock authorization st of
        Inl resp \<Rightarrow> (resp, st)
      | Inr tenant_id \<Rightarrow>
          (case rotate_api_key (x_redis X) (x_codec X) (x_sha256 X) uuid tenant_id (redis st) of
             (r, Inr (Some key)) \<Rightarrow> ((200, NewApiKey key), flush_tenants (st\<lparr>redis := r\<rparr>))
           | (r, Inr None) \<Rightarrow> ((404, CustomerError ''tenant not found''), st\<lparr>redis := r\<rparr>)
           | (r, Inl e) \<Rightarrow> ((500, CustomerError ''storage error''), st\<lparr>redis := r\<rparr>)))"

section \<open>What the token library documents\<close>

text \<open>
  A token decodes to the claims it was made from until its expiry, with the default leeway of 60
  seconds, and to nothing after it; HS256 signs under every secret.
\<close>

definition token_alive :: "u64 option \<Rightarrow> usize \<Rightarrow> bool" where
  "token_alive clock expiry \<longleftrightarrow> unat (now_secs clock) \<le> unat expiry + 60"

definition session_jwt_ok :: "session_jwt \<Rightarrow> bool" where
  "session_jwt_ok J \<longleftrightarrow>
     (\<forall>claims secret. \<exists>token. sj_encode J HS256 claims secret = Some token \<and>
        (\<forall>clock. sj_decode J (now_secs clock) HS256 [''exp''] secret token =
           (if token_alive clock (sc_exp claims) then Some claims else None)))"

text \<open>
  What Redis documents of \<^verbatim>\<open>SET\<close> with \<^verbatim>\<open>EX\<close> and \<^verbatim>\<open>NX\<close>, with the second at which a key is free
  again: it acknowledges only where the key is free, then the key is taken for the given time;
  it never frees a key early, also where the answer is lost, and leaves other keys alone.
\<close>

definition set_nx_ok :: "'r set_nx \<Rightarrow> (string \<Rightarrow> 'r \<Rightarrow> nat) \<Rightarrow> bool" where
  "set_nx_ok set_nx free_at \<longleftrightarrow>
     (\<forall>now k v ttl r r' res. set_nx now k v ttl r = (r', res) \<longrightarrow>
        (\<forall>k'. k' \<noteq> k \<longrightarrow> free_at k' r' = free_at k' r) \<and> free_at k r \<le> free_at k r' \<and>
        (\<forall>ack. res = Inr (Some ack) \<longrightarrow> free_at k r \<le> now \<and> free_at k r' = now + ttl))"

text \<open>Spawned tasks as they come to run, each at a second; the mails with the second they went out.\<close>

fun run_mail_tasks ::
  "'r set_nx \<Rightarrow> (nat \<times> mail_task) list \<Rightarrow> 'r \<Rightarrow> (nat \<times> string \<times> string \<times> string) list" where
  "run_mail_tasks set_nx [] r = []"
| "run_mail_tasks set_nx ((now, task) # tasks) r =
     (let (mail, r) = run_mail_task set_nx now task r
      in (case mail of None \<Rightarrow> [] | Some m \<Rightarrow> [(now, m)]) @ run_mail_tasks set_nx tasks r)"

text \<open>When mails with the no-account subject went to an address, letter case apart.\<close>

definition no_account_times :: "string \<Rightarrow> (nat \<times> string \<times> string \<times> string) list \<Rightarrow> nat list" where
  "no_account_times address mails =
     map fst (filter (\<lambda>(_, to, subject, _). subject = ''Sign in to Dendri '' @ em_dash @ '' no account found'' \<and>
       to_ascii_lowercase to = to_ascii_lowercase address) mails)"

section \<open>Lemmas\<close>

lemma starts_with_iff: "starts_with s w \<longleftrightarrow> (\<exists>b. s = w @ b)"
  unfolding starts_with_def by (metis append_eq_conv_conj append_take_drop_id)

lemma contains_any_iff:
  assumes "\<forall>w \<in> set ws. w \<noteq> []"
  shows "contains_any ws s \<longleftrightarrow> (\<exists>w \<in> set ws. \<exists>a b. s = a @ w @ b)"
proof (induction s)
  case Nil
  with assms show ?case by auto
next
  case (Cons c s)
  have eq: "(\<exists>a b. c # s = a @ w @ b) \<longleftrightarrow> starts_with (c # s) w \<or> (\<exists>a b. s = a @ w @ b)" for w
    unfolding starts_with_iff by (metis append_Cons append_Nil list.sel(3) neq_Nil_conv list.inject)
  have "find (starts_with (c # s)) ws \<noteq> None \<longleftrightarrow> (\<exists>w \<in> set ws. starts_with (c # s) w)"
    by (auto simp: find_None_iff)
  with Cons.IH show ?case unfolding contains_any.simps eq by blast
qed

lemma forbidden_not_empty: "\<forall>w \<in> set (white_space @ control_chars). w \<noteq> []"
  by (auto simp: white_space_def control_chars_def)

lemma split_once_SomeD: "split_once sep s = Some (a, b) \<Longrightarrow> s = a @ sep # b \<and> sep \<notin> set a"
  by (induction s arbitrary: a) (auto split: if_splits)

lemma signed:
  assumes "session_jwt_ok J"
  obtains token where "sign_token J clock secret tid purpose ttl = Some token"
    "\<And>later. decode_token J later secret token =
       (if token_alive later (now_secs clock + ttl)
        then Some \<lparr>sc_sub = tid, sc_purpose = purpose, sc_exp = now_secs clock + ttl\<rparr> else None)"
proof -
  let ?c = "\<lparr>sc_sub = tid, sc_purpose = purpose, sc_exp = now_secs clock + ttl\<rparr>"
  from assms obtain token where "sj_encode J HS256 ?c secret = Some token"
    "\<forall>later. sj_decode J (now_secs later) HS256 [''exp''] secret token =
       (if token_alive later (sc_exp ?c) then Some ?c else None)"
    unfolding session_jwt_ok_def by blast
  then show ?thesis by (intro that [of token]) (simp_all add: sign_token_def decode_token_def)
qed

lemma session_bearer:
  "session_tenant_id J clock (Some (''Bearer '' @ token)) st =
     (case Option.bind (signing_secret st) (\<lambda>secret. decode_token J clock secret token) of
        Some claims \<Rightarrow> if sc_purpose claims = ''session'' then Inr (sc_sub claims) else Inl (401, CustomerError ''unauthorized'')
      | None \<Rightarrow> Inl (401, CustomerError ''unauthorized''))"
  unfolding session_tenant_id_def bearer_operator
  by (cases "signing_secret st") (simp_all add: Let_def split: option.split)

lemma granted:
  assumes "session_jwt_ok J" "signing_secret st = Some secret"
  obtains token where "grant_session J clock secret t = (200, SignedIn token (customer_tenant_view t))"
    "\<And>later s. token_alive later (now_secs clock + SESSION_TTL_SECS) \<Longrightarrow> signing_secret s = Some secret \<Longrightarrow>
       session_tenant_id J later (Some (''Bearer '' @ token)) s = Inr (tn_id t)"
proof -
  from signed [OF assms(1)] obtain token where
    "sign_token J clock secret (tn_id t) ''session'' SESSION_TTL_SECS = Some token"
    "\<And>later. decode_token J later secret token =
       (if token_alive later (now_secs clock + SESSION_TTL_SECS)
        then Some \<lparr>sc_sub = tn_id t, sc_purpose = ''session'', sc_exp = now_secs clock + SESSION_TTL_SECS\<rparr> else None)"
    by metis
  then show ?thesis
    by (intro that [of token]) (simp_all only: session_bearer, simp_all add: grant_session_def sign_session_def)
qed

lemma rotate_key_frame: "\<exists>r c. snd (rotate_key X J clock u a st) = st\<lparr>redis := r, tenant_cache := c\<rparr>"
proof -
  have same: "\<exists>r c. st = st\<lparr>redis := r, tenant_cache := c\<rparr>"
    by (rule exI [of _ "redis st"], rule exI [of _ "tenant_cache st"]) simp
  have stored: "\<exists>r' c. st\<lparr>redis := r\<rparr> = st\<lparr>redis := r', tenant_cache := c\<rparr>" for r
    by (rule exI [of _ r], rule exI [of _ "tenant_cache st"]) simp
  have flushed: "\<exists>r' c. flush_tenants (st\<lparr>redis := r\<rparr>) = st\<lparr>redis := r', tenant_cache := c\<rparr>" for r
    unfolding flush_tenants_def by (rule exI [of _ r]) auto
  show ?thesis
    using same stored flushed by (simp add: rotate_key_def split: sum.split prod.split option.split)
qed

lemma login_frame: "\<exists>c. snd (login X J clock k st) = st\<lparr>tenant_cache := c\<rparr>"
proof -
  have "\<exists>c. st = st\<lparr>tenant_cache := c\<rparr>" by (rule exI [of _ "tenant_cache st"]) simp
  then show ?thesis by (auto simp: login_def Let_def split: option.split prod.split)
qed

lemma mails_after_free:
  assumes "set_nx_ok nx free_at"
  shows "(\<forall>t \<in> set (no_account_times e (run_mail_tasks nx tasks r)). free_at (no_account_cooldown_key e) r \<le> t) \<and>
    sorted_wrt (\<lambda>a b. a + NO_ACCOUNT_COOLDOWN_SECS \<le> b) (no_account_times e (run_mail_tasks nx tasks r))"
proof (induction tasks arbitrary: r)
  case Nil
  then show ?case by (simp add: no_account_times_def)
next
  case (Cons nt tasks)
  obtain now task where nt: "nt = (now, task)" by fastforce
  let ?key = no_account_cooldown_key and ?times = "no_account_times e"
  show ?case
  proof (cases task)
    case (SendMagicLink to html)
    then show ?thesis using Cons.IH [of r] by (simp add: nt no_account_times_def em_dash_def)
  next
    case (SendNoAccount to w d)
    obtain r' res where nx: "nx now (?key to) ''1'' NO_ACCOUNT_COOLDOWN_SECS r = (r', res)" by fastforce
    with assms have mono: "free_at (?key e) r \<le> free_at (?key e) r'"
      and ack: "\<And>ack. res = Inr (Some ack) \<Longrightarrow> free_at (?key to) r \<le> now \<and>
         free_at (?key to) r' = now + NO_ACCOUNT_COOLDOWN_SECS"
      unfolding set_nx_ok_def by (metis order_refl)+
    show ?thesis
    proof (cases "\<exists>a. res = Inr (Some a)")
      case True
      have same: "to_ascii_lowercase to = to_ascii_lowercase e \<Longrightarrow> ?key to = ?key e"
        by (simp add: no_account_cooldown_key_def)
      from True nx SendNoAccount have times: "?times (run_mail_tasks nx (nt # tasks) r) =
          (if to_ascii_lowercase to = to_ascii_lowercase e then [now] else []) @ ?times (run_mail_tasks nx tasks r')"
        by (auto simp: nt acquire_no_account_slot_def no_account_times_def)
      show ?thesis
        unfolding times using Cons.IH [of r'] mono True ack same
        by (auto intro: order_trans)
    next
      case False
      with nx SendNoAccount have "run_mail_tasks nx (nt # tasks) r = run_mail_tasks nx tasks r'"
        by (auto simp: nt acquire_no_account_slot_def split: sum.split option.split)
      with Cons.IH [of r'] mono show ?thesis by (auto intro: order_trans)
    qed
  qed
qed

section \<open>Properties\<close>

text \<open>
  C23: A magic link signs its customer in, and is nothing but a magic link. For the address of a tenant
  the request is answered with the generic notice and mails a link to that address; the token in the
  link is exchanged for a session until it expires (15 minutes and the library's leeway), every time
  it is presented and not only once; that session shows the tenant until it expires (7 days). After
  its expiry the link is refused, and as a session token it is refused at any time.
\<close>

theorem magic_link_signs_in:
  assumes "session_jwt_ok J" "signing_secret st = Some secret" "mailer st = Some m" "plausible_email (trim email)"
    and "get_tenant_id_by_email (x_redis X) (trim email) (redis st) = Inr (Some (tn_id t))"
    and "get_tenant_by_id (x_redis X) (x_codec X) (tn_id t) (redis st) = Inr (Some t)"
  shows "\<exists>token. request_magic_link X J clock email st =
      (generic, [SendMagicLink (trim email)
         (magic_html (magic_link (trim_end_slashes (cfg_dashboard_url (config st))) token))]) \<and>
    (\<forall>c. if token_alive c (now_secs clock + MAGIC_TTL_SECS) then
        (\<exists>session. exchange_magic X J c token st = (200, SignedIn session (customer_tenant_view t)) \<and>
          (\<forall>d. token_alive d (now_secs c + SESSION_TTL_SECS) \<longrightarrow>
            me X J d (Some (''Bearer '' @ session)) st = (200, Me (customer_tenant_view t))))
      else exchange_magic X J c token st = (401, CustomerError ''invalid or expired link'')) \<and>
    (\<forall>c. me X J c (Some (''Bearer '' @ token)) st = (401, CustomerError ''unauthorized''))"
proof -
  from signed [OF assms(1)] obtain token where
    token: "sign_token J clock secret (tn_id t) ''magic'' MAGIC_TTL_SECS = Some token"
    and decode: "\<And>later. decode_token J later secret token =
       (if token_alive later (now_secs clock + MAGIC_TTL_SECS)
        then Some \<lparr>sc_sub = tn_id t, sc_purpose = ''magic'', sc_exp = now_secs clock + MAGIC_TTL_SECS\<rparr> else None)"
    by metis
  show ?thesis
  proof (intro exI [of _ token] conjI allI)
    show "request_magic_link X J clock email st = (generic, [SendMagicLink (trim email)
        (magic_html (magic_link (trim_end_slashes (cfg_dashboard_url (config st))) token))])"
      using assms(2-5) token by (simp add: request_magic_link_def)
    show "me X J c (Some (''Bearer '' @ token)) st = (401, CustomerError ''unauthorized'')" for c
      unfolding me_def session_bearer by (simp add: assms(2) decode)
    fix c
    from granted [OF assms(1,2)] obtain session where
      "grant_session J c secret t = (200, SignedIn session (customer_tenant_view t))"
      "\<And>d. token_alive d (now_secs c + SESSION_TTL_SECS) \<Longrightarrow>
         session_tenant_id J d (Some (''Bearer '' @ session)) st = Inr (tn_id t)"
      using assms(2) by metis
    then show "if token_alive c (now_secs clock + MAGIC_TTL_SECS) then
        (\<exists>session. exchange_magic X J c token st = (200, SignedIn session (customer_tenant_view t)) \<and>
          (\<forall>d. token_alive d (now_secs c + SESSION_TTL_SECS) \<longrightarrow>
            me X J d (Some (''Bearer '' @ session)) st = (200, Me (customer_tenant_view t))))
      else exchange_magic X J c token st = (401, CustomerError ''invalid or expired link'')"
      using assms(2,6) unfolding exchange_magic_def me_def by (simp add: decode del: append_Cons append_Nil)
  qed
qed

text \<open>A token library to try the properties on: the claims and the secret, percent-encoded.\<close>

definition demo_jwt :: session_jwt where
  "demo_jwt = \<lparr>
     sj_encode = (\<lambda>alg c secret. Some (rfc3986 (sc_sub c) @ CHR ''&'' # rfc3986 (sc_purpose c) @ CHR ''&'' #
       rfc3986 secret @ CHR ''&'' # show_nat (unat (sc_exp c)))),
     sj_decode = (\<lambda>now alg req secret token.
       case split_once (CHR ''&'') token of None \<Rightarrow> None | Some (a, token) \<Rightarrow>
       (case split_once (CHR ''&'') token of None \<Rightarrow> None | Some (b, token) \<Rightarrow>
       (case split_once (CHR ''&'') token of None \<Rightarrow> None | Some (s, e) \<Rightarrow>
       (case (percent_decode a, percent_decode b, percent_decode s, parse_nat e) of
          (Some sub, Some purpose, Some s, Some n) \<Rightarrow>
            if s = secret \<and> unat now \<le> n + 60
            then Some \<lparr>sc_sub = sub, sc_purpose = purpose, sc_exp = of_nat n\<rparr> else None
        | _ \<Rightarrow> None))))\<rparr>"

lemma demo_jwt_ok: "session_jwt_ok demo_jwt"
  unfolding session_jwt_ok_def
  by (auto simp: demo_jwt_def split_once_append rfc3986_no_sep percent_decode_encode parse_nat_show_nat token_alive_def)

text \<open>A server with a mailer and the demo tenant.\<close>

definition demo_dashboard :: "mem_redis \<Rightarrow> (mem_redis, nat, demo_json) app_state" where
  "demo_dashboard r = demo_admin\<lparr>redis := r,
     mailer := Some \<lparr>ml_ak_id = ''i'', ml_ak_secret = ''k'', ml_region = ''r'', ml_from = ''f''\<rparr>\<rparr>"

lemma demo_dashboard_fields:
  "signing_secret (demo_dashboard r) = Some ''s3''" "redis (demo_dashboard r) = r" "mailer (demo_dashboard r) \<noteq> None"
  "tenant_cache (demo_dashboard r) = []" "x_redis demo_ext = mem_api" "x_codec demo_ext = demo_codec"
  "tn_id demo_tenant = ''t_1''" "tn_email demo_tenant = Some ''A@b.c''" "tn_active demo_tenant"
  by (simp_all add: demo_dashboard_def demo_admin_def signing_secret_def demo_ext_def demo_tenant_def)

lemma demo_store:
  obtains r where "create_tenant mem_api demo_codec (x_sha256 demo_ext) demo_tenant ''dk_0'' mem_empty = (r, Inr ())"
    "get_tenant_id_by_email mem_api ''A@b.c'' r = Inr (Some ''t_1'')"
    "get_tenant_by_id mem_api demo_codec ''t_1'' r = Inr (Some demo_tenant)"
    "r_get mem_api (key_by_id ''t_1'') r = Inr (Some (hash_api_key (x_sha256 demo_ext) ''dk_0''))"
    "fetch_by_hash mem_api demo_codec (hash_api_key (x_sha256 demo_ext) ''dk_0'') r = Inr (Some demo_tenant)"
proof -
  obtain r where r: "create_tenant mem_api demo_codec (x_sha256 demo_ext) demo_tenant ''dk_0'' mem_empty = (r, Inr ())"
    by (simp add: create_tenant_def mem_api_def Let_def)
  note ok = mem_api_ok(1) mem_frame_ok mem_api_ok(4)
  show ?thesis
    using create_then_email [OF ok r demo_dashboard_fields(8)] create_then_fetch [OF ok demo_codec_ok r]
      create_then_index [OF ok r]
    by (intro that [OF r]) (simp_all add: demo_dashboard_fields)
qed

theorem magic_link_signs_in_witness:
  "\<exists>st token session. request_magic_link demo_ext demo_jwt (Some 1000) '' A@b.c '' st =
       (generic, [SendMagicLink ''A@b.c'' (magic_html (magic_link (trim_end_slashes (cfg_dashboard_url (config st))) token))]) \<and>
     exchange_magic demo_ext demo_jwt (Some 1960) token st = (200, SignedIn session (customer_tenant_view demo_tenant)) \<and>
     me demo_ext demo_jwt (Some 2000) (Some (''Bearer '' @ session)) st = (200, Me (customer_tenant_view demo_tenant)) \<and>
     exchange_magic demo_ext demo_jwt (Some 1961) token st = (401, CustomerError ''invalid or expired link'')"
proof -
  obtain r where r: "get_tenant_id_by_email mem_api ''A@b.c'' r = Inr (Some ''t_1'')"
    "get_tenant_by_id mem_api demo_codec ''t_1'' r = Inr (Some demo_tenant)" using demo_store by metis
  obtain m where m: "mailer (demo_dashboard r) = Some m" using demo_dashboard_fields(3) by blast
  have trim: "trim '' A@b.c '' = ''A@b.c''" "plausible_email ''A@b.c''" by code_simp+
  have alive: "token_alive (Some 1960) (now_secs (Some 1000) + MAGIC_TTL_SECS)"
      "\<not> token_alive (Some 1961) (now_secs (Some 1000) + MAGIC_TTL_SECS)"
      "token_alive (Some 2000) (now_secs (Some 1960) + SESSION_TTL_SECS)"
    by (simp_all add: token_alive_def now_secs_def MAGIC_TTL_SECS_def SESSION_TTL_SECS_def)
  from magic_link_signs_in [OF demo_jwt_ok demo_dashboard_fields(1) m, of "'' A@b.c ''" demo_ext demo_tenant "Some 1000"]
    r trim alive show ?thesis unfolding demo_dashboard_fields trim by metis
qed

text \<open>
  The dashboard by API key. Logging in with a key that resolves to a tenant gives a session that
  shows this tenant; rotating the key with that session returns a new key, after which the old key
  is refused at once and the new one resolves to the same tenant.
\<close>

theorem login_session_rotates_key:
  assumes "session_jwt_ok J" "signing_secret st = Some secret"
    and "redis_pipe_ok (x_redis X) ex" "redis_frame_ok (x_redis X) ex" "redis_string_ok (x_redis X) ex"
    and "codec_ok (x_codec X) t" "fst (resolve_tenant X (Some k) st) = Some (Some t)"
    and "r_get (x_redis X) (key_by_id (tn_id t)) (redis st) = Inr (Some (hash_api_key (x_sha256 X) k))"
    and "fetch_by_hash (x_redis X) (x_codec X) (hash_api_key (x_sha256 X) k) (redis st) = Inr (Some t)"
    and "token_alive c (now_secs clock + SESSION_TTL_SECS)"
  shows "\<exists>session st1. login X J clock k st = ((200, SignedIn session (customer_tenant_view t)), st1) \<and>
    session_tenant_id J c (Some (''Bearer '' @ session)) st1 = Inr (tn_id t) \<and>
    me X J c (Some (''Bearer '' @ session)) st1 = (200, Me (customer_tenant_view t)) \<and>
    (\<forall>u k' st2. rotate_key X J c u (Some (''Bearer '' @ session)) st1 = ((200, NewApiKey k'), st2) \<longrightarrow>
      hash_api_key (x_sha256 X) k' \<noteq> hash_api_key (x_sha256 X) k \<longrightarrow>
      fst (resolve_tenant X (Some k) st2) = None \<and> fst (resolve_tenant X (Some k') st2) = Some (Some t))"
proof -
  obtain v cache where res: "resolve_api_key (x_redis X) (x_codec X) (x_sha256 X) (mono X) k (redis st) (tenant_cache st) = (v, cache)"
    by fastforce
  with assms(7) have v: "v = Some t" by (simp add: resolve_tenant_def split: option.splits)
  have act: "tn_active t" using resolve_active [of "x_redis X"] res v by (metis fst_conv)
  have "signing_secret (st\<lparr>tenant_cache := cache\<rparr>) = Some secret" using assms(2) by (simp add: signing_secret_def)
  with granted [OF assms(1,2)] obtain session where
    grant: "grant_session J clock secret t = (200, SignedIn session (customer_tenant_view t))"
    and sess: "session_tenant_id J c (Some (''Bearer '' @ session)) (st\<lparr>tenant_cache := cache\<rparr>) = Inr (tn_id t)"
    using assms(10) by metis
  let ?st1 = "st\<lparr>tenant_cache := cache\<rparr>"
  show ?thesis
  proof (intro exI [of _ session] exI [of _ ?st1] conjI allI impI)
    show "login X J clock k st = ((200, SignedIn session (customer_tenant_view t)), ?st1)"
      using res grant by (simp add: login_def assms(2) v)
    show "session_tenant_id J c (Some (''Bearer '' @ session)) ?st1 = Inr (tn_id t)" by (rule sess)
    show "me X J c (Some (''Bearer '' @ session)) ?st1 = (200, Me (customer_tenant_view t))"
      using assms(8,9) unfolding me_def sess by (simp add: get_tenant_by_id_def)
    fix u k' st2
    assume rot: "rotate_key X J c u (Some (''Bearer '' @ session)) ?st1 = ((200, NewApiKey k'), st2)"
      and fresh: "hash_api_key (x_sha256 X) k' \<noteq> hash_api_key (x_sha256 X) k"
    from rot obtain r where
      api: "rotate_api_key (x_redis X) (x_codec X) (x_sha256 X) u (tn_id t) (redis st) = (r, Inr (Some k'))"
      and st2: "st2 = flush_tenants (?st1\<lparr>redis := r\<rparr>)"
      unfolding rotate_key_def sess by (auto split: prod.splits sum.splits option.splits)
    note rotated = rotate_then_fetch [OF assms(3-6,8,9) api]
    show "fst (resolve_tenant X (Some k) st2) = None" "fst (resolve_tenant X (Some k') st2) = Some (Some t)"
      using rotated(3) rotated(2) [OF fresh] act
      by (simp_all add: resolve_tenant_def st2 flush_tenants_def resolve_miss case_prod_beta)
  qed
qed

theorem login_session_rotates_key_witness:
  "\<exists>st session st1 k' st2. login demo_ext demo_jwt (Some 1000) ''dk_0'' st =
       ((200, SignedIn session (customer_tenant_view demo_tenant)), st1) \<and>
     rotate_key demo_ext demo_jwt (Some 2000) ''1'' (Some (''Bearer '' @ session)) st1 = ((200, NewApiKey k'), st2) \<and>
     fst (resolve_tenant demo_ext (Some ''dk_0'') st2) = None \<and>
     fst (resolve_tenant demo_ext (Some k') st2) = Some (Some demo_tenant)"
proof -
  obtain r where r: "get_tenant_by_id mem_api demo_codec ''t_1'' r = Inr (Some demo_tenant)"
    "r_get mem_api (key_by_id ''t_1'') r = Inr (Some (hash_api_key (x_sha256 demo_ext) ''dk_0''))"
    "fetch_by_hash mem_api demo_codec (hash_api_key (x_sha256 demo_ext) ''dk_0'') r = Inr (Some demo_tenant)"
    using demo_store by metis
  let ?st = "demo_dashboard r"
  have alive: "token_alive (Some 2000) (now_secs (Some 1000) + SESSION_TTL_SECS)"
    by (simp add: token_alive_def now_secs_def SESSION_TTL_SECS_def)
  have ok: "redis_pipe_ok (x_redis demo_ext) mem_exec" "redis_frame_ok (x_redis demo_ext) mem_exec"
      "redis_string_ok (x_redis demo_ext) mem_exec" "codec_ok (x_codec demo_ext) demo_tenant"
    unfolding demo_dashboard_fields by (rule mem_api_ok mem_frame_ok demo_codec_ok)+
  have res: "fst (resolve_tenant demo_ext (Some ''dk_0'') ?st) = Some (Some demo_tenant)"
    using r(3) by (simp add: resolve_tenant_def case_prod_beta resolve_miss demo_dashboard_fields cache_get_def)
  obtain session st1 where
    login: "login demo_ext demo_jwt (Some 1000) ''dk_0'' ?st = ((200, SignedIn session (customer_tenant_view demo_tenant)), st1)"
    and sess: "session_tenant_id demo_jwt (Some 2000) (Some (''Bearer '' @ session)) st1 = Inr ''t_1''"
    and rot: "\<And>u k' st2. rotate_key demo_ext demo_jwt (Some 2000) u (Some (''Bearer '' @ session)) st1 = ((200, NewApiKey k'), st2) \<Longrightarrow>
      hash_api_key (x_sha256 demo_ext) k' \<noteq> hash_api_key (x_sha256 demo_ext) ''dk_0'' \<Longrightarrow>
      fst (resolve_tenant demo_ext (Some ''dk_0'') st2) = None \<and> fst (resolve_tenant demo_ext (Some k') st2) = Some (Some demo_tenant)"
    using login_session_rotates_key [OF demo_jwt_ok demo_dashboard_fields(1) ok res _ _ alive] r
    unfolding demo_dashboard_fields by metis
  from login_frame [of demo_ext demo_jwt "Some 1000" "''dk_0''" ?st] login have red: "redis st1 = r"
    by (auto simp: demo_dashboard_fields)
  obtain r' where "rotate_api_key mem_api demo_codec (x_sha256 demo_ext) ''1'' ''t_1'' r = (r', Inr (Some ''dk_1''))"
    using r(2,3) by (simp add: rotate_api_key_def Let_def generate_api_key_def) (simp add: mem_api_def)
  then obtain st2 where st2: "rotate_key demo_ext demo_jwt (Some 2000) ''1'' (Some (''Bearer '' @ session)) st1 =
      ((200, NewApiKey ''dk_1''), st2)"
    unfolding rotate_key_def sess by (simp add: red demo_dashboard_fields)
  have "x_sha256 demo_ext ''dk_1'' \<noteq> x_sha256 demo_ext ''dk_0''" by (simp add: demo_ext_def demo_sha_def)
  then have "hash_api_key (x_sha256 demo_ext) ''dk_1'' \<noteq> hash_api_key (x_sha256 demo_ext) ''dk_0''"
    using hash_api_key_inj by blast
  from rot [OF st2 this] login st2 show ?thesis by blast
qed

text \<open>
  Asking for a link reveals nothing and cannot be aimed elsewhere: the answer is the same for every
  address, store and configuration, at most one mail task is spawned, and its recipient is the
  address that was given, which has the shape of an address.
\<close>

theorem magic_request_reveals_nothing:
  "fst (request_magic_link X J clock email st) = generic \<and>
   length (snd (request_magic_link X J clock email st)) \<le> 1 \<and>
   (\<forall>task \<in> set (snd (request_magic_link X J clock email st)).
      plausible_email (trim email) \<and>
      (case task of SendMagicLink to html \<Rightarrow> to = trim email | SendNoAccount to w d \<Rightarrow> to = trim email))"
  by (auto simp: request_magic_link_def Let_def split: option.splits sum.splits if_splits)

text \<open>
  The no-account mail cannot be used to spam: however many requests for an address are answered
  and however its letter case varies, two mails saying that there is no account leave at least ten
  minutes apart, also where Redis fails in between.
\<close>

theorem no_account_mail_cooldown:
  assumes "set_nx_ok nx free_at"
  shows "sorted_wrt (\<lambda>a b. a + 600 \<le> b) (no_account_times address (run_mail_tasks nx tasks r))"
  using mails_after_free [OF assms, of address tasks r] by (simp add: NO_ACCOUNT_COOLDOWN_SECS_def)

text \<open>A store of deadlines only.\<close>

definition demo_nx :: "(string \<Rightarrow> nat) set_nx" where
  "demo_nx now k v ttl r = (if r k \<le> now then (r(k := now + ttl), Inr (Some ''OK'')) else (r, Inr None))"

theorem no_account_mail_cooldown_witness:
  "let tasks = [(5, SendNoAccount ''a@b.co'' [] []), (9, SendNoAccount ''A@b.co'' [] []), (605, SendNoAccount ''A@B.co'' [] [])];
       times = no_account_times ''a@b.co'' (run_mail_tasks demo_nx tasks (\<lambda>_. 0))
   in times = [5, 605] \<and> sorted_wrt (\<lambda>a b. a + 600 \<le> b) times"
proof -
  have "set_nx_ok demo_nx (\<lambda>k r. r k)" by (auto simp: set_nx_ok_def demo_nx_def split: if_splits)
  note ok = no_account_mail_cooldown [OF this]
  let ?tasks = "[(5, SendNoAccount ''a@b.co'' [] []), (9, SendNoAccount ''A@b.co'' [] []), (605, SendNoAccount ''A@B.co'' [] [])]"
  have "no_account_times ''a@b.co'' (run_mail_tasks demo_nx ?tasks (\<lambda>_. 0)) = [5, 605]" by code_simp
  with ok [of "''a@b.co''" ?tasks "\<lambda>_. 0"] show ?thesis unfolding Let_def by blast
qed

text \<open>
  The shape of an address the server mails to: at most 254 bytes with no white space and no control
  character anywhere, exactly one at sign with something before it, and after it a domain that has
  a dot and neither starts nor ends with one.
\<close>

theorem plausible_email_shape:
  "plausible_email e \<longleftrightarrow> length e \<le> 254 \<and>
     \<not> (\<exists>w \<in> set (white_space @ control_chars). \<exists>a b. e = a @ w @ b) \<and>
     (\<exists>local domain. e = local @ CHR ''@'' # domain \<and> CHR ''@'' \<notin> set local \<union> set domain \<and> local \<noteq> [] \<and>
        CHR ''.'' \<in> set domain \<and> hd domain \<noteq> CHR ''.'' \<and> last domain \<noteq> CHR ''.'')"
proof -
  have ends: "starts_with d ''.'' \<longleftrightarrow> hd d = CHR ''.''" "ends_with d ''.'' \<longleftrightarrow> last d = CHR ''.''"
    if "CHR ''.'' \<in> set d" for d
  proof -
    from that have "d \<noteq> []" by auto
    then show "starts_with d ''.'' \<longleftrightarrow> hd d = CHR ''.''" "ends_with d ''.'' \<longleftrightarrow> last d = CHR ''.''"
      by (cases d, simp_all add: starts_with_def) (cases d rule: rev_cases, simp_all add: ends_with_def)
  qed
  have at: "split_once (CHR ''@'') e = Some (l, d) \<longleftrightarrow> e = l @ CHR ''@'' # d \<and> CHR ''@'' \<notin> set l" for l d
    using split_once_SomeD split_once_append by metis
  let ?shape = "\<lambda>l d. e = l @ CHR ''@'' # d \<and> CHR ''@'' \<notin> set l \<union> set d \<and> l \<noteq> [] \<and>
    CHR ''.'' \<in> set d \<and> hd d \<noteq> CHR ''.'' \<and> last d \<noteq> CHR ''.''"
  have shape: "(split_once (CHR ''@'') e = Some (l, d) \<and> l \<noteq> [] \<and> CHR ''.'' \<in> set d \<and> CHR ''@'' \<notin> set d \<and>
        \<not> starts_with d ''.'' \<and> \<not> ends_with d ''.'') \<longleftrightarrow> ?shape l d" for l d
    unfolding at using ends [of d] by blast
  have plausible: "plausible_email e \<longleftrightarrow> 3 \<le> length e \<and> length e \<le> 254 \<and>
     \<not> (\<exists>w \<in> set (white_space @ control_chars). \<exists>a b. e = a @ w @ b) \<and>
     (\<exists>l d. split_once (CHR ''@'') e = Some (l, d) \<and> l \<noteq> [] \<and> CHR ''.'' \<in> set d \<and> CHR ''@'' \<notin> set d \<and>
        \<not> starts_with d ''.'' \<and> \<not> ends_with d ''.'')"
    unfolding plausible_email_def contains_any_iff [OF forbidden_not_empty]
    by (cases "split_once (CHR ''@'') e") auto
  have "3 \<le> length e" if "?shape l d" for l d
    using that by (cases l; cases d) auto
  then have "(\<exists>l d. ?shape l d) \<longrightarrow> 3 \<le> length e" by blast
  then show ?thesis unfolding plausible shape by argo
qed

text \<open>
  An empty admin token locks the operator out but lets everybody in as a customer. With the token
  set to the empty string no header is accepted on the operator's routes, while a session token for
  any tenant, signed by anyone with the empty secret, is accepted as that tenant's session.
\<close>

theorem empty_admin_token_forges_sessions:
  assumes "session_jwt_ok J" "cfg_admin_token (config st) = Some []" "token_alive clock expiry"
  shows "\<not> operator a st \<and>
    (\<exists>forged. sj_encode J HS256 \<lparr>sc_sub = victim, sc_purpose = ''session'', sc_exp = expiry\<rparr> [] = Some forged \<and>
      session_tenant_id J clock (Some (''Bearer '' @ forged)) st = Inr victim)"
proof -
  from assms(1) obtain forged where
    "sj_encode J HS256 \<lparr>sc_sub = victim, sc_purpose = ''session'', sc_exp = expiry\<rparr> [] = Some forged"
    "decode_token J clock [] forged = Some \<lparr>sc_sub = victim, sc_purpose = ''session'', sc_exp = expiry\<rparr>"
    using assms(3) unfolding session_jwt_ok_def decode_token_def by (metis session_claims.select_convs(3))
  then show ?thesis
    using assms(2) unfolding session_bearer by (auto simp: signing_secret_def operator_def)
qed

theorem empty_admin_token_forges_sessions_witness:
  "\<exists>forged. sj_encode demo_jwt HS256 \<lparr>sc_sub = ''t_1'', sc_purpose = ''session'', sc_exp = 9000\<rparr> [] = Some forged \<and>
     session_tenant_id demo_jwt (Some 1000) (Some (''Bearer '' @ forged))
       (demo_state (default_config\<lparr>cfg_admin_token := Some []\<rparr>)) = Inr ''t_1''"
proof -
  have "token_alive (Some 1000) 9000" by (simp add: token_alive_def now_secs_def)
  moreover have "cfg_admin_token (config (demo_state (default_config\<lparr>cfg_admin_token := Some []\<rparr>))) = Some []" by simp
  ultimately show ?thesis using empty_admin_token_forges_sessions [OF demo_jwt_ok] by blast
qed

end
