(* ===== verification/Api.thy ===== *)
theory Api
  imports Ws_Handler
begin

text \<open>
  \<^verbatim>\<open>src/handlers/api.rs\<close>: health and metadata, fresh client ids, the list of peers, and TURN
  credentials. None of the handlers changes the state. A handler returns a status and a body;
  HMAC-SHA1 and Base64 are parameters, and the clock of the credentials is an argument, \<open>None\<close>
  where it is before 1970.

  \<open>coturn_accepts\<close> is the rule of the TURN server the credentials are made for, written from its
  documentation (\<^verbatim>\<open>use-auth-secret\<close>).
\<close>

section \<open>The code\<close>

record ice_server =
  ice_urls :: string
  ice_username :: string
  ice_credential :: string

record health_report =
  hr_status :: string
  hr_clients :: nat
  hr_rooms :: nat
  hr_uptime_ms :: u64
  hr_relay_enabled :: bool

datatype api_body =
    Empty
  | Html string
  | Peers "string list"
  | IceServers "ice_server list" u64
  | ApiError string

definition health :: "('r, 'g, 'v) ext \<Rightarrow> ('r, 'g, 'v) app_state \<Rightarrow> health_report" where
  "health X st = \<lparr>hr_status = ''ok'', hr_clients = dm_len (clients st), hr_rooms = dm_len (rooms st),
     hr_uptime_ms = of_nat (duration_since (mono X) (start_time st) div 1000000),
     hr_relay_enabled = cfg_enable_relay (config st)\<rparr>"

definition root :: "(string \<times> string) list" where
  "root = [(''name'', ''Dendri Server''),
     (''description'', ''A signaling server to broker connections between Dendri clients.''),
     (''website'', ''https://github.com/nicholasgasior/dendri''),
     (''license'', ''AGPL-3.0-only''),
     (''source'', ''https://github.com/afterrealism/dendri-server'')]"

text \<open>\<open>uuid i\<close> is the \<open>i\<close>-th UUID drawn; \<open>None\<close> is a request that is never answered.\<close>

definition get_id ::
  "('r, 'g, 'v) ext \<Rightarrow> (nat \<Rightarrow> string) \<Rightarrow> string \<Rightarrow> ('r, 'g, 'v) app_state \<Rightarrow> (nat \<times> api_body) option" where
  "get_id X uuid key st =
     (if key \<noteq> cfg_key (config st) then Some (401, Empty)
      else case generate_client_id (x_redis X) uuid 0 (redis st) of
             None \<Rightarrow> None
           | Some (Inr cid) \<Rightarrow> Some (200, Html cid)
           | Some (Inl e) \<Rightarrow> Some (500, Empty))"

record peers_query =
  pq_room :: "string option"
  pq_token :: "string option"

definition get_peers ::
  "('r, 'g, 'v) ext \<Rightarrow> string \<Rightarrow> peers_query \<Rightarrow> ('r, 'g, 'v) app_state \<Rightarrow> nat \<times> api_body" where
  "get_peers X key params st =
     (if key \<noteq> cfg_key (config st) then (401, Empty)
      else if \<not> cfg_allow_discovery (config st) then (401, Empty)
      else if (case cfg_discovery_token (config st) of None \<Rightarrow> False | Some expected \<Rightarrow> pq_token params \<noteq> Some expected)
      then (401, Empty)
      else case pq_room params of
             Some room_name \<Rightarrow>
               (200, Peers (case dm_get (rooms st) room_name of None \<Rightarrow> [] | Some m \<Rightarrow> m))
           | None \<Rightarrow>
               (case get_all_client_ids (x_redis X) (redis st) of
                  Inr ids \<Rightarrow> (200, Peers ids)
                | Inl e \<Rightarrow> (500, Empty)))"

text \<open>A keyed HMAC-SHA1, \<open>None\<close> for a key it rejects, and standard Base64.\<close>

record turn_crypto =
  tc_hmac_sha1 :: "string \<Rightarrow> (string \<Rightarrow> u8 list) option"
  tc_base64 :: "u8 list \<Rightarrow> string"

definition turn_ttl :: u64 where
  "turn_ttl = 86400"

definition turn_username :: "u64 option \<Rightarrow> string \<Rightarrow> string" where
  "turn_username clock peer_id =
     (let timestamp = (case clock of None \<Rightarrow> 0 | Some s \<Rightarrow> s) + turn_ttl
      in show_u64 timestamp @ '':'' @ peer_id)"

definition turn_credentials ::
  "turn_crypto \<Rightarrow> u64 option \<Rightarrow> string \<Rightarrow> string option \<Rightarrow> ('r, 'g, 'v) app_state \<Rightarrow> nat \<times> api_body" where
  "turn_credentials T clock key peer st =
     (if key \<noteq> cfg_key (config st) then (401, Empty)
      else
        let peer_id = (case peer of None \<Rightarrow> ''dendri'' | Some p \<Rightarrow> p)
        in case cfg_turn_secret (config st) of
             None \<Rightarrow> (503, ApiError ''TURN not configured'')
           | Some secret \<Rightarrow>
               let username = turn_username clock peer_id
               in case tc_hmac_sha1 T secret of
                    None \<Rightarrow> (500, Empty)
                  | Some mac \<Rightarrow>
                      let credential = tc_base64 T (mac username)
                      in (200, IceServers (map (\<lambda>url. \<lparr>ice_urls = url, ice_username = username,
                            ice_credential = credential\<rparr>) (cfg_turn_servers (config st))) turn_ttl))"

section \<open>The TURN server\<close>

text \<open>
  The user name is an expiry time, a colon and a user id; it is good until that time if the password
  is the Base64 of its HMAC-SHA1 under the shared secret.
\<close>

definition coturn_accepts :: "turn_crypto \<Rightarrow> string \<Rightarrow> nat \<Rightarrow> string \<Rightarrow> string \<Rightarrow> string option" where
  "coturn_accepts T secret now username password =
     (case (split_once (CHR '':'') username, tc_hmac_sha1 T secret) of
        (Some (expiry, user), Some mac) \<Rightarrow>
          (case parse_nat expiry of
             None \<Rightarrow> None
           | Some t \<Rightarrow> if now \<le> t \<and> password = tc_base64 T (mac username) then Some user else None)
      | _ \<Rightarrow> None)"

section \<open>Lemmas\<close>

lemma show_nat_digits: "c \<in> set (show_nat n) \<Longrightarrow> digit_value c \<noteq> None"
proof (induction n rule: show_nat.induct)
  case (1 n)
  show ?case
  proof (cases "n < 10")
    case True
    with "1.prems" show ?thesis by (simp add: show_nat.simps [of n] digit_value_digit_char)
  next
    case False
    with "1" show ?thesis by (auto simp: show_nat.simps [of n] digit_value_digit_char)
  qed
qed

lemma show_nat_no_colon: "CHR '':'' \<notin> set (show_nat n)"
  using show_nat_digits [of "CHR '':''" n] by (auto simp: digit_value_def)

lemma turn_username_accepted:
  assumes "tc_hmac_sha1 T secret = Some mac" "unat s + 86400 < 2 ^ 64"
  shows "coturn_accepts T secret now (turn_username (Some s) peer) (tc_base64 T (mac (turn_username (Some s) peer))) =
    (if now \<le> unat s + 86400 then Some peer else None)"
proof -
  have "unat (s + turn_ttl) = unat s + 86400"
    using assms(2) by (simp add: turn_ttl_def unat_add_lem [THEN iffD1])
  then show ?thesis
    by (simp add: coturn_accepts_def turn_username_def show_u64_def assms(1) split_once_append [OF show_nat_no_colon]
        parse_nat_show_nat Let_def)
qed

section \<open>Properties\<close>

text \<open>
  The TURN server accepts exactly what this server hands out: every ICE server of an answer has a
  user name and password that coturn accepts, for the peer that was named (or the default user), until
  24 hours after the answer and not later; there is one entry per configured URL, in order.
\<close>

theorem turn_credentials_accepted:
  assumes "turn_credentials T (Some s) key peer st = (200, IceServers servers ttl)"
    and "cfg_turn_secret (config st) = Some secret" "unat s + 86400 < 2 ^ 64"
  shows "map ice_urls servers = cfg_turn_servers (config st) \<and> ttl = 86400 \<and>
    (\<forall>ice \<in> set servers. coturn_accepts T secret now (ice_username ice) (ice_credential ice) =
       (if now \<le> unat s + 86400 then Some (case peer of None \<Rightarrow> ''dendri'' | Some p \<Rightarrow> p) else None))"
proof -
  let ?user = "turn_username (Some s) (case peer of None \<Rightarrow> ''dendri'' | Some p \<Rightarrow> p)"
  from assms(1,2) obtain mac where mac: "tc_hmac_sha1 T secret = Some mac"
    and servers: "servers = map (\<lambda>url. \<lparr>ice_urls = url, ice_username = ?user, ice_credential = tc_base64 T (mac ?user)\<rparr>)
      (cfg_turn_servers (config st))" and ttl: "ttl = turn_ttl"
    by (auto simp: turn_credentials_def Let_def split: if_splits option.splits)
  show ?thesis
    using turn_username_accepted [OF mac assms(3)] by (auto simp: servers ttl turn_ttl_def o_def)
qed

theorem turn_credentials_accepted_witness:
  "let T = \<lparr>tc_hmac_sha1 = (\<lambda>secret. Some (\<lambda>m. demo_sha (secret @ m))), tc_base64 = map (\<lambda>b. char_of (unat b))\<rparr>;
       st = demo_state (default_config\<lparr>cfg_turn_secret := Some ''k'', cfg_turn_servers := [''turn:a'']\<rparr>)
   in \<exists>u p. turn_credentials T (Some 1000) ''dendri'' (Some ''bob'') st =
        (200, IceServers [\<lparr>ice_urls = ''turn:a'', ice_username = u, ice_credential = p\<rparr>] 86400) \<and>
      coturn_accepts T ''k'' 87400 u p = Some ''bob'' \<and> coturn_accepts T ''k'' 87401 u p = None"
proof -
  let ?T = "\<lparr>tc_hmac_sha1 = (\<lambda>secret. Some (\<lambda>m. demo_sha (secret @ m))), tc_base64 = map (\<lambda>b. char_of (unat b))\<rparr>"
  let ?st = "demo_state (default_config\<lparr>cfg_turn_secret := Some ''k'', cfg_turn_servers := [''turn:a'']\<rparr>)"
  obtain u p where up: "turn_credentials ?T (Some 1000) ''dendri'' (Some ''bob'') ?st =
      (200, IceServers [\<lparr>ice_urls = ''turn:a'', ice_username = u, ice_credential = p\<rparr>] 86400)"
    by (simp add: turn_credentials_def turn_ttl_def Let_def)
  have "cfg_turn_secret (config ?st) = Some ''k''" "unat (1000 :: u64) + 86400 < 2 ^ 64" by simp_all
  note ok = turn_credentials_accepted [OF up this]
  from ok [of 87400] ok [of 87401] up show ?thesis by simp
qed

text \<open>
  What the list of peers discloses, and to whom. Without the key, without discovery enabled, or
  without the configured discovery token the answer is 401. Otherwise a room parameter is taken as
  the stored key of a room: for a tenant's room that is the tenant id, the separator and the room
  name, so whoever may use discovery can list the members of any tenant's room, with no API key of
  that tenant.
\<close>

theorem get_peers_crosses_tenants:
  assumes "dm_get (client_tenants st) c = Some t" "c \<in> members st (room_key st c r)"
  shows "if key = cfg_key (config st) \<and> cfg_allow_discovery (config st) \<and>
        (cfg_discovery_token (config st) = None \<or> tok = cfg_discovery_token (config st))
    then \<exists>ms. get_peers X key \<lparr>pq_room = Some (t @ [CHR 0x1F] @ r), pq_token = tok\<rparr> st = (200, Peers ms) \<and> c \<in> set ms
    else get_peers X key \<lparr>pq_room = Some (t @ [CHR 0x1F] @ r), pq_token = tok\<rparr> st = (401, Empty)"
proof -
  have "room_key st c r = t @ [CHR 0x1F] @ r" using assms(1) by (simp add: room_key_def namespace_room_def TENANT_SEP_def)
  with assms(2) show ?thesis
    by (auto simp: get_peers_def members_def entry_set_def split: option.splits)
qed

theorem get_peers_crosses_tenants_witness:
  "let st = (demo_two (default_config\<lparr>cfg_allow_discovery := True\<rparr>))\<lparr>client_tenants := [(''a'', ''t_1'')],
        rooms := [(''t_1'' @ [CHR 0x1F] @ ''lobby'', [''a''])]\<rparr>
   in \<exists>ms. get_peers demo_ext ''dendri'' \<lparr>pq_room = Some (''t_1'' @ [CHR 0x1F] @ ''lobby''), pq_token = None\<rparr> st = (200, Peers ms) \<and>
        ''a'' \<in> set ms"
proof -
  let ?st = "(demo_two (default_config\<lparr>cfg_allow_discovery := True\<rparr>))\<lparr>client_tenants := [(''a'', ''t_1'')],
        rooms := [(''t_1'' @ [CHR 0x1F] @ ''lobby'', [''a''])]\<rparr>"
  have t: "dm_get (client_tenants ?st) ''a'' = Some ''t_1''" by (simp add: dm_get_def)
  then have m: "''a'' \<in> members ?st (room_key ?st ''a'' ''lobby'')"
    by (simp add: members_def entry_set_def room_key_def namespace_room_def TENANT_SEP_def dm_get_def)
  have "cfg_discovery_token default_config = None" by (simp add: default_config_def)
  with get_peers_crosses_tenants [OF t m, of "''dendri''" None demo_ext] show ?thesis by simp
qed

end
