(* ===== verification/Socket_Addr.thy ===== *)
theory Socket_Addr
  imports Text_Format
begin

text \<open>
  Rust's \<^verbatim>\<open>"...".parse::<SocketAddr>()\<close> as the standard library implements it: readers that take a
  prefix of the text, an IPv4 address with a port, or an IPv6 address in square brackets with an
  optional scope and a port. The start-up code parses its bind address with it.
\<close>

type_synonym 'a reader = "string \<Rightarrow> ('a \<times> string) option"

datatype socket_addr =
    SocketV4 "nat list" nat
  | SocketV6 "nat list" nat nat

definition read_given_char :: "char \<Rightarrow> unit reader" where
  "read_given_char c s = (case s of [] \<Rightarrow> None | d # rest \<Rightarrow> if d = c then Some ((), rest) else None)"

text \<open>\<^verbatim>\<open>char::to_digit(radix)\<close> for the radices 10 and 16.\<close>

definition to_digit :: "nat \<Rightarrow> char \<Rightarrow> nat option" where
  "to_digit radix c =
     (let b = (of_char c :: nat);
          v = (if 48 \<le> b \<and> b \<le> 57 then Some (b - 48)
               else if 97 \<le> b \<and> b \<le> 122 then Some (b - 87)
               else if 65 \<le> b \<and> b \<le> 90 then Some (b - 55) else None)
      in case v of None \<Rightarrow> None | Some d \<Rightarrow> if d < radix then Some d else None)"

definition digits_value :: "nat \<Rightarrow> string \<Rightarrow> nat" where
  "digits_value radix ds = foldl (\<lambda>a c. a * radix + (case to_digit radix c of None \<Rightarrow> 0 | Some d \<Rightarrow> d)) 0 ds"

text \<open>A run of digits: its largest value, the most digits it may have, and whether it may start with a zero.\<close>

definition read_number :: "nat \<Rightarrow> nat \<Rightarrow> nat option \<Rightarrow> bool \<Rightarrow> nat reader" where
  "read_number radix largest max_digits allow_zero_prefix s =
     (let ds = takeWhile (\<lambda>c. to_digit radix c \<noteq> None) s;
          rest = dropWhile (\<lambda>c. to_digit radix c \<noteq> None) s
      in if ds = [] \<or> (case max_digits of None \<Rightarrow> False | Some m \<Rightarrow> m < length ds) \<or>
            \<not> allow_zero_prefix \<and> hd ds = CHR ''0'' \<and> 1 < length ds \<or> largest < digits_value radix ds
         then None else Some (digits_value radix ds, rest))"

definition read_separator :: "char \<Rightarrow> nat \<Rightarrow> 'a reader \<Rightarrow> 'a reader" where
  "read_separator sep index inner s =
     (if 0 < index then (case read_given_char sep s of None \<Rightarrow> None | Some (_, s) \<Rightarrow> inner s) else inner s)"

fun read_octets :: "nat \<Rightarrow> nat \<Rightarrow> nat list reader" where
  "read_octets i 0 s = Some ([], s)"
| "read_octets i (Suc n) s =
     (case read_separator (CHR ''.'') i (read_number 10 255 (Some 3) False) s of
        None \<Rightarrow> None
      | Some (g, s) \<Rightarrow> map_option (\<lambda>(gs, s). (g # gs, s)) (read_octets (Suc i) n s))"

definition read_ipv4_addr :: "nat list reader" where
  "read_ipv4_addr = read_octets 0 4"

text \<open>
  Up to \<open>n\<close> groups of an IPv6 address from index \<open>i\<close> on; the last two may be an IPv4 address. The
  groups, whether they end in an IPv4 address, and the rest.
\<close>

fun read_groups :: "nat \<Rightarrow> nat \<Rightarrow> string \<Rightarrow> nat list \<times> bool \<times> string" where
  "read_groups i 0 s = ([], False, s)"
| "read_groups i (Suc n) s =
     (case (if 0 < n then read_separator (CHR '':'') i read_ipv4_addr s else None) of
        Some ([a, b, c, d], rest) \<Rightarrow> ([a * 256 + b, c * 256 + d], True, rest)
      | _ \<Rightarrow>
          (case read_separator (CHR '':'') i (read_number 16 65535 (Some 4) True) s of
             None \<Rightarrow> ([], False, s)
           | Some (g, rest) \<Rightarrow>
               let (gs, v4, rest) = read_groups (Suc i) n rest in (g # gs, v4, rest)))"

definition read_ipv6_addr :: "nat list reader" where
  "read_ipv6_addr s =
     (let (head, head_ipv4, s) = read_groups 0 8 s
      in if length head = 8 then Some (head, s)
         else if head_ipv4 then None
         else case read_given_char (CHR '':'') s of
                None \<Rightarrow> None
              | Some (_, s) \<Rightarrow>
                  (case read_given_char (CHR '':'') s of
                     None \<Rightarrow> None
                   | Some (_, s) \<Rightarrow>
                       let (tail, _, s) = read_groups 0 (8 - (length head + 1)) s
                       in Some (head @ replicate (8 - length head - length tail) 0 @ tail, s)))"

definition read_port :: "nat reader" where
  "read_port s =
     (case read_given_char (CHR '':'') s of
        None \<Rightarrow> None | Some (_, s) \<Rightarrow> read_number 10 65535 None True s)"

definition read_scope_id :: "nat reader" where
  "read_scope_id s =
     (case read_given_char (CHR ''%'') s of
        None \<Rightarrow> None | Some (_, s) \<Rightarrow> read_number 10 4294967295 None True s)"

definition read_socket_addr_v4 :: "socket_addr reader" where
  "read_socket_addr_v4 s =
     (case read_ipv4_addr s of
        None \<Rightarrow> None
      | Some (ip, s) \<Rightarrow> map_option (\<lambda>(port, s). (SocketV4 ip port, s)) (read_port s))"

definition read_socket_addr_v6 :: "socket_addr reader" where
  "read_socket_addr_v6 s =
     (case read_given_char (CHR ''['') s of
        None \<Rightarrow> None
      | Some (_, s) \<Rightarrow>
          (case read_ipv6_addr s of
             None \<Rightarrow> None
           | Some (ip, s) \<Rightarrow>
               let (scope, s) = (case read_scope_id s of None \<Rightarrow> (0, s) | Some r \<Rightarrow> r)
               in case read_given_char (CHR '']'') s of
                    None \<Rightarrow> None
                  | Some (_, s) \<Rightarrow> map_option (\<lambda>(port, s). (SocketV6 ip scope port, s)) (read_port s)))"

definition parse_socket_addr :: "string \<Rightarrow> socket_addr option" where
  "parse_socket_addr s =
     (case (case read_socket_addr_v4 s of Some r \<Rightarrow> Some r | None \<Rightarrow> read_socket_addr_v6 s) of
        Some (addr, []) \<Rightarrow> Some addr
      | _ \<Rightarrow> None)"

section \<open>Lemmas\<close>

text \<open>A number is a run of characters none of which is a separator.\<close>

lemma read_number_SomeD:
  assumes "read_number 10 largest m z s = Some (v, rest)"
  obtains ds where "s = ds @ rest" "CHR '':'' \<notin> set ds"
proof -
  let ?P = "\<lambda>c. to_digit 10 c \<noteq> None"
  from assms have "rest = dropWhile ?P s" by (auto simp: read_number_def Let_def split: if_splits)
  moreover have "CHR '':'' \<notin> set (takeWhile ?P s)"
    by (auto dest: set_takeWhileD simp: to_digit_def)
  ultimately show ?thesis by (intro that [of "takeWhile ?P s"]) simp_all
qed

lemma read_octets_SomeD: "read_octets i n s = Some (gs, rest) \<Longrightarrow> \<exists>ds. s = ds @ rest \<and> CHR '':'' \<notin> set ds"
proof (induction n arbitrary: i s gs)
  case 0
  then show ?case by simp
next
  case (Suc n)
  then obtain g s1 gs' where num: "read_separator (CHR ''.'') i (read_number 10 255 (Some 3) False) s = Some (g, s1)"
    and rest: "read_octets (Suc i) n s1 = Some (gs', rest)"
    by (auto split: option.splits)
  from num obtain ds where "s = ds @ s1" "CHR '':'' \<notin> set ds"
    by (auto simp: read_separator_def read_given_char_def split: if_splits list.splits
        elim!: read_number_SomeD)
  moreover from Suc.IH [OF rest] obtain ds' where "s1 = ds' @ rest" "CHR '':'' \<notin> set ds'" by blast
  ultimately show ?case by (intro exI [of _ "ds @ ds'"]) auto
qed

lemma read_port_SomeD:
  "read_port s = Some (p, []) \<Longrightarrow> \<exists>ds. s = CHR '':'' # ds \<and> CHR '':'' \<notin> set ds"
  by (auto simp: read_port_def read_given_char_def split: option.splits list.splits if_splits elim!: read_number_SomeD)

text \<open>An address that parses has one colon, or starts with a bracket.\<close>

lemma parse_socket_addr_SomeD:
  assumes "parse_socket_addr s = Some a"
  shows "(\<exists>ip port. s = ip @ CHR '':'' # port \<and> CHR '':'' \<notin> set ip \<union> set port) \<or> (\<exists>t. s = CHR ''['' # t)"
proof (cases "read_socket_addr_v4 s")
  case None
  with assms show ?thesis
    by (auto simp: parse_socket_addr_def read_socket_addr_v6_def read_given_char_def
        split: option.splits list.splits if_splits)
next
  case (Some r)
  with assms obtain ip p t where "read_ipv4_addr s = Some (ip, t)" "read_port t = Some (p, [])"
    by (auto simp: parse_socket_addr_def read_socket_addr_v4_def split: option.splits list.splits)
  with read_octets_SomeD [of 0 4 s ip t] read_port_SomeD [of t p] show ?thesis
    by (auto simp: read_ipv4_addr_def)
qed

text \<open>Decimal text is read back.\<close>

lemma to_digit_digit_char: "d < 10 \<Longrightarrow> to_digit 10 (digit_char d) = Some d"
  by (simp add: to_digit_def digit_char_def)

lemma digits_value_snoc:
  "digits_value radix (ds @ [c]) = digits_value radix ds * radix + (case to_digit radix c of None \<Rightarrow> 0 | Some d \<Rightarrow> d)"
  by (simp add: digits_value_def)

lemma digits_show_nat: "digits_value 10 (show_nat n) = n \<and> (\<forall>c \<in> set (show_nat n). to_digit 10 c \<noteq> None)"
proof (induction n rule: show_nat.induct)
  case (1 n)
  show ?case
  proof (cases "n < 10")
    case True
    then show ?thesis by (simp add: show_nat.simps [of n] to_digit_digit_char digits_value_def)
  next
    case False
    with 1 show ?thesis by (auto simp: show_nat.simps [of n] to_digit_digit_char digits_value_snoc)
  qed
qed

lemma read_number_show_nat:
  assumes "n \<le> largest"
  shows "read_number 10 largest None True (show_nat n) = Some (n, [])"
proof -
  have all: "takeWhile (\<lambda>c. to_digit 10 c \<noteq> None) (show_nat n) = show_nat n"
    "dropWhile (\<lambda>c. to_digit 10 c \<noteq> None) (show_nat n) = []"
    using digits_show_nat [of n] by (auto simp: takeWhile_eq_all_conv dropWhile_eq_Nil_conv)
  have "digits_value 10 (show_nat n) = n" using digits_show_nat [of n] by blast
  with assms show ?thesis unfolding read_number_def all Let_def by simp
qed

lemma to_digit_separators: "to_digit 10 (CHR ''.'') = None" "to_digit 10 (CHR '':'') = None" "to_digit 10 (CHR ''0'') = Some 0"
  by (simp_all add: to_digit_def)

lemma parse_any_v4:
  assumes "n \<le> 65535"
  shows "parse_socket_addr (''0.0.0.0:'' @ show_nat n) = Some (SocketV4 [0, 0, 0, 0] n)"
proof -
  have four: "(4 :: nat) = Suc (Suc (Suc (Suc 0)))" by simp
  have zero: "read_number 10 255 (Some 3) False (CHR ''0'' # c # s) = Some (0, c # s)" if "to_digit 10 c = None" for c s
    using that by (simp add: read_number_def to_digit_separators digits_value_def)
  have "read_ipv4_addr (''0.0.0.0:'' @ show_nat n) = Some ([0, 0, 0, 0], CHR '':'' # show_nat n)"
    unfolding read_ipv4_addr_def four
    by (simp add: read_separator_def read_given_char_def zero to_digit_separators)
  moreover have "read_port (CHR '':'' # show_nat n) = Some (n, [])"
    by (simp add: read_port_def read_given_char_def read_number_show_nat [OF assms])
  ultimately show ?thesis by (simp add: parse_socket_addr_def read_socket_addr_v4_def)
qed

end
