(* ===== verification/Startup.thy ===== *)
theory Startup
  imports App_State Socket_Addr
begin

text \<open>
  \<^verbatim>\<open>src/main.rs\<close> and \<^verbatim>\<open>src/pii.rs\<close>: the key file, the routes and the path they hang under, the
  cross-origin rule, the bind address, and the redaction of room names in logs. Reading a file,
  connecting to Redis, parsing a header value and the hash of a room name are parameters. A
  process that exits or panics is a value of \<open>exit\<close>.

  What happens once the server listens, signals and shutdown included, is theory \<open>Lifecycle\<close>, the request
  log is \<open>Request_Log\<close>. The metrics recorder is not modelled.
\<close>

section \<open>The code\<close>

datatype exit = EmptyKeyFile | UnreadableKeyFile | NoRedis | WildcardOrigin | InvalidAddress

definition load_config :: "(string \<Rightarrow> string + string) \<Rightarrow> config \<Rightarrow> exit + config" where
  "load_config read_file c =
     (case cfg_key_file c of
        None \<Rightarrow> Inr c
      | Some path \<Rightarrow>
          (case read_file path of
             Inr key \<Rightarrow>
               let key = trim_end key
               in if key = [] then Inl EmptyKeyFile else Inr (c\<lparr>cfg_key := key\<rparr>)
           | Inl e \<Rightarrow> Inl UnreadableKeyFile))"

definition normalize_path :: "string \<Rightarrow> string" where
  "normalize_path path =
     (let p = (if starts_with path ''/'' then path else ''/'' @ path)
      in if 1 < length p \<and> ends_with p ''/'' then take (length p - 1) p
         else if p = ''/'' then []
         else p)"

datatype http_method = GET | POST | DELETE | OPTIONS

datatype handler =
    Health | Metrics | Root | GetId | GetPeers | TurnCredentials | WsUpgrade | SseHandler | SendHandler | PollHandler
  | AdminCreateTenant | AdminListTenants | AdminRemoveTenant | AdminRotateJwtSecret
  | Login | RequestMagicLink | ExchangeMagic | MeHandler | RotateKey

type_synonym route = "http_method \<times> string \<times> handler"

definition admin_router :: "route list" where
  "admin_router =
     [(POST, ''/admin/tenants'', AdminCreateTenant), (GET, ''/admin/tenants'', AdminListTenants),
      (DELETE, ''/admin/tenants/:id'', AdminRemoveTenant),
      (POST, ''/admin/tenants/:id/rotate-jwt-secret'', AdminRotateJwtSecret)]"

definition customer_router :: "route list" where
  "customer_router =
     [(POST, ''/auth/login'', Login), (POST, ''/auth/request'', RequestMagicLink), (POST, ''/auth/magic'', ExchangeMagic),
      (GET, ''/me'', MeHandler), (POST, ''/me/rotate-key'', RotateKey)]"

definition routes :: "config \<Rightarrow> route list" where
  "routes c =
     (let base = normalize_path (cfg_path c)
      in [(GET, ''/health'', Health), (GET, ''/metrics'', Metrics), (GET, base @ ''/'', Root),
          (GET, base @ ''/:key/id'', GetId), (GET, base @ ''/:key/peers'', GetPeers),
          (GET, base @ ''/:key/turn-credentials'', TurnCredentials), (GET, base @ ''/dendri'', WsUpgrade),
          (GET, base @ ''/http/sse'', SseHandler), (POST, base @ ''/http/send'', SendHandler),
          (GET, base @ ''/http/poll'', PollHandler)] @
         (if cfg_admin_token c \<noteq> None then admin_router @ customer_router else []))"

text \<open>The limit of the body of a posted message, from the route's layer.\<close>

definition send_body_limit :: "config \<Rightarrow> usize" where
  "send_body_limit c = cfg_max_message_size c"

text \<open>
  The cross-origin rule. \<open>parse_header\<close> parses a header value; \<^verbatim>\<open>AllowOrigin::list\<close> panics on
  a wildcard.
\<close>

record cors =
  c_origin :: "string \<Rightarrow> bool"
  c_methods :: "http_method list"
  c_headers :: "string list"
  c_credentials :: bool
  c_max_age :: duration

definition cors_with :: "(string \<Rightarrow> bool) \<Rightarrow> cors" where
  "cors_with allow_origin =
     \<lparr>c_origin = allow_origin, c_methods = [GET, POST, OPTIONS],
      c_headers = [''content-type'', ''authorization'', ''accept''], c_credentials = True,
      c_max_age = 3600 * 1000000000\<rparr>"

definition build_cors :: "(string \<Rightarrow> string option) \<Rightarrow> string list \<Rightarrow> exit + cors" where
  "build_cors parse_header origins =
     (let explicit = List.map_filter parse_header origins
      in if explicit = [] then
           Inr (cors_with (\<lambda>s. ends_with s ''.dendri.dev'' \<or> s = ''https://dendri.dev'' \<or> s = ''http://localhost:5173''))
         else if ''*'' \<in> set explicit then Inl WildcardOrigin
         else Inr (cors_with (\<lambda>s. s \<in> set explicit)))"

text \<open>What a browser asks before it sends a request of another origin.\<close>

definition cross_origin_allowed :: "cors \<Rightarrow> string \<Rightarrow> http_method \<Rightarrow> string list \<Rightarrow> bool" where
  "cross_origin_allowed cr origin meth headers \<longleftrightarrow>
     c_origin cr origin \<and> meth \<in> set (c_methods cr) \<and> set headers \<subseteq> set (c_headers cr)"

definition bind_addr :: "string \<Rightarrow> 16 word \<Rightarrow> exit + socket_addr" where
  "bind_addr host port =
     (case parse_socket_addr (host @ '':'' @ show_nat (unat port)) of
        Some addr \<Rightarrow> Inr addr
      | None \<Rightarrow>
          (case parse_socket_addr (''0.0.0.0:'' @ show_nat (unat port)) of
             Some addr \<Rightarrow> Inr addr
           | None \<Rightarrow> Inl InvalidAddress))"

text \<open>Whether every response carries the HSTS header, the layer that adds it, and whether TLS is served.\<close>

definition hsts_active :: "config \<Rightarrow> bool" where
  "hsts_active c \<longleftrightarrow> cfg_sslkey c \<noteq> None"

definition add_hsts :: "config \<Rightarrow> (string, string) dashmap \<Rightarrow> (string, string) dashmap" where
  "add_hsts c headers =
     (if hsts_active c then dm_insert ''strict-transport-security'' ''max-age=31536000; includeSubDomains'' headers
      else headers)"

definition serves_tls :: "config \<Rightarrow> bool" where
  "serves_tls c \<longleftrightarrow> (case (cfg_sslkey c, cfg_sslcert c) of (Some _, Some _) \<Rightarrow> True | _ \<Rightarrow> False)"

text \<open>Up to the moment the server listens: the state, the routes, the origin rule and the address.\<close>

definition start_server ::
  "('r, 'g, 'v) ext \<Rightarrow> (string \<Rightarrow> string + string) \<Rightarrow> (string \<Rightarrow> 'r redis_result) \<Rightarrow> (string \<Rightarrow> string option) \<Rightarrow>
     config \<Rightarrow> exit + ('r, 'g, 'v) app_state \<times> route list \<times> cors \<times> socket_addr" where
  "start_server X read_file connect parse_header parsed =
     (case load_config read_file parsed of
        Inl e \<Rightarrow> Inl e
      | Inr c \<Rightarrow>
          (case app_state_new X connect c of
             Inl e \<Rightarrow> Inl NoRedis
           | Inr st \<Rightarrow>
               (case build_cors parse_header (cfg_cors (config st)) of
                  Inl e \<Rightarrow> Inl e
                | Inr allowed \<Rightarrow>
                    (case bind_addr (cfg_host c) (cfg_port c) of
                       Inl e \<Rightarrow> Inl e
                     | Inr addr \<Rightarrow> Inr (st, routes (config st), allowed, addr)))))"

text \<open>\<open>hash64\<close> is the 64-bit hash of a text; \<^verbatim>\<open>{:08x}\<close> pads to eight digits.\<close>

fun show_hex :: "nat \<Rightarrow> string" where
  "show_hex n = (if n < 16 then [hex_digit n] else show_hex (n div 16) @ [hex_digit (n mod 16)])"

declare show_hex.simps [simp del]

definition redact_room :: "(string \<Rightarrow> u64) \<Rightarrow> string option \<Rightarrow> string \<Rightarrow> string" where
  "redact_room hash64 log_pii name =
     (if log_pii = Some ''true'' then name
      else let hex = show_hex (unat (hash64 name))
           in ''room:'' @ replicate (8 - length hex) (CHR ''0'') @ hex)"

section \<open>Lemmas\<close>

lemma ends_with_iff: "ends_with s p \<longleftrightarrow> (\<exists>a. s = a @ p)"
proof
  assume "ends_with s p"
  then have "s = take (length s - length p) s @ p" by (metis append_take_drop_id ends_with_def)
  then show "\<exists>a. s = a @ p" by blast
qed (auto simp: ends_with_def)

text \<open>The path with the given segments, each after a slash.\<close>

definition under :: "string list \<Rightarrow> string" where
  "under segs = concat (map (\<lambda>s. CHR ''/'' # s) segs)"

definition segments_ok :: "string list \<Rightarrow> bool" where
  "segments_ok segs \<longleftrightarrow> list_all (\<lambda>s. s \<noteq> [] \<and> CHR ''/'' \<notin> set s) segs"

lemma under_last: "segments_ok segs \<Longrightarrow> segs \<noteq> [] \<Longrightarrow> \<exists>q z. under segs = CHR ''/'' # q @ [z] \<and> z \<noteq> CHR ''/''"
proof (induction segs rule: rev_induct)
  case (snoc s segs)
  then obtain s' z where s: "s = s' @ [z]" "z \<noteq> CHR ''/''" by (cases s rule: rev_cases) (auto simp: segments_ok_def)
  show ?case
  proof (cases segs)
    case Nil
    with s show ?thesis by (simp add: under_def)
  next
    case (Cons t ts)
    with s show ?thesis by (simp add: under_def)
  qed
qed simp

lemma normalize_path_under:
  assumes "segments_ok segs" "p \<in> {under segs, under segs @ ''/'', tl (under segs), tl (under segs) @ ''/''}"
  shows "normalize_path p = under segs"
proof (cases segs)
  case Nil
  with assms(2) show ?thesis by (auto simp: under_def normalize_path_def starts_with_def ends_with_def)
next
  case (Cons s ss)
  then obtain a s' where s: "s = a # s'" "a \<noteq> CHR ''/''" using assms(1) by (cases s) (auto simp: segments_ok_def)
  obtain q z where z: "under segs = CHR ''/'' # q @ [z]" "z \<noteq> CHR ''/''" using under_last [OF assms(1)] Cons by auto
  define w where "w = tl (under segs)"
  have w: "under segs = CHR ''/'' # w" "w = q @ [z]" "w = a # s' @ under ss"
    using z(1) s(1) Cons by (simp_all add: w_def under_def)
  have "(if starts_with p ''/'' then p else ''/'' @ p) \<in> {CHR ''/'' # w, CHR ''/'' # w @ ''/''}"
    using assms(2) s(2) unfolding w(1) by (auto simp: starts_with_def w(3))
  moreover have "\<not> ends_with (CHR ''/'' # w) ''/''" using z(2) by (auto simp: w(2) ends_with_iff)
  moreover have "ends_with (CHR ''/'' # w @ ''/'') ''/''" by (simp add: ends_with_iff)
  ultimately show ?thesis by (auto simp: normalize_path_def Let_def w(1) w(3))
qed

text \<open>Only one trailing slash goes away.\<close>

lemma double_slash_prefix: "cfg_path c = ''//'' \<Longrightarrow> (GET, ''//dendri'', WsUpgrade) \<in> set (routes c)"
  by (simp add: routes_def normalize_path_def starts_with_def ends_with_def Let_def)

text \<open>The base can only be cancelled against itself: what follows it differs from every fixed path.\<close>

lemma path_suffix: "b @ x = y \<Longrightarrow> drop (length y - length x) y = x"
  by auto

definition lower_hex :: "char \<Rightarrow> bool" where
  "lower_hex c \<longleftrightarrow> (of_char c :: nat) \<in> {48..57} \<union> {97..102}"

lemma hex_digits: "list_all lower_hex (show_hex n)"
proof (induction n rule: show_hex.induct)
  case (1 n)
  have "lower_hex (hex_digit d)" if "d < 16" for d
    using that by (simp add: lower_hex_def of_char_hex_digit)
  with 1 show ?case by (cases "n < 16") (simp_all add: show_hex.simps [of n])
qed

lemma length_show_hex: "n < 16 ^ k \<Longrightarrow> 0 < k \<Longrightarrow> length (show_hex n) \<le> k"
proof (induction n arbitrary: k rule: show_hex.induct)
  case (1 n)
  show ?case
  proof (cases "n < 16")
    case True
    with "1.prems" show ?thesis by (simp add: show_hex.simps [of n])
  next
    case False
    then obtain j where j: "k = Suc j" "0 < j" using "1.prems" by (cases k; cases "k - 1") auto
    with "1.prems"(1) have "n div 16 < 16 ^ j" by (simp add: less_mult_imp_div_less mult.commute)
    with "1.IH" [OF False, of j] j False show ?thesis by (simp add: show_hex.simps [of n])
  qed
qed

text \<open>Unless the operator opts in, a log line has eight to sixteen hexadecimal digits in place of a room name.\<close>

lemma redacted_room_shape:
  assumes "log_pii \<noteq> Some ''true''"
  obtains digits where "redact_room hash64 log_pii name = ''room:'' @ digits"
    "list_all lower_hex digits" "8 \<le> length digits" "length digits \<le> 16"
proof -
  let ?hex = "show_hex (unat (hash64 name))"
  have "unat (hash64 name) < 16 ^ 16" using unsigned_less [of "hash64 name", where 'a = nat] by simp
  then have "length ?hex \<le> 16" by (rule length_show_hex) simp
  with assms hex_digits [of "unat (hash64 name)"] show ?thesis
    by (intro that [of "replicate (8 - length ?hex) (CHR ''0'') @ ?hex"])
      (auto simp: redact_room_def Let_def list_all_iff lower_hex_def)
qed

lemma bind_addr_colon:
  assumes "CHR '':'' \<in> set host" "hd host \<noteq> CHR ''[''"
  shows "bind_addr host port = Inr (SocketV4 [0, 0, 0, 0] (unat port))"
proof -
  let ?s = "host @ '':'' @ show_nat (unat port)"
  have "\<not> (\<exists>t. ?s = CHR ''['' # t)" using assms by (cases host) auto
  moreover have "\<not> (\<exists>ip p. ?s = ip @ CHR '':'' # p \<and> CHR '':'' \<notin> set ip \<union> set p)"
  proof (intro notI, elim exE conjE)
    fix ip p
    assume "?s = ip @ CHR '':'' # p" and no: "CHR '':'' \<notin> set ip \<union> set p"
    then have "count_list ?s (CHR '':'') = count_list (ip @ CHR '':'' # p) (CHR '':'')" by simp
    moreover have "count_list host (CHR '':'') \<noteq> 0" using assms(1) by (simp add: count_list_0_iff)
    moreover have "count_list ip (CHR '':'') = 0" "count_list p (CHR '':'') = 0" using no by (simp_all add: count_list_0_iff)
    ultimately show False by simp
  qed
  ultimately have "parse_socket_addr ?s = None" using parse_socket_addr_SomeD [of ?s] by (cases "parse_socket_addr ?s") blast+
  moreover have "unat port \<le> 65535" using unsigned_less [of port, where 'a = nat] by simp
  ultimately show ?thesis using parse_any_v4 by (simp add: bind_addr_def)
qed

section \<open>Properties\<close>

text \<open>
  The routing table. A base path with the given segments, written with or without a slash before and after it,
  puts every route of a client exactly under those segments, with no empty segment in between; without segments
  the routes hang under the root. The health check and the metrics keep their fixed paths, and the routes of the
  operator and the customers exist exactly if an admin token is set.
\<close>

theorem routing_table:
  assumes "segments_ok segs" "cfg_path c \<in> {under segs, under segs @ ''/'', tl (under segs), tl (under segs) @ ''/''}"
  shows "routes c =
    [(GET, ''/health'', Health), (GET, ''/metrics'', Metrics), (GET, under (segs @ [[]]), Root),
     (GET, under (segs @ ['':key'', ''id'']), GetId), (GET, under (segs @ ['':key'', ''peers'']), GetPeers),
     (GET, under (segs @ ['':key'', ''turn-credentials'']), TurnCredentials), (GET, under (segs @ [''dendri'']), WsUpgrade),
     (GET, under (segs @ [''http'', ''sse'']), SseHandler), (POST, under (segs @ [''http'', ''send'']), SendHandler),
     (GET, under (segs @ [''http'', ''poll'']), PollHandler)] @
    (if cfg_admin_token c \<noteq> None then admin_router @ customer_router else [])"
  using normalize_path_under [OF assms] by (simp add: routes_def under_def Let_def)

theorem routing_table_witness:
  "(GET, ''/app/v1/dendri'', WsUpgrade) \<in> set (routes (default_config\<lparr>cfg_path := ''app/v1/''\<rparr>))"
  using routing_table [of "[''app'', ''v1'']" "default_config\<lparr>cfg_path := ''app/v1/''\<rparr>"]
  by (simp add: segments_ok_def under_def)

text \<open>No two routes have the same method and path, whatever the base path.\<close>

theorem routes_distinct: "distinct (map (\<lambda>(meth, path, h). (meth, path)) (routes c))"
proof -
  let ?b = "normalize_path (cfg_path c)"
  have base: "?b @ x \<noteq> y" if "drop (length y - length x) y \<noteq> x" for x y
    using that path_suffix by blast
  show ?thesis
    by (cases "cfg_admin_token c")
      (simp_all add: routes_def admin_router_def customer_router_def Let_def base base [symmetric])
qed

text \<open>
  A key file decides the key or stops the server: with one configured, the server that starts has
  the file's text without trailing white space as its key, whatever key was given otherwise; it does
  not start where the file cannot be read or is blank, and so never runs with an empty key.
\<close>

theorem key_file_decides:
  assumes "cfg_key_file c = Some path"
  shows "case read_file path of
      Inl e \<Rightarrow> start_server X read_file connect parse_header c = Inl UnreadableKeyFile
    | Inr contents \<Rightarrow>
        if trim_end contents = [] then start_server X read_file connect parse_header c = Inl EmptyKeyFile
        else (\<forall>st rs allowed addr. start_server X read_file connect parse_header c = Inr (st, rs, allowed, addr) \<longrightarrow>
          cfg_key (config st) = trim_end contents \<and> rs = routes c)"
proof (cases "read_file path")
  case (Inl e)
  with assms show ?thesis by (simp add: start_server_def load_config_def)
next
  case (Inr contents)
  have "routes (c\<lparr>cfg_key := k\<rparr>) = routes c" for k by (simp add: routes_def)
  with Inr assms show ?thesis
    by (auto simp: start_server_def load_config_def app_state_new_def Let_def split: sum.splits)
qed

theorem key_file_decides_witness:
  "\<exists>st rs allowed addr. start_server demo_ext (\<lambda>path. Inr ''k7 '') (\<lambda>url. Inr mem_empty) Some
      (default_config\<lparr>cfg_key_file := Some ''/run/key''\<rparr>) = Inr (st, rs, allowed, addr) \<and> cfg_key (config st) = ''k7''"
proof -
  let ?c = "default_config\<lparr>cfg_key_file := Some ''/run/key''\<rparr>"
  have trim: "trim_end ''k7 '' = ''k7''" by code_simp
  have "bind_addr ''::'' p = Inr (SocketV4 [0, 0, 0, 0] (unat p))" for p by (rule bind_addr_colon) simp_all
  then obtain st rs allowed addr where start: "start_server demo_ext (\<lambda>path. Inr ''k7 '') (\<lambda>url. Inr mem_empty) Some ?c =
      Inr (st, rs, allowed, addr)"
    by (simp add: start_server_def load_config_def trim app_state_new_def build_cors_def default_config_def Let_def)
  have "cfg_key_file ?c = Some ''/run/key''" by simp
  from key_file_decides [OF this, where read_file = "\<lambda>path. Inr ''k7 ''" and X = demo_ext
      and connect = "\<lambda>url. Inr mem_empty" and parse_header = Some] start trim
  show ?thesis by simp
qed

text \<open>
  An IPv6 host is not what the server binds to: for every host that contains a colon and is not
  written in brackets, the default included, the address does not parse and the server listens on
  the port on all IPv4 interfaces instead.
\<close>

theorem ipv6_host_binds_all_ipv4:
  assumes "CHR '':'' \<in> set host" "hd host \<noteq> CHR ''[''"
  shows "bind_addr host port = Inr (SocketV4 [0, 0, 0, 0] (unat port))"
  by (rule bind_addr_colon [OF assms])

theorem ipv6_host_binds_all_ipv4_witness:
  "bind_addr (cfg_host default_config) (cfg_port default_config) = Inr (SocketV4 [0, 0, 0, 0] 9000) \<and>
   bind_addr ''::1'' 9000 = Inr (SocketV4 [0, 0, 0, 0] 9000)"
proof (rule conjI)
  have "cfg_host default_config = ''::''" "cfg_port default_config = 9000" by (simp_all add: default_config_def)
  then show "bind_addr (cfg_host default_config) (cfg_port default_config) = Inr (SocketV4 [0, 0, 0, 0] 9000)"
    using ipv6_host_binds_all_ipv4 [of "''::''" 9000] by simp
  show "bind_addr ''::1'' 9000 = Inr (SocketV4 [0, 0, 0, 0] 9000)"
    using ipv6_host_binds_all_ipv4 [of "''::1''" 9000] by simp
qed

text \<open>
  Pages of an allowed origin can call every route of the server with the headers the API uses,
  credentials included, but for the removal of a tenant, whose method the cross-origin rule leaves out.
\<close>

theorem cross_origin_routes:
  assumes "build_cors parse_header origins = Inr cr" "c_origin cr origin" "(meth, path, h) \<in> set (routes c)"
  shows "cross_origin_allowed cr origin meth [''content-type'', ''authorization''] \<longleftrightarrow> h \<noteq> AdminRemoveTenant"
proof -
  obtain f where "cr = cors_with f" using assms(1) by (auto simp: build_cors_def Let_def split: if_splits)
  moreover have "meth = DELETE \<longleftrightarrow> h = AdminRemoveTenant" "meth \<in> {GET, POST, DELETE}"
    using assms(3) by (auto simp: routes_def admin_router_def customer_router_def Let_def split: if_splits)
  ultimately show ?thesis using assms(2) by (auto simp: cross_origin_allowed_def cors_with_def)
qed

theorem cross_origin_routes_witness:
  "cross_origin_allowed (projr (build_cors Some [])) ''https://chat.dendri.dev'' GET [''content-type'', ''authorization'']"
proof -
  obtain cr where cr: "build_cors Some [] = Inr cr" by (simp add: build_cors_def)
  have "ends_with ''https://chat.dendri.dev'' ''.dendri.dev''" by code_simp
  then have "c_origin cr ''https://chat.dendri.dev''"
    using cr by (auto simp: build_cors_def cors_with_def map_filter_simps)
  moreover have "(GET, ''/health'', Health) \<in> set (routes default_config)" by (simp add: routes_def Let_def)
  ultimately show ?thesis using cross_origin_routes [OF cr] cr by fastforce
qed

text \<open>
  The HSTS header does not follow TLS: with a key file and no certificate the server speaks plain HTTP
  and still adds the header to every response; with both, every TLS response has it.
\<close>

theorem hsts_follows_key_not_tls:
  "(serves_tls c \<longrightarrow> dm_get (add_hsts c hs) ''strict-transport-security'' \<noteq> None) \<and>
   (cfg_sslkey c \<noteq> None \<longrightarrow> cfg_sslcert c = None \<longrightarrow>
      \<not> serves_tls c \<and> dm_get (add_hsts c hs) ''strict-transport-security'' = Some ''max-age=31536000; includeSubDomains'')"
  by (auto simp: serves_tls_def add_hsts_def hsts_active_def split: option.splits)

theorem hsts_follows_key_not_tls_witness:
  "let c = default_config\<lparr>cfg_sslkey := Some ''key.pem''\<rparr>
   in \<not> serves_tls c \<and> dm_get (add_hsts c []) ''strict-transport-security'' = Some ''max-age=31536000; includeSubDomains''"
  using hsts_follows_key_not_tls [of "default_config\<lparr>cfg_sslkey := Some ''key.pem''\<rparr>" "[]"]
  by (simp add: default_config_def)

end
