(* ===== verification/Server.thy ===== *)
theory Server
  imports Services Connection_Slots Http_Handler Customer Api Startup
begin

text \<open>
  The running server as a state machine: the shared state, the open WebSocket connections, the open
  event streams, the watchdogs of event streams and the receivers of polling clients, each a client
  with the number of its channel, and the tick of the eviction task. A step is one request, one frame
  read, one close, one action of a writer task or stream, or one turn of a background task; handlers
  are atomic. \<open>server_ok\<close> is the invariant of the reachable states.

  A watchdog outlives its stream and a polling receiver its request, which is why they are kept
  apart: the sender that a watchdog holds keeps the stream from ending by itself.
\<close>

record ('r, 'g, 'v) server =
  app :: "('r, 'g, 'v) app_state"
  sockets :: "(string \<times> nat) list"
  streams :: "(string \<times> nat) list"
  watchdogs :: "(string \<times> nat) list"
  pollers :: "(string \<times> nat) list"
  tick :: u64

definition server_new :: "('r, 'g, 'v) app_state \<Rightarrow> ('r, 'g, 'v) server" where
  "server_new st = \<lparr>app = st, sockets = [], streams = [], watchdogs = [], pollers = [], tick = 0\<rparr>"

text \<open>The frame at the head of a channel goes out.\<close>

definition chan_take :: "nat \<Rightarrow> ('r, 'g, 'v) app_state \<Rightarrow> ('r, 'g, 'v) app_state" where
  "chan_take tx st = st\<lparr>chans := (chans st)(tx := (chans st tx)\<lparr>ch_queue := tl (ch_queue (chans st tx))\<rparr>)\<rparr>"

text \<open>
  The steps by who takes them: a request being answered, the tasks that a request has left behind
  (a socket, an event stream and its watchdog, a receiver, an email), a background task.
\<close>

datatype task = CheckBroken | MessagesExpire | ReplayEvict | SyncRedis

datatype action = Request | Connection | Background task

inductive server_act :: "action \<Rightarrow> ('r, 'g, 'v) server \<Rightarrow> ('r, 'g, 'v) server \<Rightarrow> bool" where
  connect: "handle_socket X q (app s) = (Connected tx, st') \<Longrightarrow> q_id q = Some c \<Longrightarrow>
    server_act Request s (s\<lparr>app := st', sockets := (c, tx) # sockets s\<rparr>)"
| refuse: "handle_socket X q (app s) = (Refused m, st') \<Longrightarrow> server_act Request s (s\<lparr>app := st'\<rparr>)"
| receive: "(c, tx) \<in> set (sockets s) \<Longrightarrow> server_act Connection s (s\<lparr>app := ws_text X c tx inp (app s)\<rparr>)"
| close: "(c, tx) \<in> set (sockets s) \<Longrightarrow>
    server_act Connection s (s\<lparr>app := ws_close X c tx (app s), sockets := removeAll (c, tx) (sockets s)\<rparr>)"
| writer_ends: "(c, tx) \<in> set (sockets s) \<Longrightarrow> server_act Connection s (s\<lparr>app := chan_close tx (app s)\<rparr>)"
| frame_out: "(c, tx) \<in> set (sockets s) \<union> set (streams s) \<Longrightarrow> server_act Connection s (s\<lparr>app := chan_take tx (app s)\<rparr>)"
| sse_connect: "sse_handler X h (app s) = (Inr tx, st') \<Longrightarrow>
    server_act Request s (s\<lparr>app := st', streams := (hq_id h, tx) # streams s, watchdogs := (hq_id h, tx) # watchdogs s\<rparr>)"
| sse_refuse: "sse_handler X h (app s) = (Inl e, st') \<Longrightarrow> server_act Request s (s\<lparr>app := st'\<rparr>)"
| sse_disconnect: "(c, tx) \<in> set (streams s) \<Longrightarrow>
    server_act Connection s (s\<lparr>app := chan_close tx (app s), streams := removeAll (c, tx) (streams s)\<rparr>)"
| sse_watch: "(c, tx) \<in> set (watchdogs s) \<Longrightarrow> sse_watchdog X c tx (app s) = (goes_on, st') \<Longrightarrow>
    server_act Connection s (s\<lparr>app := st', watchdogs := if goes_on then watchdogs s else removeAll (c, tx) (watchdogs s)\<rparr>)"
| sse_end: "(c, tx) \<in> set (streams s) \<Longrightarrow> (c, tx) \<notin> set (watchdogs s) \<Longrightarrow>
    \<forall>d. dm_get (ws_senders (app s)) d \<noteq> Some tx \<Longrightarrow> ch_queue (chans (app s) tx) = [] \<Longrightarrow>
    server_act Connection s (s\<lparr>app := sse_stream_end X c tx (app s), streams := removeAll (c, tx) (streams s)\<rparr>)"
| http_send: "send_handler X fv h body (app s) = (resp, st') \<Longrightarrow> server_act Request s (s\<lparr>app := st'\<rparr>)"
| poll_begin: "poll_handler X h (app s) = (Inr rx, st') \<Longrightarrow>
    server_act Request s (s\<lparr>app := st', pollers := (hq_id h, rx) # pollers s\<rparr>)"
| poll_refuse: "poll_handler X h (app s) = (Inl e, st') \<Longrightarrow> server_act Request s (s\<lparr>app := st'\<rparr>)"
| poll_answer: "(c, rx) \<in> set (pollers s) \<Longrightarrow> collect_poll_messages_shared rx (app s) = (msgs, st') \<Longrightarrow>
    server_act Request s (s\<lparr>app := st'\<rparr>)"
| receiver_dropped: "(c, rx) \<in> set (pollers s) \<Longrightarrow> \<forall>d. dm_get (polling_receivers (app s)) d \<noteq> Some rx \<Longrightarrow>
    server_act Connection s (s\<lparr>app := chan_close rx (app s)\<rparr>)"
| admin_create: "admin_create_tenant X u u' a req (app s) = (aresp, st') \<Longrightarrow> server_act Request s (s\<lparr>app := st'\<rparr>)"
| admin_remove: "admin_remove_tenant X a tid (app s) = (aresp, st') \<Longrightarrow> server_act Request s (s\<lparr>app := st'\<rparr>)"
| admin_rotate: "admin_rotate_jwt_secret X u a tid (app s) = (aresp, st') \<Longrightarrow> server_act Request s (s\<lparr>app := st'\<rparr>)"
| customer_login: "login X J clock k (app s) = (cresp, st') \<Longrightarrow> server_act Request s (s\<lparr>app := st'\<rparr>)"
| customer_rotate: "rotate_key X J clock u a (app s) = (cresp, st') \<Longrightarrow> server_act Request s (s\<lparr>app := st'\<rparr>)"
| mail_task: "run_mail_task nx now task (redis (app s)) = (mail, r) \<Longrightarrow> server_act Connection s (s\<lparr>app := (app s)\<lparr>redis := r\<rparr>\<rparr>)"
| check_broken: "check_broken_tick X (tick s) (app s) = (t, st') \<Longrightarrow> server_act (Background CheckBroken) s (s\<lparr>app := st', tick := t\<rparr>)"
| expire: "server_act (Background MessagesExpire) s (s\<lparr>app := messages_expire_tick X (app s)\<rparr>)"
| replay_evict: "server_act (Background ReplayEvict) s (s\<lparr>app := replay_evict_tick X (app s)\<rparr>)"
| sync_redis: "server_act (Background SyncRedis) s (s\<lparr>app := sync_redis_tick X (app s)\<rparr>)"

inductive_cases server_actE: "server_act a s s'"

definition server_step :: "('r, 'g, 'v) server \<Rightarrow> ('r, 'g, 'v) server \<Rightarrow> bool" where
  "server_step s s' \<longleftrightarrow> (\<exists>a. server_act a s s')"

lemma server_stepI: "server_act a s s' \<Longrightarrow> server_step s s'"
  by (auto simp: server_step_def)

inductive server_reachable :: "('r, 'g, 'v) server \<Rightarrow> bool" where
  start: "start_server X read_file con parse_header cfg = Inr (st, rs, allowed, addr) \<Longrightarrow> server_reachable (server_new st)"
| step: "server_reachable s \<Longrightarrow> server_step s s' \<Longrightarrow> server_reachable s'"

text \<open>
  Every sender the server holds belongs to a transport that is still looked after, and its client is
  registered; every polling receiver belongs to a polling client's channel.
\<close>

definition held :: "('r, 'g, 'v) server \<Rightarrow> (string \<times> nat) set" where
  "held s = set (sockets s) \<union> set (watchdogs s) \<union> set (pollers s)"

definition transports_ok :: "('r, 'g, 'v) server \<Rightarrow> bool" where
  "transports_ok s \<longleftrightarrow> dm_wf (ws_senders (app s)) \<and>
     (\<forall>c tx. dm_get (ws_senders (app s)) c = Some tx \<longrightarrow> (c, tx) \<in> held s \<and> dm_get (clients (app s)) c \<noteq> None) \<and>
     (\<forall>c rx. dm_get (polling_receivers (app s)) c = Some rx \<longrightarrow> (c, rx) \<in> set (pollers s))"

definition server_ok :: "('r, 'g, 'v) server \<Rightarrow> bool" where
  "server_ok s \<longleftrightarrow> rooms_ok (app s) \<and> senders_ok (app s) \<and> transports_ok s"

section \<open>Senders only go away\<close>

text \<open>
  An operation that adds no sender or receiver: after it a client has the sender it had before or
  none, a client that keeps its sender stays registered, and no channel number is handed out.
\<close>

definition no_new_sender :: "('r, 'g, 'v) app_state \<Rightarrow> ('r, 'g, 'v) app_state \<Rightarrow> bool" where
  "no_new_sender st st' \<longleftrightarrow> next_chan st' = next_chan st \<and> (dm_wf (ws_senders st) \<longrightarrow> dm_wf (ws_senders st')) \<and>
     (\<forall>c tx. dm_get (ws_senders st') c = Some tx \<longrightarrow> dm_get (ws_senders st) c = Some tx \<and>
        (dm_get (clients st) c \<noteq> None \<longrightarrow> dm_get (clients st') c \<noteq> None)) \<and>
     (\<forall>c rx. dm_get (polling_receivers st') c = Some rx \<longrightarrow> dm_get (polling_receivers st) c = Some rx)"

lemma no_new_senderI:
  assumes "ws_senders st' = ws_senders st" "next_chan st' = next_chan st" "polling_receivers st' = polling_receivers st"
    and "\<And>c. dm_get (clients st) c \<noteq> None \<Longrightarrow> dm_get (clients st') c \<noteq> None"
  shows "no_new_sender st st'"
  using assms by (simp add: no_new_sender_def)

lemma no_new_sender_eq:
  "ws_senders st' = ws_senders st \<Longrightarrow> next_chan st' = next_chan st \<Longrightarrow> polling_receivers st' = polling_receivers st \<Longrightarrow>
     clients st' = clients st \<Longrightarrow> no_new_sender st st'"
  by (rule no_new_senderI) simp_all

lemma no_new_sender_trans: "no_new_sender a b \<Longrightarrow> no_new_sender b c \<Longrightarrow> no_new_sender a c"
  unfolding no_new_sender_def by metis

lemma no_new_sender_transmission: "no_new_sender st (handle_transmission X msg st)"
  by (auto simp: no_new_sender_def handle_transmission_def chan_send_def remove_sender_def clients_drop Let_def
      split: option.splits if_splits)

lemma no_new_sender_activity: "no_new_sender st (note_activity X c st)"
  by (rule no_new_senderI) (simp_all add: note_activity_def split: option.split)

lemma no_new_sender_message: "no_new_sender st (handle_message X c msg st)"
proof -
  note act = no_new_sender_activity [of st X c]
  have "no_new_sender st (handle_transmission X m (note_activity X c st))" for m
    by (rule no_new_sender_trans [OF act no_new_sender_transmission])
  moreover have "no_new_sender st (handle_heartbeat X c st)"
    by (rule no_new_senderI) (simp_all add: handle_heartbeat_def split: option.split)
  moreover have "no_new_sender st (handle_data X c m (note_activity X c st))"
    "no_new_sender st (handle_room_join X c m (note_activity X c st))"
    "no_new_sender st (handle_room_leave X c m (note_activity X c st))"
    "no_new_sender st (handle_presence_update X c m (note_activity X c st))" for m
    by (rule no_new_sender_trans [OF act no_new_sender_eq]; simp)+
  ultimately show ?thesis
    using act by (simp add: handle_message_def Let_def split: MessageType.split)
qed

lemma no_new_sender_text: "no_new_sender st (ws_text X c tx inp st)"
proof -
  have "no_new_sender st (handle_message X c m (snd (rate_check X c t st)))" for m t
    by (rule no_new_sender_trans [OF no_new_sender_eq no_new_sender_message]) simp_all
  then show ?thesis
    by (simp add: ws_text_def case_prod_beta Let_def split: option.split) (simp add: no_new_sender_def)
qed

lemma no_new_sender_send: "no_new_sender st (snd (send_handler X fv q body st))"
proof (cases rule: send_handler_cases [of X fv q body st])
  case unknown
  then show ?thesis by (simp add: no_new_sender_eq)
next
  case (known m st1)
  have st1: "no_new_sender st st1" unfolding known(3) by (rule no_new_senderI) simp_all
  have rated: "no_new_sender st (snd (apply_rate_limit X c msg st1))" for c msg
    by (rule no_new_sender_trans [OF st1 no_new_sender_eq])
      (simp_all add: apply_rate_limit_eq case_prod_beta Let_def)
  show ?thesis
    using st1 no_new_sender_trans [OF rated no_new_sender_message] rated
    unfolding known(4) by (simp add: case_prod_beta split: option.split bool.split)
qed

lemma senders_wf_evict_all: "dm_wf (ws_senders st) \<Longrightarrow> dm_wf (ws_senders (fold (evict_client X) cs st))"
  by (rule fold_keeps) (simp_all add: evict_client_def remove_sender_def Let_def)

lemma no_new_sender_tick: "no_new_sender st (snd (check_broken_tick X t st))"
  unfolding no_new_sender_def check_broken_tick_def Let_def
  by (auto simp: senders_evict_all clients_evict_all senders_wf_evict_all split: if_splits)

lemma no_new_sender_cleanup:
  "no_new_sender st (cleanup_client X c st)" "no_new_sender st (ws_close X c tx st)"
  by (auto simp: no_new_sender_def cleanup_client_ws ws_close_def ws_cleanup_def remove_sender_def clients_drop Let_def
      split: if_splits)

lemma no_new_sender_background:
  "no_new_sender st (messages_expire_tick X st)" "no_new_sender st (replay_evict_tick X st)"
  "no_new_sender st (sync_redis_tick X st)"
  by (rule no_new_sender_eq; simp add: replay_evict_tick_def)+

lemma no_new_sender_chan:
  "no_new_sender st (chan_close tx st)" "no_new_sender st (chan_take tx st)"
  "no_new_sender st (snd (collect_poll_messages_shared tx st))"
  by (rule no_new_sender_eq;
      simp add: chan_close_def chan_take_def collect_poll_messages_shared_def case_prod_beta split: list.split)+

section \<open>The invariant\<close>

text \<open>A step that adds no sender keeps everything but what it says of rooms.\<close>

lemma transports_ok_no_new:
  "transports_ok s \<Longrightarrow> no_new_sender (app s) st' \<Longrightarrow> transports_ok (s\<lparr>app := st'\<rparr>)"
  unfolding transports_ok_def no_new_sender_def held_def by simp

lemma senders_ok_no_new: "senders_ok st \<Longrightarrow> no_new_sender st st' \<Longrightarrow> senders_ok st'"
  unfolding senders_ok_def no_new_sender_def by metis

lemma server_ok_quiet:
  assumes "server_ok s" "no_new_sender (app s) st'" "rooms_ok st'"
  shows "server_ok (s\<lparr>app := st'\<rparr>)"
  using assms by (simp add: server_ok_def senders_ok_no_new [of "app s"] transports_ok_no_new)

text \<open>Transports that come, and transports that go once nothing points at them.\<close>

lemma server_ok_more:
  assumes "server_ok s" "app s' = app s" "held s \<subseteq> held s'" "set (pollers s) \<subseteq> set (pollers s')"
  shows "server_ok s'"
  using assms unfolding server_ok_def transports_ok_def by auto

lemma server_ok_less:
  assumes "server_ok s" "app s' = app s" "pollers s' = pollers s"
    and "dm_get (ws_senders (app s)) c \<noteq> Some tx" "held s - {(c, tx)} \<subseteq> held s'"
  shows "server_ok s'"
proof -
  have "(d, t) \<in> held s'" if "dm_get (ws_senders (app s)) d = Some t" for d t
    using that assms(1,4,5) unfolding server_ok_def transports_ok_def by blast
  with assms(1-3) show ?thesis unfolding server_ok_def transports_ok_def by auto
qed

subsection \<open>Contracts of the steps\<close>

text \<open>An operation that adds no sender and keeps the rooms in order keeps the invariant.\<close>

locale quiet_op =
  fixes f :: "('r, 'g, 'v) app_state \<Rightarrow> ('r, 'g, 'v) app_state"
  assumes quiet: "no_new_sender st (f st)" and keeps_rooms: "rooms_ok st \<Longrightarrow> rooms_ok (f st)"
begin

lemma keeps_ok: "server_ok s \<Longrightarrow> server_ok (s\<lparr>app := f (app s)\<rparr>)"
  by (rule server_ok_quiet [OF _ quiet keeps_rooms]) (simp_all add: server_ok_def)

end

text \<open>An operation on the store and the cache of tenant lookups only.\<close>

locale store_op =
  fixes f :: "('r, 'g, 'v) app_state \<Rightarrow> ('r, 'g, 'v) app_state"
  assumes store_only: "\<exists>r c. f st = st\<lparr>redis := r, tenant_cache := c\<rparr>"
begin

lemma keeps_seq: "seq_counter (f st) = seq_counter st"
  using store_only [of st] by auto

end

sublocale store_op \<subseteq> quiet_op f
proof
  fix st
  obtain r c where f: "f st = st\<lparr>redis := r, tenant_cache := c\<rparr>" using store_only [of st] by blast
  show "no_new_sender st (f st)" unfolding f by (rule no_new_sender_eq) simp_all
  show "rooms_ok st \<Longrightarrow> rooms_ok (f st)" unfolding f by (erule rooms_ok_cong) simp_all
qed

text \<open>
  A transport lets a client in or refuses it. A refusal adds no sender. An admission registers the
  client with the channel it returns, or goes on with what is registered; only a polling transport
  may add a receiver, for that channel.
\<close>

locale transport =
  fixes enter :: "('r, 'g, 'v) app_state \<Rightarrow> nat option \<times> ('r, 'g, 'v) app_state" and ident :: string and polls :: bool
  assumes enter_rooms: "rooms_ok st \<Longrightarrow> rooms_ok (snd (enter st))"
    and enter_senders: "senders_ok st \<Longrightarrow> senders_ok (snd (enter st))"
    and refused: "enter st = (None, st') \<Longrightarrow> no_new_sender st st'"
    and admitted: "enter st = (Some tx, st') \<Longrightarrow>
      ws_senders st' = dm_insert ident tx (ws_senders st) \<or> ws_senders st' = ws_senders st"
    and registered: "enter st = (Some tx, st') \<Longrightarrow> dm_get (clients st') ident \<noteq> None"
    and others: "enter st = (Some tx, st') \<Longrightarrow> d \<noteq> ident \<Longrightarrow> dm_get (clients st') d = dm_get (clients st) d"
    and receivers: "enter st = (Some tx, st') \<Longrightarrow> dm_get (polling_receivers st') d = Some rx \<Longrightarrow>
      dm_get (polling_receivers st) d = Some rx \<or> (polls \<and> d = ident \<and> rx = tx)"
begin

lemma refusal_ok:
  assumes ok: "server_ok s" and "enter (app s) = (None, st')"
  shows "server_ok (s\<lparr>app := st'\<rparr>)"
proof (rule server_ok_quiet [OF ok refused [OF assms(2)]])
  show "rooms_ok st'" using ok assms(2) enter_rooms [of "app s"] by (simp add: server_ok_def)
qed

lemma admission_ok:
  assumes ok: "server_ok s" and enter: "enter (app s) = (Some tx, st')"
    and s': "app s' = st'" "held s \<subseteq> held s'" "(ident, tx) \<in> held s'" "set (pollers s) \<subseteq> set (pollers s')"
    and polls: "polls \<Longrightarrow> (ident, tx) \<in> set (pollers s')"
  shows "server_ok s'"
proof -
  have "rooms_ok st'" "senders_ok st'"
    using ok enter enter_rooms [of "app s"] enter_senders [of "app s"] by (simp_all add: server_ok_def)
  moreover have "transports_ok s'"
    unfolding transports_ok_def s'(1)
  proof (intro conjI allI impI)
    show "dm_wf (ws_senders st')"
      using ok admitted [OF enter] by (auto simp: server_ok_def transports_ok_def)
    fix d t
    assume "dm_get (ws_senders st') d = Some t"
    then have "(d = ident \<and> t = tx) \<or> dm_get (ws_senders (app s)) d = Some t"
      using admitted [OF enter] by (auto split: if_splits)
    with ok s'(2,3) registered [OF enter] others [OF enter, of d]
    show "(d, t) \<in> held s'" "dm_get (clients st') d \<noteq> None"
      unfolding server_ok_def transports_ok_def by (metis subsetD)+
  next
    fix d t
    assume "dm_get (polling_receivers st') d = Some t"
    with receivers [OF enter] ok s'(4) polls show "(d, t) \<in> set (pollers s')"
      unfolding server_ok_def transports_ok_def by (metis subsetD)
  qed
  ultimately show ?thesis by (simp add: server_ok_def s'(1))
qed

end

lemma rooms_ok_tick: "rooms_ok st \<Longrightarrow> rooms_ok (snd (check_broken_tick X t st))"
proof -
  assume ok: "rooms_ok st"
  have "rooms_ok (fold (evict_client X) cs st)" for cs by (rule rooms_ok_cong [OF ok]) simp_all
  moreover from this have "rooms_ok (reconcile (fold (evict_client X) cs st))" for cs
    by (rule rooms_ok_cong) simp_all
  ultimately show ?thesis by (simp add: check_broken_tick_def Let_def rooms_ok_cleanup)
qed

lemma rooms_ok_background:
  assumes "rooms_ok st"
  shows "rooms_ok (messages_expire_tick X st)" "rooms_ok (replay_evict_tick X st)" "rooms_ok (sync_redis_tick X st)"
  by (rule rooms_ok_cong [OF assms]; simp add: replay_evict_tick_def)+

lemma rooms_ok_chan:
  assumes "rooms_ok st"
  shows "rooms_ok (chan_close tx st)" "rooms_ok (chan_take tx st)" "rooms_ok (snd (collect_poll_messages_shared tx st))"
  by (rule rooms_ok_cong [OF assms];
      simp add: chan_close_def chan_take_def collect_poll_messages_shared_def case_prod_beta split: list.split)+

lemma rooms_ok_send: "rooms_ok st \<Longrightarrow> rooms_ok (snd (send_handler X fv q body st))"
proof (cases rule: send_handler_cases [of X fv q body st])
  case (known m st1)
  assume "rooms_ok st"
  then have st1: "rooms_ok st1" unfolding known(3) by (rule rooms_ok_cong) simp_all
  then have rated: "rooms_ok (snd (apply_rate_limit X c msg st1))" for c msg
    by (rule rooms_ok_cong) (simp_all add: apply_rate_limit_eq case_prod_beta Let_def)
  then show ?thesis
    using st1 rooms_ok_message [OF rated]
    unfolding known(4) by (simp add: case_prod_beta split: option.split bool.split)
qed simp

text \<open>The steps that are quiet, and those that touch the store only.\<close>

interpretation text_op: quiet_op "ws_text X c tx inp" for X c tx inp
  by unfold_locales (rule no_new_sender_text, rule rooms_ok_text)

interpretation send_op: quiet_op "\<lambda>st. snd (send_handler X fv h body st)" for X fv h body
  by unfold_locales (rule no_new_sender_send, rule rooms_ok_send)

interpretation chan_close_op: quiet_op "chan_close tx" for tx
  by unfold_locales (rule no_new_sender_chan, rule rooms_ok_chan)

interpretation chan_take_op: quiet_op "chan_take tx" for tx
  by unfold_locales (rule no_new_sender_chan, rule rooms_ok_chan)

interpretation collect_op: quiet_op "\<lambda>st. snd (collect_poll_messages_shared rx st)" for rx
  by unfold_locales (rule no_new_sender_chan, rule rooms_ok_chan)

interpretation cleanup_op: quiet_op "cleanup_client X c" for X c
  by unfold_locales (rule no_new_sender_cleanup, rule cleanup_client_ok)

interpretation stream_end_op: quiet_op "sse_stream_end X c tx" for X c tx
  unfolding sse_stream_end_def
  by unfold_locales (rule no_new_sender_trans [OF cleanup_op.quiet chan_close_op.quiet],
      rule chan_close_op.keeps_rooms [OF cleanup_op.keeps_rooms])

interpretation close_op: quiet_op "ws_close X c tx" for X c tx
  by unfold_locales (rule no_new_sender_cleanup, rule rooms_ok_close)

interpretation tick_op: quiet_op "\<lambda>st. snd (check_broken_tick X t st)" for X t
  by unfold_locales (rule no_new_sender_tick, rule rooms_ok_tick)

interpretation expire_op: quiet_op "messages_expire_tick X" for X
  by unfold_locales (rule no_new_sender_background, rule rooms_ok_background)

interpretation replay_op: quiet_op "replay_evict_tick X" for X
  by unfold_locales (rule no_new_sender_background, rule rooms_ok_background)

interpretation sync_op: quiet_op "sync_redis_tick X" for X
  by unfold_locales (rule no_new_sender_background, rule rooms_ok_background)

interpretation admin_create_op: store_op "\<lambda>st. snd (admin_create_tenant X u u' a req st)" for X u u' a req
  by unfold_locales (rule admin_frame)

interpretation admin_remove_op: store_op "\<lambda>st. snd (admin_remove_tenant X a tid st)" for X a tid
  by unfold_locales (rule admin_frame)

interpretation admin_rotate_op: store_op "\<lambda>st. snd (admin_rotate_jwt_secret X u a tid st)" for X u a tid
  by unfold_locales (rule admin_frame)

interpretation login_op: store_op "\<lambda>st. snd (login X J clock k st)" for X J clock k
proof
  fix st
  obtain c where "snd (login X J clock k st) = st\<lparr>tenant_cache := c\<rparr>" using login_frame [of X J clock k st] by blast
  then show "\<exists>r c. snd (login X J clock k st) = st\<lparr>redis := r, tenant_cache := c\<rparr>"
    by (intro exI [of _ "redis st"] exI [of _ c]) simp
qed

interpretation rotate_op: store_op "\<lambda>st. snd (rotate_key X J clock u a st)" for X J clock u a
  by unfold_locales (rule rotate_key_frame)

interpretation mail_op: store_op "\<lambda>st. st\<lparr>redis := snd (run_mail_task nx now task (redis st))\<rparr>" for nx now task
proof
  fix st
  show "\<exists>r c. st\<lparr>redis := snd (run_mail_task nx now task (redis st))\<rparr> = st\<lparr>redis := r, tenant_cache := c\<rparr>"
    by (intro exI [of _ "snd (run_mail_task nx now task (redis st))"] exI [of _ "tenant_cache st"]) simp
qed

text \<open>Admissions on the HTTP transports.\<close>

lemma sse_admits:
  assumes "sse_handler X h st = (Inr tx, st')"
  shows "ws_senders st' = dm_insert (hq_id h) tx (ws_senders st)" "polling_receivers st' = polling_receivers st"
    "dm_get (clients st') (hq_id h) \<noteq> None" "d \<noteq> hq_id h \<Longrightarrow> dm_get (clients st') d = dm_get (clients st) d"
  by (cases rule: http_enter_cases [of X h st]; use assms in \<open>auto simp: sse_handler_enter\<close>)+

lemma http_refuses:
  assumes "sse_handler X h st = (Inl e, st') \<or> poll_handler X h st = (Inl e, st')"
  shows "no_new_sender st st'"
proof -
  from assms have "http_enter X h st = (Inl e, st')"
    by (auto simp: sse_handler_enter poll_handler_enter map_prod_def split: prod.splits sum.splits)
  then show ?thesis
    by (cases rule: http_enter_cases [of X h st]) (auto intro: no_new_sender_eq)
qed

lemma http_enters:
  assumes "http_enter X h st = (Inr (t, b), s)"
  shows "ws_senders s = ws_senders st" "polling_receivers s = polling_receivers st" "next_chan s = next_chan st"
    "clients s = clients st" "b \<or> dm_get (clients st) (hq_id h) \<noteq> None"
  by (cases rule: http_enter_cases [of X h st]; use assms in auto)+

lemma poll_admits:
  assumes "poll_handler X h st = (Inr rx, st')"
  shows "(ws_senders st' = dm_insert (hq_id h) rx (ws_senders st) \<and>
      polling_receivers st' = dm_insert (hq_id h) rx (polling_receivers st)) \<or>
    (ws_senders st' = ws_senders st \<and> polling_receivers st' = polling_receivers st \<and> next_chan st' = next_chan st)"
    and "dm_get (clients st') (hq_id h) \<noteq> None" "d \<noteq> hq_id h \<Longrightarrow> dm_get (clients st') d = dm_get (clients st) d"
proof -
  from assms obtain t b s where enter: "http_enter X h st = (Inr (t, b), s)"
    and poll: "poll_session X b (hq_id h) (hq_token h) (hq_last_seq h) (map_option tn_id t) s = (rx, st')"
    by (auto simp: poll_handler_enter map_prod_def split: prod.splits sum.splits)
  note s = http_enters [OF enter]
  note senders = poll_session_senders [of X b "hq_id h" "hq_token h" "hq_last_seq h" "map_option tn_id t" s, unfolded poll fst_conv snd_conv]
  note cls = poll_session_clients [of X b "hq_id h" "hq_token h" "hq_last_seq h" "map_option tn_id t" s, unfolded poll snd_conv]
  show "(ws_senders st' = dm_insert (hq_id h) rx (ws_senders st) \<and>
      polling_receivers st' = dm_insert (hq_id h) rx (polling_receivers st)) \<or>
    (ws_senders st' = ws_senders st \<and> polling_receivers st' = polling_receivers st \<and> next_chan st' = next_chan st)"
    using senders s(1-3) by (cases "poll_pair (hq_id h) s") simp_all
  show "dm_get (clients st') (hq_id h) \<noteq> None" using cls s(4,5) by (auto split: option.splits)
  show "d \<noteq> hq_id h \<Longrightarrow> dm_get (clients st') d = dm_get (clients st) d"
    using cls s(4) by (simp split: option.splits)
qed

text \<open>The three transports, each with what its handler answers.\<close>

definition ws_enter ::
  "('r, 'g, 'v) ext \<Rightarrow> ws_query \<Rightarrow> ('r, 'g, 'v) app_state \<Rightarrow> nat option \<times> ('r, 'g, 'v) app_state" where
  "ws_enter X q st = (case handle_socket X q st of (Connected tx, s) \<Rightarrow> (Some tx, s) | (Refused m, s) \<Rightarrow> (None, s))"

definition of_answer :: "(http_error + nat) \<times> 's \<Rightarrow> nat option \<times> 's" where
  "of_answer r = (case r of (Inr tx, s) \<Rightarrow> (Some tx, s) | (Inl e, s) \<Rightarrow> (None, s))"

lemma ws_enter_iff:
  "ws_enter X q st = (Some tx, st') \<longleftrightarrow> handle_socket X q st = (Connected tx, st')"
  "ws_enter X q st = (None, st') \<longleftrightarrow> (\<exists>m. handle_socket X q st = (Refused m, st'))"
  "snd (ws_enter X q st) = snd (handle_socket X q st)"
  by (auto simp: ws_enter_def split: prod.splits ws_outcome.splits)

lemma of_answer_iff:
  "of_answer r = (Some tx, s) \<longleftrightarrow> r = (Inr tx, s)" "of_answer r = (None, s) \<longleftrightarrow> (\<exists>e. r = (Inl e, s))"
  "snd (of_answer r) = snd r"
  by (auto simp: of_answer_def split: prod.splits sum.splits)

lemma connected_id: "handle_socket X q st = (Connected tx, st') \<Longrightarrow> q_id q = Some (or_empty (q_id q))"
proof (cases rule: handle_socket_cases [of X q st])
  case (again c tok resolved st1)
  from authenticate_id [OF again(1)] show ?thesis by (simp add: or_empty_def)
next
  case (new c tok resolved st1 tx' s)
  from authenticate_id [OF new(1)] show ?thesis by (simp add: or_empty_def)
qed simp

interpretation ws_transport: transport "ws_enter X q" "or_empty (q_id q)" False for X q
proof
  fix st st' tx d rx
  show "rooms_ok st \<Longrightarrow> rooms_ok (snd (ws_enter X q st))" "senders_ok st \<Longrightarrow> senders_ok (snd (ws_enter X q st))"
    by (simp_all add: ws_enter_iff rooms_ok_socket senders_ok_socket)
  show "ws_enter X q st = (None, st') \<Longrightarrow> no_new_sender st st'"
    unfolding ws_enter_iff by (elim exE, rule no_new_sender_eq) (rule refuse_senders, assumption)+
  assume "ws_enter X q st = (Some tx, st')"
  then have con: "handle_socket X q st = (Connected tx, st')" by (simp add: ws_enter_iff)
  note reg = connect_senders [OF con connected_id [OF con]]
  show "ws_senders st' = dm_insert (or_empty (q_id q)) tx (ws_senders st) \<or> ws_senders st' = ws_senders st"
    using reg(1) by simp
  show "dm_get (clients st') (or_empty (q_id q)) \<noteq> None" by (rule reg(5))
  show "d \<noteq> or_empty (q_id q) \<Longrightarrow> dm_get (clients st') d = dm_get (clients st) d" by (rule reg(6))
  show "dm_get (polling_receivers st') d = Some rx \<Longrightarrow>
      dm_get (polling_receivers st) d = Some rx \<or> (False \<and> d = or_empty (q_id q) \<and> rx = tx)" using reg(4) by simp
qed

interpretation sse_transport: transport "\<lambda>st. of_answer (sse_handler X h st)" "hq_id h" False for X h
proof
  fix st st' tx d rx
  show "rooms_ok st \<Longrightarrow> rooms_ok (snd (of_answer (sse_handler X h st)))"
    "senders_ok st \<Longrightarrow> senders_ok (snd (of_answer (sse_handler X h st)))"
    by (simp_all add: of_answer_iff rooms_ok_sse senders_ok_sse)
  show "of_answer (sse_handler X h st) = (None, st') \<Longrightarrow> no_new_sender st st'"
    unfolding of_answer_iff using http_refuses by blast
  assume "of_answer (sse_handler X h st) = (Some tx, st')"
  then have sse: "sse_handler X h st = (Inr tx, st')" by (simp add: of_answer_iff)
  note reg = sse_admits [OF sse]
  show "ws_senders st' = dm_insert (hq_id h) tx (ws_senders st) \<or> ws_senders st' = ws_senders st" using reg(1) by simp
  show "dm_get (clients st') (hq_id h) \<noteq> None" by (rule reg(3))
  show "d \<noteq> hq_id h \<Longrightarrow> dm_get (clients st') d = dm_get (clients st) d" by (rule reg(4))
  show "dm_get (polling_receivers st') d = Some rx \<Longrightarrow>
      dm_get (polling_receivers st) d = Some rx \<or> (False \<and> d = hq_id h \<and> rx = tx)" using reg(2) by simp
qed

interpretation poll_transport: transport "\<lambda>st. of_answer (poll_handler X h st)" "hq_id h" True for X h
proof
  fix st st' tx d rx
  show "rooms_ok st \<Longrightarrow> rooms_ok (snd (of_answer (poll_handler X h st)))"
    "senders_ok st \<Longrightarrow> senders_ok (snd (of_answer (poll_handler X h st)))"
    by (simp_all add: of_answer_iff rooms_ok_poll senders_ok_poll)
  show "of_answer (poll_handler X h st) = (None, st') \<Longrightarrow> no_new_sender st st'"
    unfolding of_answer_iff using http_refuses by blast
  assume "of_answer (poll_handler X h st) = (Some tx, st')"
  then have poll: "poll_handler X h st = (Inr tx, st')" by (simp add: of_answer_iff)
  note reg = poll_admits [OF poll]
  show "ws_senders st' = dm_insert (hq_id h) tx (ws_senders st) \<or> ws_senders st' = ws_senders st" using reg(1) by blast
  show "dm_get (clients st') (hq_id h) \<noteq> None" by (rule reg(2))
  show "d \<noteq> hq_id h \<Longrightarrow> dm_get (clients st') d = dm_get (clients st) d" by (rule reg(3))
  show "dm_get (polling_receivers st') d = Some rx \<Longrightarrow>
      dm_get (polling_receivers st) d = Some rx \<or> (True \<and> d = hq_id h \<and> rx = tx)"
    using reg(1) by (auto split: if_splits)
qed

lemma server_ok_watch:
  assumes ok: "server_ok s" and look: "sse_watchdog X c tx (app s) = (goes_on, st')"
  shows "server_ok (s\<lparr>app := st', watchdogs := if goes_on then watchdogs s else removeAll (c, tx) (watchdogs s)\<rparr>)"
proof -
  consider (on) goes_on "st' = app s"
    | (closed) "\<not> goes_on" "st' = cleanup_client X c (app s)"
    | (gone) "\<not> goes_on" "st' = app s" "dm_get (clients (app s)) c = None"
  proof (cases "ch_open (chans (app s) tx)"; cases "dm_get (clients (app s)) c")
  qed (use look in \<open>simp_all add: sse_watchdog_def dm_contains_key_def\<close>)
  then show ?thesis
  proof cases
    case on
    with ok show ?thesis by simp
  next
    case closed
    from ok have "server_ok (s\<lparr>app := st'\<rparr>)" unfolding closed(2) by (rule cleanup_op.keeps_ok)
    then show ?thesis
      by (rule server_ok_less [where c = c and tx = tx]) (simp_all add: closed held_def, blast)
  next
    case gone
    have "dm_get (ws_senders (app s)) c \<noteq> Some tx"
      using ok gone(3) unfolding server_ok_def transports_ok_def by blast
    then show ?thesis
      by (intro server_ok_less [OF ok, of _ c tx]) (simp_all add: gone held_def, blast)
  qed
qed

lemma server_ok_streams: "server_ok s \<Longrightarrow> server_ok (s\<lparr>streams := x\<rparr>)"
  by (rule server_ok_more) (auto simp: held_def)

lemma server_ok_close:
  assumes ok: "server_ok s"
  shows "server_ok (s\<lparr>app := ws_close X c tx (app s), sockets := removeAll (c, tx) (sockets s)\<rparr>)"
proof -
  from ok have "server_ok (s\<lparr>app := ws_close X c tx (app s)\<rparr>)" by (rule close_op.keeps_ok)
  then show ?thesis
    by (rule server_ok_less [where c = c and tx = tx])
      (auto simp: held_def ws_close_def ws_cleanup_def remove_sender_def Let_def split: if_splits)
qed

lemmas step_keeps_ok =
  text_op.keeps_ok send_op.keeps_ok chan_close_op.keeps_ok chan_take_op.keeps_ok collect_op.keeps_ok
  expire_op.keeps_ok replay_op.keeps_ok sync_op.keeps_ok admin_create_op.keeps_ok admin_remove_op.keeps_ok
  admin_rotate_op.keeps_ok login_op.keeps_ok rotate_op.keeps_ok mail_op.keeps_ok

lemma server_ok_act:
  assumes ok: "server_ok s" and "server_act a s s'"
  shows "server_ok s'"
  using assms(2)
proof cases
  case (connect X q tx st' c)
  then have "or_empty (q_id q) = c" by (simp add: or_empty_def)
  with connect show ?thesis
    by (intro ws_transport.admission_ok [OF ok, of X q tx st']) (auto simp: ws_enter_iff held_def)
next
  case (refuse X q m st')
  with ws_transport.refusal_ok [OF ok, of X q st'] show ?thesis by (auto simp: ws_enter_iff)
next
  case (sse_connect X h tx st')
  then show ?thesis
    by (intro sse_transport.admission_ok [OF ok, of X h tx st']) (auto simp: of_answer_iff held_def)
next
  case (sse_refuse X h e st')
  with sse_transport.refusal_ok [OF ok, of X h st'] show ?thesis by (auto simp: of_answer_iff)
next
  case (poll_begin X h rx st')
  then show ?thesis
    by (intro poll_transport.admission_ok [OF ok, of X h rx st']) (auto simp: of_answer_iff held_def)
next
  case (poll_refuse X h e st')
  with poll_transport.refusal_ok [OF ok, of X h st'] show ?thesis by (auto simp: of_answer_iff)
next
  case (sse_disconnect c tx)
  from server_ok_streams [OF chan_close_op.keeps_ok [OF ok]] show ?thesis unfolding sse_disconnect(2) by simp
next
  case (sse_watch c tx X goes_on st')
  with ok show ?thesis by (simp only: server_ok_watch)
next
  case (sse_end c tx X)
  from server_ok_streams [OF stream_end_op.keeps_ok [OF ok]] show ?thesis unfolding sse_end(2) by simp
next
  case (close c tx X)
  with ok show ?thesis by (simp only: server_ok_close)
next
  case (check_broken X t st')
  then have "st' = snd (check_broken_tick X (tick s) (app s))" by simp
  with tick_op.keeps_ok [OF ok] have "server_ok (s\<lparr>app := st'\<rparr>)" by simp
  then show ?thesis unfolding check_broken(2) by (rule server_ok_more) (auto simp: held_def)
next
  case (mail_task nx now task mail r)
  with mail_op.keeps_ok [OF ok, of nx now task] show ?thesis by simp
qed (use step_keeps_ok [OF ok] in \<open>metis snd_conv\<close>)+

lemma server_ok_step: "server_ok s \<Longrightarrow> server_step s s' \<Longrightarrow> server_ok s'"
  by (auto simp: server_step_def intro: server_ok_act)

lemma server_ok_start:
  assumes "start_server X read_file con parse_header cfg = Inr (st, rs, allowed, addr)"
  shows "server_ok (server_new st)"
proof -
  from assms obtain cfg' where "app_state_new X con cfg' = Inr st"
    by (auto simp: start_server_def split: sum.splits)
  then show ?thesis
    by (auto simp: server_new_def app_state_new_def server_ok_def rooms_ok_def senders_ok_def transports_ok_def
        joined_def members_def entry_set_def split: sum.splits)
qed

lemma server_reachable_ok: "server_reachable s \<Longrightarrow> server_ok s"
  by (induction rule: server_reachable.induct) (auto intro: server_ok_start server_ok_step)

section \<open>Sequence numbers\<close>

lemma seq_message: "seq_counter (handle_message X c msg st) \<in> {seq_counter st, seq_counter st + 1}"
  by (simp add: handle_message_def handle_data_def Let_def split: MessageType.split option.split)

lemma seq_socket: "seq_counter (snd (handle_socket X q st)) = seq_counter st"
proof (cases rule: handle_socket_cases [of X q st])
  case (refused m s)
  then show ?thesis by auto
next
  case (again c tok resolved st1)
  then show ?thesis unfolding authenticated [OF again(1)] by (simp add: reconnect_eq reconnect_state_def)
next
  case (new c tok resolved st1 tx s)
  have "seq_counter st1 = seq_counter st" unfolding authenticated [OF new(1)] by simp
  with new show ?thesis
    by (cases rule: connect_new_cases [of st1 X c tok "q_last_seq q" "map_option tn_id resolved"]) auto
qed

lemma seq_close: "seq_counter (ws_close X c tx st) = seq_counter st"
  by (simp add: ws_close_def ws_cleanup_def Let_def)

lemma seq_text: "seq_counter (ws_text X c tx inp st) \<in> {seq_counter st, seq_counter st + 1}"
  using seq_message [of X c _ "snd (rate_check X c t st)" for t]
  by (simp add: ws_text_def case_prod_beta Let_def split: option.split)

lemma seq_tick: "seq_counter (snd (check_broken_tick X t st)) = seq_counter st"
  by (simp add: check_broken_tick_def Let_def)

lemma seq_send: "seq_counter (snd (send_handler X fv q body st)) \<in> {seq_counter st, seq_counter st + 1}"
proof (cases rule: send_handler_cases [of X fv q body st])
  case (known m st1)
  have rated: "seq_counter (snd (apply_rate_limit X c msg st1)) = seq_counter st" for c msg
    by (simp add: apply_rate_limit_eq case_prod_beta Let_def known(3))
  show ?thesis
    using seq_message [of X "hq_id q" _ "snd (apply_rate_limit X (hq_id q) msg st1)" for msg] rated
    unfolding known(4) by (simp add: known(3) case_prod_beta split: option.split bool.split)
qed simp

lemma seq_http:
  "seq_counter (snd (sse_handler X h st)) = seq_counter st" "seq_counter (snd (poll_handler X h st)) = seq_counter st"
  by (cases rule: http_enter_cases [of X h st]; simp add: sse_handler_enter poll_handler_enter)+

end
