(* ===== verification/Lifecycle.thy ===== *)
theory Lifecycle
  imports Server
begin

text \<open>
  The life of the process: the second half of \<^verbatim>\<open>main\<close> with \<^verbatim>\<open>run_plain\<close>, \<^verbatim>\<open>run_tls\<close> and
  \<^verbatim>\<open>shutdown_signal\<close> in \<^verbatim>\<open>src/main.rs\<close>, and the loops around the turns of the background tasks under
  \<^verbatim>\<open>src/services/\<close>.

  A process is the server of theory \<open>Server\<close> with the phase \<^verbatim>\<open>main\<close> is in, the background tasks that
  have not returned, the value of the shutdown channel and the certificate TLS is served with. The
  HTTP server (\<^verbatim>\<open>axum::serve\<close>, \<^verbatim>\<open>axum_server\<close>) is a parameter: \<open>serve_returns\<close> states what it documents,
  that a graceful shutdown takes no new request and returns once the open responses have ended, an
  upgraded socket not being one of them. Only event streams are looked at: an open long poll, which ends by
  itself, may delay the return too, so the model has more runs than the code. A signal without a handler ends the process.
\<close>

section \<open>The code\<close>

datatype phase = Serving | Closing | Draining instant | Awaiting "task list" | Exited | Killed

datatype signal = CtrlC | SigTerm | SigHup

datatype launch_error = CertificatesUnreadable | BindFailed

record ('r, 'g, 'v, 'k) process =
  srv :: "('r, 'g, 'v) server"
  phase :: phase
  running :: "task list"
  signalled :: bool
  certificate :: "'k option"

text \<open>The tasks in the order \<^verbatim>\<open>main\<close> spawns and awaits them.\<close>

definition spawn_order :: "task list" where
  "spawn_order = [CheckBroken, MessagesExpire, ReplayEvict, SyncRedis]"

text \<open>
  \<open>loaded\<close> is what the certificate files hold, \<open>bound\<close> whether the address can be listened on.
\<close>

definition launch :: "config \<Rightarrow> 'k option \<Rightarrow> bool \<Rightarrow> ('r, 'g, 'v) app_state \<Rightarrow> launch_error + ('r, 'g, 'v, 'k) process" where
  "launch c loaded bound st =
     (let p = \<lparr>srv = server_new st, phase = Serving, running = spawn_order, signalled = False, certificate = None\<rparr>
      in if serves_tls c then
           (case loaded of
              None \<Rightarrow> Inl CertificatesUnreadable
            | Some k \<Rightarrow> if bound then Inr (p\<lparr>certificate := Some k\<rparr>) else Inl BindFailed)
         else if bound then Inr p else Inl BindFailed)"

text \<open>
  \<^verbatim>\<open>run_plain\<close> waits for an interrupt or a termination signal and stops serving, once; it has no
  handler for a hang-up. \<^verbatim>\<open>run_tls\<close> handles the hang-up only: the certificates are read again and
  replace those in use unless that fails.
\<close>

definition on_signal :: "signal \<Rightarrow> 'k option \<Rightarrow> ('r, 'g, 'v, 'k) process \<Rightarrow> ('r, 'g, 'v, 'k) process" where
  "on_signal sg loaded p =
     (case certificate p of
        None \<Rightarrow>
          if sg = SigHup then p\<lparr>phase := Killed\<rparr>
          else if phase p = Serving then p\<lparr>phase := Closing\<rparr> else p
      | Some k \<Rightarrow>
          if sg = SigHup then (case loaded of None \<Rightarrow> p | Some k' \<Rightarrow> p\<lparr>certificate := Some k'\<rparr>)
          else p\<lparr>phase := Killed\<rparr>)"

definition DRAIN_TIMEOUT :: duration where
  "DRAIN_TIMEOUT = 30 * 1000000000"

text \<open>\<^verbatim>\<open>drain_ws(4001, "shutting-down")\<close>: the frames go out, then the loop looks at senders and clock.\<close>

definition begin_drain :: "instant \<Rightarrow> ('r, 'g, 'v, 'k) process \<Rightarrow> ('r, 'g, 'v, 'k) process" where
  "begin_drain now p =
     p\<lparr>srv := (srv p)\<lparr>app := drain_send 4001 ''shutting-down'' (app (srv p))\<rparr>, phase := Draining (now + DRAIN_TIMEOUT)\<rparr>"

definition signal_tasks :: "('r, 'g, 'v, 'k) process \<Rightarrow> ('r, 'g, 'v, 'k) process" where
  "signal_tasks p = p\<lparr>signalled := True, phase := Awaiting spawn_order\<rparr>"

definition drain_look :: "instant \<Rightarrow> instant \<Rightarrow> ('r, 'g, 'v, 'k) process \<Rightarrow> ('r, 'g, 'v, 'k) process" where
  "drain_look deadline now p =
     (case drain_wait deadline [(now, dm_len (ws_senders (app (srv p))))] of
        None \<Rightarrow> p
      | Some remaining \<Rightarrow> signal_tasks p)"

text \<open>
  When each kind of step can happen: requests while the server serves or finishes what is open; the
  sockets as long as the process lives; a background task until it returns.
\<close>

fun may_act :: "action \<Rightarrow> ('r, 'g, 'v, 'k) process \<Rightarrow> bool" where
  "may_act Request p \<longleftrightarrow> phase p = Serving \<or> phase p = Closing"
| "may_act Connection p \<longleftrightarrow> True"
| "may_act (Background t) p \<longleftrightarrow> t \<in> set (running p)"

definition alive :: "('r, 'g, 'v, 'k) process \<Rightarrow> bool" where
  "alive p \<longleftrightarrow> phase p \<noteq> Exited \<and> phase p \<noteq> Killed"

text \<open>
  A background task sleeps, then does a turn (\<open>acts\<close>), and returns once it sees the shutdown
  channel changed (\<open>task_returns\<close>).
\<close>

inductive process_step :: "('r, 'g, 'v, 'k) process \<Rightarrow> ('r, 'g, 'v, 'k) process \<Rightarrow> bool" where
  acts: "alive p \<Longrightarrow> may_act a p \<Longrightarrow> server_act a (srv p) s' \<Longrightarrow> process_step p (p\<lparr>srv := s'\<rparr>)"
| signal: "alive p \<Longrightarrow> process_step p (on_signal sg loaded p)"
| serve_returns: "phase p = Closing \<Longrightarrow> streams (srv p) = [] \<Longrightarrow> process_step p (begin_drain now p)"
| looks: "phase p = Draining deadline \<Longrightarrow> process_step p (drain_look deadline now p)"
| task_returns: "alive p \<Longrightarrow> signalled p \<Longrightarrow> t \<in> set (running p) \<Longrightarrow>
    process_step p (p\<lparr>running := removeAll t (running p)\<rparr>)"
| awaited: "phase p = Awaiting (t # ts) \<Longrightarrow> t \<notin> set (running p) \<Longrightarrow> process_step p (p\<lparr>phase := Awaiting ts\<rparr>)"
| exits: "phase p = Awaiting [] \<Longrightarrow> process_step p (p\<lparr>phase := Exited\<rparr>)"

inductive_cases process_stepE: "process_step p p'"

inductive process_reachable :: "('r, 'g, 'v, 'k) process \<Rightarrow> bool" where
  start: "start_server X read_file con parse_header cfg = Inr (st, rs, allowed, addr) \<Longrightarrow>
    launch cfg loaded bound st = Inr p \<Longrightarrow> process_reachable p"
| step: "process_reachable p \<Longrightarrow> process_step p p' \<Longrightarrow> process_reachable p'"

section \<open>The invariant\<close>

definition phase_ok :: "('r, 'g, 'v, 'k) process \<Rightarrow> bool" where
  "phase_ok p =
     (case phase p of
        Serving \<Rightarrow> running p = spawn_order \<and> \<not> signalled p
      | Closing \<Rightarrow> certificate p = None \<and> running p = spawn_order \<and> \<not> signalled p
      | Draining d \<Rightarrow> certificate p = None \<and> running p = spawn_order \<and> \<not> signalled p
      | Awaiting ts \<Rightarrow> certificate p = None \<and> signalled p \<and> set (running p) \<subseteq> set ts
      | Exited \<Rightarrow> certificate p = None \<and> running p = []
      | Killed \<Rightarrow> True)"

lemma phase_ok_launch: "launch c loaded bound st = Inr p \<Longrightarrow> phase_ok p \<and> srv p = server_new st"
  by (auto simp: launch_def Let_def phase_ok_def split: if_splits option.splits)

lemma phase_ok_signal: "phase_ok p \<Longrightarrow> phase_ok (on_signal sg loaded p)"
  by (auto simp: on_signal_def phase_ok_def split: option.split phase.splits)

lemma phase_ok_step: "process_step p p' \<Longrightarrow> phase_ok p \<Longrightarrow> phase_ok p'"
proof (induction rule: process_step.induct)
  case (signal p sg loaded)
  then show ?case by (simp add: phase_ok_signal)
next
  case (looks p deadline now)
  then show ?case
    by (auto simp: drain_look_def signal_tasks_def phase_ok_def spawn_order_def split: option.split)
next
  case (task_returns p t)
  then show ?case by (auto simp: phase_ok_def split: phase.splits)
next
  case (awaited p t ts)
  then show ?case by (auto simp: phase_ok_def)
qed (auto simp: phase_ok_def begin_drain_def alive_def split: phase.splits)

lemma drain_send_all: "drain_send code reason st = send_all (dm_keys (ws_senders st)) (close_frame code reason) st"
  by (simp add: drain_send_def send_all_def)

lemma server_ok_drain:
  assumes "server_ok s"
  shows "server_ok (s\<lparr>app := drain_send code reason (app s)\<rparr>)"
proof (rule server_ok_quiet [OF assms])
  show "no_new_sender (app s) (drain_send code reason (app s))"
    by (rule no_new_sender_eq) (simp_all add: drain_send_all)
  have "rooms_ok (app s)" using assms by (simp add: server_ok_def)
  then show "rooms_ok (drain_send code reason (app s))" by (rule rooms_ok_cong) (simp_all add: drain_send_all)
qed

lemma process_ok: "process_reachable p \<Longrightarrow> server_ok (srv p) \<and> phase_ok p"
proof (induction rule: process_reachable.induct)
  case (start X read_file con parse_header cfg st rs allowed addr loaded bound p)
  then show ?case using phase_ok_launch [of cfg loaded bound st p] by (auto intro: server_ok_start)
next
  case (step p p')
  have "server_ok (srv p')" using step.hyps(2) step.IH
  proof cases
    case (acts a s')
    with step.IH show ?thesis by (auto intro: server_ok_act)
  next
    case (serve_returns now)
    with step.IH show ?thesis by (simp add: begin_drain_def server_ok_drain)
  qed (auto simp: on_signal_def drain_look_def signal_tasks_def split: option.split)
  with phase_ok_step [OF step.hyps(2)] step.IH show ?case by simp
qed

section \<open>The way out\<close>

text \<open>
  A run of the process that does not stop for ever while something can still happen. Every state follows from the
  one before by a step, or the process has ended. The server returns unless event streams stay open; the loop
  of the drain goes on looking, so that one look comes at its deadline or later; a task that has been told to stop
  returns; and \<^verbatim>\<open>main\<close> goes on once the task it waits for has returned. Nothing is asked of the clients: any
  number of their steps, and of turns of the tasks, may lie in between.
\<close>

definition fair_run :: "(nat \<Rightarrow> ('r, 'g, 'v, 'k) process) \<Rightarrow> bool" where
  "fair_run f \<longleftrightarrow>
     (\<forall>i. process_step (f i) (f (Suc i)) \<or> (\<not> alive (f i) \<and> f (Suc i) = f i)) \<and>
     (\<forall>i. phase (f i) = Closing \<longrightarrow> (\<exists>j \<ge> i. phase (f j) \<noteq> Closing \<or> streams (srv (f j)) \<noteq> [])) \<and>
     (\<forall>i d. phase (f i) = Draining d \<longrightarrow>
        (\<exists>j \<ge> i. phase (f j) \<noteq> Draining d \<or> (\<exists>now \<ge> d. f (Suc j) = drain_look d now (f j)))) \<and>
     (\<forall>i t. signalled (f i) \<longrightarrow> (\<exists>j \<ge> i. t \<notin> set (running (f j)) \<or> \<not> alive (f j))) \<and>
     (\<forall>i ts. phase (f i) = Awaiting ts \<longrightarrow>
        (\<exists>j \<ge> i. phase (f j) \<noteq> Awaiting ts \<or> (ts \<noteq> [] \<and> hd ts \<in> set (running (f j)))))"

text \<open>A hang-up signal, which a process without TLS does not survive.\<close>

definition hung_up :: "('r, 'g, 'v, 'k) process \<Rightarrow> ('r, 'g, 'v, 'k) process \<Rightarrow> bool" where
  "hung_up p p' \<longleftrightarrow> alive p \<and> (\<exists>loaded. p' = on_signal SigHup loaded p)"

lemma plain_signal:
  "certificate p = None \<Longrightarrow> phase p \<noteq> Serving \<Longrightarrow> sg \<noteq> SigHup \<Longrightarrow> on_signal sg loaded p = p"
  by (simp add: on_signal_def)

lemma closing_step:
  assumes "process_step p p'" "phase_ok p" "phase p = Closing" "\<not> hung_up p p'"
  shows "phase p' = Closing \<or> (\<exists>now. p' = begin_drain now p)"
  using assms(1)
proof cases
  case (signal sg loaded)
  with assms(2-4) show ?thesis by (cases "sg = SigHup") (auto simp: hung_up_def phase_ok_def plain_signal)
qed (use assms(3) in \<open>auto simp: drain_look_def\<close>)

lemma draining_step:
  assumes "process_step p p'" "phase_ok p" "phase p = Draining d" "\<not> hung_up p p'"
  shows "phase p' = Draining d \<or> phase p' = Awaiting spawn_order"
  using assms(1)
proof cases
  case (signal sg loaded)
  with assms(2-4) show ?thesis by (cases "sg = SigHup") (auto simp: hung_up_def phase_ok_def plain_signal)
qed (use assms(3) in \<open>auto simp: drain_look_def signal_tasks_def split: option.split\<close>)

lemma awaiting_step:
  assumes "process_step p p'" "phase_ok p" "phase p = Awaiting ts" "\<not> hung_up p p'"
  shows "phase p' = Awaiting ts \<or> (ts \<noteq> [] \<and> phase p' = Awaiting (tl ts)) \<or> (ts = [] \<and> phase p' = Exited)"
  using assms(1)
proof cases
  case (signal sg loaded)
  with assms(2-4) show ?thesis by (cases "sg = SigHup") (auto simp: hung_up_def phase_ok_def plain_signal)
qed (use assms(3) in auto)

lemma running_step: "process_step p p' \<Longrightarrow> set (running p') \<subseteq> set (running p)"
  by (erule process_step.cases)
    (auto simp: on_signal_def begin_drain_def drain_look_def signal_tasks_def split: option.split)

text \<open>A state that is left is left by a step.\<close>

lemma left_by_step:
  assumes "P (i :: nat)" "i \<le> j" "\<not> P j"
  obtains k where "i \<le> k" "P k" "\<not> P (Suc k)"
  using assms
proof (induction j)
  case (Suc j)
  show ?case
  proof (cases "P j")
    case True
    with Suc.prems show ?thesis by (metis le_Suc_eq)
  next
    case False
    with Suc show ?thesis by (metis le_Suc_eq)
  qed
qed simp

lemma fair_steps:
  assumes "fair_run f" "process_reachable (f 0)"
  shows "phase_ok (f i)" "server_ok (srv (f i))" and "i \<le> j \<Longrightarrow> set (running (f j)) \<subseteq> set (running (f i))"
    and "alive (f i) \<Longrightarrow> process_step (f i) (f (Suc i))"
proof -
  have steps: "process_step (f i) (f (Suc i)) \<or> (\<not> alive (f i) \<and> f (Suc i) = f i)" for i
    using assms(1) by (simp add: fair_run_def)
  have "process_reachable (f i)" for i
  proof (induction i)
    case (Suc i)
    then show ?case using steps [of i] by (metis process_reachable.step)
  qed (rule assms(2))
  then show "phase_ok (f i)" "server_ok (srv (f i))" using process_ok by blast+
  show "set (running (f j)) \<subseteq> set (running (f i))" if "i \<le> j"
    using that
  proof (induction rule: dec_induct)
    case (step n)
    then show ?case using steps [of n] running_step [of "f n" "f (Suc n)"] by force
  qed simp
  show "alive (f i) \<Longrightarrow> process_step (f i) (f (Suc i))" using steps [of i] by blast
qed

text \<open>Each phase of the shutdown is followed by the next.\<close>

lemma drain_look_phase:
  assumes "phase p = Draining d"
  shows "phase (drain_look d now p) = (if ws_senders (app (srv p)) \<noteq> [] \<and> now < d then Draining d else Awaiting spawn_order)"
  using assms by (auto simp: drain_look_def signal_tasks_def dm_len_def split: option.split)

lemma awaiting_ends:
  assumes "fair_run f" "process_reachable (f 0)" "\<And>i. \<not> hung_up (f i) (f (Suc i))"
  shows "phase (f i) = Awaiting ts \<Longrightarrow> \<exists>j. phase (f j) = Exited"
proof (induction ts arbitrary: i rule: measure_induct_rule [of length])
  case (less ts)
  note steps = fair_steps [OF assms(1,2)]
  have "\<exists>j \<ge> i. phase (f j) \<noteq> Awaiting ts"
  proof (rule ccontr)
    assume "\<not> ?thesis"
    then have stays: "phase (f j) = Awaiting ts" if "i \<le> j" for j using that by blast
    then have live: "alive (f j)" if "i \<le> j" for j using that by (simp add: alive_def)
    have "signalled (f i)" using steps(1) [of i] less.prems by (simp add: phase_ok_def)
    then obtain k where k: "i \<le> k" "hd ts \<notin> set (running (f k))"
      using assms(1) live unfolding fair_run_def by blast
    obtain j where "k \<le> j" "phase (f j) \<noteq> Awaiting ts \<or> (ts \<noteq> [] \<and> hd ts \<in> set (running (f j)))"
      using assms(1) stays [OF k(1)] unfolding fair_run_def by blast
    with k stays [of j] steps(3) [of k j] show False by auto
  qed
  then obtain j where "i \<le> j" "phase (f j) \<noteq> Awaiting ts" by blast
  then obtain k where k: "phase (f k) = Awaiting ts" "phase (f (Suc k)) \<noteq> Awaiting ts"
    using left_by_step [of "\<lambda>j. phase (f j) = Awaiting ts" i j] less.prems by blast
  then have "process_step (f k) (f (Suc k))" by (intro steps(4)) (simp add: alive_def)
  from awaiting_step [OF this steps(1) k(1) assms(3)] k(2)
  have "(ts \<noteq> [] \<and> phase (f (Suc k)) = Awaiting (tl ts)) \<or> phase (f (Suc k)) = Exited" by blast
  then show ?case using less.IH [of "tl ts" "Suc k"] by auto
qed

lemma draining_ends:
  assumes "fair_run f" "process_reachable (f 0)" "\<And>i. \<not> hung_up (f i) (f (Suc i))" "phase (f i) = Draining d"
  shows "\<exists>j. phase (f j) = Exited"
proof -
  note steps = fair_steps [OF assms(1,2)]
  have "\<exists>j \<ge> i. phase (f j) \<noteq> Draining d"
  proof (rule ccontr)
    assume "\<not> ?thesis"
    then have stays: "phase (f j) = Draining d" if "i \<le> j" for j using that by blast
    then obtain j now where j: "i \<le> j" "d \<le> now" "f (Suc j) = drain_look d now (f j)"
      using assms(1,4) unfolding fair_run_def by blast
    with drain_look_phase [OF stays, of j now] stays [of "Suc j"] show False by simp
  qed
  then obtain j where "i \<le> j" "phase (f j) \<noteq> Draining d" by blast
  then obtain k where k: "phase (f k) = Draining d" "phase (f (Suc k)) \<noteq> Draining d"
    using left_by_step [of "\<lambda>j. phase (f j) = Draining d" i j] assms(4) by blast
  then have "process_step (f k) (f (Suc k))" by (intro steps(4)) (simp add: alive_def)
  from draining_step [OF this steps(1) k(1) assms(3)] k(2) have "phase (f (Suc k)) = Awaiting spawn_order" by blast
  then show ?thesis by (rule awaiting_ends [OF assms(1-3)])
qed

lemma closing_ends:
  assumes "fair_run f" "process_reachable (f 0)" "\<And>i. \<not> hung_up (f i) (f (Suc i))" "phase (f 0) = Closing"
  shows "(\<exists>j. phase (f j) = Exited) \<or> (\<forall>i. phase (f i) = Closing \<and> (\<exists>j \<ge> i. streams (srv (f j)) \<noteq> []))"
proof (cases "\<forall>i. phase (f i) = Closing")
  case True
  with assms(1) show ?thesis unfolding fair_run_def by blast
next
  case False
  note steps = fair_steps [OF assms(1,2)]
  from False obtain j where "phase (f j) \<noteq> Closing" by blast
  then obtain k where k: "phase (f k) = Closing" "phase (f (Suc k)) \<noteq> Closing"
    using left_by_step [of "\<lambda>j. phase (f j) = Closing" 0 j] assms(4) by blast
  then have "process_step (f k) (f (Suc k))" by (intro steps(4)) (simp add: alive_def)
  from closing_step [OF this steps(1) k(1) assms(3)] k(2) obtain now where "f (Suc k) = begin_drain now (f k)" by blast
  then have "phase (f (Suc k)) = Draining (now + DRAIN_TIMEOUT)" by (simp add: begin_drain_def)
  with draining_ends [OF assms(1-3)] show ?thesis by blast
qed

text \<open>What the server does when it begins to drain.\<close>

lemma drain_frames:
  assumes "server_ok (srv p)"
  shows "inbox (app (srv (begin_drain now p))) c = inbox (app (srv p)) c @
    (if reachable_client (app (srv p)) c then [close_frame 4001 ''shutting-down''] else [])"
proof -
  let ?st = "app (srv p)"
  have ok: "senders_ok ?st" "dm_wf (ws_senders ?st)" using assms by (simp_all add: server_ok_def transports_ok_def)
  have keys: "c \<in> set (dm_keys (ws_senders ?st))" if "reachable_client ?st c"
    using that by (auto simp: reachable_client_def set_dm_keys split: option.splits)
  show ?thesis
    using keys ok inbox_send_all [OF ok(1), of "dm_keys (ws_senders ?st)"]
    unfolding begin_drain_def drain_send_all dm_wf_def by auto
qed

section \<open>A concrete process\<close>

lemma demo_launch:
  assumes "cfg_key_file c = None" "cfg_cors c = []" "cfg_host c = ''::''"
    and "launch c loaded bound (demo_state c) = Inr p"
  shows "process_reachable p"
proof -
  have "bind_addr ''::'' port = Inr (SocketV4 [0, 0, 0, 0] (unat port))" for port by (rule bind_addr_colon) simp_all
  with assms(1-3) obtain rs allowed addr where
    "start_server demo_ext (\<lambda>_. Inl []) (\<lambda>_. Inr mem_empty) Some c = Inr (demo_state c, rs, allowed, addr)"
    by (simp add: start_server_def load_config_def app_state_new_def demo_state_def build_cors_def)
  from this assms(4) show ?thesis by (rule process_reachable.start)
qed

text \<open>A plain server told to stop, and a server with TLS.\<close>

definition demo_process :: "'k option \<Rightarrow> (mem_redis, nat, demo_json, 'k) process" where
  "demo_process k =
     \<lparr>srv = server_new (demo_state (if k = None then default_config
        else default_config\<lparr>cfg_sslkey := Some ''key.pem'', cfg_sslcert := Some ''cert.pem''\<rparr>)),
      phase = (if k = None then Closing else Serving), running = spawn_order, signalled = False, certificate = k\<rparr>"

lemma demo_serving_reachable: "process_reachable ((demo_process (None :: nat option))\<lparr>phase := Serving\<rparr>)"
  by (rule demo_launch [of default_config None True])
    (simp_all add: launch_def serves_tls_def default_config_def demo_process_def Let_def)

lemma demo_plain_reachable: "process_reachable (demo_process (None :: nat option))"
proof -
  let ?p = "(demo_process (None :: nat option))\<lparr>phase := Serving\<rparr>"
  have "process_step ?p (on_signal SigTerm None ?p)" by (rule process_step.signal) (simp add: alive_def)
  moreover have "on_signal SigTerm None ?p = demo_process None" by (simp add: on_signal_def demo_process_def)
  ultimately show ?thesis using demo_serving_reachable process_reachable.step by metis
qed

text \<open>The same with a client connected.\<close>

definition demo_connected :: "(mem_redis, nat, demo_json) server" where
  "demo_connected = (server_new (demo_state default_config))
     \<lparr>app := snd (handle_socket demo_ext demo_query (demo_state default_config)), sockets := [(''a'', 0)]\<rparr>"

definition closing_process :: "('r, 'g, 'v) server \<Rightarrow> ('r, 'g, 'v, 'k) process" where
  "closing_process s = \<lparr>srv = s, phase = Closing, running = spawn_order, signalled = False, certificate = None\<rparr>"

lemma demo_connected_client: "reachable_client (app demo_connected) ''a''"
proof -
  have "existing_token demo_ext ''a'' (demo_state default_config) = None"
    by (simp add: existing_token_def get_client_token_def demo_ext_def mem_api_def mem_empty_def)
  moreover have "reachable_client (snd (connect_new demo_ext ''a'' ''ta'' ls None (demo_state default_config))) ''a''" for ls
    by (cases rule: connect_new_cases [of "demo_state default_config" demo_ext "''a''" "''ta''" ls None])
      (auto simp: register_client_def demo_ext_def mem_api_def reachable_client_def chans_run_client)
  ultimately show ?thesis
    by (simp add: demo_connected_def handle_socket_def demo_authenticate)
qed

lemma demo_connected_reachable: "process_reachable (closing_process demo_connected :: (mem_redis, nat, demo_json, nat) process)"
proof -
  let ?p = "(demo_process (None :: nat option))\<lparr>phase := Serving\<rparr>" and ?s = "server_new (demo_state default_config)"
  obtain st' where st': "handle_socket demo_ext demo_query (app ?s) = (Connected 0, st')"
    using demo_connect by (auto simp: server_new_def)
  have "q_id demo_query = Some ''a''" by (simp add: demo_query_def)
  from server_act.connect [OF st' this] have "server_act Request ?s demo_connected"
    using st' by (simp add: demo_connected_def server_new_def)
  moreover have p: "srv ?p = ?s" "alive ?p" "may_act Request ?p" by (simp_all add: demo_process_def alive_def)
  ultimately have "process_step ?p (?p\<lparr>srv := demo_connected\<rparr>)" using process_step.acts [of ?p Request demo_connected] by simp
  moreover have "process_step (?p\<lparr>srv := demo_connected\<rparr>) (on_signal SigTerm None (?p\<lparr>srv := demo_connected\<rparr>))"
    by (rule process_step.signal) (simp add: alive_def)
  moreover have "on_signal SigTerm None (?p\<lparr>srv := demo_connected\<rparr>) = closing_process demo_connected"
    by (simp add: on_signal_def demo_process_def closing_process_def)
  ultimately show ?thesis using demo_serving_reachable process_reachable.step by metis
qed

text \<open>A run in which nothing happens but the shutdown, the drain lasting to its deadline.\<close>

definition proceed :: "('r, 'g, 'v, 'k) process \<Rightarrow> ('r, 'g, 'v, 'k) process" where
  "proceed p =
     (case phase p of
        Closing \<Rightarrow> begin_drain 0 p
      | Draining d \<Rightarrow> drain_look d d p
      | Awaiting [] \<Rightarrow> p\<lparr>phase := Exited\<rparr>
      | Awaiting (t # ts) \<Rightarrow>
          if t \<in> set (running p) then p\<lparr>running := removeAll t (running p)\<rparr> else p\<lparr>phase := Awaiting ts\<rparr>
      | _ \<Rightarrow> p)"

lemma proceed_step:
  assumes "phase_ok p" "streams (srv p) = []" "phase p \<noteq> Serving"
  shows "process_step p (proceed p) \<or> (\<not> alive p \<and> proceed p = p)"
    and "phase_ok (proceed p)" "streams (srv (proceed p)) = []" "phase (proceed p) \<noteq> Serving"
proof -
  show step: "process_step p (proceed p) \<or> (\<not> alive p \<and> proceed p = p)"
  proof (cases "phase p")
    case (Awaiting ts)
    with assms(1) show ?thesis
      by (cases ts) (auto simp: proceed_def phase_ok_def alive_def intro: process_step.intros)
  qed (use assms in \<open>auto simp: proceed_def alive_def intro: process_step.intros\<close>)
  then show "phase_ok (proceed p)" using assms(1) phase_ok_step by metis
  show "streams (srv (proceed p)) = []" "phase (proceed p) \<noteq> Serving"
    using assms by (auto simp: proceed_def begin_drain_def drain_look_def signal_tasks_def split: phase.split list.split option.split)
qed

lemma awaiting_proceeds:
  "phase p = Awaiting ts \<Longrightarrow> running p = ts \<Longrightarrow> distinct ts \<Longrightarrow> phase ((proceed ^^ (2 * length ts + 1)) p) = Exited"
proof (induction ts arbitrary: p)
  case (Cons t ts)
  then have "proceed (proceed p) = p\<lparr>running := ts, phase := Awaiting ts\<rparr>" by (simp add: proceed_def)
  moreover have "(proceed ^^ (2 * length (t # ts) + 1)) p = (proceed ^^ (2 * length ts + 1)) (proceed (proceed p))"
    by (simp add: funpow_swap1)
  ultimately show ?case using Cons.IH [of "p\<lparr>running := ts, phase := Awaiting ts\<rparr>"] Cons.prems(3) by simp
qed (simp add: proceed_def)

lemma proceed_exits:
  assumes "streams s = []"
  shows "phase ((proceed ^^ 11) (closing_process s)) = Exited"
proof -
  let ?q = "proceed (proceed (closing_process s))"
  have "phase ?q = Awaiting spawn_order" "running ?q = spawn_order"
    by (simp_all add: closing_process_def proceed_def begin_drain_def drain_look_def signal_tasks_def)
  then have "phase ((proceed ^^ (2 * length spawn_order + 1)) ?q) = Exited"
    by (rule awaiting_proceeds) (simp add: spawn_order_def)
  moreover have "(proceed ^^ 11) (closing_process s) = (proceed ^^ (2 * length spawn_order + 1)) ?q"
    by (simp add: spawn_order_def eval_nat_numeral funpow_swap1)
  ultimately show ?thesis by metis
qed

lemma proceed_fair:
  fixes s :: "('r, 'g, 'v) server"
  assumes "streams s = []"
  defines "f \<equiv> \<lambda>i. (proceed ^^ i) (closing_process s :: ('r, 'g, 'v, 'k) process)"
  shows "fair_run f" "phase (f 11) = Exited"
proof -
  have ok: "phase_ok (f i) \<and> streams (srv (f i)) = [] \<and> phase (f i) \<noteq> Serving" for i
  proof (induction i)
    case 0
    show ?case using assms(1) by (simp add: f_def closing_process_def phase_ok_def)
  next
    case (Suc i)
    then show ?case using proceed_step(2-4) [of "f i"] by (simp add: f_def)
  qed
  show exits: "phase (f 11) = Exited" unfolding f_def by (rule proceed_exits [OF assms(1)])
  have "phase (f (i + 11)) = Exited" for i
  proof (induction i)
    case (Suc i)
    have "f (Suc i + 11) = proceed (f (i + 11))" by (simp only: f_def add_Suc funpow.simps o_apply)
    with Suc show ?case by (simp only: proceed_def phase.case)
  qed (use exits in simp)
  then have after: "\<exists>j \<ge> i. phase (f j) = Exited" for i by (metis le_add1)
  have "process_step (f i) (f (Suc i)) \<or> (\<not> alive (f i) \<and> f (Suc i) = f i)" for i
    using proceed_step(1) [of "f i"] ok [of i] by (simp add: f_def)
  moreover have "\<exists>j \<ge> i. phase (f j) \<noteq> ph \<or> Q j" if "ph \<noteq> Exited" for i ph Q using after [of i] that by metis
  moreover have "\<exists>j \<ge> i. t \<notin> set (running (f j)) \<or> \<not> alive (f j)" for i t using after [of i] by (auto simp: alive_def)
  ultimately show "fair_run f" by (simp add: fair_run_def)
qed

lemma demo_tls_reachable: "process_reachable (demo_process (Some (k :: nat)))"
  by (rule demo_launch [of "default_config\<lparr>cfg_sslkey := Some ''key.pem'', cfg_sslcert := Some ''cert.pem''\<rparr>" "Some k" True])
    (simp_all add: launch_def serves_tls_def default_config_def demo_process_def Let_def)

section \<open>Properties\<close>

text \<open>
  C20: The shutdown keeps its order. In every reachable state of the process: while it serves, finishes
  open requests or drains, all four background tasks run and none has been told to stop; a task
  returns only after that signal, and \<^verbatim>\<open>main\<close> returns only after all four have; and the server's own
  invariant holds through all of it.
\<close>

theorem shutdown_keeps_order:
  assumes "process_reachable p"
  shows "server_ok (srv p) \<and>
    (case phase p of
       Awaiting ts \<Rightarrow> signalled p \<and> set (running p) \<subseteq> set ts
     | Exited \<Rightarrow> running p = []
     | Killed \<Rightarrow> True
     | _ \<Rightarrow> running p = spawn_order \<and> \<not> signalled p)"
  using process_ok [OF assms] by (auto simp: phase_ok_def split: phase.splits)

theorem shutdown_keeps_order_witness:
  "running (demo_process (None :: nat option)) = spawn_order \<and> server_ok (srv (demo_process (None :: nat option)))"
  using shutdown_keeps_order [OF demo_plain_reachable] by (simp add: demo_process_def)

text \<open>
  C21: The shutdown ends. Take any run of the process from a state in which the HTTP server is closing, with any
  steps of clients, tasks and signals in any order, fair to the process itself. Then the process ends, unless it is
  killed by a hang-up signal or event streams keep the HTTP server from returning for ever. When the HTTP server
  returns, every client with a live channel, and no other, has the CLOSE frame as the new last frame of its channel,
  and the drain gets a deadline 30 seconds later. A look of the drain goes on waiting exactly while senders are left
  and the deadline is not reached; otherwise the background tasks are told to stop, whatever senders are left.
\<close>

theorem shutdown_ends:
  assumes "process_reachable (f 0)" "phase (f 0) = Closing" "fair_run f"
  shows "((\<exists>i. phase (f i) = Exited) \<or> (\<exists>i. hung_up (f i) (f (Suc i))) \<or>
      (\<forall>i. phase (f i) = Closing \<and> (\<exists>j \<ge> i. streams (srv (f j)) \<noteq> []))) \<and>
    (\<forall>i d. phase (f i) = Closing \<and> phase (f (Suc i)) = Draining d \<longrightarrow>
      (\<exists>now. f (Suc i) = begin_drain now (f i) \<and> d = now + 30000000000) \<and>
      (\<forall>c. inbox (app (srv (f (Suc i)))) c = inbox (app (srv (f i))) c @
         (if reachable_client (app (srv (f i))) c then [close_frame 4001 ''shutting-down''] else []))) \<and>
    (\<forall>i d now. phase (f i) = Draining d \<and> f (Suc i) = drain_look d now (f i) \<longrightarrow>
      phase (f (Suc i)) = (if ws_senders (app (srv (f i))) \<noteq> [] \<and> now < d then Draining d else Awaiting spawn_order))"
proof (intro conjI allI impI)
  show "(\<exists>i. phase (f i) = Exited) \<or> (\<exists>i. hung_up (f i) (f (Suc i))) \<or>
      (\<forall>i. phase (f i) = Closing \<and> (\<exists>j \<ge> i. streams (srv (f j)) \<noteq> []))"
    using closing_ends [OF assms(3,1) _ assms(2)] by blast
next
  fix i d
  assume i: "phase (f i) = Closing \<and> phase (f (Suc i)) = Draining d"
  note steps = fair_steps [OF assms(3,1)]
  from i have "process_step (f i) (f (Suc i))" by (intro steps(4)) (simp add: alive_def)
  moreover have "\<not> hung_up (f i) (f (Suc i))"
    using i steps(1) [of i] by (auto simp: hung_up_def on_signal_def phase_ok_def)
  ultimately obtain now where now: "f (Suc i) = begin_drain now (f i)"
    using closing_step steps(1) i by fastforce
  with i show "\<exists>now. f (Suc i) = begin_drain now (f i) \<and> d = now + 30000000000"
    by (intro exI [of _ now]) (simp add: begin_drain_def DRAIN_TIMEOUT_def)
  show "inbox (app (srv (f (Suc i)))) c = inbox (app (srv (f i))) c @
      (if reachable_client (app (srv (f i))) c then [close_frame 4001 ''shutting-down''] else [])" for c
    unfolding now by (rule drain_frames [OF steps(2)])
next
  fix i d now
  assume "phase (f i) = Draining d \<and> f (Suc i) = drain_look d now (f i)"
  then show "phase (f (Suc i)) = (if ws_senders (app (srv (f i))) \<noteq> [] \<and> now < d then Draining d else Awaiting spawn_order)"
    by (simp add: drain_look_phase)
qed

text \<open>A client is connected when the server is told to stop; the drain waits for it to its deadline.\<close>

theorem shutdown_ends_witness:
  "\<exists>f :: nat \<Rightarrow> (mem_redis, nat, demo_json, nat) process. fair_run f \<and> phase (f 0) = Closing \<and> phase (f 11) = Exited \<and>
     inbox (app (srv (f 1))) ''a'' = inbox (app (srv (f 0))) ''a'' @ [close_frame 4001 ''shutting-down''] \<and>
     (\<exists>now. f 1 = begin_drain now (f 0) \<and> phase (f 1) = Draining (now + 30000000000))"
proof -
  let ?p = "closing_process (demo_connected :: (mem_redis, nat, demo_json) server) :: (mem_redis, nat, demo_json, nat) process"
  let ?f = "\<lambda>i. (proceed ^^ i) ?p"
  have streams: "streams demo_connected = []" by (simp add: demo_connected_def server_new_def)
  note run = proceed_fair [OF streams, where 'k = nat]
  have zero: "phase (?f 0) = Closing" "phase (?f (Suc 0)) = Draining (0 + DRAIN_TIMEOUT)"
    by (simp_all add: closing_process_def proceed_def begin_drain_def)
  have "process_reachable (?f 0)" using demo_connected_reachable by simp
  from shutdown_ends [OF this zero(1) run(1)] zero obtain now where
    "?f (Suc 0) = begin_drain now (?f 0)" "0 + DRAIN_TIMEOUT = now + 30000000000"
    and "inbox (app (srv (?f (Suc 0)))) ''a'' = inbox (app (srv (?f 0))) ''a'' @
      (if reachable_client (app (srv (?f 0))) ''a'' then [close_frame 4001 ''shutting-down''] else [])"
    by blast
  moreover have "reachable_client (app (srv (?f 0))) ''a''" using demo_connected_client by (simp add: closing_process_def)
  ultimately show ?thesis using run zero by (intro exI [of _ ?f]) (auto simp del: funpow.simps)
qed

text \<open>
  C35: Serving with TLS. A hang-up signal puts the certificate read from disk into use, and a file that
  cannot be read leaves the one in use, both without any interruption; but no other signal is
  handled: a process that serves TLS never starts the graceful shutdown, whatever it is sent, and
  an interrupt or a termination ends it at once.
\<close>

theorem tls_reload_and_no_drain:
  assumes "process_reachable p" "certificate p = Some k"
  shows "(phase p = Serving \<or> phase p = Killed) \<and>
    on_signal SigHup loaded p = p\<lparr>certificate := Some (case loaded of None \<Rightarrow> k | Some k' \<Rightarrow> k')\<rparr> \<and>
    phase (on_signal SigTerm loaded p) = Killed \<and> phase (on_signal CtrlC loaded p) = Killed"
proof (intro conjI)
  show "phase p = Serving \<or> phase p = Killed"
    using process_ok [OF assms(1)] assms(2) by (auto simp: phase_ok_def split: phase.splits)
  show "on_signal SigHup loaded p = p\<lparr>certificate := Some (case loaded of None \<Rightarrow> k | Some k' \<Rightarrow> k')\<rparr>"
    using assms(2) by (cases p) (simp add: on_signal_def split: option.split)
qed (simp_all add: on_signal_def assms(2))

theorem tls_reload_and_no_drain_witness:
  "certificate (on_signal SigHup (Some 2) (demo_process (Some (1 :: nat)))) = Some 2 \<and>
   certificate (on_signal SigHup None (demo_process (Some (1 :: nat)))) = Some 1 \<and>
   phase (on_signal SigTerm None (demo_process (Some (1 :: nat)))) = Killed"
proof -
  have "certificate (demo_process (Some (1 :: nat))) = Some 1" by (simp add: demo_process_def)
  note tls = tls_reload_and_no_drain [OF demo_tls_reachable this]
  show ?thesis using tls [of "Some 2"] tls [of None] by simp
qed

end
