(* ===== verification/Message_Json.thy ===== *)
theory Message_Json
  imports Message_Model
begin

text \<open>
  \<^verbatim>\<open>src/models/message.rs\<close>: how the serde attributes of \<^verbatim>\<open>Message\<close> turn a JSON value into a
  message and back. The text of a JSON value is read and written by \<^verbatim>\<open>serde_json\<close>, a parameter of
  the model; what is modelled is the code the attributes generate: which field names are read,
  which values each field takes, what is an error, which fields are written and in which order.

  A JSON value carries its own text, because \<^verbatim>\<open>RawValue\<close> keeps it.
\<close>

section \<open>JSON values\<close>

datatype json = Json (jraw: string) (jbody: json_body)
and json_body = JNull | JBool bool | JInt int | JFloat | JStr string | JArr "json list"
  | JObj "(string \<times> json) list"

datatype de_error = MissingField string | DuplicateField string | InvalidType | InvalidLength nat
  | UnknownVariant string | OutOfRange | TrailingElements | Syntax

section \<open>Reading\<close>

text \<open>A unit variant is its name, or an object with that name as its only key and null as its value.\<close>

definition variant_of_name :: "string \<Rightarrow> de_error + MessageType" where
  "variant_of_name s = (case from_serde_name s of None \<Rightarrow> Inl (UnknownVariant s) | Some t \<Rightarrow> Inr t)"

fun de_variant :: "json_body \<Rightarrow> de_error + MessageType" where
  "de_variant (JStr s) = variant_of_name s"
| "de_variant (JObj [(k, v)]) =
     (case variant_of_name k of Inl e \<Rightarrow> Inl e | Inr t \<Rightarrow> if jbody v = JNull then Inr t else Inl InvalidType)"
| "de_variant b = Inl InvalidType"

fun de_string :: "json_body \<Rightarrow> de_error + string" where
  "de_string (JStr s) = Inr s"
| "de_string b = Inl InvalidType"

fun de_u64 :: "json_body \<Rightarrow> de_error + u64" where
  "de_u64 (JInt n) = (if 0 \<le> n \<and> n < 2 ^ 64 then Inr (word_of_int n) else Inl OutOfRange)"
| "de_u64 b = Inl InvalidType"

fun de_i64 :: "json_body \<Rightarrow> de_error + i64" where
  "de_i64 (JInt n) = (if - (2 ^ 63) \<le> n \<and> n < 2 ^ 63 then Inr (word_of_int n) else Inl OutOfRange)"
| "de_i64 b = Inl InvalidType"

text \<open>\<^verbatim>\<open>Option\<close>: null is \<^verbatim>\<open>None\<close>, for the raw payload too.\<close>

definition de_option :: "(json \<Rightarrow> de_error + 'a) \<Rightarrow> json \<Rightarrow> de_error + 'a option" where
  "de_option de v = (if jbody v = JNull then Inr None else map_sum id Some (de v))"

definition de_type :: "json \<Rightarrow> de_error + MessageType" where
  "de_type v = de_variant (jbody v)"

definition de_text :: "json \<Rightarrow> de_error + string option" where
  "de_text = de_option (\<lambda>v. de_string (jbody v))"

definition de_payload :: "json \<Rightarrow> de_error + string option" where
  "de_payload = de_option (\<lambda>v. Inr (jraw v))"

definition de_seq :: "json \<Rightarrow> de_error + u64 option" where
  "de_seq = de_option (\<lambda>v. de_u64 (jbody v))"

definition de_timestamp :: "json \<Rightarrow> de_error + i64 option" where
  "de_timestamp = de_option (\<lambda>v. de_i64 (jbody v))"

text \<open>The fields seen so far; a field that was null has been seen.\<close>

record partial_message =
  p_type :: "MessageType option"
  p_src :: "string option option"
  p_dst :: "string option option"
  p_payload :: "string option option"
  p_seq :: "u64 option option"
  p_room :: "string option option"
  p_timestamp :: "i64 option option"
  p_topic_class :: "string option option"

definition no_fields :: partial_message where
  "no_fields = \<lparr>p_type = None, p_src = None, p_dst = None, p_payload = None, p_seq = None, p_room = None,
     p_timestamp = None, p_topic_class = None\<rparr>"

text \<open>One field of the object: an error when it was seen before, else its value.\<close>

definition take_field ::
  "string \<Rightarrow> 'a option \<Rightarrow> (json \<Rightarrow> de_error + 'a) \<Rightarrow> ('a \<Rightarrow> partial_message) \<Rightarrow> json \<Rightarrow> de_error + partial_message" where
  "take_field k old de put v = (case old of Some x \<Rightarrow> Inl (DuplicateField k) | None \<Rightarrow> map_sum id put (de v))"

definition visit_field :: "string \<Rightarrow> json \<Rightarrow> partial_message \<Rightarrow> de_error + partial_message" where
  "visit_field k v p =
     (if k = ''type'' then take_field k (p_type p) de_type (\<lambda>x. p\<lparr>p_type := Some x\<rparr>) v
      else if k = ''src'' then take_field k (p_src p) de_text (\<lambda>x. p\<lparr>p_src := Some x\<rparr>) v
      else if k = ''dst'' then take_field k (p_dst p) de_text (\<lambda>x. p\<lparr>p_dst := Some x\<rparr>) v
      else if k = ''payload'' then take_field k (p_payload p) de_payload (\<lambda>x. p\<lparr>p_payload := Some x\<rparr>) v
      else if k = ''seq'' then take_field k (p_seq p) de_seq (\<lambda>x. p\<lparr>p_seq := Some x\<rparr>) v
      else if k = ''room'' then take_field k (p_room p) de_text (\<lambda>x. p\<lparr>p_room := Some x\<rparr>) v
      else if k = ''timestamp'' then take_field k (p_timestamp p) de_timestamp (\<lambda>x. p\<lparr>p_timestamp := Some x\<rparr>) v
      else if k = ''topic_class'' then take_field k (p_topic_class p) de_text (\<lambda>x. p\<lparr>p_topic_class := Some x\<rparr>) v
      else Inr p)"

fun visit_map :: "(string \<times> json) list \<Rightarrow> partial_message \<Rightarrow> de_error + partial_message" where
  "visit_map [] p = Inr p"
| "visit_map ((k, v) # kvs) p = (case visit_field k v p of Inl e \<Rightarrow> Inl e | Inr p' \<Rightarrow> visit_map kvs p')"

text \<open>\<^verbatim>\<open>#[serde(default)]\<close>: every field but the type may be missing.\<close>

definition or_default :: "'a option option \<Rightarrow> 'a option" where
  "or_default x = (case x of None \<Rightarrow> None | Some v \<Rightarrow> v)"

definition finish_message :: "partial_message \<Rightarrow> de_error + message" where
  "finish_message p =
     (case p_type p of
        None \<Rightarrow> Inl (MissingField ''type'')
      | Some t \<Rightarrow> Inr \<lparr>msg_type = t, src = or_default (p_src p), dst = or_default (p_dst p),
          payload = or_default (p_payload p), seq = or_default (p_seq p), room = or_default (p_room p),
          timestamp = or_default (p_timestamp p), topic_class = or_default (p_topic_class p)\<rparr>)"

text \<open>A struct is also read from an array, its fields in the order of their declaration.\<close>

definition field_order :: "string list" where
  "field_order = [''type'', ''src'', ''dst'', ''payload'', ''seq'', ''room'', ''timestamp'', ''topic_class'']"

definition visit_seq :: "json list \<Rightarrow> de_error + message" where
  "visit_seq vs =
     (if vs = [] then Inl (InvalidLength 0)
      else case visit_map (zip field_order vs) no_fields of
        Inl e \<Rightarrow> Inl e
      | Inr p \<Rightarrow> if length field_order < length vs then Inl TrailingElements else finish_message p)"

fun de_message :: "json_body \<Rightarrow> de_error + message" where
  "de_message (JObj kvs) = (case visit_map kvs no_fields of Inl e \<Rightarrow> Inl e | Inr p \<Rightarrow> finish_message p)"
| "de_message (JArr vs) = visit_seq vs"
| "de_message b = Inl InvalidType"

text \<open>\<^verbatim>\<open>serde_json::from_str::<Message>\<close>, over the reader of JSON texts.\<close>

definition message_from_str :: "(string \<Rightarrow> json option) \<Rightarrow> string \<Rightarrow> de_error + message" where
  "message_from_str parse s = (case parse s of None \<Rightarrow> Inl Syntax | Some v \<Rightarrow> de_message (jbody v))"

section \<open>Writing\<close>

text \<open>
  What the generated code hands to the serializer: a string to quote, a number, raw text, and for the
  other records of the program null, a truth value, an array and an object.
\<close>

datatype json_out = OStr string | OInt int | ORaw string | ONull | OBool bool | OArr "json_out list"
  | OObj "(string \<times> json_out) list"

text \<open>\<^verbatim>\<open>skip_serializing_if = "Option::is_none"\<close>.\<close>

definition out_field :: "string \<Rightarrow> ('a \<Rightarrow> json_out) \<Rightarrow> 'a option \<Rightarrow> (string \<times> json_out) list" where
  "out_field k f x = (case x of None \<Rightarrow> [] | Some v \<Rightarrow> [(k, f v)])"

definition message_fields :: "message \<Rightarrow> (string \<times> json_out) list" where
  "message_fields m =
     (''type'', OStr (serde_name (msg_type m))) # out_field ''src'' OStr (src m) @ out_field ''dst'' OStr (dst m) @
     out_field ''payload'' ORaw (payload m) @ out_field ''seq'' (\<lambda>n. OInt (uint n)) (seq m) @
     out_field ''room'' OStr (room m) @ out_field ''timestamp'' (\<lambda>n. OInt (sint n)) (timestamp m) @
     out_field ''topic_class'' OStr (topic_class m)"

text \<open>\<^verbatim>\<open>serde_json::to_string(&msg)\<close>, over the writer of JSON objects.\<close>

definition message_to_string :: "((string \<times> json_out) list \<Rightarrow> string) \<Rightarrow> message \<Rightarrow> string" where
  "message_to_string write m = write (message_fields m)"

section \<open>What reader and writer of the texts promise each other\<close>

text \<open>
  A written value read back: raw text is what it parses to, everything else is itself, arrays and objects
  part by part.
\<close>

fun reads_as :: "(string \<Rightarrow> json option) \<Rightarrow> json_out \<Rightarrow> json \<Rightarrow> bool" where
  "reads_as parse (OStr s) v \<longleftrightarrow> jbody v = JStr s"
| "reads_as parse (OInt n) v \<longleftrightarrow> jbody v = JInt n"
| "reads_as parse (ORaw r) v \<longleftrightarrow> parse r = Some v"
| "reads_as parse ONull v \<longleftrightarrow> jbody v = JNull"
| "reads_as parse (OBool b) v \<longleftrightarrow> jbody v = JBool b"
| "reads_as parse (OArr outs) v \<longleftrightarrow>
     (case jbody v of JArr vs \<Rightarrow> list_all2 (\<lambda>out w. reads_as parse out w) outs vs | _ \<Rightarrow> False)"
| "reads_as parse (OObj fs) v \<longleftrightarrow>
     (case jbody v of
        JObj kvs \<Rightarrow> list_all2 (\<lambda>f kv. fst kv = fst f \<and> reads_as parse (snd f) (snd kv)) fs kvs
      | _ \<Rightarrow> False)"

text \<open>The written object of the fields \<open>fs\<close> reads as an object with those fields in that order.\<close>

definition reads_back ::
  "(string \<Rightarrow> json option) \<Rightarrow> ((string \<times> json_out) list \<Rightarrow> string) \<Rightarrow> (string \<times> json_out) list \<Rightarrow> bool" where
  "reads_back parse write fs \<longleftrightarrow>
     (\<exists>v kvs. parse (write fs) = Some v \<and> jbody v = JObj kvs \<and>
        list_all2 (\<lambda>(k, out) (k', w). k' = k \<and> reads_as parse out w) fs kvs)"

text \<open>The text kept with a part of a JSON text is the text of that part.\<close>

definition raw_parts :: "json_body \<Rightarrow> json list" where
  "raw_parts b = (case b of JObj kvs \<Rightarrow> map snd kvs | JArr vs \<Rightarrow> vs | _ \<Rightarrow> [])"

definition raw_texts_ok :: "(string \<Rightarrow> json option) \<Rightarrow> string \<Rightarrow> bool" where
  "raw_texts_ok parse s =
     (case parse s of None \<Rightarrow> True | Some v \<Rightarrow> list_all (\<lambda>w. parse (jraw w) = Some w) (raw_parts (jbody v)))"

section \<open>A field by itself\<close>

text \<open>
  The reference reading of one field, from all values the object has under its name: absent, the one
  value, or no reading at all for a value of the wrong type or a repeated name.
\<close>

definition values_of :: "string \<Rightarrow> (string \<times> json) list \<Rightarrow> json list" where
  "values_of k kvs = map snd (filter (\<lambda>(k', v). k' = k) kvs)"

fun sole_value :: "(json \<Rightarrow> de_error + 'a) \<Rightarrow> json list \<Rightarrow> 'a option option" where
  "sole_value de [] = Some None"
| "sole_value de [v] = (case de v of Inl e \<Rightarrow> None | Inr x \<Rightarrow> Some (Some x))"
| "sole_value de (v # w # vs) = None"

definition reads_field :: "(json \<Rightarrow> de_error + 'a) \<Rightarrow> string \<Rightarrow> (string \<times> json) list \<Rightarrow> 'a option \<Rightarrow> bool" where
  "reads_field de k kvs x \<longleftrightarrow> sole_value de (values_of k kvs) = Some x"

text \<open>The same for a field that may have been seen before the object's remaining entries.\<close>

definition field_step :: "(json \<Rightarrow> de_error + 'a) \<Rightarrow> json list \<Rightarrow> 'a option \<Rightarrow> 'a option \<Rightarrow> bool" where
  "field_step de vs old new \<longleftrightarrow> (if old = None then sole_value de vs = Some new else vs = [] \<and> new = old)"

lemma values_of_Nil [simp]: "values_of k [] = []"
  by (simp add: values_of_def)

lemma values_of_Cons [simp]: "values_of k ((k', v) # kvs) = (if k' = k then v # values_of k kvs else values_of k kvs)"
  by (simp add: values_of_def)

lemma field_step_Nil [simp]: "field_step de [] old new \<longleftrightarrow> new = old"
  by (auto simp: field_step_def)

lemma field_step_Cons:
  "field_step de (v # vs) old new \<longleftrightarrow> old = None \<and> (\<exists>x. de v = Inr x \<and> field_step de vs (Some x) new)"
  by (cases vs) (auto simp: field_step_def split: sum.splits)

lemma take_field_ex:
  "(\<exists>p. take_field k old de put v = Inr p \<and> P p) \<longleftrightarrow> old = None \<and> (\<exists>x. de v = Inr x \<and> P (put x))"
  by (cases "de v") (auto simp: take_field_def split: option.split)

text \<open>The visitor treats the fields independently of each other.\<close>

definition fields_step :: "(string \<times> json) list \<Rightarrow> partial_message \<Rightarrow> partial_message \<Rightarrow> bool" where
  "fields_step kvs p q \<longleftrightarrow>
     field_step de_type (values_of ''type'' kvs) (p_type p) (p_type q) \<and>
     field_step de_text (values_of ''src'' kvs) (p_src p) (p_src q) \<and>
     field_step de_text (values_of ''dst'' kvs) (p_dst p) (p_dst q) \<and>
     field_step de_payload (values_of ''payload'' kvs) (p_payload p) (p_payload q) \<and>
     field_step de_seq (values_of ''seq'' kvs) (p_seq p) (p_seq q) \<and>
     field_step de_text (values_of ''room'' kvs) (p_room p) (p_room q) \<and>
     field_step de_timestamp (values_of ''timestamp'' kvs) (p_timestamp p) (p_timestamp q) \<and>
     field_step de_text (values_of ''topic_class'' kvs) (p_topic_class p) (p_topic_class q)"

lemma fields_step_Cons:
  "fields_step ((k, v) # kvs) p q \<longleftrightarrow> (\<exists>p'. visit_field k v p = Inr p' \<and> fields_step kvs p' q)"
proof (cases "k \<in> set field_order")
  case True
  then have "k = ''type'' \<or> k = ''src'' \<or> k = ''dst'' \<or> k = ''payload'' \<or> k = ''seq'' \<or> k = ''room'' \<or>
      k = ''timestamp'' \<or> k = ''topic_class''" by (simp add: field_order_def)
  then show ?thesis
    by (elim disjE) (simp_all add: visit_field_def take_field_ex fields_step_def field_step_Cons, auto)
next
  case False
  then show ?thesis by (simp add: fields_step_def visit_field_def field_order_def)
qed

lemma visit_map_iff: "visit_map kvs p = Inr q \<longleftrightarrow> fields_step kvs p q"
proof (induction kvs p rule: visit_map.induct)
  case (1 p)
  have "q = p \<longleftrightarrow> fields_step [] p q" by (cases p; cases q) (auto simp: fields_step_def)
  then show ?case by auto
next
  case (2 k v kvs p)
  then show ?case by (cases "visit_field k v p") (simp_all add: fields_step_Cons)
qed

text \<open>The reference reading of an object.\<close>

definition reads_message :: "(string \<times> json) list \<Rightarrow> message \<Rightarrow> bool" where
  "reads_message kvs m \<longleftrightarrow>
     reads_field de_type ''type'' kvs (Some (msg_type m)) \<and>
     (\<exists>x. reads_field de_text ''src'' kvs x \<and> src m = or_default x) \<and>
     (\<exists>x. reads_field de_text ''dst'' kvs x \<and> dst m = or_default x) \<and>
     (\<exists>x. reads_field de_payload ''payload'' kvs x \<and> payload m = or_default x) \<and>
     (\<exists>x. reads_field de_seq ''seq'' kvs x \<and> seq m = or_default x) \<and>
     (\<exists>x. reads_field de_text ''room'' kvs x \<and> room m = or_default x) \<and>
     (\<exists>x. reads_field de_timestamp ''timestamp'' kvs x \<and> timestamp m = or_default x) \<and>
     (\<exists>x. reads_field de_text ''topic_class'' kvs x \<and> topic_class m = or_default x)"

lemma finish_message_iff:
  "finish_message p = Inr m \<longleftrightarrow> p_type p = Some (msg_type m) \<and> src m = or_default (p_src p) \<and>
     dst m = or_default (p_dst p) \<and> payload m = or_default (p_payload p) \<and> seq m = or_default (p_seq p) \<and>
     room m = or_default (p_room p) \<and> timestamp m = or_default (p_timestamp p) \<and>
     topic_class m = or_default (p_topic_class p)"
  by (cases m) (auto simp: finish_message_def split: option.split)

lemma de_object_iff: "de_message (JObj kvs) = Inr m \<longleftrightarrow> reads_message kvs m"
proof -
  have "de_message (JObj kvs) = Inr m \<longleftrightarrow> (\<exists>p. fields_step kvs no_fields p \<and> finish_message p = Inr m)"
    by (auto simp: visit_map_iff [symmetric] split: sum.split)
  also have "\<dots> \<longleftrightarrow> reads_message kvs m"
  proof
    assume "reads_message kvs m"
    then obtain x1 x2 x3 x4 x5 x6 x7 where x:
      "reads_field de_type ''type'' kvs (Some (msg_type m))"
      "reads_field de_text ''src'' kvs x1" "src m = or_default x1" "reads_field de_text ''dst'' kvs x2" "dst m = or_default x2"
      "reads_field de_payload ''payload'' kvs x3" "payload m = or_default x3"
      "reads_field de_seq ''seq'' kvs x4" "seq m = or_default x4" "reads_field de_text ''room'' kvs x5" "room m = or_default x5"
      "reads_field de_timestamp ''timestamp'' kvs x6" "timestamp m = or_default x6"
      "reads_field de_text ''topic_class'' kvs x7" "topic_class m = or_default x7"
      unfolding reads_message_def by blast
    let ?p = "\<lparr>p_type = Some (msg_type m), p_src = x1, p_dst = x2, p_payload = x3, p_seq = x4, p_room = x5,
      p_timestamp = x6, p_topic_class = x7\<rparr>"
    have "fields_step kvs no_fields ?p \<and> finish_message ?p = Inr m"
      using x by (simp add: finish_message_iff fields_step_def no_fields_def field_step_def reads_field_def)
    then show "\<exists>p. fields_step kvs no_fields p \<and> finish_message p = Inr m" by blast
  qed (auto simp: finish_message_iff reads_message_def fields_step_def no_fields_def field_step_def reads_field_def)
  finally show ?thesis .
qed

lemma visit_seq_iff:
  "visit_seq vs = Inr m \<longleftrightarrow> length vs \<in> {1..8} \<and> reads_message (zip field_order vs) m"
proof (cases "vs = [] \<or> length field_order < length vs")
  case True
  then show ?thesis by (auto simp: visit_seq_def field_order_def split: sum.split)
next
  case False
  then have "visit_seq vs = de_message (JObj (zip field_order vs))"
    by (simp add: visit_seq_def split: sum.split)
  moreover from False have "length vs \<in> {1..8}" by (cases vs) (auto simp: field_order_def)
  ultimately show ?thesis using de_object_iff by simp
qed

section \<open>Round trip\<close>

definition outs_of :: "string \<Rightarrow> (string \<times> json_out) list \<Rightarrow> json_out list" where
  "outs_of k fs = map snd (filter (\<lambda>(k', v). k' = k) fs)"

lemma outs_of_simps [simp]:
  "outs_of k [] = []"
  "outs_of k ((k', v) # fs) = (if k' = k then v # outs_of k fs else outs_of k fs)"
  "outs_of k (fs @ gs) = outs_of k fs @ outs_of k gs"
  "outs_of k (out_field k' f x) = (if k' = k then map f (option.case_option [] (\<lambda>v. [v]) x) else [])"
  by (simp_all add: outs_of_def out_field_def split: option.split)

lemma outs_of_read:
  "list_all2 (\<lambda>(k, out) (k', w). k' = k \<and> reads_as parse out w) fs kvs \<Longrightarrow>
   list_all2 (reads_as parse) (outs_of k fs) (values_of k kvs)"
  by (induction fs kvs rule: list_all2_induct) (auto simp: outs_of_def values_of_def)

lemma variant_of_serde_name [simp]: "variant_of_name (serde_name t) = Inr t"
  by (cases t) (simp_all add: variant_of_name_def from_serde_name_def all_message_types_def)

lemma de_u64_uint [simp]: "de_u64 (JInt (uint w)) = Inr w"
  using uint_bounded [of w] by simp

lemma de_i64_sint [simp]: "de_i64 (JInt (sint w)) = Inr w"
  using sint_greater_eq [of w] sint_less [of w] by simp

text \<open>A value that is written and then read as an optional field.\<close>

lemma reads_field_out:
  assumes "list_all2 (reads_as parse) (map f (case_option [] (\<lambda>v. [v]) x)) (values_of k kvs)"
    and "\<And>y v. x = Some y \<Longrightarrow> reads_as parse (f y) v \<Longrightarrow> de v = Inr (Some y)"
  shows "\<exists>z. reads_field de k kvs z \<and> x = or_default z"
proof (cases x)
  case None
  with assms(1) show ?thesis by (auto simp: reads_field_def or_default_def)
next
  case (Some y)
  with assms(1) obtain v where "values_of k kvs = [v]" "reads_as parse (f y) v"
    by (auto simp: list_all2_Cons1)
  with assms(2) [OF Some] Some show ?thesis by (auto simp: reads_field_def or_default_def)
qed

definition payload_parses :: "(string \<Rightarrow> json option) \<Rightarrow> message \<Rightarrow> bool" where
  "payload_parses parse m =
     (case payload m of None \<Rightarrow> True
      | Some r \<Rightarrow> (case parse r of None \<Rightarrow> False | Some v \<Rightarrow> jraw v = r \<and> jbody v \<noteq> JNull))"

lemma written_fields_read:
  assumes "list_all2 (\<lambda>(k, out) (k', w). k' = k \<and> reads_as parse out w) (message_fields m) kvs"
    and "payload_parses parse m"
  shows "reads_message kvs m"
proof -
  note of_key = outs_of_read [OF assms(1)]
  have "list_all2 (reads_as parse) [OStr (serde_name (msg_type m))] (values_of ''type'' kvs)"
    using of_key [of "''type''"] by (simp add: message_fields_def)
  then obtain v where "values_of ''type'' kvs = [v]" "jbody v = JStr (serde_name (msg_type m))"
    by (auto simp: list_all2_Cons1)
  then have "reads_field de_type ''type'' kvs (Some (msg_type m))"
    by (simp add: reads_field_def de_type_def)
  moreover have "\<exists>x. reads_field de_text ''src'' kvs x \<and> src m = or_default x"
    using of_key [of "''src''"] by (intro reads_field_out) (auto simp: message_fields_def de_text_def de_option_def)
  moreover have "\<exists>x. reads_field de_text ''dst'' kvs x \<and> dst m = or_default x"
    using of_key [of "''dst''"] by (intro reads_field_out) (auto simp: message_fields_def de_text_def de_option_def)
  moreover have "\<exists>x. reads_field de_payload ''payload'' kvs x \<and> payload m = or_default x"
    using of_key [of "''payload''"] assms(2)
    by (intro reads_field_out) (auto simp: message_fields_def de_payload_def de_option_def payload_parses_def)
  moreover have "\<exists>x. reads_field de_seq ''seq'' kvs x \<and> seq m = or_default x"
    using of_key [of "''seq''"]
    by (intro reads_field_out) (auto simp: message_fields_def de_seq_def de_option_def simp del: de_u64.simps)
  moreover have "\<exists>x. reads_field de_text ''room'' kvs x \<and> room m = or_default x"
    using of_key [of "''room''"] by (intro reads_field_out) (auto simp: message_fields_def de_text_def de_option_def)
  moreover have "\<exists>x. reads_field de_timestamp ''timestamp'' kvs x \<and> timestamp m = or_default x"
    using of_key [of "''timestamp''"]
    by (intro reads_field_out) (auto simp: message_fields_def de_timestamp_def de_option_def simp del: de_i64.simps)
  moreover have "\<exists>x. reads_field de_text ''topic_class'' kvs x \<and> topic_class m = or_default x"
    using of_key [of "''topic_class''"] by (intro reads_field_out) (auto simp: message_fields_def de_text_def de_option_def)
  ultimately show ?thesis unfolding reads_message_def by blast
qed

lemma written_message_reads:
  assumes "reads_back parse write (message_fields m)" "payload_parses parse m"
  shows "message_from_str parse (message_to_string write m) = Inr m"
proof -
  from assms(1) obtain v kvs where v: "parse (write (message_fields m)) = Some v" "jbody v = JObj kvs"
    and kvs: "list_all2 (\<lambda>(k, out) (k', w). k' = k \<and> reads_as parse out w) (message_fields m) kvs"
    unfolding reads_back_def by blast
  have "de_message (JObj kvs) = Inr m" using written_fields_read [OF kvs assms(2)] de_object_iff by blast
  with v show ?thesis by (simp only: message_from_str_def message_to_string_def option.case)
qed

lemma values_of_subset: "set (values_of k kvs) \<subseteq> set (map snd kvs)"
  by (auto simp: values_of_def)

lemma reads_field_Some: "reads_field de k kvs (Some x) \<longleftrightarrow> (\<exists>v. values_of k kvs = [v] \<and> de v = Inr x)"
  unfolding reads_field_def by (cases "(de, values_of k kvs)" rule: sole_value.cases) (auto split: sum.splits)

lemma read_payload_text:
  assumes "reads_message kvs m" "list_all (\<lambda>w. parse (jraw w) = Some w) (map snd kvs)"
  shows "payload_parses parse m"
proof (cases "payload m")
  case (Some r)
  from assms(1) obtain x where x: "reads_field de_payload ''payload'' kvs x" "payload m = or_default x"
    unfolding reads_message_def by blast
  with Some have "x = Some (Some r)" by (auto simp: or_default_def split: option.splits)
  with x(1) obtain v where v: "values_of ''payload'' kvs = [v]" "de_payload v = Inr (Some r)"
    by (auto simp: reads_field_Some)
  have "v \<in> set (map snd kvs)" using values_of_subset [of "''payload''" kvs] unfolding v(1) by simp
  with assms(2) have "parse (jraw v) = Some v" by (simp only: list_all_iff)
  moreover have "jbody v \<noteq> JNull" "jraw v = r" using v(2) by (simp_all add: de_payload_def de_option_def split: if_splits)
  ultimately show ?thesis using Some by (simp add: payload_parses_def)
qed (simp add: payload_parses_def)

lemma received_payload_parses:
  assumes "message_from_str parse s = Inr m" "raw_texts_ok parse s"
  shows "payload_parses parse m"
proof -
  from assms(1) obtain v where v: "parse s = Some v" "de_message (jbody v) = Inr m"
    by (auto simp: message_from_str_def split: option.splits)
  with assms(2) have parts: "list_all (\<lambda>w. parse (jraw w) = Some w) (raw_parts (jbody v))"
    by (simp add: raw_texts_ok_def)
  consider kvs where "jbody v = JObj kvs" | vs where "jbody v = JArr vs"
    using v(2) by (cases "jbody v") simp_all
  then show ?thesis
  proof cases
    case 1
    with v(2) de_object_iff have "reads_message kvs m" by metis
    with parts 1 show ?thesis by (intro read_payload_text) (simp_all add: raw_parts_def)
  next
    case 2
    with v(2) visit_seq_iff have "reads_message (zip field_order vs) m" by auto
    moreover have "set (map snd (zip field_order vs)) \<subseteq> set vs" by (auto dest: set_zip_rightD)
    ultimately show ?thesis using parts 2
      by (intro read_payload_text) (auto simp: raw_parts_def list_all_iff)
  qed
qed

section \<open>Properties\<close>

text \<open>
  C12: Reading a message is exact. A JSON value is accepted as a message precisely if it is an object
  whose fields, each looked up by its own name, have values of the field's type, or an array of one
  to eight such values in the order of the fields; then every field of the message is the value
  under its name, and missing or null where it may be. The type is required; a repeated field name
  refuses the message, and fields the message does not have change nothing.
\<close>

theorem message_reading_exact:
  "de_message b = Inr m \<longleftrightarrow>
     (case b of
        JObj kvs \<Rightarrow> reads_message kvs m
      | JArr vs \<Rightarrow> 1 \<le> length vs \<and> length vs \<le> 8 \<and> reads_message (zip field_order vs) m
      | _ \<Rightarrow> False)"
proof (cases b)
  case (JObj kvs)
  with de_object_iff show ?thesis by simp
next
  case (JArr vs)
  with visit_seq_iff show ?thesis by simp
qed simp_all

text \<open>
  C13: What a client sends is what a peer reads. If a text is accepted as a message, then the text the
  server writes for that message is accepted too and reads as the same message: the type, both
  addresses, the room, the topic class, all 64 bits of the sequence number and of the signed
  timestamp, and the payload character by character.
\<close>

theorem message_survives_relay:
  assumes "message_from_str parse s = Inr m"
    and "raw_texts_ok parse s" "reads_back parse write (message_fields m)"
  shows "message_from_str parse (message_to_string write m) = Inr m"
  using assms(3) received_payload_parses [OF assms(1,2)] by (rule written_message_reads)

text \<open>A text layer that knows the three texts of the example.\<close>

definition demo_payload :: json where
  "demo_payload = Json ''{}'' (JObj [])"

definition demo_parse :: "string \<Rightarrow> json option" where
  "demo_parse s =
     (if s = ''{}'' then Some demo_payload
      else if s = ''received'' then
        Some (Json s (JObj [(''seq'', Json ''7'' (JInt 7)), (''x'', Json ''null'' JNull), (''payload'', demo_payload),
          (''type'', Json ''\"OFFER\"'' (JStr ''OFFER''))]))
      else if s = ''relayed'' then
        Some (Json s (JObj [(''type'', Json ''\"OFFER\"'' (JStr ''OFFER'')), (''payload'', demo_payload),
          (''seq'', Json ''7'' (JInt 7))]))
      else if s = ''7'' then Some (Json s (JInt 7))
      else if s = ''null'' then Some (Json s JNull)
      else if s = ''\"OFFER\"'' then Some (Json s (JStr ''OFFER''))
      else None)"

theorem message_survives_relay_witness:
  "message_from_str demo_parse ''received'' = Inr ((bare_message OFFER (Some ''{}''))\<lparr>seq := Some 7\<rparr>) \<and>
   message_from_str demo_parse (message_to_string (\<lambda>fs. ''relayed'') ((bare_message OFFER (Some ''{}''))\<lparr>seq := Some 7\<rparr>)) =
     Inr ((bare_message OFFER (Some ''{}''))\<lparr>seq := Some 7\<rparr>)"
proof -
  let ?m = "(bare_message OFFER (Some ''{}''))\<lparr>seq := Some 7\<rparr>"
  have "message_from_str demo_parse ''received'' = Inr ?m" by code_simp
  moreover have "raw_texts_ok demo_parse ''received''" by code_simp
  moreover have "reads_back demo_parse (\<lambda>fs. ''relayed'') (message_fields ?m)"
    by (simp add: reads_back_def demo_parse_def demo_payload_def message_fields_def out_field_def bare_message_def)
  ultimately show ?thesis using message_survives_relay by simp
qed

end
