(* ===== verification/Store_Forward.thy ===== *)
theory Store_Forward
  imports Services Message_Json
begin

text \<open>
  Messages for a client that is away, across the components they pass: the message handler writes
  them (\<^verbatim>\<open>src/handlers/message.rs\<close>), Redis keeps them (\<^verbatim>\<open>src/redis_realm.rs\<close>), the session of the
  returning client reads and writes them again (\<^verbatim>\<open>src/handlers/ws.rs\<close>), with the message format of
  \<^verbatim>\<open>src/models/message.rs\<close> at both ends.
\<close>

text \<open>The serializer the handlers call is the one of the message format.\<close>

definition uses_message_format ::
  "(string \<Rightarrow> json option) \<Rightarrow> ((string \<times> json_out) list \<Rightarrow> string) \<Rightarrow> ('r, 'g, 'v) ext \<Rightarrow> bool" where
  "uses_message_format parse write X \<longleftrightarrow>
     x_ser X = (\<lambda>m. Some (message_to_string write m)) \<and>
     x_de X = (\<lambda>s. case message_from_str parse s of Inl e \<Rightarrow> None | Inr m \<Rightarrow> Some m)"

text \<open>A message with its true sender, as every handler relays it.\<close>

definition signed_by :: "string \<Rightarrow> message \<Rightarrow> message" where
  "signed_by c msg = msg\<lparr>src := Some c\<rparr>"

text \<open>
  What happens to the queue of a peer \<open>d\<close> while it is away: at some time a client sends it a message, or
  the expiry task looks at its queue.
\<close>

datatype away_event = Sent i64 string message | Swept i64

fun away_step :: "('r, 'g, 'v) ext \<Rightarrow> string \<Rightarrow> away_event \<Rightarrow> ('r, 'g, 'v) app_state \<Rightarrow> ('r, 'g, 'v) app_state" where
  "away_step X d (Sent t c msg) = handle_message (X\<lparr>wall := t\<rparr>) c msg"
| "away_step X d (Swept t) = expire_queue (X\<lparr>wall := t\<rparr>) d"

text \<open>The messages sent, with their times and true senders.\<close>

fun sent_messages :: "away_event list \<Rightarrow> (i64 \<times> message) list" where
  "sent_messages [] = []"
| "sent_messages (Sent t c msg # evs) = (t, signed_by c msg) # sent_messages evs"
| "sent_messages (Swept t # evs) = sent_messages evs"

text \<open>Every look of the expiry task comes less than the timeout after the last message.\<close>

fun in_time :: "i64 \<Rightarrow> i64 option \<Rightarrow> away_event list \<Rightarrow> bool" where
  "in_time timeout latest [] \<longleftrightarrow> True"
| "in_time timeout latest (Sent t c msg # evs) \<longleftrightarrow> 0 \<le> sint t \<and> in_time timeout (Some t) evs"
| "in_time timeout latest (Swept t # evs) \<longleftrightarrow>
     (case latest of None \<Rightarrow> False | Some t0 \<Rightarrow> 0 \<le> sint t \<and> sint t - sint t0 < sint timeout) \<and> in_time timeout latest evs"

text \<open>A signaling message that is kept for an absent peer \<open>d\<close>.\<close>

definition storable :: "string \<Rightarrow> message \<Rightarrow> bool" where
  "storable d msg \<longleftrightarrow> list_ex (\<lambda>t. t = msg_type msg) [OFFER, ANSWER, CANDIDATE, ACK] \<and> dst msg = Some d"

section \<open>Storing\<close>

text \<open>The time of day does not matter to the serializer.\<close>

lemma at_time_simps [simp]:
  "uses_message_format parse write (X\<lparr>wall := t, mono := i\<rparr>) = uses_message_format parse write X"
  "serialize_relay (X\<lparr>wall := t, mono := i\<rparr>) = serialize_relay X"
  "serialize_relay (X\<lparr>wall := t\<rparr>) = serialize_relay X"
  by (simp_all add: uses_message_format_def serialize_relay_def fun_eq_iff)

fun storable_event :: "string \<Rightarrow> away_event \<Rightarrow> bool" where
  "storable_event d (Sent t c msg) = storable d msg"
| "storable_event d (Swept t) = True"

lemma storable_queued:
  assumes "storable d msg" "d \<noteq> []" "dm_get (ws_senders st) d = None"
  shows "handle_message X c msg st = queue_message_raw X d (serialize_relay X (signed_by c msg)) (note_activity X c st)"
  using assms by (auto simp: storable_def handle_message_def handle_transmission_def or_empty_def signed_by_def)

lemma sweep_in_time:
  assumes "get_queue_last_read_at (x_redis X) d (redis st) = Inr (Some t0)" "0 \<le> sint t0" "0 \<le> sint t"
    and "sint t - sint t0 < sint (cfg_expire_timeout (config st))"
  shows "expire_queue (X\<lparr>wall := t\<rparr>) d st = st"
  using assms sint_diff [OF assms(3,2)] by (simp add: expire_queue_def)

text \<open>The part of the state a session start reads, which the events leave alone.\<close>

definition queue_context :: "('r, 'g, 'v) app_state \<Rightarrow> _" where
  "queue_context st = (ws_senders st, config st, rooms st, replay_buffer st)"

lemma away_queues:
  fixes X :: "('r, 'g, 'v) ext"
  assumes "redis_pipe_ok (x_redis X) ex" "redis_frame_ok (x_redis X) ex" "redis_string_ok (x_redis X) ex" "d \<noteq> []"
  shows "list_all (storable_event d) evs \<Longrightarrow> dm_get (ws_senders st) d = None \<Longrightarrow>
    in_time (cfg_expire_timeout (config st)) latest evs \<Longrightarrow>
    (case latest of None \<Rightarrow> True | Some t0 \<Rightarrow> 0 \<le> sint t0 \<and> get_queue_last_read_at (x_redis X) d (redis st) = Inr (Some t0)) \<Longrightarrow>
    enqueue_all (x_redis X) (map (\<lambda>(t, m). (t, d, serialize_relay X m)) (sent_messages evs)) (redis st) = Some r \<Longrightarrow>
    redis (fold (away_step X d) evs st) = r \<and> queue_context (fold (away_step X d) evs st) = queue_context st"
proof (induction evs arbitrary: st latest)
  case (Cons ev evs)
  show ?case
  proof (cases ev)
    case (Sent t c msg)
    let ?X = "X\<lparr>wall := t\<rparr>"
    let ?frame = "serialize_relay X (signed_by c msg)"
    let ?st = "queue_message_raw ?X d ?frame (note_activity ?X c st)"
    from Cons.prems Sent have step: "away_step X d ev st = ?st"
      using storable_queued [OF _ assms(4), of msg st ?X c] by simp
    obtain r1 where r1: "add_message_to_queue (x_redis X) t d ?frame (redis st) = (r1, Inr ())"
      "enqueue_all (x_redis X) (map (\<lambda>(t, m). (t, d, serialize_relay X m)) (sent_messages evs)) r1 = Some r"
      using Cons.prems(5) Sent by (auto split: prod.splits sum.splits)
    then have "redis ?st = r1" by (simp add: queue_message_raw_def redis_do_def)
    moreover have "get_queue_last_read_at (x_redis X) d r1 = Inr (Some t)"
      by (rule add_then_last_read [OF assms(1-3) r1(1)])
    ultimately show ?thesis
      using Cons.IH [of ?st "Some t"] Cons.prems r1(2) Sent step by (simp add: queue_context_def)
  next
    case (Swept t)
    with Cons.prems(3,4) have "away_step X d ev st = st"
      by (auto simp: sweep_in_time split: option.splits)
    with Cons.IH [of st latest] Cons.prems Swept show ?thesis by simp
  qed
qed simp

section \<open>Forwarding\<close>

text \<open>A frame the server wrote for a message it read is delivered unchanged by the queue.\<close>

lemma stored_frame_unchanged:
  assumes "uses_message_format parse write X"
    and "reads_back parse write (message_fields m)" "payload_parses parse m"
  shows "map (serialize_relay X) (List.map_filter (x_de X) [serialize_relay X m]) = [serialize_relay X m]"
  using assms(1) written_message_reads [OF assms(2,3)]
  by (simp add: uses_message_format_def serialize_relay_def map_filter_simps)

lemma stored_frames_unchanged:
  assumes "uses_message_format parse write X"
    and "list_all (\<lambda>m. reads_back parse write (message_fields m) \<and> payload_parses parse m) ms"
  shows "map (serialize_relay X) (List.map_filter (x_de X) (map (serialize_relay X) ms)) = map (serialize_relay X) ms"
  using assms(2)
proof (induction ms)
  case (Cons m ms)
  with stored_frame_unchanged [OF assms(1), of m] show ?case
    by (auto simp: map_filter_simps split: option.splits)
qed (simp add: map_filter_simps)

lemma map_filter_append: "List.map_filter f (xs @ ys) = List.map_filter f xs @ List.map_filter f ys"
  by (simp add: List.map_filter_def)

lemma queue_contents:
  "map (snd \<circ> snd) (filter (\<lambda>m. fst (snd m) = d) (map (\<lambda>(t, m). (t, d, f m)) xs)) = map f (map snd xs)"
  by (induction xs) auto

text \<open>A session start reads the queue and clears it.\<close>

lemma redis_run_client:
  "redis (snd (run_client X c last_seq restored st)) =
     (if queued_messages X c (redis st) = [] then fst (read_all_messages (x_redis X) (wall X) c (redis st))
      else fst (clear_message_queue (x_redis X) c (fst (read_all_messages (x_redis X) (wall X) c (redis st)))))"
  by (simp add: run_client_def deliver_queued_messages_def queued_messages_def chan_new_def redis_do_def
      case_prod_beta Let_def)

lemma session_start_empties_queue:
  assumes "redis_pipe_ok (x_redis X) ex" "redis_frame_ok (x_redis X) ex" "redis_list_ok (x_redis X) ex"
    and "read_all_messages (x_redis X) (wall X) c (redis st) = (r, Inr ms)"
    and "clear_message_queue (x_redis X) c r = (r', Inr ())"
  shows "r_lrange_all (x_redis X) (queue_key c) (redis (snd (run_client X c last_seq restored st))) = Inr []"
  using read_is_lrange(2) [OF assms(1,2,4)] clear_empties [OF assms(1-3,5), of c] assms(4,5)
  by (simp add: redis_run_client queued_messages_def)

section \<open>Properties\<close>

text \<open>
  C6: Store and forward of the signaling messages. While a peer is away, any clients send it offers,
  answers, candidates and acknowledgements (no other type is stored) at any times, Redis takes every one
  of them, and whenever the expiry task looks at the peer's queue in between, the last message is younger
  than the expiry timeout. When the peer then connects and Redis returns and clears its queue, its
  channel carries OPEN, a gap notice if it asked for one, what was queued before, and then every one of
  those messages in the order they were sent, each frame the very text a connected peer would have got
  at once, with its true sender. And it is delivered once: the session start leaves the queue empty, so
  a further session of the peer finds none of them.
\<close>

theorem offline_messages_delivered:
  fixes X :: "('r, 'g, 'v) ext" and st :: "('r, 'g, 'v) app_state" and later :: i64 and i :: instant
    and last_seq :: "u64 option" and restored :: "string list"
  assumes "redis_pipe_ok (x_redis X) ex" "redis_frame_ok (x_redis X) ex" "redis_list_ok (x_redis X) ex"
    "redis_string_ok (x_redis X) ex"
    and "uses_message_format parse write X"
    and "dm_get (ws_senders st) d = None" "d \<noteq> []"
    and "list_all (storable_event d) evs" "in_time (cfg_expire_timeout (config st)) None evs"
    and "list_all (\<lambda>(t, m). payload_parses parse m \<and> reads_back parse write (message_fields m)) (sent_messages evs)"
    and "r_lrange_all (x_redis X) (queue_key d) (redis st) = Inr old"
    and "enqueue_all (x_redis X) (map (\<lambda>(t, m). (t, d, serialize_relay X m)) (sent_messages evs)) (redis st) = Some r1"
    and "read_all_messages (x_redis X) later d r1 = (r2, Inr ms)" "clear_message_queue (x_redis X) d r2 = (r3, Inr ())"
  defines "X' \<equiv> X\<lparr>wall := later, mono := i\<rparr>"
  defines "st' \<equiv> snd (run_client X' d last_seq restored (fold (away_step X d) evs st))"
  shows "inbox st' d = serialize_relay X (bare_message OPEN None) #
      gap_frames last_seq (oldest_seq d (replay_buffer st)) @
      map (serialize_relay X) (List.map_filter (x_de X) old) @
      map (\<lambda>(t, m). serialize_relay X m) (sent_messages evs) @
      restored_frames X' restored (rooms st) \<and>
    r_lrange_all (x_redis X) (queue_key d) (redis st') = Inr []"
proof
  let ?st = "fold (away_step X d) evs st"
  let ?ms = "map snd (sent_messages evs)"
  have st: "redis ?st = r1" "rooms ?st = rooms st" "replay_buffer ?st = replay_buffer st"
    using away_queues [OF assms(1,2,4,7,8,6,9) _ assms(12)] by (simp_all add: queue_context_def)
  have frames: "map (\<lambda>(t, m). serialize_relay X m) (sent_messages evs) = map (serialize_relay X) ?ms"
    by (simp add: case_prod_beta)
  have "map (snd \<circ> snd) (filter (\<lambda>m. fst (snd m) = d) (map (\<lambda>(t, m). (t, d, serialize_relay X m)) (sent_messages evs))) =
      map (serialize_relay X) ?ms"
    by (rule queue_contents)
  with enqueue_all_lrange [OF assms(1-3,12,11)] read_is_lrange(1) [OF assms(1,2,13)]
  have "ms = old @ map (serialize_relay X) ?ms" by simp
  with assms(13) st(1) have queue: "queued_messages X' d (redis ?st) = old @ map (serialize_relay X) ?ms"
    by (simp add: queued_messages_def X'_def)
  have "list_all (\<lambda>m. reads_back parse write (message_fields m) \<and> payload_parses parse m) ?ms"
    using assms(10) by (auto simp: list_all_iff)
  from queue st frames stored_frames_unchanged [OF assms(5) this]
  show "inbox st' d = serialize_relay X (bare_message OPEN None) #
      gap_frames last_seq (oldest_seq d (replay_buffer st)) @
      map (serialize_relay X) (List.map_filter (x_de X) old) @
      map (\<lambda>(t, m). serialize_relay X m) (sent_messages evs) @
      restored_frames X' restored (rooms st)"
    by (simp add: st'_def inbox_def chans_run_client map_filter_append X'_def)
  show "r_lrange_all (x_redis X) (queue_key d) (redis st') = Inr []"
    using session_start_empties_queue [of X' ex d ?st r2 ms r3] assms(1-3,13,14) st(1) by (simp add: st'_def X'_def)
qed

definition demo_read :: "string \<Rightarrow> json option" where
  "demo_read s =
     (if s = ''offer'' then
        Some (Json s (JObj [(''type'', Json [] (JStr ''OFFER'')), (''src'', Json [] (JStr ''a'')),
          (''dst'', Json [] (JStr ''z'')), (''payload'', demo_payload)]))
      else if s = ''{}'' then Some demo_payload else None)"

definition demo_write :: "(string \<times> json_out) list \<Rightarrow> string" where
  "demo_write fs = (if length fs = 4 then ''offer'' else ''open'')"

definition demo_wire :: "(mem_redis, nat, demo_json) ext" where
  "demo_wire = demo_ext\<lparr>x_ser := (\<lambda>m. Some (message_to_string demo_write m)),
     x_de := (\<lambda>s. case message_from_str demo_read s of Inl e \<Rightarrow> None | Inr m \<Rightarrow> Some m)\<rparr>"

text \<open>Client \<open>a\<close> sends an offer to \<open>z\<close>, the expiry task looks a second later, and \<open>z\<close> connects.\<close>

definition demo_offer :: message where
  "demo_offer = (bare_message OFFER (Some ''{}''))\<lparr>dst := Some ''z''\<rparr>"

definition demo_away :: "away_event list" where
  "demo_away = [Sent 2000 ''a'' demo_offer, Swept 3000]"

theorem offline_messages_delivered_witness:
  "let st' = snd (run_client (demo_wire\<lparr>wall := 4000, mono := 9\<rparr>) ''z'' None []
        (fold (away_step demo_wire ''z'') demo_away (demo_two default_config)))
   in inbox st' ''z'' = [''open'', ''offer''] \<and> r_lrange_all mem_api (queue_key ''z'') (redis st') = Inr []"
proof -
  let ?st = "demo_two default_config"
  let ?R = "x_redis demo_wire"
  let ?m = "signed_by ''a'' demo_offer"
  have R: "?R = mem_api" by (simp add: demo_wire_def demo_ext_def)
  have fields: "message_fields ?m = [(''type'', OStr ''OFFER''), (''src'', OStr ''a''), (''dst'', OStr ''z''), (''payload'', ORaw ''{}'')]"
    by (simp add: message_fields_def out_field_def signed_by_def bare_message_def demo_offer_def)
  have sent: "sent_messages demo_away = [(2000, ?m)]" by (simp add: demo_away_def)
  have frames: "serialize_relay demo_wire ?m = ''offer''" "serialize_relay demo_wire (bare_message OPEN None) = ''open''"
    by (simp_all add: serialize_relay_def demo_wire_def message_to_string_def fields demo_write_def)
      (simp add: message_fields_def out_field_def bare_message_def)
  have "uses_message_format demo_read demo_write demo_wire" by (simp add: uses_message_format_def demo_wire_def)
  moreover have "list_all (storable_event ''z'') demo_away" by (simp add: storable_def bare_message_def demo_away_def demo_offer_def)
  moreover have "in_time (cfg_expire_timeout (config ?st)) None demo_away"
    by (simp add: demo_away_def demo_two_def default_config_def)
  moreover have "list_all (\<lambda>(t, m). payload_parses demo_read m \<and> reads_back demo_read demo_write (message_fields m)) (sent_messages demo_away)"
    using fields by (simp add: sent payload_parses_def reads_back_def demo_read_def demo_write_def demo_payload_def bare_message_def signed_by_def demo_offer_def)
  moreover have "dm_get (ws_senders ?st) ''z'' = None" "redis ?st = mem_empty"
    by (simp_all add: demo_two_def dm_get_def)
  moreover obtain r1 where "enqueue_all ?R (map (\<lambda>(t, m). (t, ''z'', serialize_relay demo_wire m)) (sent_messages demo_away)) (redis ?st) = Some r1"
    by (simp add: sent R add_message_to_queue_def mem_api_def)
  moreover obtain r2 ms where "read_all_messages ?R 4000 ''z'' r1 = (r2, Inr ms)"
    by (simp add: R read_all_messages_def mem_api_def)
  moreover obtain r3 where "clear_message_queue ?R ''z'' r2 = (r3, Inr ())"
    by (simp add: R clear_message_queue_def mem_api_def)
  moreover have "r_lrange_all ?R (queue_key ''z'') (redis ?st) = Inr []"
    by (simp add: R demo_two_def mem_api_def mem_empty_def)
  moreover have "redis_pipe_ok ?R mem_exec" "redis_frame_ok ?R mem_exec" "redis_list_ok ?R mem_exec" "redis_string_ok ?R mem_exec"
    by (simp_all add: R mem_api_ok mem_frame_ok)
  ultimately have "inbox (snd (run_client (demo_wire\<lparr>wall := 4000, mono := 9\<rparr>) ''z'' None [] (fold (away_step demo_wire ''z'') demo_away ?st))) ''z'' =
      serialize_relay demo_wire (bare_message OPEN None) # gap_frames None (oldest_seq ''z'' (replay_buffer ?st)) @
      map (serialize_relay demo_wire) (List.map_filter (x_de demo_wire) []) @
      map (\<lambda>(t, m). serialize_relay demo_wire m) (sent_messages demo_away) @
      restored_frames (demo_wire\<lparr>wall := 4000, mono := 9\<rparr>) [] (rooms ?st) \<and>
    r_lrange_all ?R (queue_key ''z'') (redis (snd (run_client (demo_wire\<lparr>wall := 4000, mono := 9\<rparr>) ''z'' None []
      (fold (away_step demo_wire ''z'') demo_away ?st)))) = Inr []"
    by (intro offline_messages_delivered [where ex = mem_exec]) simp_all
  then show ?thesis
    by (simp add: R sent frames gap_frames_def restored_frames_def map_filter_simps)
qed

end
