(* ===== verification/Room_Races.thy ===== *)
theory Room_Races
  imports Rooms
begin

text \<open>
  \<^verbatim>\<open>handle_room_join\<close> and \<^verbatim>\<open>handle_room_leave\<close> of \<^verbatim>\<open>src/handlers/message.rs\<close> at the granularity of their
  operations on the concurrent maps. The handlers run on several threads of the runtime; a map
  operation, with what happens under the guard it returns, is atomic, a handler is not. Between two
  operations a thread keeps the values of its local variables. Operations that write nothing shared or only
  send frames are put together: \<open>join_begin\<close> reads the claims, the tenant and the rooms of the client in one step, and
  the frames and events after the last insertion or removal are one step. Names that are missing or malformed,
  on which the handlers return at once, are left out.

  The handlers of theory \<open>Rooms\<close> are the executions in which one thread runs alone; what the
  interleavings add is how far the room limit can be exceeded, and that a join can be lost.
\<close>

section \<open>The operations\<close>

text \<open>
  Where a thread is, with the stored room key: after the lookup of the client's rooms (and whether the
  room is among them), after the limit of rooms per client, after looking whether the room exists,
  after the limit of rooms in total, after the limit of the room's size, after the insertion into the room, after
  the insertion into the index; and for a leave, after the removal from the room (and whether that
  emptied it), after the removal of the presence data, after the deletion of the room, before the
  removal from the index.
\<close>

datatype room_pc =
    Ready
  | Keyed string bool | ClientOk string bool | Seen string bool | TotalOk string | Checked string
  | Inserted string | Indexed string
  | Left string bool | Unlisted string bool | Deleted string | Told string

type_synonym ('r, 'g, 'v) at_pc = "room_pc \<times> ('r, 'g, 'v) app_state"

definition join_begin :: "('r, 'g, 'v) ext \<Rightarrow> string \<Rightarrow> string \<Rightarrow> ('r, 'g, 'v) app_state \<Rightarrow> ('r, 'g, 'v) at_pc" where
  "join_begin X client_id room_name st =
     (if (case dm_get (client_claims st) client_id of
            None \<Rightarrow> True | Some claims \<Rightarrow> room_allowed (x_json X) claims room_name)
      then let room_stored = room_key st client_id room_name
           in (Keyed room_stored (case dm_get (client_rooms st) client_id of
                 None \<Rightarrow> False | Some rs \<Rightarrow> room_stored \<in> set rs), st)
      else (Ready, send_to client_id (join_denied_frame room_name ''auth_denied'') st))"

definition leave_begin :: "('r, 'g, 'v) ext \<Rightarrow> string \<Rightarrow> string \<Rightarrow> ('r, 'g, 'v) app_state \<Rightarrow> ('r, 'g, 'v) at_pc" where
  "leave_begin X client_id room_name st =
     (let stored_key = room_key st client_id room_name
      in case dm_get (rooms st) stored_key of
           None \<Rightarrow> (Ready, emit_event (room_left (wall X) client_id room_name) st)
         | Some ms \<Rightarrow>
             let members = hs_remove client_id ms
             in (Left stored_key (members = []), st\<lparr>rooms := dm_insert stored_key members (rooms st)\<rparr>))"

fun next_op :: "('r, 'g, 'v) ext \<Rightarrow> string \<Rightarrow> string \<Rightarrow> room_pc \<Rightarrow> ('r, 'g, 'v) app_state \<Rightarrow> ('r, 'g, 'v) at_pc" where
  "next_op X client_id room_name Ready st = (Ready, st)"
| "next_op X client_id room_name (Keyed k already_member) st =
     (let joined = (case dm_get (client_rooms st) client_id of None \<Rightarrow> 0 | Some rs \<Rightarrow> length rs);
          max_per_client = cfg_max_rooms_per_client (config st)
      in if \<not> already_member \<and> 0 < max_per_client \<and> unat max_per_client \<le> joined
         then (Ready, send_to client_id (join_denied_frame room_name ''client_room_limit'') st)
         else (ClientOk k already_member, st))"
| "next_op X client_id room_name (ClientOk k already_member) st =
     (if \<not> already_member \<and> 0 < cfg_max_total_rooms (config st)
      then (Seen k (dm_contains_key (rooms st) k), st)
      else (TotalOk k, st))"
| "next_op X client_id room_name (Seen k exists) st =
     (if \<not> exists \<and> unat (cfg_max_total_rooms (config st)) \<le> dm_len (rooms st)
      then (Ready, send_to client_id (join_denied_frame room_name ''server_room_limit'') st)
      else (TotalOk k, st))"
| "next_op X client_id room_name (TotalOk k) st =
     (let max_size = cfg_max_room_size (config st)
      in if 0 < max_size \<and> (case dm_get (rooms st) k of None \<Rightarrow> False | Some ms \<Rightarrow> unat max_size \<le> length ms)
         then (Ready, send_to client_id (join_denied_frame room_name ''room_full'') st)
         else (Checked k, st))"
| "next_op X client_id room_name (Checked k) st =
     (Inserted k, st\<lparr>rooms := entry_insert k client_id (rooms st)\<rparr>)"
| "next_op X client_id room_name (Inserted k) st =
     (Indexed k, st\<lparr>client_rooms := entry_insert client_id k (client_rooms st)\<rparr>)"
| "next_op X client_id room_name (Indexed k) st =
     (let members = (case dm_get (rooms st) k of None \<Rightarrow> [] | Some m \<Rightarrow> m);
          st = send_to client_id (room_peers_frame X room_name members) st;
          st = (case dm_get (presence st) k of
             None \<Rightarrow> st
           | Some room_presence \<Rightarrow> send_presence client_id room_name room_presence st)
      in (Ready, emit_event (room_joined (wall X) client_id room_name) st))"
| "next_op X client_id room_name (Left k room_empty) st =
     (Unlisted k room_empty,
      case dm_get (presence st) k of
        None \<Rightarrow> st
      | Some p \<Rightarrow> st\<lparr>presence := dm_insert k (dm_remove client_id p) (presence st)\<rparr>)"
| "next_op X client_id room_name (Unlisted k room_empty) st =
     (if room_empty then (Deleted k, st\<lparr>rooms := dm_remove k (rooms st)\<rparr>)
      else (Told k,
        case dm_get (rooms st) k of
          None \<Rightarrow> st
        | Some ms \<Rightarrow> send_all ms (room_peers_frame X (room_display k) ms) st))"
| "next_op X client_id room_name (Deleted k) st = (Told k, st\<lparr>presence := dm_remove k (presence st)\<rparr>)"
| "next_op X client_id room_name (Told k) st =
     (Ready, emit_event (room_left (wall X) client_id room_name)
        (case dm_get (client_rooms st) client_id of
           None \<Rightarrow> st
         | Some rs \<Rightarrow> st\<lparr>client_rooms := dm_insert client_id (hs_remove k rs) (client_rooms st)\<rparr>))"

text \<open>One thread alone: at most seven operations follow the first one.\<close>

fun run_alone :: "('r, 'g, 'v) ext \<Rightarrow> string \<Rightarrow> string \<Rightarrow> nat \<Rightarrow> ('r, 'g, 'v) at_pc \<Rightarrow> ('r, 'g, 'v) at_pc" where
  "run_alone X c nm 0 (pc, st) = (pc, st)"
| "run_alone X c nm (Suc i) (pc, st) = run_alone X c nm i (next_op X c nm pc st)"

section \<open>Interleavings\<close>

text \<open>
  Thread \<open>t\<close> handles messages of client \<open>who t\<close>, joins and leaves of a room of name \<open>nm\<close>, one after the
  other; a step is one operation of one thread.
\<close>

record ('r, 'g, 'v) race =
  shared :: "('r, 'g, 'v) app_state"
  rpc :: "nat \<Rightarrow> room_pc"

definition advance :: "nat \<Rightarrow> ('r, 'g, 'v) at_pc \<Rightarrow> ('r, 'g, 'v) race \<Rightarrow> ('r, 'g, 'v) race" where
  "advance t res r = r\<lparr>shared := snd res, rpc := (rpc r)(t := fst res)\<rparr>"

inductive race_step ::
  "('r, 'g, 'v) ext \<Rightarrow> (nat \<Rightarrow> string) \<Rightarrow> string \<Rightarrow> nat \<Rightarrow> ('r, 'g, 'v) race \<Rightarrow> ('r, 'g, 'v) race \<Rightarrow> bool" for X who nm n where
  joins: "t < n \<Longrightarrow> rpc r t = Ready \<Longrightarrow>
    race_step X who nm n r (advance t (join_begin X (who t) nm (shared r)) r)"
| leaves: "t < n \<Longrightarrow> rpc r t = Ready \<Longrightarrow>
    race_step X who nm n r (advance t (leave_begin X (who t) nm (shared r)) r)"
| goes_on: "t < n \<Longrightarrow> rpc r t \<noteq> Ready \<Longrightarrow>
    race_step X who nm n r (advance t (next_op X (who t) nm (rpc r t) (shared r)) r)"

inductive_cases race_stepE: "race_step X who nm n r r'"

definition race_init :: "('r, 'g, 'v) app_state \<Rightarrow> ('r, 'g, 'v) race" where
  "race_init st = \<lparr>shared = st, rpc = (\<lambda>_. Ready)\<rparr>"

inductive race_reachable ::
  "('r, 'g, 'v) ext \<Rightarrow> (nat \<Rightarrow> string) \<Rightarrow> string \<Rightarrow> nat \<Rightarrow> ('r, 'g, 'v) app_state \<Rightarrow> ('r, 'g, 'v) race \<Rightarrow> bool"
  for X who nm n st where
  init: "race_reachable X who nm n st (race_init st)"
| step: "race_reachable X who nm n st r \<Longrightarrow> race_step X who nm n r r' \<Longrightarrow> race_reachable X who nm n st r'"

section \<open>One thread alone is the handler\<close>

lemma run_alone_Ready [simp]: "run_alone X c nm i (Ready, st) = (Ready, st)"
  by (induction i) simp_all

lemma run_alone_more: "fst (run_alone X c nm i p) = Ready \<Longrightarrow> run_alone X c nm (Suc i) p = run_alone X c nm i p"
proof (induction X c nm i p rule: run_alone.induct)
  case (1 X c nm pc st)
  then show ?case by simp
next
  case (2 X c nm i pc st)
  obtain pc' st' where op: "next_op X c nm pc st = (pc', st')" by fastforce
  from 2 show ?case by (simp only: run_alone.simps op)
qed

text \<open>A thread that takes its next operation.\<close>

lemma run_alone_op:
  "next_op X c nm pc st = (pc', st') \<Longrightarrow> run_alone X c nm i (pc', st') = (Ready, st'') \<Longrightarrow>
     run_alone X c nm (Suc i) (pc, st) = (Ready, st'')"
  by simp

text \<open>A join that has passed its checks, and the checks before it.\<close>

definition finish_join :: "('r, 'g, 'v) ext \<Rightarrow> string \<Rightarrow> string \<Rightarrow> string \<Rightarrow> ('r, 'g, 'v) app_state \<Rightarrow> ('r, 'g, 'v) app_state" where
  "finish_join X c nm k st =
     (let st = add_to_room c k st;
          st1 = send_to c (room_peers_frame X nm (case dm_get (rooms st) k of None \<Rightarrow> [] | Some ms \<Rightarrow> ms)) st
      in emit_event (room_joined (wall X) c nm)
           (case dm_get (presence st) k of None \<Rightarrow> st1 | Some ps \<Rightarrow> send_presence c nm ps st1))"

lemma finish_join_alone: "run_alone X c nm (Suc (Suc (Suc 0))) (Checked k, st) = (Ready, finish_join X c nm k st)"
  by (simp add: finish_join_def add_to_room_def Let_def split: option.split)

definition room_is_full :: "string \<Rightarrow> ('r, 'g, 'v) app_state \<Rightarrow> bool" where
  "room_is_full k st \<longleftrightarrow> 0 < cfg_max_room_size (config st) \<and>
     (case dm_get (rooms st) k of None \<Rightarrow> False | Some ms \<Rightarrow> unat (cfg_max_room_size (config st)) \<le> length ms)"

lemma full_check_alone:
  "run_alone X c nm (Suc (Suc (Suc (Suc 0)))) (TotalOk k, st) =
     (Ready, if room_is_full k st then send_to c (join_denied_frame nm ''room_full'') st else finish_join X c nm k st)"
proof (cases "room_is_full k st")
  case True
  then have "next_op X c nm (TotalOk k) st = (Ready, send_to c (join_denied_frame nm ''room_full'') st)"
    by (auto simp: room_is_full_def Let_def)
  from run_alone_op [OF this run_alone_Ready] True show ?thesis by simp
next
  case False
  then have "next_op X c nm (TotalOk k) st = (Checked k, st)" by (auto simp: room_is_full_def Let_def)
  from run_alone_op [OF this finish_join_alone] False show ?thesis by simp
qed

text \<open>The two limits that concern a client that is not yet a member.\<close>

definition client_is_full :: "string \<Rightarrow> ('r, 'g, 'v) app_state \<Rightarrow> bool" where
  "client_is_full c st \<longleftrightarrow> 0 < cfg_max_rooms_per_client (config st) \<and>
     unat (cfg_max_rooms_per_client (config st)) \<le> (case dm_get (client_rooms st) c of None \<Rightarrow> 0 | Some rs \<Rightarrow> length rs)"

definition server_is_full :: "string \<Rightarrow> ('r, 'g, 'v) app_state \<Rightarrow> bool" where
  "server_is_full k st \<longleftrightarrow> 0 < cfg_max_total_rooms (config st) \<and> \<not> dm_contains_key (rooms st) k \<and>
     unat (cfg_max_total_rooms (config st)) \<le> dm_len (rooms st)"

lemma total_check_alone:
  "run_alone X c nm (Suc (Suc (Suc (Suc (Suc (Suc 0)))))) (ClientOk k b, st) =
     (Ready, if \<not> b \<and> server_is_full k st then send_to c (join_denied_frame nm ''server_room_limit'') st
        else if room_is_full k st then send_to c (join_denied_frame nm ''room_full'') st else finish_join X c nm k st)"
proof (cases "\<not> b \<and> 0 < cfg_max_total_rooms (config st)")
  case True
  then have seen: "next_op X c nm (ClientOk k b) st = (Seen k (dm_contains_key (rooms st) k), st)" by simp
  show ?thesis
  proof (cases "server_is_full k st")
    case full: True
    with True have "next_op X c nm (Seen k (dm_contains_key (rooms st) k)) st =
        (Ready, send_to c (join_denied_frame nm ''server_room_limit'') st)" by (auto simp: server_is_full_def)
    from run_alone_op [OF seen run_alone_op [OF this run_alone_Ready]] full True show ?thesis by simp
  next
    case False
    with True have "next_op X c nm (Seen k (dm_contains_key (rooms st) k)) st = (TotalOk k, st)"
      by (auto simp: server_is_full_def)
    from run_alone_op [OF seen run_alone_op [OF this full_check_alone]] False show ?thesis by simp
  qed
next
  case False
  then have skip: "next_op X c nm (ClientOk k b) st = (TotalOk k, st)" and no: "\<not> (\<not> b \<and> server_is_full k st)"
    by (auto simp: server_is_full_def)
  have "run_alone X c nm (Suc (Suc (Suc (Suc (Suc 0))))) (TotalOk k, st) =
      (Ready, if room_is_full k st then send_to c (join_denied_frame nm ''room_full'') st else finish_join X c nm k st)"
    using full_check_alone [of X c nm k st] run_alone_more [of X c nm _ "(TotalOk k, st)"] by (metis fst_conv)
  from run_alone_op [OF skip this] no show ?thesis by (simp only: if_False)
qed

lemma join_alone:
  assumes "room msg = Some nm" "is_valid_identifier nm"
  shows "run_alone X c nm 7 (join_begin X c nm st) = (Ready, handle_room_join X c msg st)"
proof -
  let ?k = "room_key st c nm"
  let ?acl = "case dm_get (client_claims st) c of None \<Rightarrow> True | Some claims \<Rightarrow> room_allowed (x_json X) claims nm"
  let ?b = "case dm_get (client_rooms st) c of None \<Rightarrow> False | Some rs \<Rightarrow> ?k \<in> set rs"
  have denial: "join_denial X c nm st =
      (if \<not> ?acl then Some ''auth_denied'' else if \<not> ?b \<and> client_is_full c st then Some ''client_room_limit''
       else if \<not> ?b \<and> server_is_full ?k st then Some ''server_room_limit''
       else if room_is_full ?k st then Some ''room_full'' else None)"
    unfolding join_denial_def Let_def client_is_full_def server_is_full_def room_is_full_def by (rule refl)
  have handler: "handle_room_join X c msg st =
      (case join_denial X c nm st of Some reason \<Rightarrow> send_to c (join_denied_frame nm reason) st | None \<Rightarrow> finish_join X c nm ?k st)"
    using assms by (simp add: handle_room_join_def finish_join_def add_to_room_def Let_def split: option.split)
  have seven: "(7::nat) = Suc (Suc (Suc (Suc (Suc (Suc (Suc 0))))))" by simp
  show ?thesis
  proof (cases ?acl)
    case False
    then show ?thesis by (simp add: join_begin_def handler denial)
  next
    case acl: True
    then have start: "join_begin X c nm st = (Keyed ?k ?b, st)" by (simp add: join_begin_def Let_def)
    show ?thesis
    proof (cases "\<not> ?b \<and> client_is_full c st")
      case True
      then have "next_op X c nm (Keyed ?k ?b) st = (Ready, send_to c (join_denied_frame nm ''client_room_limit'') st)"
        by (simp add: client_is_full_def Let_def)
      from run_alone_op [OF this run_alone_Ready] acl True show ?thesis unfolding start seven handler denial by simp
    next
      case False
      then have "next_op X c nm (Keyed ?k ?b) st = (ClientOk ?k ?b, st)"
        by (auto simp: client_is_full_def Let_def)
      from run_alone_op [OF this total_check_alone] acl False show ?thesis unfolding start seven handler denial
        by (simp only: if_False if_True not_True_eq_False option.case if_distrib [of "case_option _ _"] split: if_split)
    qed
  qed
qed

lemma leave_alone:
  assumes "room msg = Some nm" "is_valid_identifier nm"
  shows "run_alone X c nm 7 (leave_begin X c nm st) = (Ready, handle_room_leave X c msg st)"
proof -
  have seven: "(7::nat) = Suc (Suc (Suc (Suc (Suc (Suc (Suc 0))))))" by simp
  show ?thesis
  proof (cases "dm_get (rooms st) (room_key st c nm)")
    case None
    with assms show ?thesis
      by (simp add: leave_begin_def handle_room_leave_def remove_client_from_room_def Let_def)
  next
    case (Some ms)
    with assms show ?thesis
      by (cases "hs_remove c ms = []"; cases "dm_get (presence st) (room_key st c nm)")
        (simp_all add: seven leave_begin_def handle_room_leave_def remove_client_from_room_def Let_def split: option.split)
  qed
qed

section \<open>How full a room gets\<close>

text \<open>The threads that have passed the size check for the room and will insert their client.\<close>

definition entering :: "nat \<Rightarrow> string \<Rightarrow> ('r, 'g, 'v) race \<Rightarrow> nat set" where
  "entering n k r = {t. t < n \<and> rpc r t = Checked k}"

lemma finite_entering [simp]: "finite (entering n k r)"
  by (rule finite_subset [of _ "{..<n}"]) (auto simp: entering_def)

lemma card_entering: "card (entering n k r) \<le> n"
  using card_mono [of "{..<n}" "entering n k r"] by (auto simp: entering_def)

lemma entering_advance:
  "t < n \<Longrightarrow> entering n k (advance t res r) =
     (if fst res = Checked k then insert t (entering n k r) else entering n k r - {t})"
  by (auto simp: entering_def advance_def)

text \<open>What an operation does to the members of a room, by where the thread stands.\<close>

lemma send_members [simp]:
  "members (send_to c d st) k = members st k" "members (send_all cs d st) k = members st k"
  "members (send_presence c nm ps st) k = members st k" "members (emit_event e st) k = members st k"
  by (simp_all add: members_def)

lemma op_config [simp]:
  "config (snd (next_op X c nm pc st)) = config st" "config (snd (join_begin X c nm st)) = config st"
  "config (snd (leave_begin X c nm st)) = config st"
  by (cases pc; simp add: Let_def split: option.split)
    (simp_all add: join_begin_def leave_begin_def Let_def split: option.split)

lemma op_passes_check:
  assumes "fst (next_op X c nm pc st) = Checked k" "0 < cfg_max_room_size (config st)"
  shows "members (snd (next_op X c nm pc st)) k = members st k \<and> card (members st k) < unat (cfg_max_room_size (config st))"
proof (cases pc)
  case (TotalOk k')
  with assms have full: "\<not> room_is_full k st" and op: "next_op X c nm pc st = (Checked k, st)"
    by (auto simp: room_is_full_def Let_def split: if_splits)
  have "card (members st k) < unat (cfg_max_room_size (config st))"
  proof (cases "dm_get (rooms st) k")
    case None
    with assms(2) show ?thesis by (simp add: members_def entry_set_def unat_gt_0 word_neq_0_conv)
  next
    case (Some ms)
    with full assms(2) have "length ms < unat (cfg_max_room_size (config st))" by (simp add: room_is_full_def)
    with Some card_length [of ms] show ?thesis by (simp add: members_def entry_set_def)
  qed
  with op show ?thesis by simp
qed (use assms in \<open>auto simp: Let_def split: if_splits\<close>)

lemma op_members:
  "members (snd (next_op X c nm pc st)) k \<subseteq> (if pc = Checked k then insert c (members st k) else members st k)"
  by (cases pc) (auto simp: Let_def members_def split: option.splits if_splits)

lemma begin_members:
  "members (snd (join_begin X c nm st)) k = members st k" "members (snd (leave_begin X c nm st)) k \<subseteq> members st k"
  "fst (join_begin X c nm st) \<noteq> Checked k'" "fst (leave_begin X c nm st) \<noteq> Checked k'"
  by (auto simp: join_begin_def leave_begin_def Let_def members_def entry_set_def hs_remove_def split: option.splits if_splits)

text \<open>The members and the threads about to add one.\<close>

definition size_bounded :: "nat \<Rightarrow> string \<Rightarrow> ('r, 'g, 'v) race \<Rightarrow> bool" where
  "size_bounded n k r \<longleftrightarrow>
     card (members (shared r) k) + card (entering n k r) < unat (cfg_max_room_size (config (shared r))) + n"

lemma size_bounded_less:
  assumes "size_bounded n k r" "config (shared r') = config (shared r)"
    and "members (shared r') k \<subseteq> members (shared r) k" "entering n k r' \<subseteq> entering n k r"
  shows "size_bounded n k r'"
  using assms(1,2) card_mono [OF _ assms(3)] card_mono [OF _ assms(4)] by (simp add: size_bounded_def)

lemma size_bounded_op:
  assumes "size_bounded n k r" "0 < cfg_max_room_size (config (shared r))" "t < n"
  shows "size_bounded n k (advance t (next_op X c nm (rpc r t) (shared r)) r)" (is "size_bounded n k ?r'")
proof -
  let ?st = "shared r" and ?res = "next_op X c nm (rpc r t) (shared r)"
  have shared: "shared ?r' = snd ?res" by (simp add: advance_def)
  consider "fst ?res = Checked k" | "rpc r t = Checked k" | "fst ?res \<noteq> Checked k" "rpc r t \<noteq> Checked k" by blast
  then show ?thesis
  proof cases
    case 1
    from op_passes_check [OF this assms(2)] have "card (members (snd ?res) k) < unat (cfg_max_room_size (config ?st))" by simp
    with card_entering [of n k ?r'] show ?thesis by (simp add: size_bounded_def shared)
  next
    case 2
    then have "entering n k ?r' = entering n k r - {t}" by (simp add: entering_advance [OF assms(3)])
    moreover have "t \<in> entering n k r" using 2 assms(3) by (simp add: entering_def)
    then have "Suc (card (entering n k r - {t})) = card (entering n k r)" by (intro card_Suc_Diff1) simp_all
    moreover have "card (members (snd ?res) k) \<le> Suc (card (members ?st k))"
      using card_mono [OF _ op_members [of X c nm "rpc r t" ?st k]] card_insert_le_m1 [of "Suc (card (members ?st k))" "members ?st k" c]
        2 by (simp add: card_insert_if split: if_splits)
    ultimately show ?thesis using assms(1) by (simp add: size_bounded_def shared)
  next
    case 3
    then show ?thesis
      using op_members [of X c nm "rpc r t" ?st k]
      by (intro size_bounded_less [OF assms(1)]) (auto simp: shared entering_advance [OF assms(3)])
  qed
qed

lemma size_bounded_step:
  assumes "race_step X who nm n r r'" "size_bounded n k r" "0 < cfg_max_room_size (config (shared r))"
  shows "size_bounded n k r' \<and> config (shared r') = config (shared r)"
  using assms(1)
proof cases
  case (joins t)
  have "size_bounded n k r'" unfolding joins(1) using joins(2)
    by (intro size_bounded_less [OF assms(2)]) (auto simp: begin_members entering_advance, simp_all add: advance_def begin_members)
  with joins(1) show ?thesis by (simp add: advance_def)
next
  case (leaves t)
  have "size_bounded n k r'" unfolding leaves(1) using leaves(2) begin_members(2) [of X "who t" nm "shared r" k]
    by (intro size_bounded_less [OF assms(2)]) (auto simp: begin_members entering_advance advance_def entering_def)
  with leaves(1) show ?thesis by (simp add: advance_def)
next
  case (goes_on t)
  with size_bounded_op [OF assms(2,3) goes_on(2)] show ?thesis by (simp add: advance_def)
qed

lemma race_size_bounded:
  assumes "race_reachable X who nm n st r" "0 < cfg_max_room_size (config st)" "0 < n"
    and "card (members st k) \<le> unat (cfg_max_room_size (config st))"
  shows "size_bounded n k r \<and> config (shared r) = config st"
  using assms(1)
proof (induction rule: race_reachable.induct)
  case init
  with assms(3,4) show ?case by (simp add: size_bounded_def race_init_def entering_def)
next
  case (step r r')
  with size_bounded_step [OF step.hyps(2)] assms(2) show ?case by auto
qed

section \<open>A thread at a stretch\<close>

text \<open>One thread may take all its operations before another takes any.\<close>

lemma race_run:
  "race_reachable X who nm n st r \<Longrightarrow> t < n \<Longrightarrow>
     race_reachable X who nm n st (advance t (run_alone X (who t) nm i (rpc r t, shared r)) r)"
proof (induction i arbitrary: r)
  case 0
  have "advance t (rpc r t, shared r) r = r" by (simp add: advance_def)
  with 0 show ?case by simp
next
  case (Suc i)
  let ?res = "next_op X (who t) nm (rpc r t) (shared r)"
  let ?r = "advance t ?res r"
  have "race_reachable X who nm n st ?r"
  proof (cases "rpc r t = Ready")
    case True
    then have "?r = r" by (simp add: advance_def fun_upd_idem)
    with Suc.prems show ?thesis by simp
  next
    case False
    with Suc.prems show ?thesis by (blast intro: race_reachable.step race_step.goes_on)
  qed
  from Suc.IH [OF this Suc.prems(2)] show ?case by (simp add: advance_def)
qed

lemma race_join:
  assumes "race_reachable X who nm n st r" "t < n" "rpc r t = Ready"
  shows "race_reachable X who nm n st (advance t (run_alone X (who t) nm i (join_begin X (who t) nm (shared r))) r)"
proof -
  let ?r = "advance t (join_begin X (who t) nm (shared r)) r"
  have "race_reachable X who nm n st ?r" using assms by (blast intro: race_reachable.step race_step.joins)
  from race_run [OF this assms(2), of i] show ?thesis by (simp add: advance_def)
qed

section \<open>A lost join\<close>

text \<open>The room as it stands between the removal of its last member and its deletion.\<close>

definition emptied :: "string \<Rightarrow> string \<Rightarrow> ('r, 'g, 'v) app_state \<Rightarrow> ('r, 'g, 'v) app_state" where
  "emptied k a st =
     (let st = st\<lparr>rooms := dm_insert k [] (rooms st)\<rparr>
      in case dm_get (presence st) k of
           None \<Rightarrow> st
         | Some p \<Rightarrow> st\<lparr>presence := dm_insert k (dm_remove a p) (presence st)\<rparr>)"

lemma emptied_frame [simp]:
  "client_claims (emptied k a st) = client_claims st" "client_rooms (emptied k a st) = client_rooms st"
  "client_tenants (emptied k a st) = client_tenants st" "config (emptied k a st) = config st"
  "rooms (emptied k a st) = dm_insert k [] (rooms st)"
  by (simp_all add: emptied_def Let_def split: option.split)

lemma emptied_reachable:
  assumes "0 < n" "dm_get (rooms st) k = Some ms" "hs_remove (who 0) ms = []" "room_key st (who 0) nm = k"
  shows "race_reachable X who nm n st \<lparr>shared = emptied k (who 0) st, rpc = (\<lambda>_. Ready)(0 := Unlisted k True)\<rparr>"
proof -
  let ?r = "advance 0 (leave_begin X (who 0) nm st) (race_init st)"
  have "race_step X who nm n (race_init st) (advance 0 (leave_begin X (who 0) nm (shared (race_init st))) (race_init st))"
    using assms(1) by (intro race_step.leaves) (simp_all add: race_init_def)
  then have "race_reachable X who nm n st ?r"
    using race_reachable.step [OF race_reachable.init] by (simp add: race_init_def)
  from race_run [OF this assms(1), of 1] assms(2-4) show ?thesis
    by (simp add: advance_def leave_begin_def emptied_def race_init_def Let_def split: option.split_asm)
qed

lemma join_emptied:
  assumes "join_denial X b nm st = None" "dm_get (rooms st) k = Some ms" "room_key st b nm = k"
  shows "join_denial X b nm (emptied k a st) = None"
proof -
  have "room_key (emptied k a st) b nm = k" using assms(3) by (simp add: room_key_def)
  moreover have "dm_contains_key (rooms st) k" using assms(2) by (simp add: dm_contains_key_def)
  ultimately show ?thesis
    using assms by (auto simp: join_denial_def Let_def dm_contains_key_def unat_gt_0 word_neq_0_conv split: if_splits)
qed

text \<open>The deletion of the room, with whoever has come in by then.\<close>

lemma deletion_alone:
  assumes "a \<noteq> b" "run_alone X a nm 3 (Unlisted k True, st) = (pc, st')"
  shows "pc = Ready \<and> members st' k = {} \<and> joined st' b = joined st b"
  using assms
  by (auto simp: numeral_eq_Suc members_def joined_def entry_set_def split: option.splits)

section \<open>Properties\<close>

text \<open>
  For a well-formed room name the handlers of joins and leaves are what the operations do when no other thread
  intervenes: the first operation of a handler followed by at most seven more ends the handler in exactly the
  state the sequential definition gives, denials included. It ties the operations to the handlers of theory
  \<open>Rooms\<close>.
\<close>

theorem handlers_are_solo_runs:
  assumes "room msg = Some nm" "is_valid_identifier nm"
  shows "run_alone X c nm 7 (join_begin X c nm st) = (Ready, handle_room_join X c msg st) \<and>
    run_alone X c nm 7 (leave_begin X c nm st) = (Ready, handle_room_leave X c msg st)"
  using join_alone [OF assms] leave_alone [OF assms] by blast

theorem handlers_are_solo_runs_witness:
  "run_alone demo_ext ''a'' ''lobby'' 7 (join_begin demo_ext ''a'' ''lobby'' (demo_two default_config)) =
     (Ready, handle_room_join demo_ext ''a'' ((bare_message RoomJoin None)\<lparr>room := Some ''lobby''\<rparr>) (demo_two default_config))"
proof -
  have "is_valid_identifier ''lobby''" by code_simp
  moreover have "room ((bare_message RoomJoin None)\<lparr>room := Some ''lobby''\<rparr>) = Some ''lobby''" by simp
  ultimately show ?thesis using handlers_are_solo_runs by blast
qed

text \<open>
  C16: The size limit of a room under concurrency. However the operations of joins and leaves on \<open>n\<close>
  threads interleave, a room never has more members than the limit and one for each thread beyond
  the first; in particular the limit is exact when one thread handles the messages.
\<close>

theorem room_limit_under_races:
  assumes "race_reachable X who nm n st r" "0 < cfg_max_room_size (config st)" "0 < n"
    and "card (members st k) \<le> unat (cfg_max_room_size (config st))"
  shows "card (members (shared r) k) \<le> unat (cfg_max_room_size (config st)) + (n - 1)"
  using race_size_bounded [OF assms] assms(3) by (auto simp: size_bounded_def)

text \<open>The bound is reached: two threads, a limit of one, two members.\<close>

definition one_seat :: config where
  "one_seat = default_config\<lparr>cfg_max_room_size := 1\<rparr>"

definition demo_who :: "nat \<Rightarrow> string" where
  "demo_who t = (if t = 0 then ''a'' else ''b'')"

lemma both_enter:
  "\<exists>r. race_reachable demo_ext demo_who ''lobby'' 2 (demo_two one_seat) r \<and> members (shared r) ''lobby'' = {''a'', ''b''}"
proof -
  let ?st = "demo_two one_seat"
  let ?reach = "race_reachable demo_ext demo_who ''lobby'' 2 ?st"
  have key: "room_key ?st c ''lobby'' = ''lobby''" for c by (simp add: room_key_def namespace_room_def demo_two_def)
  have checks: "run_alone demo_ext c ''lobby'' 4 (join_begin demo_ext c ''lobby'' ?st) = (Checked ''lobby'', ?st)" for c
    using key [of c] by (simp add: join_begin_def numeral_eq_Suc Let_def)
      (simp add: demo_two_def one_seat_def default_config_def dm_contains_key_def dm_len_def)
  let ?r1 = "\<lparr>shared = ?st, rpc = (\<lambda>_. Ready)(0 := Checked ''lobby'')\<rparr>"
  have "?reach ?r1"
    using race_join [OF race_reachable.init, of 0 2 ?st demo_ext demo_who "''lobby''" 4] checks [of "''a''"]
    by (simp add: race_init_def demo_who_def advance_def)
  let ?r2 = "\<lparr>shared = ?st, rpc = (\<lambda>_. Ready)(0 := Checked ''lobby'', 1 := Checked ''lobby'')\<rparr>"
  let ?r3 = "advance 0 (Inserted ''lobby'', ?st\<lparr>rooms := entry_insert ''lobby'' ''a'' (rooms ?st)\<rparr>) ?r2"
  from race_join [OF \<open>?reach ?r1\<close>, of 1 4] checks [of "''b''"]
  have "?reach ?r2" by (simp add: demo_who_def advance_def)
  from race_run [OF this, of 0 1] have "?reach ?r3" by (simp add: demo_who_def)
  from race_run [OF this, of 1 1]
  have "?reach (advance 1 (Inserted ''lobby'', (shared ?r3)\<lparr>rooms := entry_insert ''lobby'' ''b'' (rooms (shared ?r3))\<rparr>) ?r3)"
    by (simp add: demo_who_def advance_def)
  then show ?thesis
    by (intro exI conjI, assumption) (auto simp: advance_def members_def entry_set_def dm_get_entry_insert demo_two_def hs_insert_def)
qed

theorem room_limit_under_races_witness:
  "\<exists>r. race_reachable demo_ext demo_who ''lobby'' 2 (demo_two one_seat) r \<and>
     card (members (shared r) ''lobby'') = 2 \<and> card (members (shared r) ''lobby'') \<le> unat (1 :: usize) + (2 - 1)"
proof -
  obtain r where r: "race_reachable demo_ext demo_who ''lobby'' 2 (demo_two one_seat) r" "members (shared r) ''lobby'' = {''a'', ''b''}"
    using both_enter by blast
  have limit: "cfg_max_room_size (config (demo_two one_seat)) = 1" by (simp add: one_seat_def)
  moreover have "members (demo_two one_seat) ''lobby'' = {}" by (simp add: members_def entry_set_def demo_two_def)
  ultimately show ?thesis using room_limit_under_races [OF r(1), of "''lobby''"] r by (intro exI [of _ r]) simp
qed

text \<open>
  C36: A join can be lost. If the only member of a room leaves while another client joins, the room
  may be deleted after the join: in the end every thread has finished its handler, the newcomer's index
  says that it is in the room, and the room has no members. The invariant of the sequential server, that
  a client is a member of every room it is indexed under, does not hold on the concurrent maps.
\<close>

theorem join_lost_in_race:
  assumes "a \<noteq> b" "dm_get (rooms st) k = Some [a]" "room_key st a nm = k" "room_key st b nm = k"
    and "is_valid_identifier nm" "join_denial X b nm st = None"
  shows "\<exists>r. race_reachable X (\<lambda>t. if t = 0 then a else b) nm 2 st r \<and> (\<forall>t. rpc r t = Ready) \<and>
    k \<in> joined (shared r) b \<and> members (shared r) k = {}"
proof -
  let ?who = "\<lambda>t :: nat. if t = 0 then a else b"
  let ?st = "emptied k a st" and ?msg = "(bare_message RoomJoin None)\<lparr>room := Some nm\<rparr>"
  let ?r = "\<lparr>shared = ?st, rpc = (\<lambda>_. Ready)(0 := Unlisted k True)\<rparr>"
  have "hs_remove a [a] = []" by (simp add: hs_remove_def)
  then have "race_reachable X ?who nm 2 st ?r"
    using emptied_reachable [of 2 st k "[a]" ?who nm X] assms(2,3) by simp
  from race_join [OF this, of 1 7] join_alone [of ?msg nm X b ?st] assms(5)
  have r1: "race_reachable X ?who nm 2 st \<lparr>shared = handle_room_join X b ?msg ?st, rpc = (\<lambda>_. Ready)(0 := Unlisted k True)\<rparr>"
    by (simp add: advance_def fun_upd_idem)
  have "room_key ?st b nm = k" using assms(4) by (simp add: room_key_def)
  with join_granted [of ?msg nm X b ?st] join_emptied [OF assms(6,2,4)] assms(5)
  have index: "k \<in> joined (handle_room_join X b ?msg ?st) b" by (simp add: joined_def)
  obtain st' where st': "run_alone X a nm 3 (Unlisted k True, handle_room_join X b ?msg ?st) = (Ready, st')"
    and lost: "members st' k = {}" "joined st' b = joined (handle_room_join X b ?msg ?st) b"
    using deletion_alone [OF assms(1)] by (metis surj_pair)
  have "race_reachable X ?who nm 2 st \<lparr>shared = st', rpc = \<lambda>_. Ready\<rparr>"
    using race_run [OF r1, of 0 3] st' by (simp add: advance_def fun_upd_idem)
  with index lost show ?thesis by (intro exI [of _ "\<lparr>shared = st', rpc = \<lambda>_. Ready\<rparr>"]) simp
qed

theorem join_lost_in_race_witness:
  "\<exists>r. race_reachable demo_ext demo_who ''lobby'' 2 ((demo_two default_config)\<lparr>rooms := [(''lobby'', [''a''])]\<rparr>) r \<and>
     ''lobby'' \<in> joined (shared r) ''b'' \<and> members (shared r) ''lobby'' = {}"
proof -
  let ?st = "(demo_two default_config)\<lparr>rooms := [(''lobby'', [''a''])]\<rparr>"
  have who: "demo_who = (\<lambda>t. if t = 0 then ''a'' else ''b'')" by (simp add: demo_who_def fun_eq_iff)
  have key: "room_key ?st c ''lobby'' = ''lobby''" for c by (simp add: room_key_def namespace_room_def demo_two_def)
  have "join_denial demo_ext ''b'' ''lobby'' ?st = None"
    by (simp add: join_denial_def key) (simp add: demo_two_def default_config_def dm_get_def dm_contains_key_def)
  moreover have "is_valid_identifier ''lobby''" by code_simp
  ultimately show ?thesis
    using join_lost_in_race [of "''a''" "''b''" ?st "''lobby''" "''lobby''" demo_ext] key unfolding who
    by (auto simp: dm_get_def)
qed

end
