(* ===== verification/Room_Spec.thy ===== *)
theory Room_Spec
  imports Message_Handler
begin

text \<open>
  Room membership against an abstract specification. The server keeps it in two concurrent maps,
  \<^verbatim>\<open>rooms\<close> and \<^verbatim>\<open>client_rooms\<close>, that \<^verbatim>\<open>src/handlers/message.rs\<close> updates in several places; the
  specification has two functions to sets and one clause each for a join and a leave. The message
  handler implements it, for every message of every type.
\<close>

section \<open>The specification\<close>

record registry =
  inside :: "string \<Rightarrow> string set"
  index :: "string \<Rightarrow> string set"

text \<open>What a join depends on besides the membership: limits, stored names and permissions.\<close>

record room_policy =
  rp_config :: config
  rp_key :: "string \<Rightarrow> string \<Rightarrow> string"
  rp_permits :: "string \<Rightarrow> string \<Rightarrow> bool"

definition below_limit :: "usize \<Rightarrow> nat \<Rightarrow> bool" where
  "below_limit limit n \<longleftrightarrow> limit = 0 \<or> n < unat limit"

definition may_join :: "room_policy \<Rightarrow> string \<Rightarrow> string \<Rightarrow> registry \<Rightarrow> bool" where
  "may_join P c nm G \<longleftrightarrow>
     (let k = rp_key P c nm; cfg = rp_config P
      in rp_permits P c nm \<and>
         (k \<in> index G c \<or>
            below_limit (cfg_max_rooms_per_client cfg) (card (index G c)) \<and>
            (inside G k \<noteq> {} \<or> below_limit (cfg_max_total_rooms cfg) (card {r. inside G r \<noteq> {}}))) \<and>
         below_limit (cfg_max_room_size cfg) (card (inside G k)))"

definition spec_join :: "string \<Rightarrow> string \<Rightarrow> registry \<Rightarrow> registry" where
  "spec_join c k G = \<lparr>inside = (inside G)(k := insert c (inside G k)), index = (index G)(c := insert k (index G c))\<rparr>"

definition spec_leave :: "string \<Rightarrow> string \<Rightarrow> registry \<Rightarrow> registry" where
  "spec_leave c k G = \<lparr>inside = (inside G)(k := inside G k - {c}), index = (index G)(c := index G c - {k})\<rparr>"

definition spec_message :: "room_policy \<Rightarrow> string \<Rightarrow> message \<Rightarrow> registry \<Rightarrow> registry" where
  "spec_message P c msg G =
     (case room msg of
        None \<Rightarrow> G
      | Some nm \<Rightarrow>
          if \<not> is_valid_identifier nm then G
          else if msg_type msg = RoomJoin \<and> may_join P c nm G then spec_join c (rp_key P c nm) G
          else if msg_type msg = RoomLeave then spec_leave c (rp_key P c nm) G
          else G)"

section \<open>The abstraction\<close>

definition registry_of :: "('r, 'g, 'v) app_state \<Rightarrow> registry" where
  "registry_of st = \<lparr>inside = members st, index = joined st\<rparr>"

definition policy_of :: "('r, 'g, 'v) ext \<Rightarrow> ('r, 'g, 'v) app_state \<Rightarrow> room_policy" where
  "policy_of X st = \<lparr>rp_config = config st, rp_key = room_key st,
     rp_permits = (\<lambda>c nm. case dm_get (client_claims st) c of
        None \<Rightarrow> True | Some claims \<Rightarrow> room_allowed (x_json X) claims nm)\<rparr>"

lemma join_denial_spec:
  assumes "rooms_ok st"
  shows "join_denial X c nm st = None \<longleftrightarrow> may_join (policy_of X st) c nm (registry_of st)"
proof -
  have "below_limit l n \<longleftrightarrow> \<not> (l \<noteq> 0 \<and> unat l \<le> n)" for l :: usize and n by (auto simp: below_limit_def)
  then show ?thesis
    by (auto simp: join_denial_sets [OF assms] may_join_def Let_def registry_of_def policy_of_def split: option.splits)
qed

section \<open>The message handler implements the specification\<close>

lemma registry_cong: "rooms st = rooms st' \<Longrightarrow> client_rooms st = client_rooms st' \<Longrightarrow> registry_of st = registry_of st'"
  by (simp add: registry_of_def members_def joined_def fun_eq_iff)

lemma registry_emit [simp]: "registry_of (emit_event e st) = registry_of st"
  by (rule registry_cong) simp_all

lemma registry_join:
  assumes "rooms_ok st"
  shows "registry_of (handle_room_join X c msg st) =
    (case room msg of None \<Rightarrow> registry_of st
     | Some nm \<Rightarrow> if is_valid_identifier nm \<and> may_join (policy_of X st) c nm (registry_of st)
         then spec_join c (room_key st c nm) (registry_of st) else registry_of st)"
proof (cases "\<exists>nm. room msg = Some nm \<and> is_valid_identifier nm \<and> join_denial X c nm st = None")
  case True
  then obtain nm where nm: "room msg = Some nm" "is_valid_identifier nm" "join_denial X c nm st = None" by blast
  with join_granted [OF nm] join_denial_spec [OF assms] show ?thesis
    by (simp add: registry_of_def spec_join_def members_def joined_def fun_eq_iff)
next
  case False
  with registry_cong [OF join_not_granted [OF False]] join_denial_spec [OF assms] show ?thesis
    by (auto split: option.split)
qed

lemma registry_leave:
  assumes "rooms_ok st"
  shows "registry_of (remove_client_from_room X c k st) = spec_leave c k (registry_of st)"
proof -
  have "joined (remove_client_from_room X c k st) d = (if d = c then joined st d - {k} else joined st d)" for d
  proof (cases "dm_get (rooms st) k")
    case None
    then have "members st k = {}" by (simp add: members_def entry_set_def)
    with assms have "k \<notin> joined st c" unfolding rooms_ok_def by blast
    with None show ?thesis by (simp add: remove_client_from_room_def)
  qed (simp add: joined_remove)
  then show ?thesis by (simp add: registry_of_def spec_leave_def members_remove fun_eq_iff)
qed

lemma spec_message_src [simp]: "spec_message P c (msg\<lparr>src := s\<rparr>) G = spec_message P c msg G"
  by (simp add: spec_message_def split: option.split)

lemma registry_message:
  assumes "rooms_ok st"
  shows "registry_of (handle_message X c msg st) = spec_message (policy_of X st) c msg (registry_of st)"
proof -
  let ?st = "note_activity X c st" and ?msg = "msg\<lparr>src := Some c\<rparr>"
  have ok: "rooms_ok ?st" by (rule rooms_ok_cong [OF assms]) simp_all
  have same: "registry_of ?st = registry_of st" by (rule registry_cong) simp_all
  have policy: "policy_of X ?st = policy_of X st" by (simp add: policy_of_def room_key_def fun_eq_iff)
  have key: "rp_key (policy_of X st) c = room_key st c" "room_key ?st c = room_key st c"
    by (simp_all add: policy_of_def room_key_def fun_eq_iff)
  have quiet: "registry_of (handle_heartbeat X c st) = registry_of st"
    "registry_of (handle_transmission X ?msg ?st) = registry_of st"
    "registry_of (handle_data X c ?msg ?st) = registry_of st"
    "registry_of (handle_presence_update X c ?msg ?st) = registry_of st"
    by (rule registry_cong; simp)+
  have left: "registry_of (handle_room_leave X c ?msg ?st) =
      (case room msg of None \<Rightarrow> registry_of st
       | Some nm \<Rightarrow> if is_valid_identifier nm then spec_leave c (room_key st c nm) (registry_of st) else registry_of st)"
    using registry_leave [OF ok]
    by (simp add: handle_room_leave_def same key split: option.split)
  show ?thesis
    using registry_join [OF ok, of X c ?msg]
    by (cases "msg_type msg") (simp_all add: handle_message_def Let_def spec_message_def quiet left same policy key split: option.split)
qed

lemma policy_message: "policy_of Y (handle_message X c msg st) = policy_of Y st"
  by (cases "msg_type msg") (simp_all add: policy_of_def room_key_def handle_message_def Let_def fun_eq_iff)

section \<open>Properties\<close>

text \<open>
  C5: Room membership follows its specification. After any sequence of messages of any types by any
  clients, who is in which room, in both indexes, is what the same sequence of joins and leaves gives
  on the abstract registry: a join with a well-formed name adds the client exactly if the permissions of its
  token and the three limits of the server's configuration (rooms per client, rooms in all, members per room)
  allow it, a leave removes it, and no other message changes any membership. The limits are the server's, not
  the tenant's: the cap \<^verbatim>\<open>max_rooms\<close> that \<^verbatim>\<open>src/tenant.rs\<close> documents for a tenant plays no part in the
  specification because no code reads it.
\<close>

theorem membership_follows_spec:
  assumes "rooms_ok st"
  shows "registry_of (handle_all events st) =
    fold (\<lambda>(X, c, msg). spec_message (policy_of X st) c msg) events (registry_of st)"
  using assms
proof (induction events arbitrary: st)
  case Nil
  then show ?case by (simp add: handle_all_def)
next
  case (Cons e events)
  obtain X c msg where e: "e = (X, c, msg)" by (cases e) auto
  from Cons.IH [OF rooms_ok_message [OF Cons.prems, of X c msg]] registry_message [OF Cons.prems, of X c msg]
  show ?case by (simp add: e handle_all_def policy_message)
qed

theorem membership_follows_spec_witness:
  "let join = (bare_message RoomJoin None)\<lparr>room := Some ''lobby''\<rparr>; leave = (bare_message RoomLeave None)\<lparr>room := Some ''lobby''\<rparr>
   in inside (registry_of (handle_all [(demo_ext, ''a'', join), (demo_ext, ''b'', join), (demo_ext, ''a'', leave)]
        (demo_two default_config))) ''lobby'' = {''b''}"
proof -
  let ?st = "demo_two default_config"
  have ok: "rooms_ok ?st" and empty: "registry_of ?st = \<lparr>inside = \<lambda>_. {}, index = \<lambda>_. {}\<rparr>"
    by (simp_all add: rooms_ok_def registry_of_def members_def joined_def entry_set_def demo_two_def fun_eq_iff)
  have key: "rp_key (policy_of demo_ext ?st) c ''lobby'' = ''lobby''" for c
    by (simp add: policy_of_def room_key_def namespace_room_def demo_two_def)
  have policy: "rp_permits (policy_of demo_ext ?st) c nm" "rp_config (policy_of demo_ext ?st) = default_config" for c nm
    by (simp_all add: policy_of_def demo_two_def)
  have "is_valid_identifier ''lobby''" by code_simp
  then show ?thesis
    using membership_follows_spec [OF ok]
    by (simp add: empty spec_message_def may_join_def spec_join_def spec_leave_def below_limit_def key policy bare_message_def
        Let_def) (auto split: if_splits)
qed

end
