(* ===== verification/Connect_Races.thy ===== *)
theory Connect_Races
  imports Sessions
begin

text \<open>
  Concurrent connections for the same client id: \<^verbatim>\<open>handle_socket\<close> of \<^verbatim>\<open>src/handlers/ws.rs\<close> after its
  credentials are checked, at the granularity of its operations on the maps, the slot counter and
  Redis, each of which may be followed by an operation of another connection. A reconnection and
  the start of the session are one step each, since the id is decided before them.

  The handler of theory \<open>Ws_Handler\<close> is the execution of one thread alone. An id that is registered
  before the connections begin keeps its owner in every interleaving; an id that is free then can be given
  to two clients at once.
\<close>

section \<open>The operations\<close>

text \<open>What a connection asks for once it is authenticated.\<close>

record claim =
  cl_id :: string
  cl_token :: string
  cl_last_seq :: "u64 option"
  cl_tenant :: "string option"

text \<open>
  Not begun; not found in memory; found with a token; free; with a slot; registered in Redis; in the table of
  clients; with its tenant recorded; decided.
\<close>

datatype conn_pc =
    Begin | Missed | Known string | Free | Reserved | Registered | Recorded | Listed | Done ws_outcome

fun conn_op ::
  "('r, 'g, 'v) ext \<Rightarrow> claim \<Rightarrow> conn_pc \<Rightarrow> ('r, 'g, 'v) app_state \<Rightarrow> conn_pc \<times> ('r, 'g, 'v) app_state" where
  "conn_op X q Begin st =
     (case dm_get (clients st) (cl_id q) of Some meta \<Rightarrow> Known (cm_token meta) | None \<Rightarrow> Missed, st)"
| "conn_op X q Missed st =
     (case get_client_token (x_redis X) (cl_id q) (redis st) of Inr (Some t) \<Rightarrow> Known t | _ \<Rightarrow> Free, st)"
| "conn_op X q (Known stored_token) st =
     (if cl_token q \<noteq> stored_token then (Done (Refused (id_taken_frame X)), st)
      else let (res, st') = reconnect X (cl_id q) (cl_token q) (cl_last_seq q) (cl_tenant q) st in (Done res, st'))"
| "conn_op X q Free st =
     (let (reserved, st') = try_reserve_connection_slot (cfg_concurrent_limit (config st)) st
      in (if reserved then Reserved else Done (Refused (make_error_json ConnectionLimitExceed)), st'))"
| "conn_op X q Reserved st =
     (let (r, res) = register_client (x_redis X) (wall X) (cl_id q) (cl_token q) (cfg_alive_timeout (config st)) (redis st);
          st' = st\<lparr>redis := r\<rparr>
      in case res of
           Inl e \<Rightarrow> (Done (Refused (make_error_json InvalidWsParameters)), release_connection_slot st')
         | Inr u \<Rightarrow> (Registered, st'))"
| "conn_op X q Registered st =
     (Recorded, st\<lparr>clients := dm_insert (cl_id q) (client_meta_new (wall X) (cl_token q)) (clients st)\<rparr>)"
| "conn_op X q Recorded st =
     (Listed, case cl_tenant q of None \<Rightarrow> st | Some t \<Rightarrow> st\<lparr>client_tenants := dm_insert (cl_id q) t (client_tenants st)\<rparr>)"
| "conn_op X q Listed st =
     (let (tx, st') = run_client X (cl_id q) (cl_last_seq q) [] st in (Done (Connected tx), st'))"
| "conn_op X q (Done res) st = (Done res, st)"

fun conn_alone ::
  "('r, 'g, 'v) ext \<Rightarrow> claim \<Rightarrow> nat \<Rightarrow> conn_pc \<times> ('r, 'g, 'v) app_state \<Rightarrow> conn_pc \<times> ('r, 'g, 'v) app_state" where
  "conn_alone X q 0 (pc, st) = (pc, st)"
| "conn_alone X q (Suc i) (pc, st) = conn_alone X q i (conn_op X q pc st)"

section \<open>Interleavings\<close>

record ('r, 'g, 'v) admissions =
  store :: "('r, 'g, 'v) app_state"
  cpc :: "nat \<Rightarrow> conn_pc"

definition conn_advance ::
  "nat \<Rightarrow> conn_pc \<times> ('r, 'g, 'v) app_state \<Rightarrow> ('r, 'g, 'v) admissions \<Rightarrow> ('r, 'g, 'v) admissions" where
  "conn_advance t res r = r\<lparr>store := snd res, cpc := (cpc r)(t := fst res)\<rparr>"

text \<open>Thread \<open>t\<close> handles the connection that asks for \<open>q t\<close>.\<close>

inductive conn_step :: "('r, 'g, 'v) ext \<Rightarrow> (nat \<Rightarrow> claim) \<Rightarrow> nat \<Rightarrow> ('r, 'g, 'v) admissions \<Rightarrow> ('r, 'g, 'v) admissions \<Rightarrow> bool"
  for X q n where
  op: "t < n \<Longrightarrow> conn_step X q n r (conn_advance t (conn_op X (q t) (cpc r t) (store r)) r)"

inductive_simps conn_step_iff: "conn_step X q n r r'"

definition conn_init :: "('r, 'g, 'v) app_state \<Rightarrow> ('r, 'g, 'v) admissions" where
  "conn_init st = \<lparr>store = st, cpc = (\<lambda>_. Begin)\<rparr>"

definition conn_reachable ::
  "('r, 'g, 'v) ext \<Rightarrow> (nat \<Rightarrow> claim) \<Rightarrow> nat \<Rightarrow> ('r, 'g, 'v) app_state \<Rightarrow> ('r, 'g, 'v) admissions \<Rightarrow> bool" where
  "conn_reachable X q n st = (conn_step X q n)\<^sup>*\<^sup>* (conn_init st)"

section \<open>One thread alone is the handler\<close>

lemma conn_alone_Done [simp]: "conn_alone X q i (Done res, st) = (Done res, st)"
  by (induction i) simp_all

lemma conn_alone_op:
  "conn_op X q pc st = (pc', st') \<Longrightarrow> conn_alone X q i (pc', st') = res \<Longrightarrow> conn_alone X q (Suc i) (pc, st) = res"
  by simp

text \<open>The part of the handler after the credentials.\<close>

definition admit :: "('r, 'g, 'v) ext \<Rightarrow> claim \<Rightarrow> ('r, 'g, 'v) app_state \<Rightarrow> ws_outcome \<times> ('r, 'g, 'v) app_state" where
  "admit X q st =
     (case existing_token X (cl_id q) st of
        Some stored_token \<Rightarrow>
          if cl_token q \<noteq> stored_token then (Refused (id_taken_frame X), st)
          else reconnect X (cl_id q) (cl_token q) (cl_last_seq q) (cl_tenant q) st
      | None \<Rightarrow> connect_new X (cl_id q) (cl_token q) (cl_last_seq q) (cl_tenant q) st)"

definition claim_of :: "ws_query \<Rightarrow> string \<times> string \<times> tenant option \<Rightarrow> claim" where
  "claim_of params auth = (case auth of (cid, token, resolved) \<Rightarrow>
     \<lparr>cl_id = cid, cl_token = token, cl_last_seq = q_last_seq params, cl_tenant = map_option tn_id resolved\<rparr>)"

lemma handle_socket_admit:
  "handle_socket X params st =
     (case authenticate X params st of
        (Inl e, st) \<Rightarrow> (Refused (make_error_json e), st)
      | (Inr auth, st) \<Rightarrow> admit X (claim_of params auth) st)"
  by (auto simp: handle_socket_def admit_def claim_of_def split: prod.split sum.split option.split)

lemma new_alone:
  "conn_alone X q 5 (Free, st) =
     map_prod Done id (connect_new X (cl_id q) (cl_token q) (cl_last_seq q) (cl_tenant q) st)"
proof (cases "fst (try_reserve_connection_slot (cfg_concurrent_limit (config st)) st)")
  case False
  then show ?thesis by (simp add: connect_new_def case_prod_beta numeral_eq_Suc)
next
  case True
  let ?st = "snd (try_reserve_connection_slot (cfg_concurrent_limit (config st)) st)"
  have cfg: "config ?st = config st" by (simp add: try_reserve_connection_slot_def Let_def)
  show ?thesis
  proof (cases "snd (register_client (x_redis X) (wall X) (cl_id q) (cl_token q) (cfg_alive_timeout (config st)) (redis ?st))")
    case (Inl e)
    with True cfg show ?thesis by (simp add: connect_new_def case_prod_beta numeral_eq_Suc Let_def)
  next
    case (Inr u)
    with True cfg show ?thesis
      by (cases "cl_tenant q") (simp_all add: connect_new_def register_in_memory_def case_prod_beta numeral_eq_Suc Let_def)
  qed
qed

lemma admit_alone: "conn_alone X q 7 (Begin, st) = map_prod Done id (admit X q st)"
proof -
  have seven: "(7::nat) = Suc (Suc 5)" by simp
  have known: "conn_alone X q (Suc i) (Known t, st) = map_prod Done id
      (if cl_token q \<noteq> t then (Refused (id_taken_frame X), st)
       else reconnect X (cl_id q) (cl_token q) (cl_last_seq q) (cl_tenant q) st)" for i t
    by (simp add: case_prod_beta map_prod_def)
  show ?thesis
  proof (cases "dm_get (clients st) (cl_id q)")
    case (Some meta)
    then have "conn_op X q Begin st = (Known (cm_token meta), st)" by simp
    from conn_alone_op [OF this known] Some show ?thesis unfolding seven by (simp only: admit_def existing_token_def option.case)
  next
    case None
    then have begin': "conn_op X q Begin st = (Missed, st)" by simp
    show ?thesis
    proof (cases "existing_token X (cl_id q) st")
      case free: None
      with None have "conn_op X q Missed st = (Free, st)" by (auto simp: existing_token_def split: sum.splits option.splits)
      from conn_alone_op [OF begin' conn_alone_op [OF this new_alone]] free show ?thesis
        unfolding seven by (simp add: admit_def)
    next
      case (Some t)
      with None have "conn_op X q Missed st = (Known t, st)" by (auto simp: existing_token_def split: sum.splits)
      moreover have "(5::nat) = Suc 4" by simp
      ultimately have "conn_alone X q (Suc 5) (Missed, st) = map_prod Done id (admit X q st)"
        using conn_alone_op [OF _ known] Some by (simp only: admit_def option.case)
      with conn_alone_op [OF begin'] show ?thesis unfolding seven .
    qed
  qed
qed

section \<open>A thread at a stretch\<close>

lemma conn_reachable_init: "conn_reachable X q n st (conn_init st)"
  by (simp add: conn_reachable_def)

lemma conn_run:
  "conn_reachable X q n st r \<Longrightarrow> t < n \<Longrightarrow>
     conn_reachable X q n st (conn_advance t (conn_alone X (q t) i (cpc r t, store r)) r)"
proof (induction i arbitrary: r)
  case 0
  have "conn_advance t (cpc r t, store r) r = r" by (simp add: conn_advance_def)
  with 0 show ?case by simp
next
  case (Suc i)
  let ?r = "conn_advance t (conn_op X (q t) (cpc r t) (store r)) r"
  have "conn_reachable X q n st ?r"
    using Suc.prems unfolding conn_reachable_def by (meson rtranclp.rtrancl_into_rtrancl conn_step.op)
  from Suc.IH [OF this Suc.prems(2)] show ?case by (simp add: conn_advance_def)
qed

section \<open>Registered ids\<close>

definition token_of :: "('r, 'g, 'v) app_state \<Rightarrow> string \<Rightarrow> string option" where
  "token_of st c = map_option cm_token (dm_get (clients st) c)"

text \<open>Where the threads that ask for a registered id can be.\<close>

definition owner_kept ::
  "('r, 'g, 'v) ext \<Rightarrow> (nat \<Rightarrow> claim) \<Rightarrow> nat \<Rightarrow> string \<Rightarrow> string \<Rightarrow> ('r, 'g, 'v) admissions \<Rightarrow> bool" where
  "owner_kept X q n c tok r \<longleftrightarrow> token_of (store r) c = Some tok \<and>
     (\<forall>t < n. cl_id (q t) = c \<longrightarrow>
        (case cpc r t of
           Begin \<Rightarrow> True
         | Known t' \<Rightarrow> t' = tok
         | Done res \<Rightarrow> cl_token (q t) = tok \<or> res = Refused (id_taken_frame X)
         | _ \<Rightarrow> False))"

lemma token_of_other:
  assumes "cl_id q \<noteq> c"
  shows "token_of (snd (conn_op X q pc st)) c = token_of st c"
  using assms
  by (cases pc) (auto simp: token_of_def case_prod_beta Let_def try_reserve_connection_slot_def release_connection_slot_def
      reconnect_eq reconnect_state_def register_in_memory_def restore_session_def split: option.splits sum.splits)

lemma token_of_reconnect: "token_of (snd (reconnect X c tok ls tid st)) c = Some tok"
  by (auto simp: token_of_def reconnect_eq reconnect_state_def register_in_memory_def restore_session_def
      client_meta_new_def Let_def split: option.splits)

lemma token_of_op:
  assumes "token_of st (cl_id q) = Some tok" "pc = Begin \<or> pc = Known tok \<or> (\<exists>res. pc = Done res)"
  shows "token_of (snd (conn_op X q pc st)) (cl_id q) = Some tok \<and>
    (case fst (conn_op X q pc st) of
       Known t' \<Rightarrow> t' = tok
     | Done res \<Rightarrow> pc = Done res \<or> cl_token q = tok \<or> res = Refused (id_taken_frame X)
     | _ \<Rightarrow> False)"
  using assms(2)
proof (elim disjE exE)
  assume "pc = Begin"
  with assms(1) show ?thesis by (auto simp: token_of_def)
next
  assume "pc = Known tok"
  with assms(1) token_of_reconnect [of X "cl_id q" tok "cl_last_seq q" "cl_tenant q" st] show ?thesis
    by (auto simp: case_prod_beta)
next
  fix res
  assume "pc = Done res"
  with assms(1) show ?thesis by simp
qed

lemma owner_kept_step:
  assumes "conn_step X q n r r'" "owner_kept X q n c tok r"
  shows "owner_kept X q n c tok r'"
proof -
  from assms(1) obtain t where t: "t < n" "r' = conn_advance t (conn_op X (q t) (cpc r t) (store r)) r"
    by (auto simp: conn_step_iff)
  have tok: "token_of (store r) c = Some tok" using assms(2) by (simp add: owner_kept_def)
  show ?thesis
  proof (cases "cl_id (q t) = c")
    case False
    with assms(2) t token_of_other [OF False, of X "cpc r t" "store r"] show ?thesis by (auto simp: owner_kept_def conn_advance_def)
  next
    case True
    from assms(2) t(1) True have pc: "case cpc r t of Begin \<Rightarrow> True | Known t' \<Rightarrow> t' = tok
      | Done res \<Rightarrow> cl_token (q t) = tok \<or> res = Refused (id_taken_frame X) | _ \<Rightarrow> False" by (simp add: owner_kept_def)
    then have "cpc r t = Begin \<or> cpc r t = Known tok \<or> (\<exists>res. cpc r t = Done res)" by (cases "cpc r t") auto
    from token_of_op [OF _ this, of "store r" "q t" X] tok True pc
    have "token_of (snd (conn_op X (q t) (cpc r t) (store r))) c = Some tok"
      "case fst (conn_op X (q t) (cpc r t) (store r)) of Begin \<Rightarrow> True | Known t' \<Rightarrow> t' = tok
        | Done res \<Rightarrow> cl_token (q t) = tok \<or> res = Refused (id_taken_frame X) | _ \<Rightarrow> False"
      by (auto split: conn_pc.splits)
    with assms(2) show ?thesis unfolding t(2) by (simp add: owner_kept_def conn_advance_def)
  qed
qed

lemma owner_kept_reachable:
  assumes "conn_reachable X q n st r" "token_of st c = Some tok"
  shows "owner_kept X q n c tok r"
  using assms(1) unfolding conn_reachable_def
proof (induction rule: rtranclp_induct)
  case base
  with assms(2) show ?case by (simp add: owner_kept_def conn_init_def)
next
  case (step r r')
  then show ?case by (blast intro: owner_kept_step)
qed

text \<open>Two connections at given places.\<close>

definition two_at :: "('r, 'g, 'v) app_state \<Rightarrow> conn_pc \<Rightarrow> conn_pc \<Rightarrow> ('r, 'g, 'v) admissions" where
  "two_at st a b = \<lparr>store = st, cpc = (\<lambda>t. if t = 0 then a else if t = 1 then b else Begin)\<rparr>"

lemma two_at_simps [simp]:
  "conn_advance 0 (a', st') (two_at st a b) = two_at st' a' b" "conn_advance 1 (b', st') (two_at st a b) = two_at st' a b'"
  "conn_advance (Suc 0) (b', st') (two_at st a b) = two_at st' a b'"
  "store (two_at st a b) = st" "cpc (two_at st a b) 0 = a" "cpc (two_at st a b) 1 = b" "cpc (two_at st a b) (Suc 0) = b"
  by (auto simp: two_at_def conn_advance_def fun_eq_iff)

lemma two_at_init: "conn_init st = two_at st Begin Begin"
  by (simp add: two_at_def conn_init_def fun_eq_iff)

text \<open>The stages of two connections that claim the same free id, each by itself.\<close>

lemma unknown_id_free:
  "existing_token X (cl_id q) st = None \<Longrightarrow> conn_alone X q 2 (Begin, st) = (Free, st)"
  by (auto simp: existing_token_def numeral_eq_Suc split: option.splits sum.splits)

lemma two_slots:
  assumes "unat (active_connections st) + 1 < unat (cfg_concurrent_limit (config st))"
  shows "try_reserve_connection_slot (cfg_concurrent_limit (config st)) st =
      (True, st\<lparr>active_connections := active_connections st + 1\<rparr>)"
    and "try_reserve_connection_slot (cfg_concurrent_limit (config st)) (st\<lparr>active_connections := active_connections st + 1\<rparr>) =
      (True, st\<lparr>active_connections := active_connections st + 2\<rparr>)"
proof -
  have "active_connections st + 1 < cfg_concurrent_limit (config st)" "active_connections st < cfg_concurrent_limit (config st)"
    using assms unsigned_less [of "cfg_concurrent_limit (config st)", where 'a = nat]
    by (simp_all add: word_less_nat_alt unat_word_ariths)
  then show "try_reserve_connection_slot (cfg_concurrent_limit (config st)) st =
      (True, st\<lparr>active_connections := active_connections st + 1\<rparr>)"
    "try_reserve_connection_slot (cfg_concurrent_limit (config st)) (st\<lparr>active_connections := active_connections st + 1\<rparr>) =
      (True, st\<lparr>active_connections := active_connections st + 2\<rparr>)"
    by (simp_all add: try_reserve_connection_slot_def Let_def)
qed

lemma registered_finishes:
  "\<exists>st'. conn_alone X q 3 (Registered, st) = (Done (Connected (next_chan st)), st') \<and>
    token_of st' (cl_id q) = Some (cl_token q) \<and> dm_get (ws_senders st') (cl_id q) = Some (next_chan st) \<and>
    active_connections st' = active_connections st \<and> next_chan st' = Suc (next_chan st)"
  by (cases "cl_tenant q") (simp_all add: numeral_eq_Suc case_prod_beta token_of_def client_meta_new_def)

section \<open>Properties\<close>



text \<open>
  C37: A free id can be given to two clients. If an id is free, two slots are left and Redis answers, the
  operations of two connections that ask for the id with different tokens can interleave so that
  both are admitted, each on a channel of its own: two slots are taken for one registered client, the
  second token and channel replace the first, and everything sent to the id goes to the second client.
\<close>

theorem free_id_given_twice:
  fixes X :: "('r, 'g, 'v) ext" and st :: "('r, 'g, 'v) app_state"
  assumes "cl_id q1 = cl_id q0" "cl_token q1 \<noteq> cl_token q0" "existing_token X (cl_id q0) st = None"
    and "unat (active_connections st) + 1 < unat (cfg_concurrent_limit (config st))"
    and "register_client (x_redis X) (wall X) (cl_id q0) (cl_token q0) (cfg_alive_timeout (config st)) (redis st) = (r0, Inr ())"
    and "register_client (x_redis X) (wall X) (cl_id q0) (cl_token q1) (cfg_alive_timeout (config st)) r0 = (r1, Inr ())"
  shows "\<exists>r tx0 tx1. conn_reachable X (\<lambda>t. if t = 0 then q0 else q1) 2 st r \<and>
    cpc r 0 = Done (Connected tx0) \<and> cpc r 1 = Done (Connected tx1) \<and> tx0 \<noteq> tx1 \<and>
    token_of (store r) (cl_id q0) = Some (cl_token q1) \<and> dm_get (ws_senders (store r)) (cl_id q0) = Some tx1 \<and>
    active_connections (store r) = active_connections st + 2"
proof -
  let ?q = "\<lambda>t :: nat. if t = 0 then q0 else q1"
  let ?reach = "conn_reachable X ?q 2 st"
  have free: "conn_alone X q 2 (Begin, st) = (Free, st)" if "cl_id q = cl_id q0" for q
    using assms(3) that by (simp add: unknown_id_free)
  note slots = two_slots [OF assms(4)]
  have "?reach (two_at st Free Begin)"
    using conn_run [OF conn_reachable_init, of 0 2 X ?q st 2] free [of q0] by (simp add: two_at_init)
  from conn_run [OF this, of 1 2] have "?reach (two_at st Free Free)"
    using free [OF assms(1)] by simp
  from conn_run [OF this, of 0 1]
  have "?reach (two_at (st\<lparr>active_connections := active_connections st + 1\<rparr>) Reserved Free)"
    by (simp add: slots)
  from conn_run [OF this, of 1 1]
  have "?reach (two_at (st\<lparr>active_connections := active_connections st + 2\<rparr>) Reserved Reserved)"
    by (simp add: slots)
  from conn_run [OF this, of 0 1]
  have "?reach (two_at (st\<lparr>active_connections := active_connections st + 2, redis := r0\<rparr>) Registered Reserved)"
    by (simp add: assms(5))
  from conn_run [OF this, of 1 1]
  have regs: "?reach (two_at (st\<lparr>active_connections := active_connections st + 2, redis := r1\<rparr>) Registered Registered)"
    by (simp add: assms(1,6))
  obtain st2 where st2: "conn_alone X q0 3 (Registered, st\<lparr>active_connections := active_connections st + 2, redis := r1\<rparr>) =
      (Done (Connected (next_chan st)), st2)" "active_connections st2 = active_connections st + 2" "next_chan st2 = Suc (next_chan st)"
    using registered_finishes [of X q0 "st\<lparr>active_connections := active_connections st + 2, redis := r1\<rparr>"] by auto
  obtain st3 where st3: "conn_alone X q1 3 (Registered, st2) = (Done (Connected (Suc (next_chan st))), st3)"
    "token_of st3 (cl_id q0) = Some (cl_token q1)" "dm_get (ws_senders st3) (cl_id q0) = Some (Suc (next_chan st))"
    "active_connections st3 = active_connections st + 2"
    using registered_finishes [of X q1 st2] st2 assms(1) by auto
  from conn_run [OF regs, of 0 3] have "?reach (two_at st2 (Done (Connected (next_chan st))) Registered)"
    by (simp add: st2(1))
  from conn_run [OF this, of 1 3]
  have "?reach (two_at st3 (Done (Connected (next_chan st))) (Done (Connected (Suc (next_chan st)))))"
    by (simp add: st3(1))
  with st3 show ?thesis
    by (intro exI [of _ "two_at st3 (Done (Connected (next_chan st))) (Done (Connected (Suc (next_chan st))))"]
        exI [of _ "next_chan st"] exI [of _ "Suc (next_chan st)"]) simp
qed

definition claim_x :: "string \<Rightarrow> claim" where
  "claim_x tok = \<lparr>cl_id = ''x'', cl_token = tok, cl_last_seq = None, cl_tenant = None\<rparr>"

theorem free_id_given_twice_witness:
  "\<exists>r tx0 tx1. conn_reachable demo_ext (\<lambda>t. if t = 0 then claim_x ''t0'' else claim_x ''t1'') 2 (demo_state default_config) r \<and>
     cpc r 0 = Done (Connected tx0) \<and> cpc r 1 = Done (Connected tx1) \<and> active_connections (store r) = 2"
proof -
  let ?st = "demo_state default_config"
  have free: "existing_token demo_ext ''x'' ?st = None"
    by (simp add: existing_token_def get_client_token_def demo_ext_def mem_api_def mem_empty_def)
  obtain r0 r1 where reg: "register_client (x_redis demo_ext) (wall demo_ext) ''x'' ''t0'' (cfg_alive_timeout (config ?st)) (redis ?st) = (r0, Inr ())"
    "register_client (x_redis demo_ext) (wall demo_ext) ''x'' ''t1'' (cfg_alive_timeout (config ?st)) r0 = (r1, Inr ())"
    by (simp add: register_client_def demo_ext_def mem_api_def)
  have "unat (active_connections ?st) + 1 < unat (cfg_concurrent_limit (config ?st))" by simp
  then obtain r tx0 tx1 where "conn_reachable demo_ext (\<lambda>t. if t = 0 then claim_x ''t0'' else claim_x ''t1'') 2 ?st r"
    "cpc r 0 = Done (Connected tx0)" "cpc r 1 = Done (Connected tx1)" "active_connections (store r) = 0 + 2"
    using free_id_given_twice [of "claim_x ''t1''" "claim_x ''t0''" demo_ext ?st r0 r1] free reg by (auto simp: claim_x_def)
  then show ?thesis by (intro exI [of _ r] exI [of _ tx0] exI [of _ tx1]) simp
qed

text \<open>
  The handler is the operations of one connection alone: after the credentials are checked, seven
  operations decide it as the sequential definition does.
\<close>

theorem admission_is_solo_run:
  "handle_socket X params st =
     (case authenticate X params st of
        (Inl e, st') \<Rightarrow> (Refused (make_error_json e), st')
      | (Inr auth, st') \<Rightarrow>
          (case conn_alone X (claim_of params auth) 7 (Begin, st') of
             (Done res, st'') \<Rightarrow> (res, st'')
           | (_, st'') \<Rightarrow> (Refused [], st'')))"
  by (simp add: handle_socket_admit admit_alone map_prod_def split: prod.split sum.split)

end
