(* ===== verification/Tenant_Directory.thy ===== *)
theory Tenant_Directory
  imports Tenant
begin

text \<open>
  The tenant store of \<^verbatim>\<open>src/tenant.rs\<close> against an abstract specification. The store keeps two tables in
  Redis, from the hash of an API key to the tenant and from the tenant's id to that hash; the
  specification is one map from a tenant's id to the hash of its key and the tenant. Creating,
  updating, rotating a key and deleting are single updates of that map, and \<open>represents\<close> relates the two. The index
  of email addresses is not part of it.
\<close>

section \<open>The specification\<close>

type_synonym directory = "string \<Rightarrow> (string \<times> tenant) option"

datatype tenant_op = Create tenant string | Update tenant | Rotate string string | Delete string

fun spec_op :: "(string \<Rightarrow> u8 list) \<Rightarrow> tenant_op \<Rightarrow> directory \<Rightarrow> directory" where
  "spec_op sha256 (Create t api_key) D = D(tn_id t \<mapsto> (hash_api_key sha256 api_key, t))"
| "spec_op sha256 (Update t) D = (case D (tn_id t) of None \<Rightarrow> D | Some (h, old) \<Rightarrow> D(tn_id t \<mapsto> (h, t)))"
| "spec_op sha256 (Rotate uuid tid) D =
     (case D tid of None \<Rightarrow> D | Some (h, t) \<Rightarrow> D(tid \<mapsto> (hash_api_key sha256 (generate_api_key uuid), t)))"
| "spec_op sha256 (Delete tid) D = D(tid := None)"

text \<open>No tenant has a key of that hash.\<close>

definition unused_hash :: "directory \<Rightarrow> string \<Rightarrow> bool" where
  "unused_hash D h \<longleftrightarrow> (\<forall>tid t. D tid \<noteq> Some (h, t))"

text \<open>
  What the operations rely on: new ids and keys are new (they are random), and the JSON form of what
  they store reads back.
\<close>

fun op_ok :: "tenant_codec \<Rightarrow> (string \<Rightarrow> u8 list) \<Rightarrow> directory \<Rightarrow> tenant_op \<Rightarrow> bool" where
  "op_ok C sha256 D (Create t api_key) \<longleftrightarrow> D (tn_id t) = None \<and> unused_hash D (hash_api_key sha256 api_key) \<and> codec_ok C t"
| "op_ok C sha256 D (Update t) \<longleftrightarrow> codec_ok C t"
| "op_ok C sha256 D (Rotate uuid tid) \<longleftrightarrow> unused_hash D (hash_api_key sha256 (generate_api_key uuid)) \<and>
     (case D tid of None \<Rightarrow> True | Some (h, t) \<Rightarrow> codec_ok C t)"
| "op_ok C sha256 D (Delete tid) \<longleftrightarrow> True"

section \<open>The store\<close>

text \<open>An operation of the code on Redis; \<open>None\<close> when Redis fails.\<close>

definition succeeded :: "'r \<times> 'a redis_result \<Rightarrow> 'r option" where
  "succeeded res = (case snd res of Inl e \<Rightarrow> None | Inr x \<Rightarrow> Some (fst res))"

fun exec_op :: "'r redis_api \<Rightarrow> tenant_codec \<Rightarrow> (string \<Rightarrow> u8 list) \<Rightarrow> tenant_op \<Rightarrow> 'r \<Rightarrow> 'r option" where
  "exec_op R C sha256 (Create t api_key) r = succeeded (create_tenant R C sha256 t api_key r)"
| "exec_op R C sha256 (Update t) r = succeeded (update_tenant R C t r)"
| "exec_op R C sha256 (Rotate uuid tid) r = succeeded (rotate_api_key R C sha256 uuid tid r)"
| "exec_op R C sha256 (Delete tid) r = succeeded (delete_tenant R C tid r)"

fun exec_ops :: "'r redis_api \<Rightarrow> tenant_codec \<Rightarrow> (string \<Rightarrow> u8 list) \<Rightarrow> tenant_op list \<Rightarrow> 'r \<Rightarrow> 'r option" where
  "exec_ops R C sha256 [] r = Some r"
| "exec_ops R C sha256 (op # ops) r =
     (case exec_op R C sha256 op r of None \<Rightarrow> None | Some r' \<Rightarrow> exec_ops R C sha256 ops r')"

fun ops_ok :: "tenant_codec \<Rightarrow> (string \<Rightarrow> u8 list) \<Rightarrow> directory \<Rightarrow> tenant_op list \<Rightarrow> bool" where
  "ops_ok C sha256 D [] \<longleftrightarrow> True"
| "ops_ok C sha256 D (op # ops) \<longleftrightarrow> op_ok C sha256 D op \<and> ops_ok C sha256 (spec_op sha256 op D) ops"

text \<open>The two tables say what the directory says, and no two tenants share a key.\<close>

definition represents :: "'r redis_api \<Rightarrow> tenant_codec \<Rightarrow> 'r \<Rightarrow> directory \<Rightarrow> bool" where
  "represents R C r D \<longleftrightarrow>
     (\<forall>tid. r_get R (key_by_id tid) r = Inr (map_option fst (D tid))) \<and>
     (\<forall>tid h t. D tid = Some (h, t) \<longrightarrow> fetch_by_hash R C h r = Inr (Some t)) \<and>
     (\<forall>h. unused_hash D h \<longrightarrow> fetch_by_hash R C h r = Inr None) \<and>
     (\<forall>tid tid' h t t'. D tid = Some (h, t) \<longrightarrow> D tid' = Some (h, t') \<longrightarrow> tid = tid')"

lemma represents_get: "represents R C r D \<Longrightarrow> r_get R (key_by_id tid) r = Inr (map_option fst (D tid))"
  by (simp add: represents_def)

lemma represents_fetch: "represents R C r D \<Longrightarrow> D tid = Some (h, t) \<Longrightarrow> fetch_by_hash R C h r = Inr (Some t)"
  unfolding represents_def by blast

lemma represents_unused: "represents R C r D \<Longrightarrow> unused_hash D h \<Longrightarrow> fetch_by_hash R C h r = Inr None"
  unfolding represents_def by blast

lemma represents_inj: "represents R C r D \<Longrightarrow> D tid = Some (h, t) \<Longrightarrow> D tid' = Some (h, t') \<Longrightarrow> tid = tid'"
  unfolding represents_def by blast

text \<open>Reading after writing.\<close>

lemma redis_get_after:
  assumes "redis_frame_ok R ex" "redis_string_ok R ex"
  shows "r_get R k (ex (Set k' v) r) = (if k = k' then Inr (Some v) else r_get R k r)"
    and "r_get R k (ex (Del k') r) = (if k = k' then Inr None else r_get R k r)"
  using assms by (simp_all add: redis_frames redis_string_ok_def)

text \<open>
  The tables after one entry was written for tenant \<open>tid\<close> under hash \<open>h\<close>, its previous hash being gone
  if it is another one.
\<close>

lemma represents_put:
  assumes "represents R C r D" "codec_ok C t"
    and "unused_hash D h \<or> (\<exists>old. D tid = Some (h, old))"
    and "\<And>i. r_get R (key_by_id i) r' = (if i = tid then Inr (Some h) else r_get R (key_by_id i) r)"
    and "\<And>g. r_get R (key_by_hash g) r' =
      (if g = h then Inr (Some (tenant_json C t))
       else if map_option fst (D tid) = Some g then Inr None else r_get R (key_by_hash g) r)"
  shows "represents R C r' (D(tid \<mapsto> (h, t)))"
  unfolding represents_def
proof (intro conjI allI impI)
  fix i
  show "r_get R (key_by_id i) r' = Inr (map_option fst ((D(tid \<mapsto> (h, t))) i))"
    using assms(4) represents_get [OF assms(1)] by simp
next
  have old: "i = tid" if "D i = Some (g, u)" "map_option fst (D tid) = Some g" for i g u
    using that represents_inj [OF assms(1)] by (auto simp: map_option_eq_Some)
  have other: "D i \<noteq> Some (h, u)" if "i \<noteq> tid" for i u
    using that assms(3) represents_inj [OF assms(1)] by (auto simp: unused_hash_def)
  { fix i g u
    assume "(D(tid \<mapsto> (h, t))) i = Some (g, u)"
    then show "fetch_by_hash R C g r' = Inr (Some u)"
      using assms(2,5) old other represents_fetch [OF assms(1), of i g u]
      by (auto simp: fetch_by_hash_def codec_ok_def split: if_splits)
  next
    fix g
    assume "unused_hash (D(tid \<mapsto> (h, t))) g"
    then have g: "g \<noteq> h" and rest: "\<And>i u. i \<noteq> tid \<Longrightarrow> D i \<noteq> Some (g, u)"
      by (auto simp: unused_hash_def split: if_splits)
    show "fetch_by_hash R C g r' = Inr None"
    proof (cases "map_option fst (D tid) = Some g")
      case True
      with g assms(5) show ?thesis by (simp add: fetch_by_hash_def)
    next
      case False
      then have "unused_hash D g" using rest unfolding unused_hash_def by (metis fst_conv option.simps(9))
      from represents_unused [OF assms(1) this] g False assms(5) show ?thesis by (simp add: fetch_by_hash_def)
    qed
  next
    fix i j g u v
    assume "(D(tid \<mapsto> (h, t))) i = Some (g, u)" "(D(tid \<mapsto> (h, t))) j = Some (g, v)"
    then show "i = j" using other represents_inj [OF assms(1), of i g u j v] by (auto split: if_splits)
  }
qed

lemma represents_drop:
  assumes "represents R C r D" "D tid = Some (h, t)"
    and "\<And>i. r_get R (key_by_id i) r' = (if i = tid then Inr None else r_get R (key_by_id i) r)"
    and "\<And>g. r_get R (key_by_hash g) r' = (if g = h then Inr None else r_get R (key_by_hash g) r)"
  shows "represents R C r' (D(tid := None))"
  unfolding represents_def
proof (intro conjI allI impI)
  fix i
  show "r_get R (key_by_id i) r' = Inr (map_option fst ((D(tid := None)) i))"
    using assms(3) represents_get [OF assms(1)] by simp
next
  fix i g u
  assume "(D(tid := None)) i = Some (g, u)"
  then show "fetch_by_hash R C g r' = Inr (Some u)"
    using assms(2,4) represents_inj [OF assms(1)] represents_fetch [OF assms(1), of i g u]
    by (auto simp: fetch_by_hash_def split: if_splits)
next
  fix g
  assume "unused_hash (D(tid := None)) g"
  then have "g = h \<or> unused_hash D g" using assms(2) unfolding unused_hash_def by (metis Pair_inject fun_upd_apply option.inject)
  with assms(4) represents_unused [OF assms(1)] show "fetch_by_hash R C g r' = Inr None" by (auto simp: fetch_by_hash_def)
next
  fix i j g u v
  assume "(D(tid := None)) i = Some (g, u)" "(D(tid := None)) j = Some (g, v)"
  then show "i = j" using represents_inj [OF assms(1)] by (auto split: if_splits)
qed

section \<open>The operations implement the specification\<close>

lemma succeeded_iff: "succeeded res = Some r' \<longleftrightarrow> (\<exists>x. res = (r', Inr x))"
  by (cases res) (auto simp: succeeded_def split: sum.split)

lemma create_represents:
  assumes "redis_pipe_ok R ex" "redis_frame_ok R ex" "redis_string_ok R ex" "represents R C r D"
    and "op_ok C sha256 D (Create t k)" "create_tenant R C sha256 t k r = (r', Inr x)"
  shows "represents R C r' (spec_op sha256 (Create t k) D)"
proof -
  let ?h = "hash_api_key sha256 k"
  have "D (tn_id t) = None" "unused_hash D ?h" "codec_ok C t" using assms(5) by simp_all
  moreover have "create_tenant R C sha256 t k r = (r', Inr ())" using assms(6) by simp
  from redis_pipeD [OF assms(1) this [unfolded create_tenant_def Let_def]]
  have r': "r' = fold ex ([Set (key_by_hash ?h) (tenant_json C t), Set (key_by_id (tn_id t)) ?h] @
      (case tn_email t of None \<Rightarrow> [] | Some email \<Rightarrow> [Set (key_by_email email) (tn_id t)])) r" .
  ultimately show ?thesis unfolding spec_op.simps
    by (intro represents_put [OF assms(4)]) (auto simp: r' redis_get_after [OF assms(2,3)] split: option.split)
qed

lemma update_represents:
  assumes "redis_pipe_ok R ex" "redis_frame_ok R ex" "redis_string_ok R ex" "represents R C r D"
    and "op_ok C sha256 D (Update t)" "update_tenant R C t r = (r', Inr x)"
  shows "represents R C r' (spec_op sha256 (Update t) D)"
proof (cases "D (tn_id t)")
  case None
  with represents_get [OF assms(4)] assms(4,6) show ?thesis by (simp add: update_tenant_def)
next
  case (Some e)
  then obtain h old where D: "D (tn_id t) = Some (h, old)" by (cases e) simp
  with represents_get [OF assms(4)] assms(6) have "r_pipe R [Set (key_by_hash h) (tenant_json C t)] r = (r', Inr ())"
    by (auto simp: update_tenant_def split: prod.splits sum.splits)
  from redis_pipeD [OF assms(1) this] have r': "r' = ex (Set (key_by_hash h) (tenant_json C t)) r" by simp
  have "represents R C r' (D(tn_id t \<mapsto> (h, t)))"
    using assms(5) D represents_get [OF assms(4)]
    by (intro represents_put [OF assms(4)]) (auto simp: r' redis_get_after [OF assms(2,3)])
  with D show ?thesis by simp
qed

lemma rotate_represents:
  assumes "redis_pipe_ok R ex" "redis_frame_ok R ex" "redis_string_ok R ex" "represents R C r D"
    and "op_ok C sha256 D (Rotate uuid tid)" "rotate_api_key R C sha256 uuid tid r = (r', Inr x)"
  shows "represents R C r' (spec_op sha256 (Rotate uuid tid) D)"
proof (cases "D tid")
  case None
  with represents_get [OF assms(4)] assms(4,6) show ?thesis by (simp add: rotate_api_key_def)
next
  case (Some e)
  let ?h = "hash_api_key sha256 (generate_api_key uuid)"
  from Some obtain h t where D: "D tid = Some (h, t)" by (cases e) simp
  with assms(5) have new: "unused_hash D ?h" "codec_ok C t" "?h \<noteq> h" by (auto simp: unused_hash_def)
  from D represents_get [OF assms(4), of tid] represents_fetch [OF assms(4) D] assms(6)
  have "r_pipe R [Set (key_by_hash ?h) (tenant_json C t), Set (key_by_id tid) ?h, Del (key_by_hash h)] r = (r', Inr ())"
    by (auto simp: rotate_api_key_def Let_def split: prod.splits sum.splits)
  from redis_pipeD [OF assms(1) this]
  have r': "r' = fold ex [Set (key_by_hash ?h) (tenant_json C t), Set (key_by_id tid) ?h, Del (key_by_hash h)] r" .
  have "represents R C r' (D(tid \<mapsto> (?h, t)))"
    using new D by (intro represents_put [OF assms(4)]) (auto simp: r' redis_get_after [OF assms(2,3)])
  with D show ?thesis by simp
qed

lemma delete_represents:
  assumes "redis_pipe_ok R ex" "redis_frame_ok R ex" "redis_string_ok R ex" "represents R C r D"
    and "delete_tenant R C tid r = (r', Inr x)"
  shows "represents R C r' (spec_op sha256 (Delete tid) D)"
proof (cases "D tid")
  case None
  then have "D(tid := None) = D" by auto
  with None represents_get [OF assms(4)] assms(4,5) show ?thesis by (simp add: delete_tenant_def)
next
  case (Some e)
  then obtain h t where D: "D tid = Some (h, t)" by (cases e) simp
  with represents_get [OF assms(4), of tid] represents_fetch [OF assms(4) D] assms(5)
  have "r_pipe R ([Del (key_by_hash h), Del (key_by_id tid)] @
      (case tn_email t of None \<Rightarrow> [] | Some email \<Rightarrow> [Del (key_by_email email)])) r = (r', Inr ())"
    by (auto simp: delete_tenant_def split: prod.splits sum.splits)
  from redis_pipeD [OF assms(1) this]
  have r': "r' = fold ex ([Del (key_by_hash h), Del (key_by_id tid)] @
      (case tn_email t of None \<Rightarrow> [] | Some email \<Rightarrow> [Del (key_by_email email)])) r" .
  show ?thesis unfolding spec_op.simps
    by (rule represents_drop [OF assms(4) D]) (auto simp: r' redis_get_after [OF assms(2,3)] split: option.split)
qed

lemma exec_op_represents:
  assumes "redis_pipe_ok R ex" "redis_frame_ok R ex" "redis_string_ok R ex" "represents R C r D"
    and "op_ok C sha256 D op" "exec_op R C sha256 op r = Some r'"
  shows "represents R C r' (spec_op sha256 op D)"
proof (cases op)
  case (Create t k)
  with assms(5,6) show ?thesis by (auto simp: succeeded_iff simp del: op_ok.simps spec_op.simps intro: create_represents [OF assms(1-4)])
next
  case (Update t)
  with assms(5,6) show ?thesis by (auto simp: succeeded_iff simp del: op_ok.simps spec_op.simps intro: update_represents [OF assms(1-4)])
next
  case (Rotate uuid tid)
  with assms(5,6) show ?thesis by (auto simp: succeeded_iff simp del: op_ok.simps spec_op.simps intro: rotate_represents [OF assms(1-4)])
next
  case (Delete tid)
  with assms(6) show ?thesis by (auto simp: succeeded_iff simp del: spec_op.simps intro: delete_represents [OF assms(1-4)])
qed

lemma exec_ops_represents:
  assumes "redis_pipe_ok R ex" "redis_frame_ok R ex" "redis_string_ok R ex"
  shows "represents R C r D \<Longrightarrow> ops_ok C sha256 D ops \<Longrightarrow> exec_ops R C sha256 ops r = Some r' \<Longrightarrow>
    represents R C r' (fold (spec_op sha256) ops D)"
proof (induction ops arbitrary: r D)
  case (Cons op ops)
  then obtain r1 where r1: "exec_op R C sha256 op r = Some r1" "exec_ops R C sha256 ops r1 = Some r'"
    by (auto split: option.splits)
  from Cons.prems(2) have "op_ok C sha256 D op" and ops: "ops_ok C sha256 (spec_op sha256 op D) ops" by simp_all
  from exec_op_represents [OF assms Cons.prems(1) this(1) r1(1)] have "represents R C r1 (spec_op sha256 op D)" .
  from Cons.IH [OF this ops r1(2)] show ?case by simp
qed simp

section \<open>Properties\<close>

text \<open>
  C11: The tenant store implements its specification. Start from a store that represents a directory and
  run any sequence of creations, updates, key rotations and deletions that Redis carries out, with
  new ids and keys being new. Then an API key that is looked up without a cached answer gives exactly
  the active tenant that the directory after the same sequence has under the hash of that key, and no
  tenant where it has none; and an id gives exactly the tenant that the directory has for it.
\<close>

theorem tenant_store_refines_directory:
  assumes "redis_pipe_ok R ex" "redis_frame_ok R ex" "redis_string_ok R ex"
    and "represents R C r D" "ops_ok C sha256 D ops" "exec_ops R C sha256 ops r = Some r'"
  defines "D' \<equiv> fold (spec_op sha256) ops D"
  shows "(fst (resolve_api_key R C sha256 now key r' (invalidate_all cache)) = Some t \<longleftrightarrow>
      tn_active t \<and> (\<exists>tid. D' tid = Some (hash_api_key sha256 key, t))) \<and>
    get_tenant_by_id R C tid r' = Inr (map_option snd (D' tid))"
proof (rule conjI)
  note rep = exec_ops_represents [OF assms(1-6), folded D'_def]
  let ?h = "hash_api_key sha256 key"
  have resolve: "fst (resolve_api_key R C sha256 now key r' (invalidate_all cache)) =
      (case fetch_by_hash R C ?h r' of Inr (Some t) \<Rightarrow> if tn_active t then Some t else None | _ \<Rightarrow> None)"
    by (rule resolve_miss) simp
  show "fst (resolve_api_key R C sha256 now key r' (invalidate_all cache)) = Some t \<longleftrightarrow>
      tn_active t \<and> (\<exists>tid. D' tid = Some (?h, t))"
  proof (cases "unused_hash D' ?h")
    case True
    from represents_unused [OF rep this] True show ?thesis unfolding resolve by (auto simp: unused_hash_def)
  next
    case False
    then obtain i u where i: "D' i = Some (?h, u)" by (auto simp: unused_hash_def)
    have "(\<exists>tid. D' tid = Some (?h, t)) \<longleftrightarrow> t = u" using i represents_inj [OF rep i] by auto
    with represents_fetch [OF rep i] show ?thesis unfolding resolve by auto
  qed
  show "get_tenant_by_id R C tid r' = Inr (map_option snd (D' tid))"
    using represents_get [OF rep, of tid] represents_fetch [OF rep, of tid]
    by (cases "D' tid") (auto simp: get_tenant_by_id_def)
qed

text \<open>An empty store; a tenant is created and its key rotated.\<close>

lemma represents_empty: "represents mem_api C mem_empty (\<lambda>_. None)"
  by (simp add: represents_def fetch_by_hash_def mem_api_def mem_empty_def)

theorem tenant_store_refines_directory_witness:
  "let ops = [Create demo_tenant ''k'', Rotate ''7'' ''t_1''];
       r = the (exec_ops mem_api demo_codec demo_sha ops mem_empty)
   in fst (resolve_api_key mem_api demo_codec demo_sha 0 ''dk_7'' r []) = Some demo_tenant \<and>
      fst (resolve_api_key mem_api demo_codec demo_sha 0 ''k'' r []) \<noteq> Some demo_tenant"
proof -
  let ?ops = "[Create demo_tenant ''k'', Rotate ''7'' ''t_1'']"
  let ?D = "fold (spec_op demo_sha) ?ops (\<lambda>_. None)"
  have tn: "tn_id demo_tenant = ''t_1''" "tn_active demo_tenant" by (simp_all add: demo_tenant_def)
  have hash: "hash_api_key demo_sha ''k'' \<noteq> hash_api_key demo_sha (generate_api_key ''7'')" by code_simp
  have "exec_ops mem_api demo_codec demo_sha ?ops mem_empty \<noteq> None" by code_simp
  then obtain r where r: "exec_ops mem_api demo_codec demo_sha ?ops mem_empty = Some r" by blast
  have ok: "ops_ok demo_codec demo_sha (\<lambda>_. None) ?ops"
    using hash demo_codec_ok by (simp add: unused_hash_def tn)
  have D: "?D tid = (if tid = ''t_1'' then Some (hash_api_key demo_sha (generate_api_key ''7''), demo_tenant) else None)" for tid
    by (simp add: tn)
  note refines = tenant_store_refines_directory [OF mem_api_ok(1) mem_frame_ok mem_api_ok(4) represents_empty ok r, of 0 _ "[]", unfolded D]
  have new: "generate_api_key ''7'' = ''dk_7''" by (simp add: generate_api_key_def)
  show ?thesis using refines [of "''dk_7''" demo_tenant] refines [of "''k''" demo_tenant] hash r tn(2)
    by (simp add: invalidate_all_def new)
qed

end
