(* ===== verification/Tenant_Limits.thy ===== *)
theory Tenant_Limits
  imports Http_Handler
begin

text \<open>
  The restrictions of a tenant record that nothing enforces. \<^verbatim>\<open>src/tenant.rs\<close> documents allowed origins, a cap
  on rooms and a cap on connections per tenant; operators set them (\<^verbatim>\<open>src/handlers/admin.rs\<close>) and
  customers see them (\<^verbatim>\<open>src/handlers/customer.rs\<close>), but none of the handlers of the transports
  (\<^verbatim>\<open>src/handlers/ws.rs\<close>, \<^verbatim>\<open>http.rs\<close>, \<^verbatim>\<open>message.rs\<close>) looks at them.

  The theory compares two servers that see the same tenants but for these three fields, in Redis and in the
  cache, and shows that every handler does the same on both.
\<close>

section \<open>Other limits\<close>

text \<open>A change of tenants that leaves all but the three fields alone.\<close>

definition only_limits :: "(tenant \<Rightarrow> tenant) \<Rightarrow> bool" where
  "only_limits g \<longleftrightarrow> (\<forall>t. \<exists>os a b. g t = t\<lparr>tn_origins := os, tn_max_rooms := a, tn_max_peers := b\<rparr>)"

text \<open>The records in Redis, as they are read, and those in the cache.\<close>

definition relimit :: "(tenant \<Rightarrow> tenant) \<Rightarrow> ('r, 'g, 'v) ext \<Rightarrow> ('r, 'g, 'v) ext" where
  "relimit g X = X\<lparr>x_codec := (x_codec X)\<lparr>de_tenant := \<lambda>s. map_option g (de_tenant (x_codec X) s)\<rparr>\<rparr>"

definition cache_map :: "(tenant \<Rightarrow> tenant) \<Rightarrow> tenant_cache \<Rightarrow> tenant_cache" where
  "cache_map g cache = map (\<lambda>(h, v, at). (h, map_option g v, at)) cache"

definition recache :: "tenant_cache \<Rightarrow> ('r, 'g, 'v) app_state \<Rightarrow> ('r, 'g, 'v) app_state" where
  "recache tc st = st\<lparr>tenant_cache := tc\<rparr>"

definition relimit_state :: "(tenant \<Rightarrow> tenant) \<Rightarrow> ('r, 'g, 'v) app_state \<Rightarrow> ('r, 'g, 'v) app_state" where
  "relimit_state g st = recache (cache_map g (tenant_cache st)) st"

section \<open>Operations that do not look at the cache\<close>

lemma relimit_fields [simp]:
  "x_redis (relimit g X) = x_redis X" "wall (relimit g X) = wall X" "mono (relimit g X) = mono X" "x_ser (relimit g X) = x_ser X"
  "x_de (relimit g X) = x_de X" "x_json (relimit g X) = x_json X" "x_jwt (relimit g X) = x_jwt X" "x_sha256 (relimit g X) = x_sha256 X"
  "x_ct_eq (relimit g X) = x_ct_eq X" "x_ser_strings (relimit g X) = x_ser_strings X" "x_gov (relimit g X) = x_gov X"
  by (simp_all add: relimit_def)

lemma frames_blind [simp]:
  "serialize_relay (relimit g X) = serialize_relay X" "room_peers_frame (relimit g X) = room_peers_frame X"
  by (simp_all add: fun_eq_iff serialize_relay_def room_peers_frame_def)

lemma recache_fields [simp]:
  "ws_senders (recache tc st) = ws_senders st" "clients (recache tc st) = clients st" "redis (recache tc st) = redis st"
  "config (recache tc st) = config st" "rooms (recache tc st) = rooms st" "client_rooms (recache tc st) = client_rooms st"
  "replay_buffer (recache tc st) = replay_buffer st" "pending_removals (recache tc st) = pending_removals st"
  "presence (recache tc st) = presence st" "client_claims (recache tc st) = client_claims st" "client_tenants (recache tc st) = client_tenants st"
  "seq_counter (recache tc st) = seq_counter st" "rate_limiter (recache tc st) = rate_limiter st" "webhook (recache tc st) = webhook st"
  "active_connections (recache tc st) = active_connections st" "polling_receivers (recache tc st) = polling_receivers st"
  "chans (recache tc st) = chans st" "next_chan (recache tc st) = next_chan st" "room_key (recache tc st) = room_key st"
  "tenant_cache (recache tc st) = tc"
  by (simp_all add: recache_def room_key_def fun_eq_iff)

lemma recache_updates [simp]:
  "(recache tc st)\<lparr>ws_senders := a1\<rparr> = recache tc (st\<lparr>ws_senders := a1\<rparr>)"
  "(recache tc st)\<lparr>clients := a2\<rparr> = recache tc (st\<lparr>clients := a2\<rparr>)"
  "(recache tc st)\<lparr>redis := a3\<rparr> = recache tc (st\<lparr>redis := a3\<rparr>)"
  "(recache tc st)\<lparr>rooms := a4\<rparr> = recache tc (st\<lparr>rooms := a4\<rparr>)"
  "(recache tc st)\<lparr>client_rooms := a5\<rparr> = recache tc (st\<lparr>client_rooms := a5\<rparr>)"
  "(recache tc st)\<lparr>replay_buffer := a6\<rparr> = recache tc (st\<lparr>replay_buffer := a6\<rparr>)"
  "(recache tc st)\<lparr>pending_removals := a7\<rparr> = recache tc (st\<lparr>pending_removals := a7\<rparr>)"
  "(recache tc st)\<lparr>presence := a8\<rparr> = recache tc (st\<lparr>presence := a8\<rparr>)"
  "(recache tc st)\<lparr>client_claims := a9\<rparr> = recache tc (st\<lparr>client_claims := a9\<rparr>)"
  "(recache tc st)\<lparr>client_tenants := a10\<rparr> = recache tc (st\<lparr>client_tenants := a10\<rparr>)"
  "(recache tc st)\<lparr>seq_counter := a11\<rparr> = recache tc (st\<lparr>seq_counter := a11\<rparr>)"
  "(recache tc st)\<lparr>rate_limiter := a12\<rparr> = recache tc (st\<lparr>rate_limiter := a12\<rparr>)"
  "(recache tc st)\<lparr>webhook := a13\<rparr> = recache tc (st\<lparr>webhook := a13\<rparr>)"
  "(recache tc st)\<lparr>active_connections := a14\<rparr> = recache tc (st\<lparr>active_connections := a14\<rparr>)"
  "(recache tc st)\<lparr>polling_receivers := a15\<rparr> = recache tc (st\<lparr>polling_receivers := a15\<rparr>)"
  "(recache tc st)\<lparr>chans := a16\<rparr> = recache tc (st\<lparr>chans := a16\<rparr>)"
  "(recache tc st)\<lparr>next_chan := a17\<rparr> = recache tc (st\<lparr>next_chan := a17\<rparr>)"
  by (simp_all add: recache_def)

lemma fold_recache: "(\<And>x s. f x (recache tc s) = recache tc (f x s)) \<Longrightarrow> fold f xs (recache tc s) = recache tc (fold f xs s)"
  by (induction xs arbitrary: s) simp_all

lemma chan_blind [simp]:
  "emit_event e (recache tc st) = recache tc (emit_event e st)"
  "tx_send tx d (recache tc st) = recache tc (tx_send tx d st)"
  "chan_send tx d (recache tc st) = map_prod id (recache tc) (chan_send tx d st)"
  "send_to c d (recache tc st) = recache tc (send_to c d st)"
  "send_all ms d (recache tc st) = recache tc (send_all ms d st)"
  "fan_out c ms d (recache tc st) = recache tc (fan_out c ms d st)"
  "chan_close tx (recache tc st) = recache tc (chan_close tx st)"
  "chan_new (recache tc st) = map_prod id (recache tc) (chan_new st)"
  "redis_do f (recache tc st) = recache tc (redis_do f st)"
  "release_connection_slot (recache tc st) = recache tc (release_connection_slot st)"
  "try_reserve_connection_slot l (recache tc st) = map_prod id (recache tc) (try_reserve_connection_slot l st)"
proof -
  show "emit_event e (recache tc st) = recache tc (emit_event e st)" by (simp add: emit_event_def)
  show 2: "chan_send tx d (recache tc st) = map_prod id (recache tc) (chan_send tx d st)" for tx d st by (simp add: chan_send_def)
  show tx: "tx_send tx d (recache tc st) = recache tc (tx_send tx d st)" for tx d st by (simp add: tx_send_def 2)
  show send: "send_to c d (recache tc st) = recache tc (send_to c d st)" for c d st by (simp add: send_to_def tx split: option.split)
  show "send_all ms d (recache tc st) = recache tc (send_all ms d st)" unfolding send_all_def by (rule fold_recache) (rule send)
  show "fan_out c ms d (recache tc st) = recache tc (fan_out c ms d st)" unfolding fan_out_def by (rule fold_recache) (simp add: send)
  show "chan_close tx (recache tc st) = recache tc (chan_close tx st)" by (simp add: chan_close_def)
  show "chan_new (recache tc st) = map_prod id (recache tc) (chan_new st)" by (simp add: chan_new_def)
  show "redis_do f (recache tc st) = recache tc (redis_do f st)" by (simp add: redis_do_def)
  show "release_connection_slot (recache tc st) = recache tc (release_connection_slot st)" by (simp add: release_connection_slot_def)
  show "try_reserve_connection_slot l (recache tc st) = map_prod id (recache tc) (try_reserve_connection_slot l st)"
    by (simp add: try_reserve_connection_slot_def Let_def)
qed

lemma join_denial_blind [simp]: "join_denial (relimit g X) c nm (recache tc st) = join_denial X c nm st"
  by (simp only: join_denial_def relimit_fields recache_fields)

lemma send_presence_blind [simp]: "send_presence c nm ps (recache tc st) = recache tc (send_presence c nm ps st)"
  unfolding send_presence_def by (rule fold_recache) simp

lemma join_blind [simp]: "handle_room_join (relimit g X) c msg (recache tc st) = recache tc (handle_room_join X c msg st)"
  by (simp add: handle_room_join_def add_to_room_def Let_def split: option.split)

lemma remove_blind [simp]: "remove_client_from_room (relimit g X) c k (recache tc st) = recache tc (remove_client_from_room X c k st)"
proof (cases "dm_get (rooms st) k")
  case (Some ms)
  then show ?thesis
    by (cases "dm_get (presence st) k"; cases "dm_get (client_rooms st) c"; cases "hs_remove c ms = []")
      (simp_all add: remove_client_from_room_def Let_def)
qed (simp add: remove_client_from_room_def)

lemma leave_blind [simp]: "handle_room_leave (relimit g X) c msg (recache tc st) = recache tc (handle_room_leave X c msg st)"
  by (simp add: handle_room_leave_def split: option.split)

lemma presence_blind [simp]: "handle_presence_update (relimit g X) c msg (recache tc st) = recache tc (handle_presence_update X c msg st)"
  by (simp add: handle_presence_update_def store_presence_def Let_def split: option.split)

lemma leave_all_blind [simp]:
  "remove_client_from_all_rooms (relimit g X) c (recache tc st) = recache tc (remove_client_from_all_rooms X c st)"
proof -
  have "fold (remove_client_from_room (relimit g X) c) ks (recache tc s) = recache tc (fold (remove_client_from_room X c) ks s)" for ks and s :: "('a, 'b, 'c) app_state"
    by (induction ks arbitrary: s) simp_all
  then show ?thesis
    by (simp add: remove_client_from_all_rooms_def immediate_remove_from_all_rooms_def forget_replay_def Let_def split: option.split)
qed

lemma message_parts_blind [simp]:
  "note_activity (relimit g X) c (recache tc st) = recache tc (note_activity X c st)"
  "handle_heartbeat (relimit g X) c (recache tc st) = recache tc (handle_heartbeat X c st)"
  "drop_client c (recache tc st) = recache tc (drop_client c st)"
  "remove_sender c (recache tc st) = recache tc (remove_sender c st)"
  "queue_message_raw (relimit g X) d j (recache tc st) = recache tc (queue_message_raw X d j st)"
  "send_leave_to_source (relimit g X) a b (recache tc st) = recache tc (send_leave_to_source X a b st)"
  "replay_push (relimit g X) k n j (recache tc st) = recache tc (replay_push X k n j st)"
  by (simp_all add: note_activity_def handle_heartbeat_def drop_client_def remove_sender_def queue_message_raw_def
      send_leave_to_source_def replay_push_def split: option.split)

lemma transmission_blind [simp]: "handle_transmission (relimit g X) msg (recache tc st) = recache tc (handle_transmission X msg st)"
  by (simp add: handle_transmission_def case_prod_beta Let_def split: option.split)

lemma room_key_seq: "room_key (st\<lparr>seq_counter := n\<rparr>) = room_key st"
  by (simp add: room_key_def fun_eq_iff)

lemma data_blind [simp]: "handle_data (relimit g X) c msg (recache tc st) = recache tc (handle_data X c msg st)"
proof (cases "room msg")
  case None
  then show ?thesis by (cases "dst msg") (simp_all add: handle_data_def Let_def)
next
  case (Some nm)
  show ?thesis
    by (cases "dm_get (rooms st) (room_key st c nm)"; cases "dst msg")
      (simp_all add: handle_data_def Let_def Some room_key_seq)
qed

lemma message_blind [simp]: "handle_message (relimit g X) c msg (recache tc st) = recache tc (handle_message X c msg st)"
  by (cases "msg_type msg") (simp_all add: handle_message_def Let_def)

lemma text_blind [simp]: "ws_text (relimit g X) c tx inp (recache tc st) = recache tc (ws_text X c tx inp st)"
  by (simp add: ws_text_def rate_check_def case_prod_beta Let_def split: option.split)

lemma close_blind [simp]: "ws_close (relimit g X) c tx (recache tc st) = recache tc (ws_close X c tx st)"
  by (simp add: ws_close_def ws_cleanup_def Let_def)

lemma deliver_blind [simp]:
  "deliver_loop (relimit g X) tx ms (recache tc st) = recache tc (deliver_loop X tx ms st)"
  "deliver_queued_messages (relimit g X) c tx (recache tc st) = recache tc (deliver_queued_messages X c tx st)"
proof -
  show loop: "deliver_loop (relimit g X) tx ms (recache tc st) = recache tc (deliver_loop X tx ms st)" for ms st
    by (induction ms arbitrary: st) (simp_all add: case_prod_beta Let_def split: option.split)
  show "deliver_queued_messages (relimit g X) c tx (recache tc st) = recache tc (deliver_queued_messages X c tx st)"
    by (simp add: deliver_queued_messages_def case_prod_beta Let_def loop)
qed

lemma restored_blind [simp]: "send_restored_rooms (relimit g X) tx rs (recache tc st) = recache tc (send_restored_rooms X tx rs st)"
  unfolding send_restored_rooms_def frames_blind by (rule fold_recache) (simp split: option.split)

lemma run_client_blind [simp]: "run_client (relimit g X) c ls rs (recache tc st) = map_prod id (recache tc) (run_client X c ls rs st)"
  by (simp add: run_client_def send_gap_notice_def case_prod_beta Let_def split: option.split)

lemma register_blind [simp]: "register_in_memory (relimit g X) c tok tid (recache tc st) = recache tc (register_in_memory X c tok tid st)"
  by (simp add: register_in_memory_def Let_def split: option.split)

lemma reconnect_blind [simp]: "reconnect (relimit g X) c tok ls tid (recache tc st) = map_prod id (recache tc) (reconnect X c tok ls tid st)"
  by (simp add: reconnect_def restore_session_def case_prod_beta Let_def split: option.split)

lemma connect_blind [simp]: "connect_new (relimit g X) c tok ls tid (recache tc st) = map_prod id (recache tc) (connect_new X c tok ls tid st)"
  by (simp add: connect_new_def case_prod_beta Let_def split: sum.split)

lemma replay_blind [simp]: "http_replay (relimit g X) c tx ls (recache tc st) = recache tc (http_replay X c tx ls st)"
proof -
  have "fold (tx_send tx) ms (recache tc s) = recache tc (fold (tx_send tx) ms s)" for ms and s :: "('a, 'b, 'c) app_state"
    by (rule fold_recache) simp
  then show ?thesis by (simp add: http_replay_def Let_def split: option.split)
qed

lemma http_parts_blind [simp]:
  "register_client_backend (relimit g X) c tok (recache tc st) = recache tc (register_client_backend X c tok st)"
  "http_deliver_queued_messages (relimit g X) c tx (recache tc st) = recache tc (http_deliver_queued_messages X c tx st)"
  "http_register (relimit g X) c tok tr tid (recache tc st) = recache tc (http_register X c tok tr tid st)"
  "poll_channel c (recache tc st) = map_prod id (recache tc) (poll_channel c st)"
  by (simp_all add: register_client_backend_def http_deliver_eq http_register_def poll_channel_def case_prod_beta Let_def split: option.split)

lemma sse_session_blind [simp]: "sse_session (relimit g X) c tok ls tid (recache tc st) = map_prod id (recache tc) (sse_session X c tok ls tid st)"
  by (simp add: sse_session_def case_prod_beta Let_def)

lemma poll_session_blind [simp]:
  "poll_session (relimit g X) nw c tok ls tid (recache tc st) = map_prod id (recache tc) (poll_session X nw c tok ls tid st)"
  by (simp add: poll_session_def case_prod_beta Let_def split: option.split)

lemma admit_blind [simp]: "http_admit h (recache tc st) = map_prod id (recache tc) (http_admit h st)"
  by (simp add: http_admit_def case_prod_beta Let_def split: option.split)

lemma limit_blind [simp]: "apply_rate_limit (relimit g X) c msg (recache tc st) = map_prod id (recache tc) (apply_rate_limit X c msg st)"
  by (simp add: apply_rate_limit_def case_prod_beta Let_def split: option.split)

lemma send_blind [simp]: "send_handler (relimit g X) fv h body (recache tc st) = map_prod id (recache tc) (send_handler X fv h body st)"
proof (cases "dm_get (clients st) (hq_id h)")
  case (Some cl)
  show ?thesis
    by (cases "fv body") (simp_all add: send_handler_def Some case_prod_beta Let_def split: bool.split)
qed (simp add: send_handler_def)


section \<open>Authentication\<close>

lemma relimit_id [simp]: "relimit (\<lambda>t. t) X = X"
  by (simp add: relimit_def option.map_ident)

lemma recache_same [simp]: "recache (tenant_cache st) st = st"
  by (simp add: recache_def)

lemma lift_state:
  assumes "\<And>h tc s. F (relimit h X) (recache tc s) = recache tc (F X s)"
  shows "F (relimit g X) (relimit_state g st) = relimit_state g (F X st)"
proof -
  have "F X st = recache (tenant_cache st) (F X st)" using assms [of "\<lambda>t. t" "tenant_cache st" st] by simp
  then have "tenant_cache (F X st) = tenant_cache st" by (metis recache_fields(20))
  then show ?thesis by (simp add: relimit_state_def assms)
qed

lemma lift_result:
  assumes "\<And>h tc s. F (relimit h X) (recache tc s) = map_prod id (recache tc) (F X s)"
  shows "F (relimit g X) (relimit_state g st) = map_prod id (relimit_state g) (F X st)"
proof -
  obtain r st' where F: "F X st = (r, st')" by (cases "F X st")
  then have "st' = recache (tenant_cache st) st'" using assms [of "\<lambda>t. t" "tenant_cache st" st] by simp
  then have "tenant_cache st' = tenant_cache st" by (metis recache_fields(20))
  then show ?thesis by (simp add: relimit_state_def assms F)
qed

lemma relimit_state_fields [simp]:
  "config (relimit_state g st) = config st" "clients (relimit_state g st) = clients st" "redis (relimit_state g st) = redis st"
  "tenant_cache (relimit_state g st) = cache_map g (tenant_cache st)"
  by (simp_all add: relimit_state_def)

lemma cache_map_get: "dm_get (cache_map g cache) h = map_option (map_prod (map_option g) id) (dm_get cache h)"
  by (induction cache) (auto simp: cache_map_def dm_get_def)

lemma cache_map_insert: "dm_insert h (map_option g v, at) (cache_map g cache) = cache_map g (dm_insert h (v, at) cache)"
  by (induction cache) (auto simp: cache_map_def dm_insert_def)

lemma only_limits_keeps:
  assumes "only_limits g"
  shows "tn_active (g t) = tn_active t" "tn_id (g t) = tn_id t" "tn_jwt_secret (g t) = tn_jwt_secret t"
proof -
  obtain os a b where "g t = t\<lparr>tn_origins := os, tn_max_rooms := a, tn_max_peers := b\<rparr>"
    using assms unfolding only_limits_def by blast
  then show "tn_active (g t) = tn_active t" "tn_id (g t) = tn_id t" "tn_jwt_secret (g t) = tn_jwt_secret t" by simp_all
qed

lemma resolve_relimit:
  assumes "only_limits g"
  shows "resolve_tenant (relimit g X) k (relimit_state g st) =
    map_prod (map_option (map_option g)) (relimit_state g) (resolve_tenant X k st)"
proof (cases k)
  case (Some key)
  let ?h = "hash_api_key (x_sha256 X) key"
  note active = only_limits_keeps(1) [OF assms]
  have cached: "cache_get (ext.mono X) ?h (cache_map g (tenant_cache st)) = map_option (map_option g) (cache_get (ext.mono X) ?h (tenant_cache st))"
    by (simp add: cache_get_def cache_map_get split: option.split)
  have fetched: "fetch_by_hash (x_redis X) (x_codec (relimit g X)) ?h (redis st) = map_sum id (map_option g) (fetch_by_hash (x_redis X) (x_codec X) ?h (redis st))"
    by (auto simp: fetch_by_hash_def relimit_def split: sum.split bind_splits)
  show ?thesis
    by (cases "cache_get (ext.mono X) ?h (tenant_cache st)"; cases "fetch_by_hash (x_redis X) (x_codec X) ?h (redis st)")
      (auto simp: resolve_tenant_def Some resolve_api_key_def Let_def cached fetched active cache_put_def cache_map_insert cache_map_insert [of _ g None, simplified]
        relimit_state_def recache_def split: option.split)
qed (simp add: resolve_tenant_def)

lemma jwt_relimit:
  assumes "only_limits g"
  shows "enforce_jwt (relimit g X) (map_option g resolved) jwt c (relimit_state g st) =
    map_prod id (relimit_state g) (enforce_jwt X resolved jwt c st)"
proof -
  note same = only_limits_keeps [OF assms]
  have bind: "Option.bind (map_option g resolved) tn_jwt_secret = Option.bind resolved tn_jwt_secret"
    by (cases resolved) (simp_all add: same)
  show ?thesis
    by (auto simp: enforce_jwt_def bind same relimit_state_def recache_def split: option.split)
qed

lemma tenant_id_relimit: "only_limits g \<Longrightarrow> map_option tn_id (map_option g r) = map_option tn_id r"
  by (cases r) (simp_all add: only_limits_keeps)

lemma authenticate_relimit:
  assumes "only_limits g"
  shows "authenticate (relimit g X) q (relimit_state g st) =
    map_prod (map_sum id (map_prod id (map_prod id (map_option g)))) (relimit_state g) (authenticate X q st)"
proof -
  have "check_params (relimit g X) q = check_params X q" by (rule ext) (simp only: check_params_def relimit_fields)
  then show ?thesis
    by (auto simp: authenticate_def resolve_relimit [OF assms] jwt_relimit [OF assms] split: sum.split prod.split option.split bool.split)
qed

lemma socket_relimit:
  assumes "only_limits g"
  shows "handle_socket (relimit g X) q (relimit_state g st) = map_prod id (relimit_state g) (handle_socket X q st)"
proof -
  have "existing_token (relimit g X) c (relimit_state g s) = existing_token X c s" for c and s :: "('a, 'b, 'c) app_state"
    by (simp only: existing_token_def relimit_fields relimit_state_fields)
  moreover have "id_taken_frame (relimit g X) = id_taken_frame X" by (simp add: id_taken_frame_def)
  moreover note lift_result [of "\<lambda>X. reconnect X c tok ls tid" X g for c tok ls tid, OF reconnect_blind]
    lift_result [of "\<lambda>X. connect_new X c tok ls tid" X g for c tok ls tid, OF connect_blind]
  ultimately show ?thesis
    by (auto simp: handle_socket_def authenticate_relimit [OF assms] tenant_id_relimit [OF assms] split: sum.split prod.split option.split)
qed

lemma http_authenticate_relimit:
  assumes "only_limits g"
  shows "http_authenticate (relimit g X) h (relimit_state g st) =
    map_prod (map_sum id (map_option g)) (relimit_state g) (http_authenticate X h st)"
  by (auto simp: http_authenticate_def resolve_relimit [OF assms] jwt_relimit [OF assms] split: prod.split option.split bool.split)

lemma streams_relimit:
  assumes "only_limits g"
  shows "sse_handler (relimit g X) h (relimit_state g st) = map_prod id (relimit_state g) (sse_handler X h st)"
    and "poll_handler (relimit g X) h (relimit_state g st) = map_prod id (relimit_state g) (poll_handler X h st)"
proof -
  note lifted = lift_result [of "\<lambda>X. http_admit h" X g, OF admit_blind]
    lift_result [of "\<lambda>X. sse_session X c tok ls tid" X g for c tok ls tid, OF sse_session_blind]
    lift_result [of "\<lambda>X. poll_session X nw c tok ls tid" X g for nw c tok ls tid, OF poll_session_blind]
  show "sse_handler (relimit g X) h (relimit_state g st) = map_prod id (relimit_state g) (sse_handler X h st)"
    by (auto simp: sse_handler_def http_authenticate_relimit [OF assms] tenant_id_relimit [OF assms] lifted
        split: sum.split prod.split)
  show "poll_handler (relimit g X) h (relimit_state g st) = map_prod id (relimit_state g) (poll_handler X h st)"
    by (auto simp: poll_handler_def http_authenticate_relimit [OF assms] tenant_id_relimit [OF assms] lifted
        split: sum.split prod.split)
qed

section \<open>What clients do\<close>

text \<open>A connection, a frame or the end of a WebSocket; an event stream, a poll or a message over HTTP.\<close>

datatype 'v client_act =
    Opens ws_query | Says string nat string | Closes string nat
  | Streams http_query | Polls http_query | Posts "'v \<Rightarrow> message option" http_query 'v

datatype answer = Socket ws_outcome | Stream "http_error + nat" | Posted http_error | Silent

fun answer_act :: "('r, 'g, 'v) ext \<Rightarrow> 'v client_act \<Rightarrow> ('r, 'g, 'v) app_state \<Rightarrow> answer \<times> ('r, 'g, 'v) app_state" where
  "answer_act X (Opens q) st = map_prod Socket id (handle_socket X q st)"
| "answer_act X (Says c tx inp) st = (Silent, ws_text X c tx inp st)"
| "answer_act X (Closes c tx) st = (Silent, ws_close X c tx st)"
| "answer_act X (Streams h) st = map_prod Stream id (sse_handler X h st)"
| "answer_act X (Polls h) st = map_prod Stream id (poll_handler X h st)"
| "answer_act X (Posts from_value h body) st = map_prod Posted id (send_handler X from_value h body st)"

fun answer_acts :: "(('r, 'g, 'v) ext \<times> 'v client_act) list \<Rightarrow> ('r, 'g, 'v) app_state \<Rightarrow> answer list \<times> ('r, 'g, 'v) app_state" where
  "answer_acts [] st = ([], st)"
| "answer_acts ((X, a) # acts) st =
     (let (r, st) = answer_act X a st; (rs, st) = answer_acts acts st in (r # rs, st))"

lemma act_relimit:
  assumes "only_limits g"
  shows "answer_act (relimit g X) a (relimit_state g st) = map_prod id (relimit_state g) (answer_act X a st)"
proof (cases a)
  case (Says c tx inp)
  with lift_state [of "\<lambda>X. ws_text X c tx inp" X g st, OF text_blind] show ?thesis by simp
next
  case (Closes c tx)
  with lift_state [of "\<lambda>X. ws_close X c tx" X g st, OF close_blind] show ?thesis by simp
next
  case (Posts fv h body)
  with lift_result [of "\<lambda>X. send_handler X fv h body" X g st, OF send_blind] show ?thesis by (simp add: prod.map_comp)
qed (simp_all add: socket_relimit [OF assms] streams_relimit [OF assms] prod.map_comp)

section \<open>Properties\<close>

text \<open>
  C38: The limits of a tenant have no effect. Take any sequence of connections, frames, disconnections, event
  streams, polls and posted messages, at any times. If the allowed origins, the room cap and the connection cap of the
  tenants are changed in any way, in Redis and in the cache, every client gets the same answer to everything it
  does, and the server ends in the same state, memberships and channels included, but for these fields in the
  cache: no connection is refused and no join denied on account of them.
\<close>

theorem tenant_limits_ignored:
  assumes "only_limits g"
  shows "answer_acts (map (map_prod (relimit g) id) acts) (relimit_state g st) =
    map_prod id (relimit_state g) (answer_acts acts st)"
proof (induction acts arbitrary: st)
  case (Cons ev acts)
  obtain X a where "ev = (X, a)" by (cases ev)
  with Cons.IH show ?case by (simp add: act_relimit [OF assms] case_prod_beta Let_def)
qed simp

text \<open>
  Two clients of a tenant are connected; a third one comes, with a cap of one connection and one room and another origin.
\<close>

definition demo_tenant :: tenant where
  "demo_tenant = \<lparr>tn_id = ''t_1'', tn_name = ''One'', tn_origins = [], tn_active = True, tn_max_rooms = 0, tn_max_peers = 0,
     tn_email = None, tn_jwt_secret = None\<rparr>"

definition demo_capped :: "tenant \<Rightarrow> tenant" where
  "demo_capped t = t\<lparr>tn_origins := [''https://app.example.com''], tn_max_rooms := 1, tn_max_peers := 1\<rparr>"

definition demo_tenant_state :: "(mem_redis, nat, demo_json) app_state" where
  "demo_tenant_state = (demo_two default_config)\<lparr>client_tenants := [(''a'', ''t_1''), (''b'', ''t_1'')],
     tenant_cache := [(hash_api_key demo_sha ''k'', Some demo_tenant, 0)]\<rparr>"

definition demo_third :: ws_query where
  "demo_third = \<lparr>q_id = Some ''x'', q_token = Some ''tx'', q_key = Some ''dendri'', q_last_seq = None,
     q_jwt = None, q_api_key = Some ''k''\<rparr>"

lemma demo_third_connects: "fst (handle_socket demo_ext demo_third demo_tenant_state) = Connected 2"
proof -
  let ?st = "demo_tenant_state"
  have "is_valid_identifier ''x''" "is_valid_identifier ''tx''" by code_simp+
  moreover have "config ?st = default_config" by (simp add: demo_tenant_state_def)
  moreover have "resolve_tenant demo_ext (Some ''k'') ?st = (Some (Some demo_tenant), ?st)"
    by (simp add: resolve_tenant_def resolve_api_key_def cache_get_def demo_ext_def demo_tenant_state_def dm_get_def
        demo_tenant_def duration_since_def CACHE_TTL_def)
  ultimately have "authenticate demo_ext demo_third ?st = (Inr (''x'', ''tx'', Some demo_tenant), ?st)"
    by (simp add: authenticate_def check_params_def demo_third_def constant_time_str_eq_def demo_ext_def
        enforce_jwt_def effective_jwt_secret_def demo_tenant_def)
  moreover have "existing_token demo_ext ''x'' ?st = None"
    by (simp add: existing_token_def get_client_token_def demo_ext_def mem_api_def mem_empty_def demo_tenant_state_def demo_two_def dm_get_def)
  moreover have "fst (connect_new demo_ext ''x'' ''tx'' ls tid ?st) = Connected 2" for ls tid
    by (cases rule: connect_new_cases [of ?st demo_ext "''x''" "''tx''" ls tid])
      (auto simp: register_client_def demo_ext_def mem_api_def demo_tenant_state_def demo_two_def)
  ultimately show ?thesis by (simp add: handle_socket_def)
qed

theorem tenant_limits_ignored_witness:
  "let st = relimit_state demo_capped demo_tenant_state
   in tenant_cache st = [(hash_api_key demo_sha ''k'', Some (demo_capped demo_tenant), 0)] \<and>
      tn_max_peers (demo_capped demo_tenant) = 1 \<and>
      fst (answer_acts [(relimit demo_capped demo_ext, Opens demo_third)] st) = [Socket (Connected 2)]"
proof -
  have "only_limits demo_capped" by (auto simp: only_limits_def demo_capped_def)
  from tenant_limits_ignored [OF this, of "[(demo_ext, Opens demo_third)]" demo_tenant_state] demo_third_connects
  show ?thesis by (simp add: relimit_state_def cache_map_def demo_tenant_state_def demo_capped_def case_prod_beta Let_def)
qed

end
