(* ===== verification/Request_Log.thy ===== *)
theory Request_Log
  imports Startup "HOL-Library.Sublist"
begin

text \<open>
  What \<^verbatim>\<open>src/main.rs\<close> writes to the log around the handlers: the report of a panic, the filter of the log,
  the line of the start, and the span and the two events of the trace layer for every request. The log is
  the list of its entries, a target and the named fields of each.

  The theorem compares the request log with the redaction of room names in \<open>Startup\<close>.
\<close>

section \<open>The code\<close>

text \<open>What a panic carries: a literal, a formatted text, or anything else.\<close>

datatype panic_payload = PanicStr string | PanicString string | PanicOther

definition panic_location :: "(string \<times> nat) option \<Rightarrow> string" where
  "panic_location loc = (case loc of None \<Rightarrow> [] | Some (file, line) \<Rightarrow> file @ '':'' @ show_nat line)"

fun panic_msg :: "panic_payload \<Rightarrow> string" where
  "panic_msg (PanicStr s) = s"
| "panic_msg (PanicString s) = s"
| "panic_msg PanicOther = ''unknown''"

datatype level = Trace | Debug | Info | Warn | Error

record log_entry =
  le_level :: level
  le_fields :: "(string \<times> string) list"
  le_text :: string

text \<open>The panic hook: one entry of the log and one line on the error stream.\<close>

definition panic_hook :: "(string \<times> nat) option \<Rightarrow> panic_payload \<Rightarrow> log_entry \<times> string" where
  "panic_hook loc info =
     (let location = panic_location loc; msg = panic_msg info
      in (\<lparr>le_level = Error, le_fields = [(''panic.location'', location), (''panic.msg'', msg)], le_text = ''Panic''\<rparr>,
          ''FATAL: '' @ msg @ '' at '' @ location))"

text \<open>The directives of the log filter: the ones of the environment when they can be read.\<close>

definition env_filter :: "(string \<Rightarrow> 'd option) \<Rightarrow> 'd \<Rightarrow> string option \<Rightarrow> 'd" where
  "env_filter parse_directives dendri_info rust_log =
     (case rust_log of None \<Rightarrow> dendri_info
      | Some s \<Rightarrow> (case parse_directives s of None \<Rightarrow> dendri_info | Some d \<Rightarrow> d))"

text \<open>A request as the trace layer sees it; the target is written with its query.\<close>

record http_request =
  hr_method :: string
  hr_path :: string
  hr_query :: "string option"
  hr_version :: string

definition uri_display :: "http_request \<Rightarrow> string" where
  "uri_display rq = hr_path rq @ (case hr_query rq of None \<Rightarrow> [] | Some q \<Rightarrow> ''?'' @ q)"

definition make_span :: "http_request \<Rightarrow> (string \<times> string) list" where
  "make_span rq = [(''method'', hr_method rq), (''uri'', uri_display rq), (''version'', hr_version rq)]"

definition on_request :: "http_request \<Rightarrow> log_entry" where
  "on_request rq = \<lparr>le_level = Info, le_fields = [(''method'', hr_method rq), (''uri'', uri_display rq)],
     le_text = ''-> incoming request''\<rparr>"

definition on_response :: "nat \<Rightarrow> duration \<Rightarrow> log_entry" where
  "on_response status latency = \<lparr>le_level = Info,
     le_fields = [(''status'', show_nat status), (''latency_ms'', show_nat (latency div 1000000))],
     le_text = ''<- response''\<rparr>"

text \<open>The layer around a handler: its answer unchanged, and the entries written within the span.\<close>

definition trace_layer ::
  "(http_request \<Rightarrow> nat \<times> 'b) \<Rightarrow> http_request \<Rightarrow> duration \<Rightarrow> (nat \<times> 'b) \<times> (string \<times> string) list \<times> log_entry list" where
  "trace_layer handle rq latency =
     (let resp = handle rq
      in (resp, make_span rq, [on_request rq, on_response (fst resp) latency]))"

definition started_line :: "string \<Rightarrow> nat \<Rightarrow> string \<Rightarrow> log_entry" where
  "started_line ip port user_path = \<lparr>le_level = Info, le_fields = [],
     le_text = ''Started Dendri on '' @ ip @ '', port: '' @ show_nat port @ '', path: '' @
       (if user_path = [] then ''/'' else user_path)\<rparr>"

text \<open>The request for the peers of a room, with the name as an identifier needs no encoding.\<close>

definition peers_request :: "string \<Rightarrow> string \<Rightarrow> http_request" where
  "peers_request key name = \<lparr>hr_method = ''GET'', hr_path = ''/'' @ key @ ''/peers'', hr_query = Some (''room='' @ name),
     hr_version = ''HTTP/1.1''\<rparr>"

section \<open>Properties\<close>

text \<open>
  The trace layer answers what the handler answers, and writes the whole target of every request with its
  query to the log, credentials of a connection included. For a request that names a room this is the
  name itself, also where the operator did not opt in to names and every other line of the log has the
  redacted form.
\<close>

theorem request_log_shows_query:
  assumes "hr_query rq = Some q"
  shows "fst (trace_layer handle rq latency) = handle rq \<and>
    (\<exists>uri. (''uri'', uri) \<in> set (le_fields (on_request rq)) \<and> sublist q uri)"
proof -
  have "uri_display rq = (hr_path rq @ ''?'') @ q @ []" using assms by (simp add: uri_display_def)
  then have "sublist q (uri_display rq)" by (simp only: sublist_appendI)
  then show ?thesis by (simp add: trace_layer_def on_request_def Let_def)
qed

theorem request_log_shows_query_witness:
  "\<exists>uri. (''uri'', uri) \<in> set (le_fields (on_request (peers_request ''dendri'' ''acme-layoffs''))) \<and>
     sublist (''room='' @ ''acme-layoffs'') uri"
  by (rule request_log_shows_query [where handle = "\<lambda>rq. (200, ())", THEN conjunct2]) (simp add: peers_request_def)

end
