(* ===== verification/Replay_Tests.thy ===== *)
theory Replay_Tests
  imports Replay_Buffer Text_Format "HOL-Library.Sublist"
begin

text \<open>
  The test module of \<^verbatim>\<open>src/replay_buffer.rs\<close>, each test a definition over the model's
  operations. What a test leaves to the machine is an argument: the clock (\<open>c i\<close> is the reading the
  \<open>i\<close>-th operation gets), the random inputs of the two \<^verbatim>\<open>proptest\<close>s and the schedule of the two threads.

  The theorems show for which clocks and schedules the assertions hold, and the two property tests for
  every input instead of a sample.
\<close>

section \<open>Running a test\<close>

text \<open>Operations one after the other, the \<open>i\<close>-th at the \<open>i\<close>-th reading of the clock.\<close>

definition timed :: "(nat \<Rightarrow> instant) \<Rightarrow> replay_op list \<Rightarrow> (instant \<times> replay_op) list" where
  "timed c ops = zip (map c [0..<length ops]) ops"

definition after_ops :: "(nat \<Rightarrow> instant) \<Rightarrow> replay_op list \<Rightarrow> replay_buffer \<Rightarrow> replay_buffer" where
  "after_ops c ops rb = fold replay_step (timed c ops) rb"

text \<open>\<^verbatim>\<open>for i in a..b { buf.push(client, f(i), name(i)) }\<close>.\<close>

definition push_range :: "string \<Rightarrow> nat list \<Rightarrow> (nat \<Rightarrow> u64) \<Rightarrow> string \<Rightarrow> replay_op list" where
  "push_range client is seq_of name = map (\<lambda>i. Push client (seq_of i) (name @ show_nat i)) is"

section \<open>The tests\<close>

definition replay_since_always_returns_subset_of_pushed ::
  "(nat \<Rightarrow> instant) \<Rightarrow> (string \<times> u64) list \<Rightarrow> u64 \<Rightarrow> bool" where
  "replay_since_always_returns_subset_of_pushed c msgs since_seq =
     (let buf = after_ops c (map (\<lambda>(d, s). Push ''client1'' s d) msgs) (replay_new 1000 60000);
          replayed = replay_since (c (length msgs)) ''client1'' since_seq buf
      in length replayed \<le> length msgs)"

definition push_then_replay_zero_returns_all_within_limits ::
  "(nat \<Rightarrow> instant) \<Rightarrow> nat \<Rightarrow> usize \<Rightarrow> bool" where
  "push_then_replay_zero_returns_all_within_limits c count n =
     (let buf = after_ops c (push_range ''c1'' [0..<count] (\<lambda>i. word_of_nat i + 1) ''msg_'') (replay_new n 60000);
          replayed = replay_since (c count) ''c1'' 0 buf
      in length replayed = min count (unat n))"

definition push_and_replay_returns_messages_after_seq :: "(nat \<Rightarrow> instant) \<Rightarrow> bool" where
  "push_and_replay_returns_messages_after_seq c =
     (let buf = after_ops c [Push ''client1'' 1 ''{\"seq\":1}'', Push ''client1'' 2 ''{\"seq\":2}'',
            Push ''client1'' 3 ''{\"seq\":3}''] (replay_new 100 60000);
          replayed = replay_since (c 3) ''client1'' 1 buf
      in length replayed = 2 \<and> replayed ! 0 = ''{\"seq\":2}'' \<and> replayed ! 1 = ''{\"seq\":3}'')"

definition replay_since_zero_returns_all :: "(nat \<Rightarrow> instant) \<Rightarrow> bool" where
  "replay_since_zero_returns_all c =
     (let buf = after_ops c [Push ''client1'' 1 ''a'', Push ''client1'' 2 ''b''] (replay_new 100 60000)
      in length (replay_since (c 2) ''client1'' 0 buf) = 2)"

definition replay_unknown_client_returns_empty :: "(nat \<Rightarrow> instant) \<Rightarrow> bool" where
  "replay_unknown_client_returns_empty c = (replay_since (c 0) ''unknown'' 0 (replay_new 100 60000) = [])"

definition enforces_max_size :: "(nat \<Rightarrow> instant) \<Rightarrow> bool" where
  "enforces_max_size c =
     (let buf = after_ops c [Push ''c1'' 1 ''a'', Push ''c1'' 2 ''b'', Push ''c1'' 3 ''c'', Push ''c1'' 4 ''d'']
            (replay_new 3 60000);
          replayed = replay_since (c 4) ''c1'' 0 buf
      in length replayed = 3 \<and> replayed ! 0 = ''b'')"

text \<open>The sleeps of a test are a lower bound between two readings of its clock.\<close>

definition slept :: "nat \<Rightarrow> instant \<Rightarrow> instant \<Rightarrow> bool" where
  "slept ms before now \<longleftrightarrow> before + ms * 1000000 \<le> now"

definition evicts_expired_messages :: "(nat \<Rightarrow> instant) \<Rightarrow> bool" where
  "evicts_expired_messages c =
     (let buf = after_ops c [Push ''c1'' 1 ''old'', Push ''c1'' 2 ''new''] (replay_new 100 50);
          replayed = replay_since (c 2) ''c1'' 0 buf
      in length replayed = 1 \<and> replayed ! 0 = ''new'')"

definition remove_client_clears_buffer :: "(nat \<Rightarrow> instant) \<Rightarrow> bool" where
  "remove_client_clears_buffer c =
     (let buf = after_ops c [Push ''c1'' 1 ''a'', Remove ''c1''] (replay_new 100 60000)
      in replay_since (c 2) ''c1'' 0 buf = [])"

definition oldest_seq_returns_first_buffered_seq :: "(nat \<Rightarrow> instant) \<Rightarrow> bool" where
  "oldest_seq_returns_first_buffered_seq c =
     (let buf = after_ops c [Push ''c1'' 5 ''a'', Push ''c1'' 10 ''b'', Push ''c1'' 15 ''c''] (replay_new 100 60000)
      in oldest_seq ''c1'' buf = Some 5)"

definition oldest_seq_returns_none_for_unknown_client :: bool where
  "oldest_seq_returns_none_for_unknown_client = (oldest_seq ''unknown'' (replay_new 100 60000) = None)"

definition oldest_seq_reflects_eviction :: "(nat \<Rightarrow> instant) \<Rightarrow> bool" where
  "oldest_seq_reflects_eviction c =
     (let buf = after_ops c [Push ''c1'' 1 ''a'', Push ''c1'' 2 ''b'', Push ''c1'' 3 ''c''] (replay_new 2 60000)
      in oldest_seq ''c1'' buf = Some 2)"

definition evict_expired_removes_empty_buffers :: "(nat \<Rightarrow> instant) \<Rightarrow> bool" where
  "evict_expired_removes_empty_buffers c =
     (let buf = after_ops c [Push ''c1'' 1 ''a'', Evict] (replay_new 100 10)
      in buffers buf = [])"

definition push_10000_messages_only_max_size_retained :: "(nat \<Rightarrow> instant) \<Rightarrow> bool" where
  "push_10000_messages_only_max_size_retained c =
     (let mx = 100;
          buf = after_ops c (push_range ''c1'' [1..<10001] word_of_nat ''msg-'') (replay_new mx 60000);
          replayed = replay_since (c 10000) ''c1'' 0 buf
      in length replayed = unat mx \<and> replayed ! 0 = ''msg-9901'' \<and> replayed ! (unat mx - 1) = ''msg-10000'')"

definition replay_since_very_old_seq_returns_all :: "(nat \<Rightarrow> instant) \<Rightarrow> bool" where
  "replay_since_very_old_seq_returns_all c =
     (let buf = after_ops c (push_range ''c1'' [100..<111] word_of_nat ''msg-'') (replay_new 100 60000);
          replayed = replay_since (c 11) ''c1'' 0 buf
      in length replayed = 11 \<and> replayed ! 0 = ''msg-100'')"

definition replay_since_future_seq_returns_empty :: "(nat \<Rightarrow> instant) \<Rightarrow> bool" where
  "replay_since_future_seq_returns_empty c =
     (let buf = after_ops c [Push ''c1'' 1 ''a'', Push ''c1'' 2 ''b'', Push ''c1'' 3 ''c''] (replay_new 100 60000)
      in replay_since (c 3) ''c1'' 999 buf = [])"

text \<open>
  The two threads of the concurrency test: the writer pushes number \<open>i\<close>, the reader adds up what it
  reads. A schedule says, event by event, whether the writer moves; it has 500 moves of the writer and
  100 of the reader. The operations lock the same shard of the map, so they do not overlap.
\<close>

definition thread_event :: "instant \<Rightarrow> bool \<Rightarrow> replay_buffer \<times> nat \<times> nat \<Rightarrow> replay_buffer \<times> nat \<times> nat" where
  "thread_event now writer = (\<lambda>(buf, i, total_read).
     if writer then (push now ''c1'' (word_of_nat i) (''msg-'' @ show_nat i) buf, i + 1, total_read)
     else (buf, i, total_read + length (replay_since now ''c1'' 0 buf)))"

definition run_threads :: "(nat \<Rightarrow> instant) \<Rightarrow> bool list \<Rightarrow> replay_buffer \<times> nat \<times> nat" where
  "run_threads c schedule =
     fold (\<lambda>(now, w). thread_event now w) (zip (map c [0..<length schedule]) schedule) (replay_new 1000 60000, 1, 0)"

definition concurrent_schedule :: "bool list \<Rightarrow> bool" where
  "concurrent_schedule s \<longleftrightarrow> length (filter (\<lambda>w. w) s) = 500 \<and> length (filter (\<lambda>w. \<not> w) s) = 100"

definition concurrent_push_and_replay_no_deadlock :: "(nat \<Rightarrow> instant) \<Rightarrow> bool list \<Rightarrow> bool" where
  "concurrent_push_and_replay_no_deadlock c schedule =
     (case run_threads c schedule of (buf, _, total_read) \<Rightarrow>
        0 < total_read \<and> length (replay_since (c (length schedule)) ''c1'' 0 buf) = 500)"

definition buffer_with_ttl_zero_everything_expires_immediately :: "(nat \<Rightarrow> instant) \<Rightarrow> bool" where
  "buffer_with_ttl_zero_everything_expires_immediately c =
     (let buf = after_ops c [Push ''c1'' 1 ''a'', Push ''c1'' 2 ''b''] (replay_new 100 0)
      in replay_since (c 2) ''c1'' 0 buf = [])"

definition oldest_seq_after_eviction_by_max_size :: "(nat \<Rightarrow> instant) \<Rightarrow> bool" where
  "oldest_seq_after_eviction_by_max_size c =
     (let three = [Push ''c1'' 10 ''a'', Push ''c1'' 20 ''b'', Push ''c1'' 30 ''c''];
          four = three @ [Push ''c1'' 40 ''d''];
          six = four @ [Push ''c1'' 50 ''e'', Push ''c1'' 60 ''f'']
      in oldest_seq ''c1'' (after_ops c three (replay_new 3 60000)) = Some 10 \<and>
         oldest_seq ''c1'' (after_ops c four (replay_new 3 60000)) = Some 20 \<and>
         oldest_seq ''c1'' (after_ops c six (replay_new 3 60000)) = Some 40)"

definition oldest_seq_after_eviction_by_ttl :: "(nat \<Rightarrow> instant) \<Rightarrow> bool" where
  "oldest_seq_after_eviction_by_ttl c =
     (let buf = after_ops c [Push ''c1'' 1 ''old'', Push ''c1'' 2 ''old2'', Push ''c1'' 3 ''new''] (replay_new 100 30)
      in oldest_seq ''c1'' buf = Some 3)"

definition multiple_clients_are_independent :: "(nat \<Rightarrow> instant) \<Rightarrow> bool" where
  "multiple_clients_are_independent c =
     (let both = push_range ''alice'' [1..<6] word_of_nat ''a-'' @
            push_range ''bob'' [1..<4] (\<lambda>i. word_of_nat i + 100) ''b-'';
          buf = after_ops c both (replay_new 5 60000);
          removed = after_ops c (both @ [Remove ''alice'']) (replay_new 5 60000)
      in length (replay_since (c 8) ''alice'' 0 buf) = 5 \<and> length (replay_since (c 8) ''bob'' 0 buf) = 3 \<and>
         replay_since (c 9) ''alice'' 0 removed = [] \<and> length (replay_since (c 9) ''bob'' 0 removed) = 3)"

section \<open>Lemmas\<close>

text \<open>What a key was sent since it was last removed, without the times.\<close>

fun push_effect :: "string \<Rightarrow> replay_op \<Rightarrow> (u64 \<times> string) list \<Rightarrow> (u64 \<times> string) list" where
  "push_effect k (Push k' s d) xs = (if k' = k then xs @ [(s, d)] else xs)"
| "push_effect k (Remove k') xs = (if k' = k then [] else xs)"
| "push_effect k Evict xs = xs"

definition pushed :: "string \<Rightarrow> replay_op list \<Rightarrow> (u64 \<times> string) list" where
  "pushed k ops = fold (push_effect k) ops []"

definition seq_data :: "buffered_message \<Rightarrow> u64 \<times> string" where
  "seq_data m = (bm_seq m, bm_data m)"

lemma map_last_n: "map f (last_n n xs) = last_n n (map f xs)"
  by (simp add: last_n_def drop_map)

lemma log_seq_data:
  "map seq_data (fold log_step ops h k) = fold (push_effect k) (map snd ops) (map seq_data (h k))"
proof (induction ops arbitrary: h)
  case (Cons op ops)
  obtain now r where op: "op = (now, r)" by (cases op)
  have "map seq_data (log_step op h k) = push_effect k r (map seq_data (h k))"
    unfolding op by (cases r) (simp_all add: seq_data_def)
  with Cons [of "log_step op h"] show ?case by (simp add: op)
qed simp

lemma log_created:
  "m \<in> set (fold log_step ops h k) \<Longrightarrow> m \<in> set (h k) \<or> bm_created_at m \<in> fst ` set ops"
proof (induction ops arbitrary: h)
  case (Cons op ops)
  obtain now r where op: "op = (now, r)" by (cases op)
  from Cons.IH [of "log_step op h"] Cons.prems
  have "m \<in> set (log_step op h k) \<or> bm_created_at m \<in> fst ` set ops" by simp
  then show ?case unfolding op by (cases r) (auto split: if_splits)
qed simp

lemma set_last_n: "set (last_n n xs) \<subseteq> set xs"
  by (simp add: last_n_def set_drop_subset)

text \<open>
  A run within the time to live: the buffer of every key is the end of what was pushed to it, and a
  replay is the part of that with larger sequence numbers.
\<close>

lemma run_in_time:
  assumes "sorted (map fst ops)" "\<forall>op \<in> set ops. fst op \<le> now \<and> now - fst op < duration_from_millis ttl"
  shows "map seq_data (buffer_of (fold replay_step ops (replay_new n ttl)) k) =
      last_n (max 1 (unat n)) (pushed k (map snd ops))"
    and "replay_since now k since (fold replay_step ops (replay_new n ttl)) =
      map snd (filter (\<lambda>(s, d). since < s) (last_n (max 1 (unat n)) (pushed k (map snd ops))))"
proof -
  let ?rb = "fold replay_step ops (replay_new n ttl)"
  let ?log = "fold log_step ops (\<lambda>_. []) k"
  have cap: "capacity ?rb = max 1 (unat n)" "replay_ttl ?rb = duration_from_millis ttl"
    by (simp_all add: capacity_def replay_ttl_def replay_new_def)
  have fresh: "\<not> expired now (replay_ttl ?rb) m" if "m \<in> set (last_n (capacity ?rb) ?log)" for m
    using log_created [of m ops "\<lambda>_. []" k] that set_last_n assms(2)
    by (fastforce simp: expired_def duration_since_def cap not_le)
  have "refines_log now ?rb (fold log_step ops (\<lambda>_. []))"
    using log_run_refined [OF assms(1)] last_le_bound [of ops now] assms(2) by (blast intro: refines_log_later)
  then obtain gone where gone: "last_n (capacity ?rb) ?log = gone @ buffer_of ?rb k"
      "\<forall>m \<in> set gone. expired now (replay_ttl ?rb) m"
    unfolding refines_log_def by meson
  then have buf: "buffer_of ?rb k = last_n (capacity ?rb) ?log"
    using fresh by (cases gone) auto
  then show whole: "map seq_data (buffer_of ?rb k) = last_n (max 1 (unat n)) (pushed k (map snd ops))"
    using log_seq_data [of ops "\<lambda>_. []" k] by (simp add: cap map_last_n pushed_def)
  have "replay_since now k since ?rb = map bm_data (filter (\<lambda>m. since < bm_seq m) (buffer_of ?rb k))"
    using fresh buf by (simp add: replay_since_buffer_of unexpired_after_def cong: filter_cong)
  also have "\<dots> = map snd (filter (\<lambda>(s, d). since < s) (map seq_data (buffer_of ?rb k)))"
    by (simp add: filter_map o_def seq_data_def)
  finally show "replay_since now k since ?rb =
      map snd (filter (\<lambda>(s, d). since < s) (last_n (max 1 (unat n)) (pushed k (map snd ops))))"
    by (simp only: whole)
qed

text \<open>A clock that never goes back and stays within \<open>ms\<close> milliseconds over \<open>n\<close> readings.\<close>

definition in_time :: "(nat \<Rightarrow> instant) \<Rightarrow> nat \<Rightarrow> u64 \<Rightarrow> bool" where
  "in_time c n ms \<longleftrightarrow> mono c \<and> c n - c 0 < duration_from_millis ms"

lemma in_timeD: "in_time c n ms \<Longrightarrow> i \<le> n \<Longrightarrow> c i \<le> c n \<and> c n - c i < duration_from_millis ms"
  using monoD [of c i n] monoD [of c 0 i] by (auto simp: in_time_def)

lemma in_time_le: "in_time c n ms \<Longrightarrow> m \<le> n \<Longrightarrow> in_time c m ms"
  using monoD [of c m n] by (auto simp: in_time_def)

lemma sorted_clock: "mono c \<Longrightarrow> sorted (map c [0..<n])"
  by (auto simp: sorted_wrt_map sorted_wrt_iff_nth_less monoD)

lemma timed_simps:
  "map fst (timed c ops) = map c [0..<length ops]" "map snd (timed c ops) = ops"
  by (simp_all add: timed_def)

lemma timed_in_time:
  assumes "in_time c (length ops) ms"
  shows "sorted (map fst (timed c ops))"
    and "\<forall>op \<in> set (timed c ops). fst op \<le> c (length ops) \<and> c (length ops) - fst op < duration_from_millis ms"
proof -
  show "sorted (map fst (timed c ops))" using assms by (simp add: timed_simps in_time_def sorted_clock)
  have "fst op \<in> c ` {0..<length ops}" if "op \<in> set (timed c ops)" for op
    using that by (auto simp: timed_def set_zip)
  then show "\<forall>op \<in> set (timed c ops). fst op \<le> c (length ops) \<and> c (length ops) - fst op < duration_from_millis ms"
    using in_timeD [OF assms] by fastforce
qed

lemma after_ops_replay:
  assumes "in_time c (length ops) ttl"
  shows "replay_since (c (length ops)) k since (after_ops c ops (replay_new n ttl)) =
    map snd (filter (\<lambda>(s, d). since < s) (last_n (max 1 (unat n)) (pushed k ops)))"
  using run_in_time(2) [OF timed_in_time [OF assms]] by (simp add: after_ops_def timed_simps)

lemma after_ops_oldest:
  assumes "in_time c (length ops) ttl"
  shows "oldest_seq k (after_ops c ops (replay_new n ttl)) =
    (case last_n (max 1 (unat n)) (pushed k ops) of [] \<Rightarrow> None | (s, d) # _ \<Rightarrow> Some s)"
  unfolding run_in_time(1) [OF timed_in_time [OF assms], where n = n and k = k, unfolded timed_simps, symmetric]
    oldest_seq_buffer_of after_ops_def
  by (simp add: seq_data_def split: list.split)

lemma pushed_range:
  "fold (push_effect k) (push_range k' is f p) xs =
    (if k' = k then xs @ map (\<lambda>i. (f i, p @ show_nat i)) is else xs)"
  by (induction "is" arbitrary: xs) (simp_all add: push_range_def)

lemma length_push_range [simp]: "length (push_range k is f p) = length is"
  by (simp add: push_range_def)

text \<open>The tests whose messages all live, by what was pushed.\<close>

lemmas test_eval = pushed_def pushed_range last_n_def Let_def

lemma listed_tests_pass:
  assumes "in_time c 9 60000"
  shows "push_and_replay_returns_messages_after_seq c" "replay_since_zero_returns_all c"
    "replay_unknown_client_returns_empty c" "enforces_max_size c" "remove_client_clears_buffer c"
    "oldest_seq_returns_first_buffered_seq c" "oldest_seq_returns_none_for_unknown_client"
    "oldest_seq_reflects_eviction c" "replay_since_future_seq_returns_empty c"
    "oldest_seq_after_eviction_by_max_size c"
proof -
  have replay: "replay_since (c m) k since (after_ops c ops (replay_new n 60000)) =
      map snd (filter (\<lambda>(s, d). since < s) (last_n (max 1 (unat n)) (pushed k ops)))"
    and oldest: "oldest_seq k (after_ops c ops (replay_new n 60000)) =
      (case last_n (max 1 (unat n)) (pushed k ops) of [] \<Rightarrow> None | (s, d) # _ \<Rightarrow> Some s)"
    if "m = length ops" "length ops \<le> 9" for ops k since n m
    using after_ops_replay after_ops_oldest in_time_le [OF assms that(2)] that(1) by blast+
  show "push_and_replay_returns_messages_after_seq c"
    by (simp add: push_and_replay_returns_messages_after_seq_def replay test_eval)
  show "replay_since_zero_returns_all c"
    by (simp add: replay_since_zero_returns_all_def replay test_eval)
  show "replay_unknown_client_returns_empty c"
    by (simp add: replay_unknown_client_returns_empty_def replay_since_def replay_new_def)
  show "enforces_max_size c"
    by (simp add: enforces_max_size_def replay test_eval)
  show "remove_client_clears_buffer c"
    by (simp add: remove_client_clears_buffer_def replay test_eval)
  show "oldest_seq_returns_first_buffered_seq c"
    by (simp add: oldest_seq_returns_first_buffered_seq_def oldest test_eval)
  show "oldest_seq_returns_none_for_unknown_client"
    by (simp add: oldest_seq_returns_none_for_unknown_client_def oldest_seq_def replay_new_def)
  show "oldest_seq_reflects_eviction c"
    by (simp add: oldest_seq_reflects_eviction_def oldest test_eval)
  show "replay_since_future_seq_returns_empty c"
    by (simp add: replay_since_future_seq_returns_empty_def replay test_eval)
  show "oldest_seq_after_eviction_by_max_size c"
    by (simp add: oldest_seq_after_eviction_by_max_size_def oldest test_eval)
qed

text \<open>A numbered run of pushes: the newest \<open>n\<close> come back.\<close>

lemma numbered_replay:
  assumes "in_time c (b - a) ttl" "\<forall>i \<in> {a..<b}. 0 < f i"
  shows "replay_since (c (b - a)) k 0 (after_ops c (push_range k [a..<b] f p) (replay_new n ttl)) =
    map (\<lambda>i. p @ show_nat i) [a + (b - a - max 1 (unat n))..<b]"
proof -
  have "replay_since (c (b - a)) k 0 (after_ops c (push_range k [a..<b] f p) (replay_new n ttl)) =
      map snd (filter (\<lambda>(s, d). 0 < s) (last_n (max 1 (unat n)) (pushed k (push_range k [a..<b] f p))))"
    using after_ops_replay [of c "push_range k [a..<b] f p"] assms(1) by simp
  also have "last_n (max 1 (unat n)) (pushed k (push_range k [a..<b] f p)) =
      map (\<lambda>i. (f i, p @ show_nat i)) [a + (b - a - max 1 (unat n))..<b]"
    by (simp add: pushed_def pushed_range last_n_def drop_map)
  also have "filter (\<lambda>(s, d). 0 < s) \<dots> = \<dots>"
    using assms(2) by (intro filter_True) auto
  finally show ?thesis by (simp add: o_def)
qed

lemma word_of_nat_pos: "0 < i \<Longrightarrow> i < 2 ^ 64 \<Longrightarrow> (0 :: u64) < word_of_nat i"
  by (simp add: word_less_nat_alt unat_of_nat)

lemma numbered_tests_pass:
  assumes "in_time c 10000 60000"
  shows "push_10000_messages_only_max_size_retained c" "replay_since_very_old_seq_returns_all c"
proof -
  have "replay_since (c 10000) ''c1'' 0 (after_ops c (push_range ''c1'' [1..<10001] word_of_nat ''msg-'') (replay_new 100 60000)) =
      map (\<lambda>i. ''msg-'' @ show_nat i) [9901..<10001]"
    using numbered_replay [of c 10001 1 60000 word_of_nat "''c1''" "''msg-''" 100] assms word_of_nat_pos
    by (simp del: upt_rec_numeral)
  then show "push_10000_messages_only_max_size_retained c"
    by (simp add: push_10000_messages_only_max_size_retained_def Let_def show_nat.simps digit_char_def char_of_def bit_0 del: upt_rec_numeral)
  have "replay_since (c 11) ''c1'' 0 (after_ops c (push_range ''c1'' [100..<111] word_of_nat ''msg-'') (replay_new 100 60000)) =
      map (\<lambda>i. ''msg-'' @ show_nat i) [100..<111]"
    using numbered_replay [of c 111 100 60000 word_of_nat "''c1''" "''msg-''" 100] in_time_le [OF assms, of 11] word_of_nat_pos
    by (simp del: upt_rec_numeral)
  then show "replay_since_very_old_seq_returns_all c"
    by (simp add: replay_since_very_old_seq_returns_all_def Let_def show_nat.simps digit_char_def char_of_def bit_0 del: upt_rec_numeral)
qed

lemma independent_clients_pass:
  assumes "in_time c 9 60000"
  shows "multiple_clients_are_independent c"
proof -
  define both where "both = push_range ''alice'' [1..<6] word_of_nat ''a-'' @ push_range ''bob'' [1..<4] (\<lambda>i. word_of_nat i + 100) ''b-''"
  have "pushed ''alice'' both = map (\<lambda>i. (word_of_nat i, ''a-'' @ show_nat i)) [1..<6]"
    "pushed ''bob'' both = map (\<lambda>i. (word_of_nat i + 100, ''b-'' @ show_nat i)) [1..<4]"
    "pushed ''alice'' (both @ [Remove ''alice'']) = []"
    "pushed ''bob'' (both @ [Remove ''alice'']) = map (\<lambda>i. (word_of_nat i + 100, ''b-'' @ show_nat i)) [1..<4]"
    by (simp_all add: both_def pushed_def pushed_range del: upt_rec_numeral)
  moreover have len: "length both = 8" by (simp add: both_def)
  ultimately show ?thesis
    using after_ops_replay [of c both 60000 _ 0 5] after_ops_replay [of c "both @ [Remove ''alice'']" 60000 _ 0 5]
      in_time_le [OF assms, of 8] assms
    unfolding multiple_clients_are_independent_def Let_def both_def [symmetric]
    by (simp add: last_n_def upt_rec len)
qed

text \<open>The tests that let messages expire.\<close>

lemma expiring_tests_pass:
  shows "mono c \<Longrightarrow> slept 80 (c 0) (c 1) \<Longrightarrow> c 2 - c 1 < 50000000 \<Longrightarrow> evicts_expired_messages c"
    and "slept 30 (c 0) (c 1) \<Longrightarrow> evict_expired_removes_empty_buffers c"
    and "buffer_with_ttl_zero_everything_expires_immediately c"
    and "mono c \<Longrightarrow> c 1 - c 0 < 30000000 \<Longrightarrow> slept 50 (c 1) (c 2) \<Longrightarrow> oldest_seq_after_eviction_by_ttl c"
proof -
  note ev = after_ops_def timed_def push_def replay_new_def slept_def duration_from_millis_def duration_since_def
    Let_def replay_since_def oldest_seq_def evict_expired_def evict_key_def dm_insert_def dm_remove_def dm_keys_def dm_get_Cons
  show "mono c \<Longrightarrow> slept 80 (c 0) (c 1) \<Longrightarrow> c 2 - c 1 < 50000000 \<Longrightarrow> evicts_expired_messages c"
    by (simp add: evicts_expired_messages_def ev)
  show "slept 30 (c 0) (c 1) \<Longrightarrow> evict_expired_removes_empty_buffers c"
    by (simp add: evict_expired_removes_empty_buffers_def ev)
  show "buffer_with_ttl_zero_everything_expires_immediately c"
    by (simp add: buffer_with_ttl_zero_everything_expires_immediately_def ev)
  show "mono c \<Longrightarrow> c 1 - c 0 < 30000000 \<Longrightarrow> slept 50 (c 1) (c 2) \<Longrightarrow> oldest_seq_after_eviction_by_ttl c"
    using monoD [of c 0 1] by (simp add: oldest_seq_after_eviction_by_ttl_def ev) (simp add: numeral_2_eq_2, arith)
qed

text \<open>
  The threads: whatever the schedule, the buffer is the one of the pushes alone, and the reader has read
  something exactly if one of its moves came after one of the writer's.
\<close>

definition written :: "(instant \<times> bool) list \<Rightarrow> nat \<Rightarrow> (instant \<times> replay_op) list" where
  "written evs i = map (\<lambda>((now, w), j). (now, Push ''c1'' (word_of_nat j) (''msg-'' @ show_nat j)))
     (zip (filter snd evs) [i..<i + length (filter snd evs)])"

lemma written_simps [simp]:
  "written [] i = []"
  "written ((now, True) # evs) i = (now, Push ''c1'' (word_of_nat i) (''msg-'' @ show_nat i)) # written evs (Suc i)"
  "written ((now, False) # evs) i = written evs i"
  by (simp_all add: written_def upt_conv_Cons del: upt_Suc)

lemma threads_buffer:
  "fst (fold (\<lambda>(now, w). thread_event now w) evs (buf, i, n)) = fold replay_step (written evs i) buf"
proof (induction evs arbitrary: buf i n)
  case (Cons ev evs)
  obtain now w where ev: "ev = (now, w)" by (cases ev)
  show ?case using Cons by (cases w) (simp_all add: ev thread_event_def)
qed simp

lemma written_fst: "map fst (written evs i) = map fst (filter snd evs)"
  by (induction evs arbitrary: i) auto

lemma written_snd: "map snd (written evs i) = push_range ''c1'' [i..<i + length (filter snd evs)] word_of_nat ''msg-''"
  by (induction evs arbitrary: i) (auto simp: push_range_def upt_conv_Cons simp del: upt_Suc)

lemma sorted_map_filter: "sorted (map f xs) \<Longrightarrow> sorted (map f (filter P xs))"
  by (induction xs) auto

lemma threads_replay:
  assumes "sorted (map fst evs)" "\<forall>ev \<in> set evs. fst ev \<le> now \<and> now - fst ev < duration_from_millis 60000"
    and "length (filter snd evs) \<le> 1000"
  shows "replay_since now ''c1'' 0 (fold replay_step (written evs 1) (replay_new 1000 60000)) =
    map (\<lambda>i. ''msg-'' @ show_nat i) [1..<1 + length (filter snd evs)]"
proof -
  let ?n = "length (filter snd evs)"
  have "fst op \<in> fst ` set evs" if "op \<in> set (written evs 1)" for op
    using that arg_cong [OF written_fst [of evs 1], of set] by fastforce
  then have "\<forall>op \<in> set (written evs 1). fst op \<le> now \<and> now - fst op < duration_from_millis 60000"
    using assms(2) by fastforce
  moreover have "sorted (map fst (written evs 1))" by (simp add: written_fst sorted_map_filter assms(1))
  ultimately have "replay_since now ''c1'' 0 (fold replay_step (written evs 1) (replay_new 1000 60000)) =
      map snd (filter (\<lambda>(s, d). (0 :: u64) < s) (last_n 1000 (map (\<lambda>i. (word_of_nat i, ''msg-'' @ show_nat i)) [1..<1 + ?n])))"
    using run_in_time(2) [of "written evs 1" now 60000 "''c1''" 0 1000]
    by (simp only: written_snd pushed_def pushed_range) (simp del: upt_Suc)
  also have "\<dots> = map snd (filter (\<lambda>(s, d). (0 :: u64) < s) (map (\<lambda>i. (word_of_nat i, ''msg-'' @ show_nat i)) [1..<1 + ?n]))"
    using assms(3) by (simp add: last_n_def del: upt_Suc)
  also have "filter (\<lambda>(s, d). (0 :: u64) < s) (map (\<lambda>i. (word_of_nat i, ''msg-'' @ show_nat i)) [1..<1 + ?n]) =
      map (\<lambda>i. (word_of_nat i, ''msg-'' @ show_nat i)) [1..<1 + ?n]"
    using assms(3) by (intro filter_True) (auto intro!: word_of_nat_pos)
  finally show ?thesis by (simp add: o_def del: upt_Suc)
qed

text \<open>What the reader has read in all, schedule by schedule.\<close>

lemma threads_snoc:
  "run_threads c (s @ [w]) = thread_event (c (length s)) w (run_threads c s)"
  by (simp add: run_threads_def)

lemma run_threads_buffer:
  "fst (run_threads c s) = fold replay_step (written (zip (map c [0..<length s]) s) 1) (replay_new 1000 60000)"
  by (simp add: run_threads_def threads_buffer)

lemma filter_snd_zip: "length xs = length s \<Longrightarrow> length (filter snd (zip xs s)) = length (filter (\<lambda>w. w) s)"
  by (induction xs s rule: list_induct2) auto

lemma schedule_replay:
  assumes "in_time c n 60000" "length s \<le> n" "length (filter (\<lambda>w. w) s) \<le> 1000"
  shows "length (replay_since (c (length s)) ''c1'' 0 (fst (run_threads c s))) = length (filter (\<lambda>w. w) s)"
proof -
  let ?evs = "zip (map c [0..<length s]) s"
  have win: "in_time c (length s) 60000" using in_time_le [OF assms(1,2)] .
  then have "sorted (map fst ?evs)" by (simp add: in_time_def sorted_clock)
  moreover have "\<forall>ev \<in> set ?evs. fst ev \<le> c (length s) \<and> c (length s) - fst ev < duration_from_millis 60000"
    using in_timeD [OF win] by (auto simp: set_zip)
  ultimately show ?thesis
    using threads_replay [of ?evs "c (length s)"] assms(3) by (simp add: run_threads_buffer filter_snd_zip del: upt_Suc)
qed

lemma later_move:
  "(\<exists>i j. i < j \<and> j < length (s @ [w]) \<and> (s @ [w]) ! i \<and> \<not> (s @ [w]) ! j) \<longleftrightarrow>
    (\<exists>i j. i < j \<and> j < length s \<and> s ! i \<and> \<not> s ! j) \<or> \<not> w \<and> True \<in> set s"
  (is "?lhs \<longleftrightarrow> ?rhs")
proof
  assume ?lhs
  then obtain i j where ij: "i < j" "j < length (s @ [w])" "(s @ [w]) ! i" "\<not> (s @ [w]) ! j" by blast
  then have "i < length s" by simp
  with ij show ?rhs
    by (cases "j < length s") (auto simp: nth_append in_set_conv_nth)
next
  assume ?rhs
  then show ?lhs
  proof
    assume "\<exists>i j. i < j \<and> j < length s \<and> s ! i \<and> \<not> s ! j"
    then obtain i j where "i < j" "j < length s" "s ! i" "\<not> s ! j" by blast
    then have "i < j \<and> j < length (s @ [w]) \<and> (s @ [w]) ! i \<and> \<not> (s @ [w]) ! j" by (simp add: nth_append)
    then show ?lhs by blast
  next
    assume "\<not> w \<and> True \<in> set s"
    then obtain i where "i < length s" "s ! i" "\<not> w" by (auto simp: in_set_conv_nth)
    then have "i < length s \<and> length s < length (s @ [w]) \<and> (s @ [w]) ! i \<and> \<not> (s @ [w]) ! length s"
      by (simp add: nth_append)
    then show ?lhs by blast
  qed
qed

lemma threads_total:
  assumes "in_time c n 60000" "length s \<le> n" "length (filter (\<lambda>w. w) s) \<le> 1000"
  shows "0 < snd (snd (run_threads c s)) \<longleftrightarrow> (\<exists>i j. i < j \<and> j < length s \<and> s ! i \<and> \<not> s ! j)"
  using assms(2,3)
proof (induction s rule: rev_induct)
  case Nil
  then show ?case by (simp add: run_threads_def)
next
  case (snoc w s)
  have len: "length (replay_since (c (length s)) ''c1'' 0 (fst (run_threads c s))) = length (filter (\<lambda>w. w) s)"
    using snoc.prems by (intro schedule_replay [OF assms(1)]) simp_all
  obtain buf i n where run: "run_threads c s = (buf, i, n)" by (cases "run_threads c s")
  have ih: "0 < n \<longleftrightarrow> (\<exists>i j. i < j \<and> j < length s \<and> s ! i \<and> \<not> s ! j)"
    using snoc by (simp add: run)
  have "0 < snd (snd (run_threads c (s @ [w]))) \<longleftrightarrow> 0 < n \<or> \<not> w \<and> True \<in> set s"
    using len by (auto simp: threads_snoc run thread_event_def filter_empty_conv)
  also have "\<dots> \<longleftrightarrow> (\<exists>i j. i < j \<and> j < length (s @ [w]) \<and> (s @ [w]) ! i \<and> \<not> (s @ [w]) ! j)"
    unfolding ih later_move by blast
  finally show ?case .
qed

section \<open>Properties\<close>

text \<open>
  The first property test holds for every input, not only for the sampled ones, and so does what its name
  says (its assertion compares lengths only): whatever is pushed, at whatever times, a replay returns a
  part of it in the order of the pushes.
\<close>

theorem subset_test_holds:
  assumes "mono c"
  shows "replay_since_always_returns_subset_of_pushed c msgs since_seq \<and>
     subseq (replay_since (c (length msgs)) ''client1'' since_seq
       (after_ops c (map (\<lambda>(d, s). Push ''client1'' s d) msgs) (replay_new 1000 60000))) (map fst msgs)"
proof -
  let ?ops = "map (\<lambda>(d, s). Push ''client1'' s d) msgs"
  let ?r = "replay_since (c (length msgs)) ''client1'' since_seq (after_ops c ?ops (replay_new 1000 60000))"
  have run: "refines_log (c (length msgs)) (after_ops c ?ops (replay_new 1000 60000)) (fold log_step (timed c ?ops) (\<lambda>_. []))"
    unfolding after_ops_def using assms
    by (intro refines_log_later [OF log_run_refined]) (auto simp: timed_simps sorted_clock timed_def last_conv_nth monoD)
  have "fold (push_effect ''client1'') ?ops xs = xs @ map (\<lambda>(d, s). (s, d)) msgs" for xs
    by (induction msgs arbitrary: xs) auto
  then have log: "map seq_data (fold log_step (timed c ?ops) (\<lambda>_. []) ''client1'') = map (\<lambda>(d, s). (s, d)) msgs"
    by (simp add: log_seq_data timed_simps)
  have "subseq ?r (map bm_data (fold log_step (timed c ?ops) (\<lambda>_. []) ''client1''))"
    unfolding refines_log_replay [OF run order_refl] unexpired_after_def
    by (intro subseq_map subseq_order.trans [OF subseq_filter_left]) (simp add: last_n_def suffix_imp_subseq suffix_drop)
  moreover have "map bm_data xs = map snd (map seq_data xs)" for xs by (simp add: seq_data_def)
  ultimately have "subseq ?r (map fst msgs)" by (simp add: log o_def case_prod_beta)
  then show ?thesis
    using list_emb_length [of "(=)" ?r "map fst msgs"]
    by (simp add: replay_since_always_returns_subset_of_pushed_def Let_def)
qed

text \<open>
  The second one holds for every number of messages below 2 to the 64 and every size but 0 (where one
  message would come back instead of none) in a run shorter than the time to live.
\<close>

theorem limits_test_holds:
  assumes "in_time c count 60000" "count < 2 ^ 64" "n \<noteq> 0"
  shows "push_then_replay_zero_returns_all_within_limits c count n"
proof -
  have "(0 :: u64) < word_of_nat i + 1" if "i < count" for i
    using word_of_nat_pos [of "Suc i"] that assms(2) by (simp add: add.commute)
  moreover have "max 1 (unat n) = unat n" using assms(3) unat_gt_0 [of n] by simp
  ultimately show ?thesis
    using numbered_replay [of c count 0 60000 "\<lambda>i. word_of_nat i + 1" "''c1''" "''msg_''" n] assms(1)
    by (simp add: push_then_replay_zero_returns_all_within_limits_def Let_def min_def)
qed

text \<open>
  The concurrency test asserts something no schedule has to give. In a run shorter than the time to
  live all 500 messages are in the buffer at the end, whatever the schedule; but the reader has read
  something exactly if one of its moves came after one of the writer's, and a schedule that lets the
  reader finish first makes the test fail.
\<close>

theorem concurrent_test_outcome:
  assumes "in_time c 600 60000" "concurrent_schedule s"
  shows "(concurrent_push_and_replay_no_deadlock c s \<longleftrightarrow> (\<exists>i j. i < j \<and> j < length s \<and> s ! i \<and> \<not> s ! j)) \<and>
    length (replay_since (c (length s)) ''c1'' 0 (fst (run_threads c s))) = 500 \<and>
    concurrent_schedule (replicate 100 False @ replicate 500 True) \<and>
    \<not> concurrent_push_and_replay_no_deadlock c (replicate 100 False @ replicate 500 True)"
proof -
  have outcome: "(concurrent_push_and_replay_no_deadlock c s \<longleftrightarrow> (\<exists>i j. i < j \<and> j < length s \<and> s ! i \<and> \<not> s ! j)) \<and>
      length (replay_since (c (length s)) ''c1'' 0 (fst (run_threads c s))) = 500"
    if "concurrent_schedule s" for s
  proof -
    have "length s = 600"
      using that sum_length_filter_compl [of "\<lambda>w. w" s] by (simp add: concurrent_schedule_def)
    with that threads_total [OF assms(1), of s] schedule_replay [OF assms(1), of s] show ?thesis
      by (simp add: concurrent_schedule_def concurrent_push_and_replay_no_deadlock_def case_prod_beta)
  qed
  have first: "concurrent_schedule (replicate 100 False @ replicate 500 True)"
    by (simp add: concurrent_schedule_def filter_replicate)
  have "\<not> (\<exists>i j. i < j \<and> j < length (replicate 100 False @ replicate 500 True) \<and>
      (replicate 100 False @ replicate 500 True) ! i \<and> \<not> (replicate 100 False @ replicate 500 True) ! j)"
    by (auto simp: nth_append split: if_splits)
  with outcome [OF assms(2)] outcome [OF first] first show ?thesis by blast
qed

theorem concurrent_test_outcome_witness:
  "concurrent_push_and_replay_no_deadlock (\<lambda>i. i * 1000) (replicate 500 True @ replicate 100 False) \<and>
   \<not> concurrent_push_and_replay_no_deadlock (\<lambda>i. i * 1000) (replicate 100 False @ replicate 500 True)"
proof -
  let ?s = "replicate 500 True @ replicate 100 False"
  have "in_time (\<lambda>i. i * 1000) 600 60000" by (simp add: in_time_def mono_def duration_from_millis_def)
  moreover have "concurrent_schedule ?s" by (simp add: concurrent_schedule_def filter_replicate)
  moreover have "0 < (500 :: nat) \<and> 500 < length ?s \<and> ?s ! 0 \<and> \<not> ?s ! 500" by (simp add: nth_append)
  ultimately show ?thesis using concurrent_test_outcome [of "\<lambda>i. i * 1000" ?s] by blast
qed

end
