(* ===== verification/Limiter_Tests.thy ===== *)
theory Limiter_Tests
  imports Rate_Limiter
begin

text \<open>
  The test module of \<^verbatim>\<open>src/rate_limiter.rs\<close> over the model's operations. The limiter of the \<^verbatim>\<open>governor\<close>
  crate stays a parameter; a test runs its calls at one instant, and after a sleep at a later one.

  The theorems show that the tests pass with every limiter that does what the crate documents: a burst of
  the quota's size at once (\<open>gov_burst_ok\<close>) and one more cell when the replenishment interval has passed
  (\<open>gov_refill_ok\<close>). A limiter of the documented kind, the generic cell rate algorithm, has both.
\<close>

section \<open>Running calls\<close>

text \<open>The same call several times: the answers and the table afterwards.\<close>

fun check_times ::
  "'g governor \<Rightarrow> instant \<Rightarrow> string \<Rightarrow> string \<Rightarrow> u32 \<Rightarrow> nat \<Rightarrow> 'g rate_limiter \<Rightarrow> bool list \<times> 'g rate_limiter" where
  "check_times gov now c b limit 0 rl = ([], rl)"
| "check_times gov now c b limit (Suc n) rl =
     (let (ok, rl) = check_and_consume gov now c b limit rl;
          (oks, rl) = check_times gov now c b limit n rl
      in (ok # oks, rl))"

section \<open>The tests\<close>

definition allows_messages_within_limit :: "'g governor \<Rightarrow> instant \<Rightarrow> bool" where
  "allows_messages_within_limit gov now =
     list_all (\<lambda>ok. ok) (fst (check_times gov now ''client1'' ''signaling'' 5 5 []))"

definition rejects_messages_over_limit :: "'g governor \<Rightarrow> instant \<Rightarrow> bool" where
  "rejects_messages_over_limit gov now =
     (let (_, limiter) = check_times gov now ''client1'' ''signaling'' 10 10 []
      in \<not> fst (check_and_consume gov now ''client1'' ''signaling'' 10 limiter))"

definition separate_buckets_per_type :: "'g governor \<Rightarrow> instant \<Rightarrow> bool" where
  "separate_buckets_per_type gov now =
     (let (_, limiter) = check_times gov now ''client1'' ''signaling'' 2 2 [];
          (ok, limiter) = check_and_consume gov now ''client1'' ''signaling'' 2 limiter
      in \<not> ok \<and> fst (check_and_consume gov now ''client1'' ''data'' 100 limiter))"

definition separate_buckets_per_client :: "'g governor \<Rightarrow> instant \<Rightarrow> bool" where
  "separate_buckets_per_client gov now =
     (let (_, limiter) = check_times gov now ''client1'' ''signaling'' 3 3 [];
          (ok, limiter) = check_and_consume gov now ''client1'' ''signaling'' 3 limiter
      in \<not> ok \<and> fst (check_and_consume gov now ''client2'' ''signaling'' 3 limiter))"

definition remove_client_cleans_all_buckets :: "'g governor \<Rightarrow> instant \<Rightarrow> bool" where
  "remove_client_cleans_all_buckets gov now =
     (let (_, limiter) = check_and_consume gov now ''client1'' ''signaling'' 10 [];
          (_, limiter) = check_and_consume gov now ''client1'' ''data'' 100 limiter;
          (_, limiter) = check_and_consume gov now ''client2'' ''signaling'' 10 limiter;
          ks = dm_keys (limiter_remove_client ''client1'' limiter)
      in \<not> list_ex (\<lambda>(c, _). c = ''client1'') ks \<and> list_ex (\<lambda>(c, _). c = ''client2'') ks)"

text \<open>The two tests that sleep; \<open>later\<close> is an instant at least 1100 and 600 milliseconds on.\<close>

definition tokens_refill_after_time_passes :: "'g governor \<Rightarrow> instant \<Rightarrow> instant \<Rightarrow> bool" where
  "tokens_refill_after_time_passes gov now later =
     (let (_, limiter) = check_times gov now ''c1'' ''sig'' 5 5 [];
          (ok, limiter) = check_and_consume gov now ''c1'' ''sig'' 5 limiter
      in \<not> ok \<and> fst (check_and_consume gov later ''c1'' ''sig'' 5 limiter))"

definition burst_consume_all_wait_consume_again :: "'g governor \<Rightarrow> instant \<Rightarrow> instant \<Rightarrow> bool" where
  "burst_consume_all_wait_consume_again gov now later =
     (let limit = 3;
          (oks, limiter) = check_times gov now ''burst'' ''data'' limit 3 [];
          (ok, limiter) = check_and_consume gov now ''burst'' ''data'' limit limiter
      in list_all (\<lambda>ok. ok) oks \<and> \<not> ok \<and> fst (check_and_consume gov later ''burst'' ''data'' limit limiter))"

definition two_bucket_types_for_same_client_are_independent :: "'g governor \<Rightarrow> instant \<Rightarrow> bool" where
  "two_bucket_types_for_same_client_are_independent gov now =
     (let (_, limiter) = check_times gov now ''client1'' ''signaling'' 2 2 [];
          (ok, limiter) = check_and_consume gov now ''client1'' ''signaling'' 2 limiter;
          (oks, limiter) = check_times gov now ''client1'' ''data'' 5 5 limiter
      in \<not> ok \<and> list_all (\<lambda>ok. ok) oks \<and> fst (check_and_consume gov now ''client1'' ''heartbeat'' 10 limiter))"

definition rapid_requests_first_n_pass_rest_fail :: "'g governor \<Rightarrow> instant \<Rightarrow> bool" where
  "rapid_requests_first_n_pass_rest_fail gov now =
     (let limit = 20; total_requests = 100;
          (oks, _) = check_times gov now ''rapid'' ''sig'' limit total_requests [];
          passed = length (filter (\<lambda>ok. ok) oks); failed = length (filter (\<lambda>ok. \<not> ok) oks)
      in unat limit \<le> passed \<and> 0 < failed)"

definition remove_client_with_nonexistent_client_does_not_panic :: "'g governor \<Rightarrow> instant \<Rightarrow> bool" where
  "remove_client_with_nonexistent_client_does_not_panic gov now =
     (let limiter = limiter_remove_client ''nonexistent-client-id-12345''
            (limiter_remove_client [] (limiter_remove_client ''ghost'' []))
      in fst (check_and_consume gov now ''new_client'' ''sig'' 5 limiter))"

section \<open>What the limiter documents\<close>

text \<open>The limiter's state after some checks at one instant.\<close>

definition gov_after :: "'g governor \<Rightarrow> instant \<Rightarrow> nat \<Rightarrow> 'g \<Rightarrow> 'g" where
  "gov_after gov now n = (\<lambda>g. snd (gov_check gov now g)) ^^ n"

text \<open>A quota per second of \<open>limit\<close> gives a cell back every second divided by \<open>limit\<close>.\<close>

definition gov_refill_ok :: "'g governor \<Rightarrow> bool" where
  "gov_refill_ok gov \<longleftrightarrow>
     (\<forall>now later limit n. limit \<noteq> 0 \<longrightarrow> now * unat limit + 1000000000 \<le> later * unat limit \<longrightarrow>
        fst (gov_check gov later (gov_after gov now n (gov_direct gov limit))))"

section \<open>Lemmas\<close>

lemma gov_after_Suc: "gov_after gov now (Suc i) g = gov_after gov now i (snd (gov_check gov now g))"
  by (simp add: gov_after_def funpow_Suc_right del: funpow.simps)

lemma gov_burst_nth:
  "i < n \<Longrightarrow> gov_burst gov now n g ! i = fst (gov_check gov now (gov_after gov now i g))"
proof (induction n arbitrary: g i)
  case (Suc n)
  then show ?case by (cases i) (simp_all add: gov_after_Suc case_prod_beta, simp add: gov_after_def)
qed simp

lemma gov_check_after:
  assumes "gov_burst_ok gov" "limit \<noteq> 0"
  shows "gov_check gov now (gov_after gov now i (gov_direct gov limit)) =
    (i < unat limit, gov_after gov now (Suc i) (gov_direct gov limit))"
proof -
  have "gov_burst gov now (Suc i) (gov_direct gov limit) = map (\<lambda>i. i < unat limit) [0..<Suc i]"
    using assms unfolding gov_burst_ok_def by blast
  then have "fst (gov_check gov now (gov_after gov now i (gov_direct gov limit))) = (i < unat limit)"
    using gov_burst_nth [of i "Suc i" gov now "gov_direct gov limit"] by (simp del: upt_Suc gov_burst.simps)
  then show ?thesis by (simp add: gov_after_def prod_eq_iff)
qed

text \<open>One key after \<open>i\<close> checks, and the calls that follow.\<close>

definition checked :: "'g governor \<Rightarrow> instant \<Rightarrow> string \<times> string \<Rightarrow> u32 \<Rightarrow> nat \<Rightarrow> 'g rate_limiter \<Rightarrow> bool" where
  "checked gov now k limit i rl \<longleftrightarrow>
     (case dm_get rl k of None \<Rightarrow> i = 0 | Some g \<Rightarrow> g = gov_after gov now i (gov_direct gov limit))"

lemma checked_step:
  assumes "gov_burst_ok gov" "limit \<noteq> 0" "checked gov now (c, b) limit i rl"
  shows "\<exists>rl'. check_and_consume gov now c b limit rl = (i < unat limit, rl') \<and> checked gov now (c, b) limit (Suc i) rl' \<and>
    (\<forall>k. k \<noteq> (c, b) \<longrightarrow> dm_get rl' k = dm_get rl k)"
proof -
  have entry: "(case dm_get rl (c, b) of None \<Rightarrow> gov_direct gov limit | Some g \<Rightarrow> g) = gov_after gov now i (gov_direct gov limit)"
    using assms(3) by (simp add: checked_def gov_after_def split: option.splits)
  then have "check_and_consume gov now c b limit rl =
      (i < unat limit, dm_insert (c, b) (gov_after gov now (Suc i) (gov_direct gov limit)) rl)"
    using assms(1,2) by (simp add: check_and_consume_def Let_def entry gov_check_after)
  then show ?thesis by (simp add: checked_def)
qed

lemma checked_times:
  assumes "gov_burst_ok gov" "limit \<noteq> 0" "checked gov now (c, b) limit i rl"
  shows "\<exists>rl'. check_times gov now c b limit n rl = (map (\<lambda>j. j < unat limit) [i..<i + n], rl') \<and>
    checked gov now (c, b) limit (i + n) rl' \<and> (\<forall>k. k \<noteq> (c, b) \<longrightarrow> dm_get rl' k = dm_get rl k)"
  using assms(3)
proof (induction n arbitrary: i rl)
  case (Suc n)
  from checked_step [OF assms(1,2) Suc.prems] obtain rl1 where rl1:
    "check_and_consume gov now c b limit rl = (i < unat limit, rl1)" "checked gov now (c, b) limit (Suc i) rl1"
    "\<forall>k. k \<noteq> (c, b) \<longrightarrow> dm_get rl1 k = dm_get rl k" by blast
  from Suc.IH [OF rl1(2)] rl1 show ?case by (auto simp: upt_conv_Cons simp del: upt_Suc)
qed simp

lemma checked_fresh: "dm_get rl k = None \<Longrightarrow> checked gov now k limit 0 rl"
  by (simp add: checked_def)

text \<open>A full burst on a fresh key, the call after it, and what other keys see of it.\<close>

lemma full_burst:
  assumes "gov_burst_ok gov" "unat limit = n" "0 < n" "dm_get rl (c, b) = None"
  shows "\<exists>rl1 rl2. check_times gov now c b limit n rl = (replicate n True, rl1) \<and>
    check_and_consume gov now c b limit rl1 = (False, rl2) \<and> checked gov now (c, b) limit (Suc n) rl2 \<and>
    (\<forall>k. k \<noteq> (c, b) \<longrightarrow> dm_get rl2 k = dm_get rl k)"
proof -
  have limit: "limit \<noteq> 0" using assms(2,3) by auto
  from checked_times [OF assms(1) limit checked_fresh [OF assms(4)], of now n] obtain rl1 where rl1:
    "check_times gov now c b limit n rl = (map (\<lambda>j. j < unat limit) [0..<n], rl1)"
    "checked gov now (c, b) limit n rl1" "\<forall>k. k \<noteq> (c, b) \<longrightarrow> dm_get rl1 k = dm_get rl k" by auto
  moreover have "map (\<lambda>j. j < unat limit) [0..<n] = replicate n True"
    unfolding assms(2) by (intro nth_equalityI) simp_all
  ultimately show ?thesis using checked_step [OF assms(1) limit rl1(2)] assms(2) by auto
qed

lemma check_times_other:
  "k \<noteq> (c, b) \<Longrightarrow> dm_get (snd (check_times gov now c b limit n rl)) k = dm_get rl k"
  by (induction n arbitrary: rl) (simp_all add: case_prod_beta check_and_consume_other)

lemma first_check_passes:
  assumes "gov_burst_ok gov" "limit \<noteq> 0" "dm_get rl (c, b) = None"
  shows "fst (check_and_consume gov now c b limit rl)"
  using checked_step [OF assms(1,2) checked_fresh [OF assms(3)], of now] assms(2) by (auto simp: unat_gt_0)

lemma refilled:
  assumes "gov_refill_ok gov" "limit \<noteq> 0" "checked gov now (c, b) limit (Suc i) rl"
    and "now * unat limit + 1000000000 \<le> later * unat limit"
  shows "fst (check_and_consume gov later c b limit rl)"
  using assms by (auto simp: checked_def gov_refill_ok_def check_and_consume_def Let_def case_prod_beta split: option.splits)

section \<open>The documented algorithm\<close>

text \<open>
  The generic cell rate algorithm, with times scaled by the limit so that a cell takes a second: the
  quota and the theoretical arrival time of the next cell.
\<close>

definition gcra :: "(nat \<times> nat) governor" where
  "gcra = \<lparr>gov_direct = (\<lambda>limit. (unat limit, 0)),
     gov_check = (\<lambda>now (limit, tat).
       if tat \<le> now * limit + (limit - 1) * 1000000000 then (True, limit, max tat (now * limit) + 1000000000)
       else (False, limit, tat))\<rparr>"

lemma gcra_after:
  assumes "0 < limit"
  shows "gov_after gcra now n (limit, 0) =
    (limit, if n = 0 then 0 else now * limit + min n limit * 1000000000)"
proof (induction n)
  case (Suc n)
  have step: "gov_after gcra now (Suc n) g = snd (gov_check gcra now (gov_after gcra now n g))" for g
    by (simp add: gov_after_def)
  have "n * 1000000000 \<le> (limit - 1) * 1000000000 \<longleftrightarrow> n < limit" using assms by auto
  moreover have "min n limit = (if n < limit then n else limit)" by simp
  moreover have "\<not> limit * 1000000000 \<le> (limit - 1) * 1000000000" using assms by simp
  ultimately show ?case
    unfolding step Suc.IH using assms by (auto simp: gcra_def min_def)
qed (simp add: gov_after_def)

lemma gcra_ok: "gov_burst_ok gcra" "gov_refill_ok gcra"
proof -
  have direct: "gov_direct gcra limit = (unat limit, 0)" for limit by (simp add: gcra_def)
  have check: "fst (gov_check gcra now (gov_after gcra now i (unat limit, 0))) = (i < unat limit)" if "limit \<noteq> 0" for now i and limit :: u32
  proof -
    have "0 < unat limit" using that by (simp add: unat_gt_0)
    then show ?thesis unfolding gcra_after [OF \<open>0 < unat limit\<close>] by (auto simp: gcra_def min_def)
  qed
  show "gov_burst_ok gcra"
    unfolding gov_burst_ok_def direct
  proof (intro allI impI)
    fix now n and limit :: u32
    assume "limit \<noteq> 0"
    have len: "length (gov_burst gcra now n g) = n" for g by (induction n arbitrary: g) (simp_all add: case_prod_beta)
    show "gov_burst gcra now n (unat limit, 0) = map (\<lambda>i. i < unat limit) [0..<n]"
      using check [OF \<open>limit \<noteq> 0\<close>] by (intro nth_equalityI) (simp_all add: len gov_burst_nth)
  qed
  show "gov_refill_ok gcra"
    unfolding gov_refill_ok_def direct
  proof (intro allI impI)
    fix now later n and limit :: u32
    assume "limit \<noteq> 0" and late: "now * unat limit + 1000000000 \<le> later * unat limit"
    then have pos: "0 < unat limit" by (simp add: unat_gt_0)
    have "min n (unat limit) * 1000000000 \<le> 1000000000 + (unat limit - 1) * 1000000000"
      using mult_le_mono1 [of "min n (unat limit)" "unat limit" 1000000000] pos by (cases "unat limit") simp_all
    with late pos show "fst (gov_check gcra later (gov_after gcra now n (unat limit, 0)))"
      unfolding gcra_after [OF pos] by (auto simp: gcra_def)
  qed
qed

section \<open>Properties\<close>

text \<open>
  The tests of the rate limiter pass, with every limiter that keeps the documented promises: the calls of
  a test at one instant, and the call after the sleep at any instant the sleep allows.
\<close>

theorem limiter_tests_pass:
  assumes "gov_burst_ok gov"
  shows "allows_messages_within_limit gov now" "rejects_messages_over_limit gov now"
    "separate_buckets_per_type gov now" "separate_buckets_per_client gov now"
    "two_bucket_types_for_same_client_are_independent gov now"
    "remove_client_with_nonexistent_client_does_not_panic gov now"
proof -
  note burst = full_burst [OF assms, where now = now]
  from burst [of 5 5 "[]" "''client1''" "''signaling''"]
  obtain rl1 where "check_times gov now ''client1'' ''signaling'' 5 5 [] = (replicate 5 True, rl1)" by fastforce
  then show "allows_messages_within_limit gov now" by (simp add: allows_messages_within_limit_def list_all_iff)
  from burst [of 10 10 "[]" "''client1''" "''signaling''"]
  obtain rl1 rl2 where "check_times gov now ''client1'' ''signaling'' 10 10 [] = (replicate 10 True, rl1)"
    "check_and_consume gov now ''client1'' ''signaling'' 10 rl1 = (False, rl2)" by fastforce
  then show "rejects_messages_over_limit gov now" by (simp add: rejects_messages_over_limit_def)
  from burst [of 2 2 "[]" "''client1''" "''signaling''"]
  obtain rl1 rl2 where two: "check_times gov now ''client1'' ''signaling'' 2 2 [] = (replicate 2 True, rl1)"
    "check_and_consume gov now ''client1'' ''signaling'' 2 rl1 = (False, rl2)"
    and rest: "\<forall>k. k \<noteq> (''client1'', ''signaling'') \<longrightarrow> dm_get rl2 k = dm_get [] k" by fastforce
  then have none: "dm_get rl2 (''client1'', ''data'') = None" "dm_get rl2 (''client1'', ''heartbeat'') = None" by simp_all
  from two first_check_passes [OF assms _ none(1), of 100 now] show "separate_buckets_per_type gov now"
    by (simp add: separate_buckets_per_type_def)
  from burst [OF _ _ none(1), of 5 5]
  obtain rl3 where five: "check_times gov now ''client1'' ''data'' 5 5 rl2 = (replicate 5 True, rl3)" by fastforce
  have "dm_get rl3 (''client1'', ''heartbeat'') = None"
    using check_times_other [of "(''client1'', ''heartbeat'')" "''client1''" "''data''" gov now 5 5 rl2] five none(2) by simp
  from two five first_check_passes [OF assms _ this, of 10 now]
  show "two_bucket_types_for_same_client_are_independent gov now"
    by (simp add: two_bucket_types_for_same_client_are_independent_def list_all_iff)
  from burst [of 3 3 "[]" "''client1''" "''signaling''"]
  obtain rl1 rl2 where three: "check_times gov now ''client1'' ''signaling'' 3 3 [] = (replicate 3 True, rl1)"
    "check_and_consume gov now ''client1'' ''signaling'' 3 rl1 = (False, rl2)"
    and "\<forall>k. k \<noteq> (''client1'', ''signaling'') \<longrightarrow> dm_get rl2 k = dm_get [] k" by fastforce
  then have "dm_get rl2 (''client2'', ''signaling'') = None" by simp
  from three first_check_passes [OF assms _ this, of 3 now] show "separate_buckets_per_client gov now"
    by (simp add: separate_buckets_per_client_def)
  show "remove_client_with_nonexistent_client_does_not_panic gov now"
    using first_check_passes [OF assms, of 5 "[]" "''new_client''" "''sig''" now]
    by (simp add: remove_client_with_nonexistent_client_does_not_panic_def limiter_remove_client_def dm_retain_def)
qed

text \<open>The table after removing a client, whatever the limiter does.\<close>

theorem removal_test_passes: "remove_client_cleans_all_buckets gov now"
proof -
  have keys: "set (dm_keys (snd (check_and_consume gov now c b l rl))) = insert (c, b) (set (dm_keys rl))" for c b l rl
    by (auto simp: check_and_consume_def Let_def case_prod_beta set_dm_keys)
  have "set (dm_keys (limiter_remove_client c rl)) = {k \<in> set (dm_keys rl). fst k \<noteq> c}" for c and rl :: "'a rate_limiter"
    by (force simp: limiter_remove_client_def dm_retain_def dm_keys_def)
  then show ?thesis
    by (simp add: remove_client_cleans_all_buckets_def case_prod_beta list_ex_iff keys dm_keys_def [of "[]"])
qed

text \<open>Of a hundred calls at once, twenty pass.\<close>

theorem rapid_test_passes:
  assumes "gov_burst_ok gov"
  shows "rapid_requests_first_n_pass_rest_fail gov now"
proof -
  from checked_times [OF assms, of 20 now "''rapid''" "''sig''" 0 "[]" 100]
  obtain rl where "check_times gov now ''rapid'' ''sig'' 20 100 [] = (map (\<lambda>j. j < 20) [0..<100], rl)"
    by (auto simp: checked_def)
  moreover have "map (\<lambda>j. j < 20) [0..<100] = replicate 20 True @ replicate 80 False"
    by (intro nth_equalityI) (auto simp: nth_append simp del: upt_rec_numeral)
  ultimately show ?thesis
    by (simp add: rapid_requests_first_n_pass_rest_fail_def filter_replicate)
qed

text \<open>
  The tests that sleep pass whenever the sleep was not cut short: 1100 milliseconds after a burst of five
  and 600 after a burst of three a call passes again, with every limiter that keeps the documented
  promises on bursts and replenishment; and the burst test's first three calls pass and its fourth does not.
\<close>

theorem sleeping_tests_pass:
  assumes "gov_burst_ok gov" "gov_refill_ok gov"
  shows "(now + 1100000000 \<le> later \<longrightarrow> tokens_refill_after_time_passes gov now later) \<and>
    (now + 600000000 \<le> later \<longrightarrow> burst_consume_all_wait_consume_again gov now later)"
proof -
  from full_burst [OF assms(1), of 5 5 "[]" "''c1''" "''sig''" now]
  obtain rl1 rl2 where five: "check_times gov now ''c1'' ''sig'' 5 5 [] = (replicate 5 True, rl1)"
    "check_and_consume gov now ''c1'' ''sig'' 5 rl1 = (False, rl2)" "checked gov now (''c1'', ''sig'') 5 (Suc 5) rl2"
    by fastforce
  from full_burst [OF assms(1), of 3 3 "[]" "''burst''" "''data''" now]
  obtain rl3 rl4 where three: "check_times gov now ''burst'' ''data'' 3 3 [] = (replicate 3 True, rl3)"
    "check_and_consume gov now ''burst'' ''data'' 3 rl3 = (False, rl4)" "checked gov now (''burst'', ''data'') 3 (Suc 3) rl4"
    by fastforce
  from five(1,2) refilled [OF assms(2) _ five(3), of later] three(1,2) refilled [OF assms(2) _ three(3), of later]
  show ?thesis
    by (simp add: tokens_refill_after_time_passes_def burst_consume_all_wait_consume_again_def list_all_iff)
qed

theorem sleeping_tests_pass_witness:
  "tokens_refill_after_time_passes gcra 7 1100000007 \<and> burst_consume_all_wait_consume_again gcra 7 600000007"
  using sleeping_tests_pass [OF gcra_ok, of 7 1100000007] sleeping_tests_pass [OF gcra_ok, of 7 600000007] by simp

end
