(* ===== verification/Records_Json.thy ===== *)
theory Records_Json
  imports Message_Json Tenant
begin

text \<open>
  The JSON forms of the tenant record: the code that the serde attributes in \<^verbatim>\<open>src/tenant.rs\<close> generate,
  over a visitor for records that the request bodies of the API share.

  As for messages, the text of a JSON value is read and written by \<^verbatim>\<open>serde_json\<close>, a parameter. The
  theories on tenants take the codec of tenant records as a parameter with the law \<open>codec_ok\<close>; here the
  codec is the one of the code, and the law is proved for every tenant.
\<close>

section \<open>Reading values\<close>

definition de_str :: "json \<Rightarrow> de_error + string" where
  "de_str v = de_string (jbody v)"

definition de_usize :: "json \<Rightarrow> de_error + usize" where
  "de_usize v = de_u64 (jbody v)"

definition de_bool :: "json \<Rightarrow> de_error + bool" where
  "de_bool v = (case jbody v of JBool b \<Rightarrow> Inr b | _ \<Rightarrow> Inl InvalidType)"

fun de_elements :: "(json \<Rightarrow> de_error + 'a) \<Rightarrow> json list \<Rightarrow> de_error + 'a list" where
  "de_elements de [] = Inr []"
| "de_elements de (v # vs) =
     (case de v of Inl e \<Rightarrow> Inl e | Inr x \<Rightarrow> map_sum id (\<lambda>xs. x # xs) (de_elements de vs))"

text \<open>\<^verbatim>\<open>Vec<String>\<close>.\<close>

definition de_strings :: "json \<Rightarrow> de_error + string list" where
  "de_strings v = (case jbody v of JArr vs \<Rightarrow> de_elements de_str vs | _ \<Rightarrow> Inl InvalidType)"

section \<open>Reading records\<close>

text \<open>
  The visitor a derived \<^verbatim>\<open>Deserialize\<close> has: a known field is refused when it was seen before, and its
  value is read at once; an unknown field is skipped. The values seen are kept in the order of the text.
\<close>

type_synonym field_checks = "(string \<times> (json \<Rightarrow> de_error option)) list"

definition refuses :: "(json \<Rightarrow> de_error + 'a) \<Rightarrow> json \<Rightarrow> de_error option" where
  "refuses de v = (case de v of Inl e \<Rightarrow> Some e | Inr x \<Rightarrow> None)"

fun visit_record :: "field_checks \<Rightarrow> (string \<times> json) list \<Rightarrow> (string \<times> json) list \<Rightarrow> de_error + (string \<times> json) list" where
  "visit_record fs [] seen = Inr seen"
| "visit_record fs ((k, v) # kvs) seen =
     (case map_of fs k of
        None \<Rightarrow> visit_record fs kvs seen
      | Some check \<Rightarrow>
          if map_of seen k \<noteq> None then Inl (DuplicateField k)
          else case check v of Some e \<Rightarrow> Inl e | None \<Rightarrow> visit_record fs kvs (seen @ [(k, v)]))"

definition and_then :: "'e + 'a \<Rightarrow> ('a \<Rightarrow> 'e + 'b) \<Rightarrow> 'e + 'b" where
  "and_then x f = (case x of Inl e \<Rightarrow> Inl e | Inr a \<Rightarrow> f a)"

text \<open>A field without and with \<^verbatim>\<open>#[serde(default)]\<close>.\<close>

definition required :: "(json \<Rightarrow> de_error + 'a) \<Rightarrow> string \<Rightarrow> (string \<times> json) list \<Rightarrow> de_error + 'a" where
  "required de k seen = (case map_of seen k of None \<Rightarrow> Inl (MissingField k) | Some v \<Rightarrow> de v)"

definition defaulted :: "'a \<Rightarrow> (json \<Rightarrow> de_error + 'a) \<Rightarrow> string \<Rightarrow> (string \<times> json) list \<Rightarrow> de_error + 'a" where
  "defaulted d de k seen = (case map_of seen k of None \<Rightarrow> Inr d | Some v \<Rightarrow> de v)"

text \<open>
  A record is read from an object, or from an array with its fields in the order of declaration; there
  a missing field is reported by its position.
\<close>

fun de_record :: "field_checks \<Rightarrow> ((string \<times> json) list \<Rightarrow> de_error + 'a) \<Rightarrow> json_body \<Rightarrow> de_error + 'a" where
  "de_record fs finish (JObj kvs) = and_then (visit_record fs kvs []) finish"
| "de_record fs finish (JArr vs) =
     and_then (visit_record fs (zip (map fst fs) vs) []) (\<lambda>seen.
       case finish seen of
         Inl (MissingField k) \<Rightarrow> Inl (InvalidLength (length (takeWhile (\<lambda>f. fst f \<noteq> k) fs)))
       | Inl e \<Rightarrow> Inl e
       | Inr x \<Rightarrow> if length fs < length vs then Inl TrailingElements else Inr x)"
| "de_record fs finish b = Inl InvalidType"

section \<open>The tenant record\<close>

definition tenant_checks :: field_checks where
  "tenant_checks = [(''id'', refuses de_str), (''name'', refuses de_str), (''origins'', refuses de_strings),
     (''active'', refuses de_bool), (''max_rooms'', refuses de_usize), (''max_peers'', refuses de_usize),
     (''email'', refuses de_text), (''jwt_secret'', refuses de_text)]"

definition default_true :: bool where
  "default_true = True"

definition finish_tenant :: "(string \<times> json) list \<Rightarrow> de_error + tenant" where
  "finish_tenant seen =
     and_then (required de_str ''id'' seen) (\<lambda>i.
     and_then (required de_str ''name'' seen) (\<lambda>n.
     and_then (defaulted [] de_strings ''origins'' seen) (\<lambda>os.
     and_then (defaulted default_true de_bool ''active'' seen) (\<lambda>a.
     and_then (defaulted 0 de_usize ''max_rooms'' seen) (\<lambda>mr.
     and_then (defaulted 0 de_usize ''max_peers'' seen) (\<lambda>mp.
     and_then (defaulted None de_text ''email'' seen) (\<lambda>em.
     and_then (defaulted None de_text ''jwt_secret'' seen) (\<lambda>js.
       Inr \<lparr>tn_id = i, tn_name = n, tn_origins = os, tn_active = a, tn_max_rooms = mr, tn_max_peers = mp,
         tn_email = em, tn_jwt_secret = js\<rparr>))))))))"

definition de_tenant_body :: "json_body \<Rightarrow> de_error + tenant" where
  "de_tenant_body = de_record tenant_checks finish_tenant"

text \<open>Writing: every field, an absent email as null; the secret only when there is one.\<close>

definition out_option :: "('a \<Rightarrow> json_out) \<Rightarrow> 'a option \<Rightarrow> json_out" where
  "out_option f x = (case x of None \<Rightarrow> ONull | Some y \<Rightarrow> f y)"

definition tenant_fields :: "tenant \<Rightarrow> (string \<times> json_out) list" where
  "tenant_fields t =
     [(''id'', OStr (tn_id t)), (''name'', OStr (tn_name t)), (''origins'', OArr (map OStr (tn_origins t))),
      (''active'', OBool (tn_active t)), (''max_rooms'', OInt (uint (tn_max_rooms t))),
      (''max_peers'', OInt (uint (tn_max_peers t))), (''email'', out_option OStr (tn_email t))] @
     out_field ''jwt_secret'' OStr (tn_jwt_secret t)"

text \<open>\<^verbatim>\<open>serde_json::to_string(tenant)\<close> and \<^verbatim>\<open>from_str::<Tenant>(&raw).ok()\<close>.\<close>

definition serde_codec :: "(string \<Rightarrow> json option) \<Rightarrow> ((string \<times> json_out) list \<Rightarrow> string) \<Rightarrow> tenant_codec" where
  "serde_codec parse write =
     \<lparr>ser_tenant = (\<lambda>t. Some (write (tenant_fields t))),
      de_tenant = (\<lambda>s. case parse s of
         None \<Rightarrow> None
       | Some v \<Rightarrow> (case de_tenant_body (jbody v) of Inl e \<Rightarrow> None | Inr t \<Rightarrow> Some t))\<rparr>"

section \<open>Lemmas\<close>

subsection \<open>The visitor\<close>

abbreviation known_fields :: "field_checks \<Rightarrow> (string \<times> json) list \<Rightarrow> (string \<times> json) list" where
  "known_fields fs kvs \<equiv> filter (\<lambda>kv. map_of fs (fst kv) \<noteq> None) kvs"

lemma visit_record_iff:
  "distinct (map fst seen) \<Longrightarrow>
   visit_record fs kvs seen = Inr r \<longleftrightarrow>
     r = seen @ known_fields fs kvs \<and> distinct (map fst r) \<and>
     (\<forall>(k, v) \<in> set (known_fields fs kvs). the (map_of fs k) v = None)"
proof (induction fs kvs seen rule: visit_record.induct)
  case (2 fs k v kvs seen)
  show ?case
  proof (cases "map_of fs k")
    case None
    with 2 show ?thesis by simp
  next
    case (Some check)
    show ?thesis
    proof (cases "k \<in> fst ` set seen")
      case True
      then have "map_of seen k \<noteq> None" by (simp add: map_of_eq_None_iff)
      then have lhs: "visit_record fs ((k, v) # kvs) seen = Inl (DuplicateField k)" using Some by simp
      have "\<not> distinct (map fst (seen @ known_fields fs ((k, v) # kvs)))" using True Some by simp
      then show ?thesis unfolding lhs using sum.distinct(1) by blast
    next
      case False
      then have "map_of seen k = None" by (simp add: map_of_eq_None_iff)
      with 2 Some False show ?thesis by (cases "check v") simp_all
    qed
  qed
qed auto

lemma and_then_Inr: "and_then x f = Inr y \<longleftrightarrow> (\<exists>a. x = Inr a \<and> f a = Inr y)"
  by (auto simp: and_then_def split: sum.split)

text \<open>Among distinct names, the values under one name are what the lookup gives.\<close>

lemma values_of_known:
  assumes "distinct (map fst (known_fields fs kvs))" "map_of fs k \<noteq> None"
  shows "values_of k kvs = (case map_of (known_fields fs kvs) k of None \<Rightarrow> [] | Some v \<Rightarrow> [v])"
  using assms
proof (induction kvs)
  case (Cons kv kvs)
  obtain k' v where kv: "kv = (k', v)" by (cases kv)
  show ?case
  proof (cases "k' = k")
    case True
    with Cons.prems kv have "map_of (known_fields fs kvs) k = None" by (simp add: map_of_eq_None_iff)
    with Cons True kv show ?thesis by simp
  next
    case False
    with Cons kv show ?thesis by (auto split: if_splits)
  qed
qed simp

lemma known_distinct:
  "(\<And>k. map_of fs k \<noteq> None \<Longrightarrow> length (values_of k kvs) \<le> 1) \<Longrightarrow> distinct (map fst (known_fields fs kvs))"
proof (induction kvs)
  case (Cons kv kvs)
  obtain k v where kv: "kv = (k, v)" by (cases kv)
  have rest: "length (values_of k' kvs) \<le> 1" if "map_of fs k' \<noteq> None" for k'
    using Cons.prems [OF that] by (simp add: kv split: if_splits)
  moreover have "k \<notin> fst ` set (known_fields fs kvs)" if "map_of fs k \<noteq> None"
    using Cons.prems [OF that] by (auto simp: kv values_of_def filter_empty_conv)
  ultimately show ?case using Cons.IH by (simp add: kv image_def)
qed simp

text \<open>One field of a record, read by its own name.\<close>

definition reads_required :: "(json \<Rightarrow> de_error + 'a) \<Rightarrow> string \<Rightarrow> (string \<times> json) list \<Rightarrow> 'a \<Rightarrow> bool" where
  "reads_required de k kvs x \<longleftrightarrow> reads_field de k kvs (Some x)"

definition reads_default :: "'a \<Rightarrow> (json \<Rightarrow> de_error + 'a) \<Rightarrow> string \<Rightarrow> (string \<times> json) list \<Rightarrow> 'a \<Rightarrow> bool" where
  "reads_default d de k kvs x \<longleftrightarrow> (\<exists>y. reads_field de k kvs y \<and> x = (case y of None \<Rightarrow> d | Some z \<Rightarrow> z))"

lemma required_iff:
  assumes "distinct (map fst (known_fields fs kvs))" "map_of fs k \<noteq> None"
  shows "required de k (known_fields fs kvs) = Inr x \<longleftrightarrow> reads_required de k kvs x"
  using values_of_known [OF assms]
  by (auto simp: required_def reads_required_def reads_field_def split: option.split sum.split)

lemma defaulted_iff:
  assumes "distinct (map fst (known_fields fs kvs))" "map_of fs k \<noteq> None"
  shows "defaulted d de k (known_fields fs kvs) = Inr x \<longleftrightarrow> reads_default d de k kvs x"
  using values_of_known [OF assms]
  by (auto simp: defaulted_def reads_default_def reads_field_def split: option.split sum.split)

text \<open>An object passes the visitor if every field of the record passes by itself.\<close>

definition passes :: "(string \<times> json) list \<Rightarrow> string \<times> (json \<Rightarrow> de_error option) \<Rightarrow> bool" where
  "passes kvs f \<longleftrightarrow> length (values_of (fst f) kvs) \<le> 1 \<and> list_all (\<lambda>v. snd f v = None) (values_of (fst f) kvs)"

lemma values_of_mem: "v \<in> set (values_of k kvs) \<longleftrightarrow> (k, v) \<in> set kvs"
  by (force simp: values_of_def)

lemma visit_record_passes:
  assumes "distinct (map fst fs)"
  shows "visit_record fs kvs [] = Inr r \<longleftrightarrow> r = known_fields fs kvs \<and> list_all (passes kvs) fs"
proof -
  have "distinct (map fst (known_fields fs kvs)) \<and> (\<forall>(k, v) \<in> set (known_fields fs kvs). the (map_of fs k) v = None) \<longleftrightarrow>
      list_all (passes kvs) fs" (is "?known \<longleftrightarrow> ?passes")
  proof
    assume known: ?known
    have "passes kvs (k, check)" if "(k, check) \<in> set fs" for k check
    proof -
      have k: "map_of fs k = Some check" using that assms by simp
      then have "values_of k kvs = (case map_of (known_fields fs kvs) k of None \<Rightarrow> [] | Some v \<Rightarrow> [v])"
        using known by (intro values_of_known) simp_all
      moreover have "check v = None" if "v \<in> set (values_of k kvs)" for v
        using known that k by (fastforce simp: values_of_mem)
      ultimately show ?thesis by (simp add: passes_def list_all_iff split: option.split)
    qed
    then show ?passes by (auto simp: list_all_iff)
  next
    assume ok: ?passes
    have check: "(k, the (map_of fs k)) \<in> set fs" if "map_of fs k \<noteq> None" for k
      using that map_of_SomeD by fastforce
    have "distinct (map fst (known_fields fs kvs))"
      using ok check by (intro known_distinct) (fastforce simp: list_all_iff passes_def)
    moreover have "the (map_of fs k) v = None" if "(k, v) \<in> set (known_fields fs kvs)" for k v
    proof -
      from that have "passes kvs (k, the (map_of fs k))" "v \<in> set (values_of k kvs)"
        using ok check by (auto simp: list_all_iff values_of_mem)
      then show ?thesis by (simp add: passes_def list_all_iff)
    qed
    ultimately show ?known by blast
  qed
  moreover have "visit_record fs kvs [] = Inr r \<longleftrightarrow> r = known_fields fs kvs \<and> distinct (map fst r) \<and>
      (\<forall>(k, v) \<in> set (known_fields fs kvs). the (map_of fs k) v = None)"
    using visit_record_iff [of "[]" fs kvs r] by (simp only: append_Nil list.map distinct.simps)
  ultimately show ?thesis by blast
qed

lemma reads_passes: "reads_field de k kvs y \<Longrightarrow> passes kvs (k, refuses de)"
  unfolding reads_field_def passes_def refuses_def
  by (cases "(de, values_of k kvs)" rule: sole_value.cases) (auto split: sum.splits)

lemma required_passes: "reads_required de k kvs x \<Longrightarrow> passes kvs (k, refuses de)"
  unfolding reads_required_def by (rule reads_passes)

lemma default_passes: "reads_default d de k kvs x \<Longrightarrow> passes kvs (k, refuses de)"
  unfolding reads_default_def using reads_passes by blast

lemma passes_distinct:
  assumes "distinct (map fst fs)" "list_all (passes kvs) fs"
  shows "distinct (map fst (known_fields fs kvs))"
  using visit_record_passes [OF assms(1), of kvs] visit_record_iff [of "[]" fs kvs] assms(2) by auto

subsection \<open>Tenants\<close>

text \<open>The reference reading: every field looked up by its own name.\<close>

definition reads_tenant :: "(string \<times> json) list \<Rightarrow> tenant \<Rightarrow> bool" where
  "reads_tenant kvs t \<longleftrightarrow>
     reads_required de_str ''id'' kvs (tn_id t) \<and> reads_required de_str ''name'' kvs (tn_name t) \<and>
     reads_default [] de_strings ''origins'' kvs (tn_origins t) \<and> reads_default True de_bool ''active'' kvs (tn_active t) \<and>
     reads_default 0 de_usize ''max_rooms'' kvs (tn_max_rooms t) \<and>
     reads_default 0 de_usize ''max_peers'' kvs (tn_max_peers t) \<and>
     reads_default None de_text ''email'' kvs (tn_email t) \<and>
     reads_default None de_text ''jwt_secret'' kvs (tn_jwt_secret t)"

lemma tenant_checks_distinct: "distinct (map fst tenant_checks)"
  by (simp add: tenant_checks_def)

lemma finish_tenant_iff:
  "finish_tenant seen = Inr t \<longleftrightarrow>
     required de_str ''id'' seen = Inr (tn_id t) \<and> required de_str ''name'' seen = Inr (tn_name t) \<and>
     defaulted [] de_strings ''origins'' seen = Inr (tn_origins t) \<and>
     defaulted True de_bool ''active'' seen = Inr (tn_active t) \<and>
     defaulted 0 de_usize ''max_rooms'' seen = Inr (tn_max_rooms t) \<and>
     defaulted 0 de_usize ''max_peers'' seen = Inr (tn_max_peers t) \<and>
     defaulted None de_text ''email'' seen = Inr (tn_email t) \<and>
     defaulted None de_text ''jwt_secret'' seen = Inr (tn_jwt_secret t)"
  by (cases t) (auto simp: finish_tenant_def and_then_Inr default_true_def)

lemma tenant_passes: "reads_tenant kvs t \<Longrightarrow> list_all (passes kvs) tenant_checks"
  unfolding reads_tenant_def tenant_checks_def by (simp only: list.pred_inject) (blast intro: required_passes default_passes)

lemma de_tenant_object: "de_tenant_body (JObj kvs) = Inr t \<longleftrightarrow> reads_tenant kvs t"
proof -
  have fields: "finish_tenant (known_fields tenant_checks kvs) = Inr t \<longleftrightarrow> reads_tenant kvs t"
    if "list_all (passes kvs) tenant_checks"
  proof -
    note d = passes_distinct [OF tenant_checks_distinct that]
    have k: "map_of tenant_checks ''id'' \<noteq> None" "map_of tenant_checks ''name'' \<noteq> None"
      "map_of tenant_checks ''origins'' \<noteq> None" "map_of tenant_checks ''active'' \<noteq> None"
      "map_of tenant_checks ''max_rooms'' \<noteq> None" "map_of tenant_checks ''max_peers'' \<noteq> None"
      "map_of tenant_checks ''email'' \<noteq> None" "map_of tenant_checks ''jwt_secret'' \<noteq> None"
      by (simp_all add: tenant_checks_def)
    show ?thesis
      unfolding finish_tenant_iff reads_tenant_def
      by (simp only: k [THEN required_iff [OF d]] k [THEN defaulted_iff [OF d]])
  qed
  have "de_tenant_body (JObj kvs) = Inr t \<longleftrightarrow>
      list_all (passes kvs) tenant_checks \<and> finish_tenant (known_fields tenant_checks kvs) = Inr t"
    unfolding de_tenant_body_def by (simp add: and_then_Inr visit_record_passes [OF tenant_checks_distinct])
  then show ?thesis using fields tenant_passes by blast
qed

text \<open>A field that is always written, and one that is written when there is a value.\<close>

lemma reads_written:
  assumes "list_all2 (reads_as parse) [out] (values_of k kvs)"
    and "\<And>v. reads_as parse out v \<Longrightarrow> de v = Inr x"
  shows "reads_required de k kvs x" "reads_default d de k kvs x"
proof -
  from assms obtain v where "values_of k kvs = [v]" "de v = Inr x" by (auto simp: list_all2_Cons1)
  then show "reads_required de k kvs x" by (simp add: reads_required_def reads_field_Some)
  then show "reads_default d de k kvs x" by (force simp: reads_required_def reads_default_def)
qed

lemma reads_written_option:
  assumes "list_all2 (reads_as parse) (map f (case_option [] (\<lambda>v. [v]) x)) (values_of k kvs)"
    and "\<And>y v. x = Some y \<Longrightarrow> reads_as parse (f y) v \<Longrightarrow> de v = Inr (Some y)"
  shows "reads_default None de k kvs x"
  using reads_field_out [OF assms] by (simp add: reads_default_def or_default_def)

lemma de_written_strings:
  assumes "reads_as parse (OArr (map OStr ss)) v"
  shows "de_strings v = Inr ss"
proof -
  from assms obtain vs where vs: "jbody v = JArr vs" "list_all2 (reads_as parse) (map OStr ss) vs"
    by (auto split: json_body.splits)
  from vs(2) have "de_elements de_str vs = Inr ss"
    by (induction ss arbitrary: vs) (auto simp: list_all2_Cons1 de_str_def)
  with vs(1) show ?thesis by (simp add: de_strings_def)
qed

lemma written_tenant_reads:
  assumes "list_all2 (\<lambda>(k, out) (k', w). k' = k \<and> reads_as parse out w) (tenant_fields t) kvs"
  shows "reads_tenant kvs t"
proof -
  have of_key: "list_all2 (reads_as parse) (outs_of k (tenant_fields t)) (values_of k kvs)" for k
    by (rule outs_of_read [OF assms])
  have email: "reads_as parse (out_option OStr x) v \<Longrightarrow> de_text v = Inr x" for x v
    by (auto simp: out_option_def de_text_def de_option_def split: option.splits)
  show ?thesis
    unfolding reads_tenant_def
  proof (intro conjI)
    show "reads_required de_str ''id'' kvs (tn_id t)"
      using of_key [of "''id''"] by (intro reads_written(1), simp add: tenant_fields_def) (simp add: de_str_def)
    show "reads_required de_str ''name'' kvs (tn_name t)"
      using of_key [of "''name''"] by (intro reads_written(1), simp add: tenant_fields_def) (simp add: de_str_def)
    show "reads_default [] de_strings ''origins'' kvs (tn_origins t)"
      using of_key [of "''origins''"] de_written_strings
      by (intro reads_written(2), simp add: tenant_fields_def)
    show "reads_default True de_bool ''active'' kvs (tn_active t)"
      using of_key [of "''active''"] by (intro reads_written(2), simp add: tenant_fields_def) (simp add: de_bool_def)
    show "reads_default 0 de_usize ''max_rooms'' kvs (tn_max_rooms t)"
      using of_key [of "''max_rooms''"]
      by (intro reads_written(2), simp add: tenant_fields_def) (simp add: de_usize_def del: de_u64.simps)
    show "reads_default 0 de_usize ''max_peers'' kvs (tn_max_peers t)"
      using of_key [of "''max_peers''"]
      by (intro reads_written(2), simp add: tenant_fields_def) (simp add: de_usize_def del: de_u64.simps)
    show "reads_default None de_text ''email'' kvs (tn_email t)"
      using of_key [of "''email''"] by (intro reads_written(2), simp add: tenant_fields_def) (rule email)
    show "reads_default None de_text ''jwt_secret'' kvs (tn_jwt_secret t)"
      using of_key [of "''jwt_secret''"]
      by (intro reads_written_option) (auto simp: tenant_fields_def de_text_def de_option_def)
  qed
qed

section \<open>Properties\<close>

text \<open>
  Reading a stored tenant is exact: an object is a tenant precisely if each field, looked up by its own
  name, has a value of its type, where only the id and the name are required and an absent \<open>active\<close> is
  true; a field given twice refuses the record, and unknown fields change nothing.
\<close>

theorem tenant_reading_exact: "de_tenant_body (JObj kvs) = Inr t \<longleftrightarrow> reads_tenant kvs t"
  by (rule de_tenant_object)

text \<open>
  The law the theories on tenants assume of the codec holds of the codec the serde attributes generate,
  for every tenant whose written form the reader and the writer of JSON texts agree on.
\<close>

theorem serde_codec_ok:
  assumes "reads_back parse write (tenant_fields t)"
  shows "codec_ok (serde_codec parse write) t"
proof -
  from assms obtain v kvs where v: "parse (write (tenant_fields t)) = Some v" "jbody v = JObj kvs"
    and kvs: "list_all2 (\<lambda>(k, out) (k', w). k' = k \<and> reads_as parse out w) (tenant_fields t) kvs"
    unfolding reads_back_def by blast
  have "de_tenant_body (JObj kvs) = Inr t" using written_tenant_reads [OF kvs] de_tenant_object by blast
  with v show ?thesis by (simp add: codec_ok_def tenant_json_def serde_codec_def)
qed

text \<open>
  C25: A stored tenant reads back as itself. With the code's own JSON form, over any reader and writer of JSON
  texts that agree on the written record, a tenant that was created, whatever its origins, its two
  64-bit limits, with or without email and secret, is what its API key resolves to from then on (nothing,
  when it is suspended), and what is found under its id.
\<close>

theorem stored_tenant_reads_back:
  assumes "reads_back parse write (tenant_fields t)"
    and "redis_pipe_ok R ex" "redis_frame_ok R ex" "redis_string_ok R ex"
    and "create_tenant R (serde_codec parse write) sha256 t api_key r = (r', Inr ())"
    and "cache_get now (hash_api_key sha256 api_key) cache = None"
  shows "fst (resolve_api_key R (serde_codec parse write) sha256 now api_key r' cache) =
      (if tn_active t then Some t else None) \<and>
    get_tenant_by_id R (serde_codec parse write) (tn_id t) r' = Inr (Some t)"
  using create_then_fetch [OF assms(2-4) serde_codec_ok [OF assms(1)] assms(5)]
  by (simp add: resolve_miss [OF assms(6)])

text \<open>A text layer that knows the stored form of one tenant.\<close>

definition stored_tenant :: tenant where
  "stored_tenant = \<lparr>tn_id = ''t_x'', tn_name = ''X'', tn_origins = [''https://app.example.com''], tn_active = True,
     tn_max_rooms = 5, tn_max_peers = 100, tn_email = None, tn_jwt_secret = Some ''s''\<rparr>"

definition stored_text :: "string \<Rightarrow> json option" where
  "stored_text s =
     (if s = ''stored'' then
        Some (Json s (JObj [(''id'', Json [] (JStr ''t_x'')), (''name'', Json [] (JStr ''X'')),
          (''origins'', Json [] (JArr [Json [] (JStr ''https://app.example.com'')])), (''active'', Json [] (JBool True)),
          (''max_rooms'', Json [] (JInt 5)), (''max_peers'', Json [] (JInt 100)), (''email'', Json [] JNull),
          (''jwt_secret'', Json [] (JStr ''s''))]))
      else None)"

theorem stored_tenant_reads_back_witness:
  "\<exists>r. create_tenant mem_api (serde_codec stored_text (\<lambda>fs. ''stored'')) demo_sha stored_tenant ''dk_0'' mem_empty = (r, Inr ()) \<and>
     fst (resolve_api_key mem_api (serde_codec stored_text (\<lambda>fs. ''stored'')) demo_sha 5 ''dk_0'' r []) = Some stored_tenant"
proof -
  let ?C = "serde_codec stored_text (\<lambda>fs. ''stored'')"
  obtain r where r: "create_tenant mem_api ?C demo_sha stored_tenant ''dk_0'' mem_empty = (r, Inr ())"
    by (simp add: create_tenant_def Let_def mem_api_def)
  have "reads_back stored_text (\<lambda>fs. ''stored'') (tenant_fields stored_tenant)"
    by (simp add: reads_back_def stored_text_def stored_tenant_def tenant_fields_def out_field_def out_option_def)
  from stored_tenant_reads_back [OF this mem_api_ok(1) mem_frame_ok mem_api_ok(4) r, of 5 "[]"] r
  show ?thesis by (simp add: cache_get_def stored_tenant_def)
qed

end
