(* ===== verification/Api_Json.thy ===== *)
theory Api_Json
  imports Customer Records_Json
begin

text \<open>
  The JSON of the HTTP API and of the webhooks: the request bodies of \<^verbatim>\<open>src/handlers/admin.rs\<close> and
  \<^verbatim>\<open>src/handlers/customer.rs\<close> as their serde attributes read them, the bodies the handlers answer with,
  the claims of a dashboard session and the body of a webhook.

  The lemmas show which requests are accepted and that no answer but the ones meant for it carries a
  tenant's JWT secret.
\<close>

section \<open>Requests\<close>

definition create_request_checks :: field_checks where
  "create_request_checks = [(''name'', refuses de_str), (''origins'', refuses de_strings),
     (''max_rooms'', refuses de_usize), (''max_peers'', refuses de_usize), (''email'', refuses de_text),
     (''jwt_secret'', refuses de_text)]"

definition finish_create_request :: "(string \<times> json) list \<Rightarrow> de_error + create_tenant_request" where
  "finish_create_request seen =
     and_then (required de_str ''name'' seen) (\<lambda>n.
     and_then (defaulted [] de_strings ''origins'' seen) (\<lambda>os.
     and_then (defaulted 0 de_usize ''max_rooms'' seen) (\<lambda>mr.
     and_then (defaulted 0 de_usize ''max_peers'' seen) (\<lambda>mp.
     and_then (defaulted None de_text ''email'' seen) (\<lambda>em.
     and_then (defaulted None de_text ''jwt_secret'' seen) (\<lambda>js.
       Inr \<lparr>cr_name = n, cr_origins = os, cr_max_rooms = mr, cr_max_peers = mp, cr_email = em, cr_jwt_secret = js\<rparr>))))))"

definition de_create_request :: "json_body \<Rightarrow> de_error + create_tenant_request" where
  "de_create_request = de_record create_request_checks finish_create_request"

text \<open>The bodies with one required text: \<^verbatim>\<open>LoginRequest\<close>, \<^verbatim>\<open>EmailRequest\<close>, \<^verbatim>\<open>MagicRequest\<close>.\<close>

definition de_login_request :: "json_body \<Rightarrow> de_error + string" where
  "de_login_request = de_record [(''api_key'', refuses de_str)] (required de_str ''api_key'')"

definition de_email_request :: "json_body \<Rightarrow> de_error + string" where
  "de_email_request = de_record [(''email'', refuses de_str)] (required de_str ''email'')"

definition de_magic_request :: "json_body \<Rightarrow> de_error + string" where
  "de_magic_request = de_record [(''token'', refuses de_str)] (required de_str ''token'')"

text \<open>The claims of a session; a token without \<^verbatim>\<open>purpose\<close> has the empty one.\<close>

definition claims_checks :: field_checks where
  "claims_checks = [(''sub'', refuses de_str), (''purpose'', refuses de_str), (''exp'', refuses de_usize)]"

definition finish_claims :: "(string \<times> json) list \<Rightarrow> de_error + session_claims" where
  "finish_claims seen =
     and_then (required de_str ''sub'' seen) (\<lambda>s.
     and_then (defaulted [] de_str ''purpose'' seen) (\<lambda>p.
     and_then (required de_usize ''exp'' seen) (\<lambda>e. Inr \<lparr>sc_sub = s, sc_purpose = p, sc_exp = e\<rparr>)))"

definition de_claims :: "json_body \<Rightarrow> de_error + session_claims" where
  "de_claims = de_record claims_checks finish_claims"

definition claims_fields :: "session_claims \<Rightarrow> (string \<times> json_out) list" where
  "claims_fields c = [(''sub'', OStr (sc_sub c)), (''purpose'', OStr (sc_purpose c)), (''exp'', OInt (uint (sc_exp c)))]"

section \<open>Answers\<close>

text \<open>A \<^verbatim>\<open>json!\<close> object is a map ordered by its keys, also where a record is embedded in it.\<close>

definition json_object :: "(string \<times> json_out) list \<Rightarrow> json_out" where
  "json_object fs = OObj (sort_key fst fs)"

definition tenant_view_fields :: "tenant_view \<Rightarrow> (string \<times> json_out) list" where
  "tenant_view_fields v =
     [(''id'', OStr (tv_id v)), (''name'', OStr (tv_name v)), (''origins'', OArr (map OStr (tv_origins v))),
      (''active'', OBool (tv_active v)), (''max_rooms'', OInt (uint (tv_max_rooms v))),
      (''max_peers'', OInt (uint (tv_max_peers v))), (''email'', out_option OStr (tv_email v)),
      (''has_jwt_secret'', OBool (tv_has_jwt_secret v))]"

definition error_out :: "string \<Rightarrow> json_out" where
  "error_out e = json_object [(''error'', OStr e)]"

fun admin_out :: "admin_body \<Rightarrow> json_out option" where
  "admin_out (AdminError e) = Some (error_out e)"
| "admin_out (TenantCreated t key) =
     Some (json_object [(''tenant'', json_object (tenant_fields t)), (''api_key'', OStr key)])"
| "admin_out (TenantList views) =
     Some (json_object [(''tenants'', OArr (map (\<lambda>v. json_object (tenant_view_fields v)) views))])"
| "admin_out (JwtSecret s) = Some (json_object [(''jwt_secret'', OStr s)])"
| "admin_out NoBody = None"

definition dashboard_out :: "dashboard_view \<Rightarrow> json_out" where
  "dashboard_out v = json_object
     [(''id'', OStr (dv_id v)), (''name'', OStr (dv_name v)), (''email'', out_option OStr (dv_email v)),
      (''active'', OBool (dv_active v)), (''max_rooms'', OInt (uint (dv_max_rooms v))),
      (''max_peers'', OInt (uint (dv_max_peers v)))]"

fun customer_out :: "customer_body \<Rightarrow> json_out" where
  "customer_out (CustomerError e) = error_out e"
| "customer_out (SignedIn token v) = json_object [(''token'', OStr token), (''tenant'', dashboard_out v)]"
| "customer_out (Me v) = json_object [(''tenant'', dashboard_out v)]"
| "customer_out (NewApiKey key) = json_object [(''api_key'', OStr key)]"
| "customer_out (Notice m) = json_object [(''message'', OStr m)]"

text \<open>The body of a webhook.\<close>

definition webhook_fields :: "webhook_event \<Rightarrow> (string \<times> json_out) list" where
  "webhook_fields e =
     [(''event'', OStr (wh_event e)), (''timestamp'', OInt (sint (wh_timestamp e)))] @
     out_field ''peer_id'' OStr (wh_peer_id e) @ out_field ''room'' OStr (wh_room e) @
     out_field ''data'' (\<lambda>d. json_object (map (\<lambda>(k, v). (k, OStr v)) d)) (wh_data e)"

section \<open>Lemmas\<close>

lemma record_object:
  assumes "distinct (map fst fs)"
  shows "de_record fs finish (JObj kvs) = Inr x \<longleftrightarrow>
    list_all (passes kvs) fs \<and> finish (known_fields fs kvs) = Inr x"
  by (simp add: and_then_Inr visit_record_passes [OF assms])

text \<open>The reference readings.\<close>

definition reads_create_request :: "(string \<times> json) list \<Rightarrow> create_tenant_request \<Rightarrow> bool" where
  "reads_create_request kvs q \<longleftrightarrow>
     reads_required de_str ''name'' kvs (cr_name q) \<and> reads_default [] de_strings ''origins'' kvs (cr_origins q) \<and>
     reads_default 0 de_usize ''max_rooms'' kvs (cr_max_rooms q) \<and>
     reads_default 0 de_usize ''max_peers'' kvs (cr_max_peers q) \<and>
     reads_default None de_text ''email'' kvs (cr_email q) \<and>
     reads_default None de_text ''jwt_secret'' kvs (cr_jwt_secret q)"

lemma finish_create_request_iff:
  "finish_create_request seen = Inr q \<longleftrightarrow>
     required de_str ''name'' seen = Inr (cr_name q) \<and> defaulted [] de_strings ''origins'' seen = Inr (cr_origins q) \<and>
     defaulted 0 de_usize ''max_rooms'' seen = Inr (cr_max_rooms q) \<and>
     defaulted 0 de_usize ''max_peers'' seen = Inr (cr_max_peers q) \<and>
     defaulted None de_text ''email'' seen = Inr (cr_email q) \<and>
     defaulted None de_text ''jwt_secret'' seen = Inr (cr_jwt_secret q)"
  by (cases q) (auto simp: finish_create_request_def and_then_Inr)

lemma finish_claims_iff:
  "finish_claims seen = Inr c \<longleftrightarrow>
     required de_str ''sub'' seen = Inr (sc_sub c) \<and> defaulted [] de_str ''purpose'' seen = Inr (sc_purpose c) \<and>
     required de_usize ''exp'' seen = Inr (sc_exp c)"
  by (cases c) (auto simp: finish_claims_def and_then_Inr)

lemma de_create_request_object: "de_create_request (JObj kvs) = Inr q \<longleftrightarrow> reads_create_request kvs q"
proof -
  have dist: "distinct (map fst create_request_checks)" by (simp add: create_request_checks_def)
  have fields: "finish_create_request (known_fields create_request_checks kvs) = Inr q \<longleftrightarrow> reads_create_request kvs q"
    if "list_all (passes kvs) create_request_checks"
  proof -
    note d = passes_distinct [OF dist that]
    have k: "map_of create_request_checks ''name'' \<noteq> None" "map_of create_request_checks ''origins'' \<noteq> None"
      "map_of create_request_checks ''max_rooms'' \<noteq> None" "map_of create_request_checks ''max_peers'' \<noteq> None"
      "map_of create_request_checks ''email'' \<noteq> None" "map_of create_request_checks ''jwt_secret'' \<noteq> None"
      by (simp_all add: create_request_checks_def)
    show ?thesis
      unfolding finish_create_request_iff reads_create_request_def
      by (simp only: k [THEN required_iff [OF d]] k [THEN defaulted_iff [OF d]])
  qed
  have "reads_create_request kvs q \<Longrightarrow> list_all (passes kvs) create_request_checks"
    unfolding reads_create_request_def create_request_checks_def
    by (simp only: list.pred_inject) (blast intro: required_passes default_passes)
  then show ?thesis unfolding de_create_request_def record_object [OF dist] using fields by blast
qed

lemma de_claims_object:
  "de_claims (JObj kvs) = Inr c \<longleftrightarrow>
     reads_required de_str ''sub'' kvs (sc_sub c) \<and> reads_default [] de_str ''purpose'' kvs (sc_purpose c) \<and>
     reads_required de_usize ''exp'' kvs (sc_exp c)" (is "_ \<longleftrightarrow> ?reads")
proof -
  have dist: "distinct (map fst claims_checks)" by (simp add: claims_checks_def)
  have fields: "finish_claims (known_fields claims_checks kvs) = Inr c \<longleftrightarrow> ?reads"
    if "list_all (passes kvs) claims_checks"
  proof -
    note d = passes_distinct [OF dist that]
    have k: "map_of claims_checks ''sub'' \<noteq> None" "map_of claims_checks ''purpose'' \<noteq> None"
      "map_of claims_checks ''exp'' \<noteq> None" by (simp_all add: claims_checks_def)
    show ?thesis
      unfolding finish_claims_iff by (simp only: k [THEN required_iff [OF d]] k [THEN defaulted_iff [OF d]])
  qed
  have "?reads \<Longrightarrow> list_all (passes kvs) claims_checks"
    unfolding claims_checks_def by (simp only: list.pred_inject) (blast intro: required_passes default_passes)
  then show ?thesis unfolding de_claims_def record_object [OF dist] using fields by blast
qed

section \<open>Properties\<close>

text \<open>
  Reading the body of a tenant creation is exact: only the name is required, everything else defaults, a
  repeated field refuses the request and unknown fields change nothing.
\<close>

theorem create_request_exact: "de_create_request (JObj kvs) = Inr q \<longleftrightarrow> reads_create_request kvs q"
  by (rule de_create_request_object)

text \<open>
  The claims of a session survive their JSON form: what is written for them reads as the same claims.
\<close>

theorem claims_survive:
  assumes "list_all2 (\<lambda>(k, out) (k', w). k' = k \<and> reads_as parse out w) (claims_fields c) kvs"
  shows "de_claims (JObj kvs) = Inr c"
proof -
  have of_key: "list_all2 (reads_as parse) (outs_of k (claims_fields c)) (values_of k kvs)" for k
    by (rule outs_of_read [OF assms])
  have "reads_required de_str ''sub'' kvs (sc_sub c)"
    using of_key [of "''sub''"] by (intro reads_written(1), simp add: claims_fields_def) (simp add: de_str_def)
  moreover have "reads_default [] de_str ''purpose'' kvs (sc_purpose c)"
    using of_key [of "''purpose''"] by (intro reads_written(2), simp add: claims_fields_def) (simp add: de_str_def)
  moreover have "reads_required de_usize ''exp'' kvs (sc_exp c)"
    using of_key [of "''exp''"]
    by (intro reads_written(1), simp add: claims_fields_def) (simp add: de_usize_def del: de_u64.simps)
  ultimately show ?thesis by (simp add: de_claims_object)
qed

theorem claims_survive_witness:
  "de_claims (JObj [(''sub'', Json [] (JStr ''t_1'')), (''purpose'', Json [] (JStr ''session'')), (''exp'', Json [] (JInt 99))]) =
     Inr \<lparr>sc_sub = ''t_1'', sc_purpose = ''session'', sc_exp = 99\<rparr>"
  by (rule claims_survive [of "\<lambda>s. None"]) (simp add: claims_fields_def)

text \<open>
  Two stores as an observer without the secrets sees them: the same lists and the same tenants under every
  id, up to the values of the JWT secrets.
\<close>

definition same_but_secret :: "tenant \<Rightarrow> tenant \<Rightarrow> bool" where
  "same_but_secret t t' \<longleftrightarrow> t' = t\<lparr>tn_jwt_secret := tn_jwt_secret t'\<rparr> \<and>
     (tn_jwt_secret t = None \<longleftrightarrow> tn_jwt_secret t' = None)"

definition stores_alike :: "('r, 'g, 'v) ext \<Rightarrow> 'r \<Rightarrow> 'r \<Rightarrow> bool" where
  "stores_alike X r r' \<longleftrightarrow>
     rel_sum (=) (list_all2 same_but_secret) (list_tenants (x_redis X) (x_codec X) r) (list_tenants (x_redis X) (x_codec X) r') \<and>
     (\<forall>tid. rel_sum (=) (rel_option same_but_secret) (get_tenant_by_id (x_redis X) (x_codec X) tid r)
        (get_tenant_by_id (x_redis X) (x_codec X) tid r'))"

lemma same_views:
  assumes "same_but_secret t t'"
  shows "tenant_view_from t' = tenant_view_from t" "customer_tenant_view t' = customer_tenant_view t" "tn_id t' = tn_id t"
proof -
  from assms have t': "t' = t\<lparr>tn_jwt_secret := tn_jwt_secret t'\<rparr>" and none: "tn_jwt_secret t = None \<longleftrightarrow> tn_jwt_secret t' = None"
    by (simp_all add: same_but_secret_def)
  have "tenant_view_from (t\<lparr>tn_jwt_secret := x\<rparr>) = (tenant_view_from t)\<lparr>tv_has_jwt_secret := (x \<noteq> None)\<rparr>"
    "customer_tenant_view (t\<lparr>tn_jwt_secret := x\<rparr>) = customer_tenant_view t" "tn_id (t\<lparr>tn_jwt_secret := x\<rparr>) = tn_id t" for x
    by (simp_all add: tenant_view_from_def customer_tenant_view_def)
  note upd = this [of "tn_jwt_secret t'", folded t']
  show "customer_tenant_view t' = customer_tenant_view t" "tn_id t' = tn_id t" by (rule upd)+
  show "tenant_view_from t' = tenant_view_from t" unfolding upd(1) using none by (simp add: tenant_view_from_def)
qed

text \<open>
  C39: The answers keep the secrets. Take two stores whose tenants differ in the values of their JWT secrets
  only: the operator's list of tenants, a customer's view of the account and the answer to a sign-in by
  magic link have the same status and the same JSON for both, so none of them tells more of a secret than
  whether there is one.
\<close>

theorem answers_keep_secrets:
  fixes st :: "('r, 'g, 'v) app_state"
  assumes "stores_alike X (redis st) r"
  shows "map_prod id admin_out (fst (admin_list_tenants X a (st\<lparr>redis := r\<rparr>))) =
      map_prod id admin_out (fst (admin_list_tenants X a st)) \<and>
    map_prod id customer_out (me X J clock a (st\<lparr>redis := r\<rparr>)) = map_prod id customer_out (me X J clock a st) \<and>
    map_prod id customer_out (exchange_magic X J clock token (st\<lparr>redis := r\<rparr>)) =
      map_prod id customer_out (exchange_magic X J clock token st)"
proof -
  have views: "map tenant_view_from ts' = map tenant_view_from ts" if "list_all2 same_but_secret ts ts'" for ts ts'
    using that by (induction rule: list_all2_induct) (simp_all add: same_views)
  have config: "reject_unauthorized X a (st\<lparr>redis := r\<rparr>) = reject_unauthorized X a st"
    "session_tenant_id J clock a (st\<lparr>redis := r\<rparr>) = session_tenant_id J clock a st"
    "signing_secret (st\<lparr>redis := r\<rparr>) = signing_secret st"
    by (simp_all add: reject_unauthorized_def session_tenant_id_def signing_secret_def)
  from assms have list: "rel_sum (=) (list_all2 same_but_secret) (list_tenants (x_redis X) (x_codec X) (redis st))
      (list_tenants (x_redis X) (x_codec X) r)"
    and get: "rel_sum (=) (rel_option same_but_secret) (get_tenant_by_id (x_redis X) (x_codec X) tid (redis st))
      (get_tenant_by_id (x_redis X) (x_codec X) tid r)" for tid
    by (simp_all add: stores_alike_def)
  have "fst (admin_list_tenants X a (st\<lparr>redis := r\<rparr>)) = fst (admin_list_tenants X a st)"
    using list unfolding admin_list_tenants_def config
    by (auto simp: views elim!: rel_sum.cases split: option.split)
  moreover have "me X J clock a (st\<lparr>redis := r\<rparr>) = me X J clock a st"
  proof (cases "session_tenant_id J clock a st")
    case (Inr tid)
    with get [of tid] show ?thesis
      unfolding me_def config by (auto simp: same_views elim!: rel_sum.cases option.rel_cases)
  qed (simp add: me_def config)
  moreover have "exchange_magic X J clock token (st\<lparr>redis := r\<rparr>) = exchange_magic X J clock token st"
  proof (cases "Option.bind (signing_secret st) (\<lambda>secret. decode_token J clock secret token)")
    case None
    then show ?thesis unfolding exchange_magic_def config by (auto simp: bind_eq_None_conv split: option.split)
  next
    case (Some claims)
    with get [of "sc_sub claims"] show ?thesis
      unfolding exchange_magic_def config
      by (auto simp: bind_eq_Some_conv grant_session_def same_views elim!: rel_sum.cases option.rel_cases split: option.split)
  qed
  ultimately show ?thesis by simp
qed

text \<open>The two stores of one tenant with different secrets.\<close>

definition secret_store :: "string \<Rightarrow> mem_redis" where
  "secret_store s = mem_empty\<lparr>mem_strings := [''tenant:key:h'' \<mapsto> s, ''tenant:id:t_1'' \<mapsto> ''h'']\<rparr>"

definition listing_ext :: "(mem_redis, nat, demo_json) ext" where
  "listing_ext = demo_ext\<lparr>x_redis := mem_api\<lparr>r_keys := (\<lambda>p r. Inr [''tenant:key:h''])\<rparr>, x_codec := demo_secret_codec\<rparr>"

theorem answers_keep_secrets_witness:
  "map_prod id admin_out (fst (admin_list_tenants listing_ext (Some ''Bearer s3'') (demo_admin\<lparr>redis := secret_store ''x''\<rparr>))) =
   map_prod id admin_out (fst (admin_list_tenants listing_ext (Some ''Bearer s3'') (demo_admin\<lparr>redis := secret_store ''y''\<rparr>)))"
proof -
  have "stores_alike listing_ext (redis (demo_admin\<lparr>redis := secret_store ''y''\<rparr>)) (secret_store ''x'')"
    by (simp add: stores_alike_def listing_ext_def demo_ext_def list_tenants_def get_tenant_by_id_def fetch_by_hash_def
        mem_api_def secret_store_def demo_secret_codec_def map_filter_def same_but_secret_def key_by_id_def key_by_hash_def)
  from answers_keep_secrets [OF this] show ?thesis by simp
qed

end
