(* ===== verification/Unit_Tests.thy ===== *)
theory Unit_Tests
  imports Services Api_Json
begin

text \<open>
  The other test modules of the program: each \<^verbatim>\<open>#[test]\<close> is a definition over the model's operations, with
  the clock, the random values and the reader and writer of JSON texts as arguments, and each module has a
  theorem that its tests pass.

  Left out are the tests of the token library itself (\<^verbatim>\<open>validate_jwt_*\<close>), whose work is a parameter.
\<close>

section \<open>webhook.rs\<close>

text \<open>\<^verbatim>\<open>json["key"]\<close> on the value of the written fields.\<close>

definition at_key :: "(string \<times> json_out) list \<Rightarrow> string \<Rightarrow> json_out option" where
  "at_key fs k = map_of fs k"

definition positive_number :: "json_out option \<Rightarrow> bool" where
  "positive_number x = (case x of Some (OInt n) \<Rightarrow> 0 < n | _ \<Rightarrow> False)"

definition peer_connected_creates_correct_json :: "i64 \<Rightarrow> bool" where
  "peer_connected_creates_correct_json now =
     (let json = webhook_fields (peer_connected now ''alice'')
      in at_key json ''event'' = Some (OStr ''peer.connected'') \<and> at_key json ''peer_id'' = Some (OStr ''alice'') \<and>
         positive_number (at_key json ''timestamp'') \<and> at_key json ''room'' = None \<and> at_key json ''data'' = None)"

definition peer_disconnected_creates_correct_json :: "i64 \<Rightarrow> bool" where
  "peer_disconnected_creates_correct_json now =
     (let json = webhook_fields (peer_disconnected now ''bob'')
      in at_key json ''event'' = Some (OStr ''peer.disconnected'') \<and> at_key json ''peer_id'' = Some (OStr ''bob''))"

definition room_joined_includes_room_field :: "i64 \<Rightarrow> bool" where
  "room_joined_includes_room_field now =
     (let json = webhook_fields (room_joined now ''alice'' ''lobby'')
      in at_key json ''event'' = Some (OStr ''room.joined'') \<and> at_key json ''peer_id'' = Some (OStr ''alice'') \<and>
         at_key json ''room'' = Some (OStr ''lobby'') \<and> at_key json ''data'' = None)"

definition room_left_includes_room_field :: "i64 \<Rightarrow> bool" where
  "room_left_includes_room_field now =
     (let json = webhook_fields (room_left now ''bob'' ''game-room'')
      in at_key json ''event'' = Some (OStr ''room.left'') \<and> at_key json ''peer_id'' = Some (OStr ''bob'') \<and>
         at_key json ''room'' = Some (OStr ''game-room''))"

definition rate_limited_includes_bucket_data :: "i64 \<Rightarrow> bool" where
  "rate_limited_includes_bucket_data now =
     (let json = webhook_fields (rate_limited now ''charlie'' ''signaling'')
      in at_key json ''event'' = Some (OStr ''rate.limited'') \<and> at_key json ''peer_id'' = Some (OStr ''charlie'') \<and>
         (case at_key json ''data'' of Some (OObj d) \<Rightarrow> at_key d ''bucket'' = Some (OStr ''signaling'') | _ \<Rightarrow> False))"

text \<open>\<^verbatim>\<open>parsed["key"]\<close> on a value that was read from a text.\<close>

definition parsed_at :: "json option \<Rightarrow> string \<Rightarrow> json_body option" where
  "parsed_at v k = (case v of Some w \<Rightarrow> (case jbody w of JObj kvs \<Rightarrow> map_option jbody (map_of kvs k) | _ \<Rightarrow> None) | None \<Rightarrow> None)"

definition custom_event :: webhook_event where
  "custom_event = \<lparr>wh_event = ''custom.event'', wh_timestamp = 1700000000000, wh_peer_id = Some ''peer1'',
     wh_room = Some ''room1'', wh_data = Some [(''key'', ''value'')]\<rparr>"

definition webhook_events_serialize_correctly ::
  "(string \<Rightarrow> json option) \<Rightarrow> ((string \<times> json_out) list \<Rightarrow> string) \<Rightarrow> bool" where
  "webhook_events_serialize_correctly parse write =
     (let parsed = parse (write (webhook_fields custom_event))
      in parsed_at parsed ''event'' = Some (JStr ''custom.event'') \<and>
         parsed_at parsed ''timestamp'' = Some (JInt 1700000000000) \<and>
         parsed_at parsed ''peer_id'' = Some (JStr ''peer1'') \<and> parsed_at parsed ''room'' = Some (JStr ''room1'') \<and>
         (case parsed_at parsed ''data'' of
            Some d \<Rightarrow> parsed_at (Some (Json [] d)) ''key'' = Some (JStr ''value'') | None \<Rightarrow> False))"

definition minimal_event :: webhook_event where
  "minimal_event = \<lparr>wh_event = ''minimal'', wh_timestamp = 999, wh_peer_id = None, wh_room = None, wh_data = None\<rparr>"

definition serialization_round_trip_none_fields ::
  "(string \<Rightarrow> json option) \<Rightarrow> ((string \<times> json_out) list \<Rightarrow> string) \<Rightarrow> bool" where
  "serialization_round_trip_none_fields parse write =
     (let deserialized = parse (write (webhook_fields minimal_event))
      in parsed_at deserialized ''event'' = Some (JStr ''minimal'') \<and> parsed_at deserialized ''timestamp'' = Some (JInt 999) \<and>
         parsed_at deserialized ''peer_id'' = None \<and> parsed_at deserialized ''room'' = None \<and>
         parsed_at deserialized ''data'' = None)"

definition all_event_constructors_produce_valid_json ::
  "(string \<Rightarrow> json option) \<Rightarrow> ((string \<times> json_out) list \<Rightarrow> string) \<Rightarrow> i64 \<Rightarrow> bool" where
  "all_event_constructors_produce_valid_json parse write now =
     list_all (\<lambda>event.
         let parsed = parse (write (webhook_fields event))
         in parsed_at parsed ''event'' \<noteq> None \<and>
            (case parsed_at parsed ''timestamp'' of Some (JInt n) \<Rightarrow> - (2 ^ 63) \<le> n \<and> n < 2 ^ 63 | _ \<Rightarrow> False))
       [peer_connected now ''alice'', peer_disconnected now ''bob'', room_joined now ''carol'' ''lobby'',
        room_left now ''dave'' ''game'', rate_limited now ''eve'' ''signaling'']"

definition rate_limited_event_includes_bucket_data :: "i64 \<Rightarrow> bool" where
  "rate_limited_event_includes_bucket_data now =
     (let json = webhook_fields (rate_limited now ''alice'' ''data'')
      in at_key json ''event'' = Some (OStr ''rate.limited'') \<and> at_key json ''peer_id'' = Some (OStr ''alice'') \<and>
         (case at_key json ''data'' of Some (OObj d) \<Rightarrow> at_key d ''bucket'' = Some (OStr ''data'') | _ \<Rightarrow> False))"

text \<open>The clock read before, inside and after the constructor.\<close>

definition timestamp_is_reasonable_and_recent :: "i64 \<Rightarrow> i64 \<Rightarrow> i64 \<Rightarrow> bool" where
  "timestamp_is_reasonable_and_recent before_ms now after_ms =
     (let event = peer_connected now ''test-peer''
      in sint before_ms \<le> sint (wh_timestamp event) \<and> sint (wh_timestamp event) \<le> sint after_ms \<and>
         0 < sint (wh_timestamp event) \<and> 1577836800000 < sint (wh_timestamp event))"

definition event_names_are_correct_for_all_constructors :: "i64 \<Rightarrow> bool" where
  "event_names_are_correct_for_all_constructors now \<longleftrightarrow>
     wh_event (peer_connected now ''x'') = ''peer.connected'' \<and>
     wh_event (peer_disconnected now ''x'') = ''peer.disconnected'' \<and>
     wh_event (room_joined now ''x'' ''r'') = ''room.joined'' \<and> wh_event (room_left now ''x'' ''r'') = ''room.left'' \<and>
     wh_event (rate_limited now ''x'' ''b'') = ''rate.limited''"

definition room_events_include_room_field_but_not_data :: "i64 \<Rightarrow> bool" where
  "room_events_include_room_field_but_not_data now =
     (let joined = room_joined now ''peer1'' ''lobby''; left = room_left now ''peer1'' ''lobby''
      in wh_room joined = Some ''lobby'' \<and> wh_data joined = None \<and> wh_room left = Some ''lobby'' \<and> wh_data left = None)"

definition peer_events_do_not_include_room_field :: "i64 \<Rightarrow> bool" where
  "peer_events_do_not_include_room_field now =
     (let connected = peer_connected now ''peer1''; disconnected = peer_disconnected now ''peer1''
      in wh_room connected = None \<and> wh_data connected = None \<and> wh_room disconnected = None \<and> wh_data disconnected = None)"

section \<open>tenant.rs\<close>

definition is_ascii_hexdigit :: "char \<Rightarrow> bool" where
  "is_ascii_hexdigit c \<longleftrightarrow> c \<in> set ''0123456789abcdefABCDEF''"

definition api_key_hash_is_stable_hex :: "(string \<Rightarrow> u8 list) \<Rightarrow> bool" where
  "api_key_hash_is_stable_hex sha256 =
     (let hash = hash_api_key sha256 ''dk_test''
      in length hash = 64 \<and> hash = hash_api_key sha256 ''dk_test'' \<and> hash \<noteq> hash_api_key sha256 ''dk_other'' \<and>
         list_all is_ascii_hexdigit hash)"

definition generated_key_and_id_have_expected_shape :: "string \<Rightarrow> string \<Rightarrow> bool" where
  "generated_key_and_id_have_expected_shape uuid1 uuid2 =
     (let key = generate_api_key uuid1; tid = generate_tenant_id uuid2
      in starts_with key ''dk_'' \<and> length key = 3 + 32 \<and> starts_with tid ''t_'' \<and> length tid = 2 + 12 \<and>
         is_valid_identifier tid)"

definition generated_jwt_secret_has_expected_shape :: "string \<Rightarrow> string \<Rightarrow> bool" where
  "generated_jwt_secret_has_expected_shape uuid1 uuid2 =
     (let secret = generate_jwt_secret uuid1
      in starts_with secret ''jwt_'' \<and> length secret = 4 + 32 \<and> secret \<noteq> generate_jwt_secret uuid2)"

definition full_tenant :: tenant where
  "full_tenant = \<lparr>tn_id = ''t_x'', tn_name = ''X'', tn_origins = [''https://app.example.com''], tn_active = False,
     tn_max_rooms = 5, tn_max_peers = 100, tn_email = Some ''ops@example.com'', tn_jwt_secret = None\<rparr>"

definition tenant_json_roundtrip_with_defaults ::
  "(string \<Rightarrow> json option) \<Rightarrow> ((string \<times> json_out) list \<Rightarrow> string) \<Rightarrow> bool" where
  "tenant_json_roundtrip_with_defaults parse write =
     (let C = serde_codec parse write in
      (case de_tenant C ''{\"id\":\"t_abc\",\"name\":\"Acme\"}'' of
         None \<Rightarrow> False
       | Some t \<Rightarrow> tn_active t \<and> tn_origins t = [] \<and> tn_max_rooms t = 0 \<and> tn_max_peers t = 0) \<and>
      Option.bind (ser_tenant C full_tenant) (de_tenant C) = Some full_tenant)"

definition cache_tenant :: tenant where
  "cache_tenant = \<lparr>tn_id = ''t_1'', tn_name = ''One'', tn_origins = [], tn_active = True, tn_max_rooms = 0,
     tn_max_peers = 0, tn_email = None, tn_jwt_secret = None\<rparr>"

definition cache_serves_hits_and_supports_invalidation :: "(nat \<Rightarrow> instant) \<Rightarrow> bool" where
  "cache_serves_hits_and_supports_invalidation c =
     (let cache = cache_put (c 1) ''h2'' None (cache_put (c 0) ''h1'' (Some cache_tenant) [])
      in cache_get (c 2) ''h1'' cache = Some (Some cache_tenant) \<and> cache_get (c 3) ''h2'' cache = Some None \<and>
         cache_get (c 4) ''h3'' cache = None \<and> cache_get (c 5) ''h1'' (invalidate_all cache) = None)"

definition secret_tenant :: tenant where
  "secret_tenant = \<lparr>tn_id = ''t_abc123def456'', tn_name = ''Acme'', tn_origins = [], tn_active = True, tn_max_rooms = 0,
     tn_max_peers = 0, tn_email = None, tn_jwt_secret = Some ''tenant-secret''\<rparr>"

definition legacy_text :: string where
  "legacy_text =
     ''{\"id\":\"t_x\",\"name\":\"Old\",\"origins\":[],\"active\":true,\"max_rooms\":0,\"max_peers\":0}''"

definition tenant_roundtrip_with_jwt_secret ::
  "(string \<Rightarrow> json option) \<Rightarrow> ((string \<times> json_out) list \<Rightarrow> string) \<Rightarrow> bool" where
  "tenant_roundtrip_with_jwt_secret parse write =
     (let C = serde_codec parse write in
      (case Option.bind (ser_tenant C secret_tenant) (de_tenant C) of
         None \<Rightarrow> False | Some back \<Rightarrow> tn_jwt_secret back = Some ''tenant-secret'') \<and>
      (case de_tenant C legacy_text of None \<Rightarrow> False | Some old \<Rightarrow> tn_jwt_secret old = None))"

section \<open>Lemmas on written values\<close>

lemma parsed_written:
  assumes "reads_back parse write fs"
  shows "map_of fs k = None \<Longrightarrow> parsed_at (parse (write fs)) k = None"
    and "map_of fs k = Some out \<Longrightarrow> \<exists>w. parsed_at (parse (write fs)) k = Some (jbody w) \<and> reads_as parse out w"
proof -
  from assms obtain v kvs where v: "parse (write fs) = Some v" "jbody v = JObj kvs"
    and kvs: "list_all2 (\<lambda>(k, out) (k', w). k' = k \<and> reads_as parse out w) fs kvs"
    unfolding reads_back_def by blast
  have at: "parsed_at (parse (write fs)) k = map_option jbody (map_of kvs k)" by (simp add: parsed_at_def v)
  have rel: "rel_option (reads_as parse) (map_of fs k) (map_of kvs k)"
    using kvs by (induction rule: list_all2_induct) auto
  show "map_of fs k = None \<Longrightarrow> parsed_at (parse (write fs)) k = None"
    using rel by (simp add: at)
  show "map_of fs k = Some out \<Longrightarrow> \<exists>w. parsed_at (parse (write fs)) k = Some (jbody w) \<and> reads_as parse out w"
    using rel by (auto simp: at option_rel_Some1)
qed

section \<open>The tests pass\<close>

text \<open>The tests of the webhook events, at every instant after the epoch.\<close>

theorem webhook_tests_pass:
  assumes "1577836800000 < sint now"
  shows "peer_connected_creates_correct_json now" "peer_disconnected_creates_correct_json now"
    "room_joined_includes_room_field now" "room_left_includes_room_field now" "rate_limited_includes_bucket_data now"
    "rate_limited_event_includes_bucket_data now" "event_names_are_correct_for_all_constructors now"
    "room_events_include_room_field_but_not_data now" "peer_events_do_not_include_room_field now"
    "sint before_ms \<le> sint now \<Longrightarrow> sint now \<le> sint after_ms \<Longrightarrow> timestamp_is_reasonable_and_recent before_ms now after_ms"
proof -
  note ev = at_key_def positive_number_def webhook_fields_def out_field_def json_object_def peer_connected_def
    peer_disconnected_def room_joined_def room_left_def rate_limited_def Let_def
  show "peer_connected_creates_correct_json now" using assms by (simp add: peer_connected_creates_correct_json_def ev)
  show "peer_disconnected_creates_correct_json now" by (simp add: peer_disconnected_creates_correct_json_def ev)
  show "room_joined_includes_room_field now" by (simp add: room_joined_includes_room_field_def ev)
  show "room_left_includes_room_field now" by (simp add: room_left_includes_room_field_def ev)
  show "rate_limited_includes_bucket_data now" by (simp add: rate_limited_includes_bucket_data_def ev)
  show "rate_limited_event_includes_bucket_data now" by (simp add: rate_limited_event_includes_bucket_data_def ev)
  show "event_names_are_correct_for_all_constructors now" by (simp add: event_names_are_correct_for_all_constructors_def ev)
  show "room_events_include_room_field_but_not_data now" by (simp add: room_events_include_room_field_but_not_data_def ev)
  show "peer_events_do_not_include_room_field now" by (simp add: peer_events_do_not_include_room_field_def ev)
  show "sint before_ms \<le> sint now \<Longrightarrow> sint now \<le> sint after_ms \<Longrightarrow> timestamp_is_reasonable_and_recent before_ms now after_ms"
    using assms by (simp add: timestamp_is_reasonable_and_recent_def ev)
qed

text \<open>The ones that write an event and read it back.\<close>

theorem webhook_roundtrip_tests_pass:
  assumes "\<And>e. reads_back parse write (webhook_fields e)"
  shows "webhook_events_serialize_correctly parse write" "serialization_round_trip_none_fields parse write"
    "all_event_constructors_produce_valid_json parse write now"
proof -
  note none = parsed_written(1) [OF assms] and some = parsed_written(2) [OF assms]
  note ev = webhook_fields_def out_field_def json_object_def peer_connected_def
    peer_disconnected_def room_joined_def room_left_def rate_limited_def Let_def
  show "serialization_round_trip_none_fields parse write"
    using some [of minimal_event "''event''"] some [of minimal_event "''timestamp''"] none [of minimal_event]
    by (auto simp: serialization_round_trip_none_fields_def minimal_event_def ev)
  have "map_of (webhook_fields custom_event) ''data'' = Some (OObj [(''key'', OStr ''value'')])"
    by (simp add: custom_event_def ev)
  from some [OF this] obtain w where w: "parsed_at (parse (write (webhook_fields custom_event))) ''data'' = Some (jbody w)"
    "reads_as parse (OObj [(''key'', OStr ''value'')]) w" by blast
  from w(2) obtain x where x: "jbody w = JObj [(''key'', x)]" "jbody x = JStr ''value''"
    by (auto simp: list_all2_Cons1 split: json_body.splits)
  show "webhook_events_serialize_correctly parse write"
    using some [of custom_event "''event''"] some [of custom_event "''timestamp''"] some [of custom_event "''peer_id''"]
      some [of custom_event "''room''"] w(1)
    by (auto simp: webhook_events_serialize_correctly_def x parsed_at_def [of "Some (Json [] _)"] custom_event_def ev)
  have "parsed_at (parse (write (webhook_fields e))) ''event'' = Some (JStr (wh_event e))"
    "parsed_at (parse (write (webhook_fields e))) ''timestamp'' = Some (JInt (sint (wh_timestamp e)))" for e
    using some [of e "''event''"] some [of e "''timestamp''"] by (auto simp: ev)
  then show "all_event_constructors_produce_valid_json parse write now"
    using sint_greater_eq [of now] sint_less [of now]
    by (simp add: all_event_constructors_produce_valid_json_def ev)
qed

text \<open>
  The tests of the tenant records: for every hash with 32 bytes that tells the two keys apart, for all
  random values of the right shape, and for every clock that runs for less than thirty seconds.
\<close>

lemma hex_digit_hexdigit: "n < 16 \<Longrightarrow> is_ascii_hexdigit (hex_digit n)"
proof -
  assume "n < 16"
  then have "n \<in> set [0..<16]" by simp
  moreover have "list_all (\<lambda>n. is_ascii_hexdigit (hex_digit n)) [0..<16]" by code_simp
  ultimately show ?thesis unfolding list_all_iff by blast
qed

lemma hex_identifier: "c \<in> set ''0123456789abcdef'' \<Longrightarrow> is_identifier_byte c"
proof -
  have "list_all is_identifier_byte ''0123456789abcdef''" by code_simp
  then show "c \<in> set ''0123456789abcdef'' \<Longrightarrow> is_identifier_byte c" unfolding list_all_iff by blast
qed

definition uuid_text :: "string \<Rightarrow> bool" where
  "uuid_text u \<longleftrightarrow> length u = 32 \<and> set u \<subseteq> set ''0123456789abcdef''"

theorem tenant_tests_pass:
  shows "length (sha256 ''dk_test'') = 32 \<Longrightarrow> sha256 ''dk_test'' \<noteq> sha256 ''dk_other'' \<Longrightarrow> api_key_hash_is_stable_hex sha256"
    and "uuid_text u \<Longrightarrow> uuid_text w \<Longrightarrow> generated_key_and_id_have_expected_shape u w"
    and "uuid_text u \<Longrightarrow> u \<noteq> w \<Longrightarrow> generated_jwt_secret_has_expected_shape u w"
    and "\<forall>i j. i \<le> j \<longrightarrow> c i \<le> c j \<Longrightarrow> c 5 - c 0 \<le> CACHE_TTL \<Longrightarrow> cache_serves_hits_and_supports_invalidation c"
proof -
  show "api_key_hash_is_stable_hex sha256" if "length (sha256 ''dk_test'') = 32" "sha256 ''dk_test'' \<noteq> sha256 ''dk_other''"
  proof -
    have "list_all is_ascii_hexdigit (hex_byte b)" for b
      using unsigned_less [of b, where 'a = nat] by (simp add: hex_byte_def hex_digit_hexdigit less_mult_imp_div_less)
    then have "list_all is_ascii_hexdigit (hash_api_key sha256 ''dk_test'')"
      by (auto simp: hash_api_key_def list_all_iff)
    then show ?thesis
      using that concat_hex_inj by (auto simp: api_key_hash_is_stable_hex_def hash_api_key_def length_concat_hex)
  qed
  show "generated_key_and_id_have_expected_shape u w" if "uuid_text u" "uuid_text w"
  proof -
    have "set (take 12 w) \<subseteq> set ''0123456789abcdef''"
      using that(2) set_take_subset [of 12 w] unfolding uuid_text_def by blast
    then have "list_all is_identifier_byte (take 12 w)" using hex_identifier unfolding list_all_iff by blast
    moreover have "is_identifier_byte (CHR ''t'')" "is_identifier_byte (CHR ''_'')" by code_simp+
    ultimately show ?thesis
      using that unfolding uuid_text_def
      by (simp add: generated_key_and_id_have_expected_shape_def generate_api_key_def generate_tenant_id_def
          starts_with_def is_valid_identifier_def MAX_IDENTIFIER_LEN_def)
  qed
  show "generated_jwt_secret_has_expected_shape u w" if "uuid_text u" "u \<noteq> w"
    using that by (simp add: generated_jwt_secret_has_expected_shape_def generate_jwt_secret_def starts_with_def uuid_text_def)
  show "cache_serves_hits_and_supports_invalidation c" if "\<forall>i j. i \<le> j \<longrightarrow> c i \<le> c j" "c 5 - c 0 \<le> CACHE_TTL"
  proof -
    have "c 2 - c 0 \<le> CACHE_TTL" "c 3 - c 1 \<le> CACHE_TTL"
      using that(2) that(1) [rule_format, of 2 5] that(1) [rule_format, of 3 5] that(1) [rule_format, of 0 1] by simp_all
    then show ?thesis
      by (simp add: cache_serves_hits_and_supports_invalidation_def cache_get_def cache_put_def duration_since_def
          invalidate_all_def Let_def not_less)
  qed
qed

text \<open>
  The tests that write tenants and read them: \<open>short\<close> and \<open>legacy\<close> are what the two literal texts of the tests
  are read as.
\<close>

theorem tenant_json_tests_pass:
  assumes "\<And>t. reads_back parse write (tenant_fields t)"
    and short: "parse ''{\"id\":\"t_abc\",\"name\":\"Acme\"}'' = Some short"
      "jbody short = JObj [(''id'', Json i (JStr ''t_abc'')), (''name'', Json n (JStr ''Acme''))]"
    and legacy: "parse legacy_text = Some legacy"
      "jbody legacy = JObj [(''id'', Json i' (JStr ''t_x'')), (''name'', Json n' (JStr ''Old'')), (''origins'', Json os (JArr [])),
         (''active'', Json a (JBool True)), (''max_rooms'', Json mr (JInt 0)), (''max_peers'', Json mp (JInt 0))]"
  shows "tenant_json_roundtrip_with_defaults parse write" "tenant_roundtrip_with_jwt_secret parse write"
proof -
  have round: "Option.bind (ser_tenant (serde_codec parse write) t) (de_tenant (serde_codec parse write)) = Some t" for t
    using serde_codec_ok [OF assms(1), of t] by (simp add: codec_ok_def tenant_json_def serde_codec_def)
  let ?short = "\<lparr>tn_id = ''t_abc'', tn_name = ''Acme'', tn_origins = [], tn_active = True, tn_max_rooms = 0,
    tn_max_peers = 0, tn_email = None, tn_jwt_secret = None\<rparr>"
  have "de_tenant_body (jbody short) = Inr ?short"
    unfolding short(2) de_tenant_object reads_tenant_def
    by (simp add: reads_required_def reads_default_def reads_field_def de_str_def)
  then show "tenant_json_roundtrip_with_defaults parse write"
    by (simp add: tenant_json_roundtrip_with_defaults_def Let_def round) (simp add: serde_codec_def short(1))
  let ?legacy = "\<lparr>tn_id = ''t_x'', tn_name = ''Old'', tn_origins = [], tn_active = True, tn_max_rooms = 0,
    tn_max_peers = 0, tn_email = None, tn_jwt_secret = None\<rparr>"
  have "de_tenant_body (jbody legacy) = Inr ?legacy"
    unfolding legacy(2) de_tenant_object reads_tenant_def
    by (simp add: reads_required_def reads_default_def reads_field_def de_str_def de_strings_def de_bool_def de_usize_def)
  then show "tenant_roundtrip_with_jwt_secret parse write"
    by (simp add: tenant_roundtrip_with_jwt_secret_def Let_def round secret_tenant_def) (simp add: serde_codec_def legacy(1))
qed

end
