(* ===== verification/Protocol_Tests.thy ===== *)
theory Protocol_Tests
  imports Rooms Api_Json
begin

text \<open>
  The test modules of the protocol and its handlers (\<^verbatim>\<open>enums.rs\<close>, \<^verbatim>\<open>validation.rs\<close>, \<^verbatim>\<open>jwt.rs\<close>,
  \<^verbatim>\<open>models/message.rs\<close>, \<^verbatim>\<open>state.rs\<close>, \<^verbatim>\<open>email.rs\<close> and the handlers' own), each test a definition over the
  model, with a theorem per module that its tests pass. The clock, the reader and the writer of JSON texts
  and the crypto library are arguments.
\<close>

section \<open>enums.rs\<close>

text \<open>\<^verbatim>\<open>serde_json::to_string\<close> of a unit variant is its name in quotes.\<close>

definition quoted :: "string \<Rightarrow> string" where
  "quoted s = CHR 0x22 # s @ [CHR 0x22]"

definition message_type_to_string :: "MessageType \<Rightarrow> string" where
  "message_type_to_string t = quoted (serde_name t)"

definition message_type_serializes_with_correct_wire_names :: bool where
  "message_type_serializes_with_correct_wire_names \<longleftrightarrow>
     message_type_to_string OPEN = quoted ''OPEN'' \<and> message_type_to_string LEAVE = quoted ''LEAVE'' \<and>
     message_type_to_string CANDIDATE = quoted ''CANDIDATE'' \<and> message_type_to_string OFFER = quoted ''OFFER'' \<and>
     message_type_to_string ANSWER = quoted ''ANSWER'' \<and> message_type_to_string EXPIRE = quoted ''EXPIRE'' \<and>
     message_type_to_string HEARTBEAT = quoted ''HEARTBEAT'' \<and> message_type_to_string ERROR = quoted ''ERROR'' \<and>
     message_type_to_string DATA = quoted ''DATA'' \<and> message_type_to_string ACK = quoted ''ACK''"

definition room_message_types_use_hyphens_on_wire :: bool where
  "room_message_types_use_hyphens_on_wire \<longleftrightarrow>
     message_type_to_string IdTaken = quoted ''ID-TAKEN'' \<and> message_type_to_string RoomJoin = quoted ''ROOM-JOIN'' \<and>
     message_type_to_string RoomLeave = quoted ''ROOM-LEAVE'' \<and> message_type_to_string RoomPeers = quoted ''ROOM-PEERS'' \<and>
     message_type_to_string PresenceUpdate = quoted ''PRESENCE-UPDATE''"

definition message_type_deserializes_from_wire_names :: bool where
  "message_type_deserializes_from_wire_names \<longleftrightarrow>
     de_variant (json_body.JStr ''ROOM-JOIN'') = Inr RoomJoin \<and> de_variant (json_body.JStr ''ROOM-LEAVE'') = Inr RoomLeave \<and>
     de_variant (json_body.JStr ''ROOM-PEERS'') = Inr RoomPeers \<and> de_variant (json_body.JStr ''ID-TAKEN'') = Inr IdTaken \<and>
     de_variant (json_body.JStr ''PRESENCE-UPDATE'') = Inr PresenceUpdate"

text \<open>\<^verbatim>\<open>trim_matches('"')\<close>.\<close>

definition trim_quotes :: "string \<Rightarrow> string" where
  "trim_quotes s = rev (dropWhile (\<lambda>c. c = CHR 0x22) (rev (dropWhile (\<lambda>c. c = CHR 0x22) s)))"

definition message_type_as_str_matches_serde :: bool where
  "message_type_as_str_matches_serde =
     list_all (\<lambda>t. as_str t = trim_quotes (message_type_to_string t)) all_message_types"

definition peer_error_as_str_returns_expected_messages :: bool where
  "peer_error_as_str_returns_expected_messages \<longleftrightarrow>
     peer_error_as_str InvalidKey = ''Invalid key provided'' \<and>
     peer_error_as_str InvalidWsParameters = ''No id, token, or key supplied to websocket server'' \<and>
     peer_error_as_str ConnectionLimitExceed = ''Server has reached its concurrent user limit''"

section \<open>validation.rs\<close>

definition accepts_uuid_and_slugs :: bool where
  "accepts_uuid_and_slugs \<longleftrightarrow>
     is_valid_identifier ''550e8400-e29b-41d4-a716-446655440000'' \<and> is_valid_identifier ''game-lobby-42'' \<and>
     is_valid_identifier ''a'' \<and> is_valid_identifier ''ABC_123-xyz''"

definition rejects_json_breakers :: bool where
  "rejects_json_breakers \<longleftrightarrow>
     \<not> is_valid_identifier ''ab\"cd'' \<and> \<not> is_valid_identifier (''ab'' @ [CHR 0x5C] @ ''cd'') \<and>
     \<not> is_valid_identifier ''{\"inject\":true}'' \<and> \<not> is_valid_identifier ''room,\"payload\":null''"

definition rejects_control_and_whitespace :: bool where
  "rejects_control_and_whitespace \<longleftrightarrow>
     \<not> is_valid_identifier '' '' \<and> \<not> is_valid_identifier ''a b'' \<and>
     \<not> is_valid_identifier [CHR ''a'', CHR 0x0A, CHR ''b''] \<and> \<not> is_valid_identifier [CHR ''a'', CHR 0x09, CHR ''b'']"

text \<open>The two words in UTF-8.\<close>

definition rejects_non_ascii :: bool where
  "rejects_non_ascii \<longleftrightarrow>
     \<not> is_valid_identifier (''caf'' @ [CHR 0xC3, CHR 0xA9]) \<and>
     \<not> is_valid_identifier [CHR 0xE6, CHR 0x97, CHR 0xA5, CHR 0xE6, CHR 0x9C, CHR 0xAC, CHR 0xE8, CHR 0xAA, CHR 0x9E]"

definition rejects_empty_and_over_limit :: bool where
  "rejects_empty_and_over_limit \<longleftrightarrow>
     \<not> is_valid_identifier [] \<and> \<not> is_valid_identifier (replicate (MAX_IDENTIFIER_LEN + 1) (CHR ''a'')) \<and>
     is_valid_identifier (replicate MAX_IDENTIFIER_LEN (CHR ''a''))"

section \<open>jwt.rs\<close>

text \<open>\<^verbatim>\<open>serde_json::Value\<close> with the accessors the code uses.\<close>

definition value_api :: "json json_api" where
  "value_api = \<lparr>v_get = (\<lambda>v k. case jbody v of json_body.JObj kvs \<Rightarrow> map_of kvs k | _ \<Rightarrow> None),
     v_as_array = (\<lambda>v. case jbody v of json_body.JArr vs \<Rightarrow> Some vs | _ \<Rightarrow> None),
     v_as_str = (\<lambda>v. case jbody v of json_body.JStr s \<Rightarrow> Some s | _ \<Rightarrow> None)\<rparr>"

definition val :: "json_body \<Rightarrow> json" where
  "val b = Json [] b"

definition val_str :: "string \<Rightarrow> json" where
  "val_str s = val (json_body.JStr s)"

definition val_obj :: "(string \<times> json) list \<Rightarrow> json" where
  "val_obj kvs = val (json_body.JObj kvs)"

definition room_allowed_follows_claims_semantics :: bool where
  "room_allowed_follows_claims_semantics \<longleftrightarrow>
     room_allowed value_api (val_obj [(''sub'', val_str ''u1'')]) ''anything'' \<and>
     room_allowed value_api (val_obj [(''rooms'', val (json_body.JArr [val_str ''lobby'', val_str ''game'']))]) ''game'' \<and>
     \<not> room_allowed value_api (val_obj [(''rooms'', val (json_body.JArr [val_str ''lobby'']))]) ''game'' \<and>
     room_allowed value_api (val_obj [(''rooms'', val_str ''not-an-array'')]) ''game''"

definition per_tenant_secret_takes_precedence_over_global :: bool where
  "per_tenant_secret_takes_precedence_over_global \<longleftrightarrow>
     effective_jwt_secret (Some ''t'') (Some ''g'') = Some ''t'' \<and> effective_jwt_secret None (Some ''g'') = Some ''g'' \<and>
     effective_jwt_secret None None = None"

definition tid_claim_must_match_tenant_when_present :: bool where
  "tid_claim_must_match_tenant_when_present \<longleftrightarrow>
     (let claims = val_obj [(''sub'', val_str ''u''), (''tid'', val_str ''t_1''), (''exp'', val (json_body.JInt 4102444800))];
          no_tid = val_obj [(''sub'', val_str ''u''), (''exp'', val (json_body.JInt 4102444800))]
      in tid_matches value_api claims ''t_1'' \<and> \<not> tid_matches value_api claims ''t_2'' \<and> tid_matches value_api no_tid ''t_any'')"

section \<open>models/message.rs\<close>

text \<open>Each literal text of the tests by the value it is read as.\<close>

definition deserialize_minimal_message :: bool where
  "deserialize_minimal_message =
     (case de_message (json_body.JObj [(''type'', val_str ''OFFER'')]) of
        Inl e \<Rightarrow> False
      | Inr msg \<Rightarrow> msg_type msg = OFFER \<and> src msg = None \<and> dst msg = None \<and> payload msg = None \<and> seq msg = None \<and>
          room msg = None \<and> timestamp msg = None)"

definition deserialize_full_message :: "json \<Rightarrow> bool" where
  "deserialize_full_message cursor =
     (case de_message (json_body.JObj [(''type'', val_str ''DATA''), (''src'', val_str ''alice''), (''dst'', val_str ''bob''),
        (''payload'', cursor), (''seq'', val (json_body.JInt 42)), (''room'', val_str ''lobby''),
        (''timestamp'', val (json_body.JInt 1700000000000))]) of
        Inl e \<Rightarrow> False
      | Inr msg \<Rightarrow> msg_type msg = DATA \<and> src msg = Some ''alice'' \<and> dst msg = Some ''bob'' \<and> seq msg = Some 42 \<and>
          room msg = Some ''lobby'' \<and> timestamp msg = Some 1700000000000 \<and> payload msg \<noteq> None)"

definition deserialize_room_join_message :: bool where
  "deserialize_room_join_message =
     (case de_message (json_body.JObj [(''type'', val_str ''ROOM-JOIN''), (''room'', val_str ''lobby'')]) of
        Inl e \<Rightarrow> False | Inr msg \<Rightarrow> msg_type msg = RoomJoin \<and> room msg = Some ''lobby'')"

definition deserialize_room_leave_message :: bool where
  "deserialize_room_leave_message =
     (case de_message (json_body.JObj [(''type'', val_str ''ROOM-LEAVE''), (''room'', val_str ''lobby'')]) of
        Inl e \<Rightarrow> False | Inr msg \<Rightarrow> msg_type msg = RoomLeave)"

definition serialize_skips_none_fields :: "((string \<times> json_out) list \<Rightarrow> string) \<Rightarrow> bool" where
  "serialize_skips_none_fields write \<longleftrightarrow>
     message_to_string write (bare_message OPEN None) = ''{\"type\":\"OPEN\"}''"

definition present_message :: message where
  "present_message = \<lparr>msg_type = DATA, src = Some ''alice'', dst = Some ''bob'', payload = None, seq = Some 5,
     room = Some ''room1'', timestamp = Some 1700000000000, topic_class = None\<rparr>"

definition serialize_includes_present_fields :: bool where
  "serialize_includes_present_fields \<longleftrightarrow>
     (let v = map_of (message_fields present_message)
      in v ''type'' = Some (OStr ''DATA'') \<and> v ''src'' = Some (OStr ''alice'') \<and> v ''dst'' = Some (OStr ''bob'') \<and>
         v ''seq'' = Some (OInt 5) \<and> v ''room'' = Some (OStr ''room1'') \<and> v ''timestamp'' = Some (OInt 1700000000000))"

section \<open>state.rs\<close>

text \<open>The clock before, at and after the operation of the test.\<close>

definition client_meta_new_sets_token_and_current_time :: "i64 \<Rightarrow> i64 \<Rightarrow> i64 \<Rightarrow> bool" where
  "client_meta_new_sets_token_and_current_time before now after =
     (let meta = client_meta_new now ''my_token''
      in cm_token meta = ''my_token'' \<and> sint before \<le> sint (cm_last_ping meta) \<and> sint (cm_last_ping meta) \<le> sint after)"

definition client_meta_touch_updates_last_ping :: "i64 \<Rightarrow> i64 \<Rightarrow> bool" where
  "client_meta_touch_updates_last_ping created touched =
     (let meta = client_meta_new created ''tok''
      in sint (cm_last_ping meta) < sint (cm_last_ping (touch touched meta)))"

definition client_meta_last_ping_ms_reads_value :: "i64 \<Rightarrow> bool" where
  "client_meta_last_ping_ms_reads_value now \<longleftrightarrow> 0 < sint (cm_last_ping (client_meta_new now ''tok''))"

section \<open>email.rs\<close>

definition rfc3986_encodes_per_alibaba_rules :: bool where
  "rfc3986_encodes_per_alibaba_rules \<longleftrightarrow>
     rfc3986 ''a b'' = ''a%20b'' \<and> rfc3986 ''a@b.com'' = ''a%40b.com'' \<and> rfc3986 ''~-_.AZaz09'' = ''~-_.AZaz09'' \<and>
     rfc3986 ''/'' = ''%2F'' \<and> rfc3986 ''v=spf1'' = ''v%3Dspf1''"

definition iso8601_known_epoch :: bool where
  "iso8601_known_epoch \<longleftrightarrow>
     iso8601_utc (Some 1609459200) = ''2021-01-01T00:00:00Z'' \<and> iso8601_utc (Some 0) = ''1970-01-01T00:00:00Z'' \<and>
     iso8601_utc (Some 1709210096) = ''2024-02-29T12:34:56Z''"

definition signature_is_stable_and_base64 :: "mail_crypto \<Rightarrow> mailer_cfg \<Rightarrow> bool" where
  "signature_is_stable_and_base64 C m =
     (let sig = fst (sign C m ''POST'' [(''Action'', ''SingleSendMail''), (''ToAddress'', ''x@y.com'')])
      in sig \<noteq> [] \<and> sig = fst (sign C m ''POST'' [(''ToAddress'', ''x@y.com''), (''Action'', ''SingleSendMail'')]))"

section \<open>The handlers\<close>

definition two_tenants_same_room_do_not_collide :: bool where
  "two_tenants_same_room_do_not_collide =
     (let a = namespace_room (Some ''t_aaa'') ''lobby''; b = namespace_room (Some ''t_bbb'') ''lobby'';
          selfhost = namespace_room None ''lobby''
      in a \<noteq> b \<and> a \<noteq> selfhost \<and> b \<noteq> selfhost \<and> selfhost = ''lobby'')"

definition display_strips_tenant_prefix_and_round_trips :: bool where
  "display_strips_tenant_prefix_and_round_trips =
     list_all (\<lambda>(tenant, r). room_display (namespace_room tenant r) = r)
       [(Some ''t_x'', ''lobby''), (Some ''t_y'', ''game-42''), (None, ''raw'')]"

definition client_room_name_cannot_forge_a_tenant_boundary :: bool where
  "client_room_name_cannot_forge_a_tenant_boundary \<longleftrightarrow>
     \<not> is_valid_identifier [TENANT_SEP] \<and> \<not> is_valid_identifier (''t_other'' @ [TENANT_SEP] @ ''lobby'') \<and>
     room_display ''lobby'' = ''lobby''"

definition create_request_accepts_optional_jwt_secret :: bool where
  "create_request_accepts_optional_jwt_secret \<longleftrightarrow>
     (case de_create_request (json_body.JObj [(''name'', val_str ''Acme''), (''jwt_secret'', val_str ''s3cret'')]) of
        Inl e \<Rightarrow> False | Inr req \<Rightarrow> cr_jwt_secret req = Some ''s3cret'') \<and>
     (case de_create_request (json_body.JObj [(''name'', val_str ''Acme'')]) of
        Inl e \<Rightarrow> False | Inr req \<Rightarrow> cr_jwt_secret req = None)"

definition tenant_with_secret :: tenant where
  "tenant_with_secret = \<lparr>tn_id = ''t_1'', tn_name = ''Acme'', tn_origins = [], tn_active = True, tn_max_rooms = 0,
     tn_max_peers = 0, tn_email = None, tn_jwt_secret = Some ''tenant-secret''\<rparr>"

definition tenant_view_hides_jwt_secret :: bool where
  "tenant_view_hides_jwt_secret \<longleftrightarrow>
     (let json = tenant_view_fields (tenant_view_from tenant_with_secret);
          bare = tenant_view_fields (tenant_view_from (tenant_with_secret\<lparr>tn_jwt_secret := None\<rparr>))
      in map_of json ''has_jwt_secret'' = Some (OBool True) \<and> map_of json ''jwt_secret'' = None \<and>
         map_of bare ''has_jwt_secret'' = Some (OBool False) \<and> map_of bare ''jwt_secret'' = None)"

definition plausible_email_accepts_normal_addresses :: bool where
  "plausible_email_accepts_normal_addresses \<longleftrightarrow>
     plausible_email ''sheece.gardezi@afterrealism.com'' \<and> plausible_email ''a@b.co'' \<and>
     plausible_email ''first+tag@sub.example.org''"

definition plausible_email_rejects_junk :: bool where
  "plausible_email_rejects_junk \<longleftrightarrow>
     list_all (\<lambda>e. \<not> plausible_email e)
       [[], ''no-at-sign'', ''@no-local.com'', ''no-domain@'', ''no-dot@localhost'', ''two@@example.com'',
        ''spa ce@example.com'', ''trailing@example.com '', ''a@.example.com'', ''a@example.com.''] \<and>
     \<not> plausible_email (replicate 250 (CHR ''x'') @ ''@example.com'')"

definition cooldown_key_is_namespaced_and_lowercased :: bool where
  "cooldown_key_is_namespaced_and_lowercased \<longleftrightarrow>
     no_account_cooldown_key ''Mixed@Example.COM'' = ''auth:no-account:mixed@example.com''"

text \<open>\<^verbatim>\<open>html.contains(s)\<close>.\<close>

definition no_account_email_points_at_pricing_and_self_hosting :: bool where
  "no_account_email_points_at_pricing_and_self_hosting =
     (let html = no_account_email_html ''https://dendri.dev'' ''https://app.dendri.dev''
      in contains_any [''https://dendri.dev/pricing/''] html \<and>
         contains_any [''https://dendri.dev/docs/self-hosting/''] html \<and>
         contains_any [''https://app.dendri.dev''] html \<and> contains_any [''doesn't have a hosted account''] html)"

section \<open>The tests pass\<close>

theorem enums_tests_pass:
  "message_type_serializes_with_correct_wire_names" "room_message_types_use_hyphens_on_wire"
  "message_type_deserializes_from_wire_names" "message_type_as_str_matches_serde"
  "peer_error_as_str_returns_expected_messages"
  by code_simp+

theorem validation_tests_pass:
  "accepts_uuid_and_slugs" "rejects_json_breakers" "rejects_control_and_whitespace" "rejects_non_ascii"
  "rejects_empty_and_over_limit"
  by code_simp+

theorem jwt_tests_pass:
  "room_allowed_follows_claims_semantics" "per_tenant_secret_takes_precedence_over_global"
  "tid_claim_must_match_tenant_when_present"
  by code_simp+

theorem message_tests_pass:
  "deserialize_minimal_message" "deserialize_room_join_message" "deserialize_room_leave_message"
  "serialize_includes_present_fields"
  by code_simp+

theorem message_value_tests_pass:
  shows "jbody cursor \<noteq> JNull \<Longrightarrow> deserialize_full_message cursor"
    and "write [(''type'', OStr ''OPEN'')] = ''{\"type\":\"OPEN\"}'' \<Longrightarrow> serialize_skips_none_fields write"
  by (simp_all add: deserialize_full_message_def serialize_skips_none_fields_def val_def val_str_def visit_field_def
      take_field_def no_fields_def de_type_def de_text_def de_option_def de_payload_def de_seq_def de_timestamp_def
      variant_of_name_def from_serde_name_def all_message_types_def finish_message_def or_default_def
      message_to_string_def message_fields_def bare_message_def out_field_def)

theorem state_tests_pass:
  shows "sint before \<le> sint now \<Longrightarrow> sint now \<le> sint after \<Longrightarrow> client_meta_new_sets_token_and_current_time before now after"
    and "sint created < sint touched \<Longrightarrow> client_meta_touch_updates_last_ping created touched"
    and "0 < sint now \<Longrightarrow> client_meta_last_ping_ms_reads_value now"
  by (simp_all add: client_meta_new_sets_token_and_current_time_def client_meta_touch_updates_last_ping_def
      client_meta_last_ping_ms_reads_value_def client_meta_new_def touch_def)

theorem email_tests_pass:
  shows "rfc3986_encodes_per_alibaba_rules" and "iso8601_known_epoch"
    and "(\<And>bytes. mc_base64 C bytes \<noteq> []) \<Longrightarrow> signature_is_stable_and_base64 C m"
proof -
  show "rfc3986_encodes_per_alibaba_rules" by code_simp
  show "iso8601_known_epoch" by code_simp
  have "sort_key fst [(''ToAddress'', ''x@y.com''), (''Action'', ''SingleSendMail'')] =
      sort_key fst [(''Action'', ''SingleSendMail''), (''ToAddress'', ''x@y.com'')]" by code_simp
  then show "(\<And>bytes. mc_base64 C bytes \<noteq> []) \<Longrightarrow> signature_is_stable_and_base64 C m"
    by (simp add: signature_is_stable_and_base64_def sign_def Let_def)
qed

theorem room_name_tests_pass:
  "two_tenants_same_room_do_not_collide" "display_strips_tenant_prefix_and_round_trips"
  "client_room_name_cannot_forge_a_tenant_boundary"
  by code_simp+

theorem admin_tests_pass: "create_request_accepts_optional_jwt_secret" "tenant_view_hides_jwt_secret"
  by code_simp+

text \<open>No visible ASCII character starts a forbidden one.\<close>

definition visible :: "char \<Rightarrow> bool" where
  "visible c \<longleftrightarrow> 32 < (of_char c :: nat) \<and> (of_char c :: nat) < 127"

lemma visible_allowed: "list_all visible s \<Longrightarrow> \<not> contains_any (white_space @ control_chars) s"
proof -
  have "list_all (\<lambda>w. w \<noteq> [] \<and> \<not> visible (hd w)) (white_space @ control_chars)" by code_simp
  then have "hd w \<in> set w \<and> \<not> visible (hd w)" if "w \<in> set (white_space @ control_chars)" for w
    using that unfolding list_all_iff by auto
  then show "list_all visible s \<Longrightarrow> \<not> contains_any (white_space @ control_chars) s"
    unfolding contains_any_iff [OF forbidden_not_empty] list_all_iff by fastforce
qed

theorem customer_tests_pass: "cooldown_key_is_namespaced_and_lowercased" "plausible_email_accepts_normal_addresses"
proof -
  show "cooldown_key_is_namespaced_and_lowercased" by code_simp
  have "list_all visible ''sheece.gardezi@afterrealism.com''" "list_all visible ''a@b.co''"
    "list_all visible ''first+tag@sub.example.org''" by code_simp+
  note allowed = this [THEN visible_allowed]
  show "plausible_email_accepts_normal_addresses"
    unfolding plausible_email_accepts_normal_addresses_def plausible_email_def
    by (simp only: allowed if_False) (simp add: starts_with_def ends_with_def)
qed

lemma contains_part: "w \<noteq> [] \<Longrightarrow> contains_any [w] (a @ w @ b)"
  by (subst contains_any_iff) auto

theorem customer_mail_test_passes: "no_account_email_points_at_pricing_and_self_hosting"
proof -
  let ?html = "no_account_email_html ''https://dendri.dev'' ''https://app.dendri.dev''"
  let ?intro = "''<p>You requested a sign-in link for the Dendri dashboard, but this email address ''"
  let ?plan = "?intro @ ''doesn't have a hosted account yet.</p><p><strong>To get one:</strong> choose a hosted plan on the '' @
    ''<a href=\"''"
  let ?sign_in = "?plan @ ''https://dendri.dev/pricing/\">Dendri pricing page</a>. After checkout '' @
    ''your API key arrives by email, and you can sign in at the <a href=\"''"
  let ?guide = "?sign_in @ ''https://app.dendri.dev\">Dendri dashboard</a> with this address.</p>'' @
    ''<p>Prefer to run it yourself? The Dendri server is open source and free forever '' @ em_dash @
    '' follow the <a href=\"''"
  have found: "contains_any [w] s" if "s = a @ w @ b" "w \<noteq> []" for w s a b
    using contains_part that by simp
  have "contains_any [''doesn't have a hosted account''] ?html"
    by (rule found [where a = ?intro]) (simp_all add: no_account_email_html_def)
  moreover have "contains_any [''https://dendri.dev/pricing/''] ?html"
    by (rule found [where a = ?plan]) (simp_all add: no_account_email_html_def)
  moreover have "contains_any [''https://app.dendri.dev''] ?html"
    by (rule found [where a = ?sign_in]) (simp_all add: no_account_email_html_def)
  moreover have "contains_any [''https://dendri.dev/docs/self-hosting/''] ?html"
    by (rule found [where a = ?guide]) (simp_all add: no_account_email_html_def)
  ultimately show ?thesis by (simp add: no_account_email_points_at_pricing_and_self_hosting_def Let_def)
qed

lemma plausible_email_too_long: "254 < length e \<Longrightarrow> \<not> plausible_email e"
  by (simp add: plausible_email_def)

lemma plausible_email_space: "\<not> plausible_email (a @ '' '' @ b)"
proof -
  have "contains_any (white_space @ control_chars) (a @ '' '' @ b)"
    unfolding contains_any_iff [OF forbidden_not_empty]
    by (intro bexI [of _ "'' ''"] exI [of _ a] exI [of _ b]) (simp_all add: white_space_def)
  then show ?thesis by (simp add: plausible_email_def)
qed

theorem customer_junk_test_passes: "plausible_email_rejects_junk"
  unfolding plausible_email_rejects_junk_def list.pred_inject
proof (intro conjI TrueI)
  show "\<not> plausible_email ''spa ce@example.com''" using plausible_email_space [of "''spa''" "''ce@example.com''"] by simp
  show "\<not> plausible_email ''trailing@example.com ''" using plausible_email_space [of "''trailing@example.com''" "[]"] by simp
  show "\<not> plausible_email (replicate 250 CHR ''x'' @ ''@example.com'')" by (rule plausible_email_too_long) simp
qed (simp_all add: plausible_email_def starts_with_def ends_with_def)

end
