(* ===== verification/Spec2Isabelle.thy ===== *)
theory Spec2Isabelle
  imports Lifecycle Store_Forward Room_Races Room_Spec Connect_Races Tenant_Directory Tenant_Limits Request_Log
    Replay_Tests Limiter_Tests Unit_Tests Protocol_Tests
begin

text \<open>
  A verification of the Dendri signaling server (\<^verbatim>\<open>src/src\<close>, Rust): clients connect over WebSocket,
  server-sent events or long polling, exchange signaling messages and room data through the server,
  and are kept in maps shared by all handlers; a Redis server holds the registry and the queues of
  absent clients; tenants bring their own API keys and JWT secrets; operators and customers have HTTP
  APIs of their own; four background tasks clean up.

  \<^bold>\<open>How the theories follow the code.\<close> Each theory holds the definitions of one component, in the order
  of the code and under its names, then its lemmas, then its properties.

  \<^item> \<open>Dendri_Prelude\<close>, \<open>Text_Format\<close>, \<open>Socket_Addr\<close>: what is used of Rust's library: machine integers as
    words, instants and durations, concurrent maps and sets as lists with locale \<open>finite_map\<close>, number
    formatting and parsing, trimming, socket addresses. The prelude also has \<open>safe_system\<close>, the
    induction over runs that the components interpret.
  \<^item> \<open>Enums\<close>, \<open>Message_Model\<close>, \<open>Message_Json\<close>, \<open>Validation\<close>, \<open>Jwt\<close>: \<^verbatim>\<open>enums.rs\<close>, \<^verbatim>\<open>models/message.rs\<close>
    with the reading and writing its serde attributes generate, \<^verbatim>\<open>validation.rs\<close>, \<^verbatim>\<open>jwt.rs\<close>.
  \<^item> \<open>Replay_Buffer\<close>, \<open>Rate_Limiter\<close>, \<open>Redis_Realm\<close>, \<open>Tenant\<close>, \<open>Webhook\<close>: \<^verbatim>\<open>replay_buffer.rs\<close>,
    \<^verbatim>\<open>rate_limiter.rs\<close>, \<^verbatim>\<open>redis_realm.rs\<close>, \<^verbatim>\<open>tenant.rs\<close>, \<^verbatim>\<open>webhook.rs\<close>.
  \<^item> \<open>App_State\<close>, \<open>Connection_Slots\<close>: \<^verbatim>\<open>config.rs\<close> and \<^verbatim>\<open>state.rs\<close>; the counter of connections also at
    the granularity of its atomic operations.
  \<^item> \<open>Rooms\<close>, \<open>Message_Handler\<close>: \<^verbatim>\<open>handlers/message.rs\<close>; locale \<open>room_registry\<close> is the contract between
    the two room indexes.
  \<^item> \<open>Ws_Handler\<close>, \<open>Sessions\<close>: \<^verbatim>\<open>handlers/mod.rs\<close> and \<^verbatim>\<open>handlers/ws.rs\<close>.
  \<^item> \<open>Http_Handler\<close>: \<^verbatim>\<open>handlers/http.rs\<close>.
  \<^item> \<open>Services\<close>: the four tasks of \<^verbatim>\<open>services/\<close>, one turn and the loop around it.
  \<^item> \<open>Calendar\<close>, \<open>Email\<close>: \<^verbatim>\<open>email.rs\<close>.
  \<^item> \<open>Admin\<close>, \<open>Customer\<close>, \<open>Api\<close>: \<^verbatim>\<open>handlers/admin.rs\<close>, \<^verbatim>\<open>handlers/customer.rs\<close>, \<^verbatim>\<open>handlers/api.rs\<close>.
  \<^item> \<open>Records_Json\<close>, \<open>Api_Json\<close>: the JSON form of the tenant record, of the request and answer bodies of
    the APIs, of the session claims and of the webhooks, as the serde attributes in \<^verbatim>\<open>tenant.rs\<close>,
    \<^verbatim>\<open>handlers/admin.rs\<close>, \<^verbatim>\<open>handlers/customer.rs\<close> and \<^verbatim>\<open>webhook.rs\<close> generate it.
  \<^item> \<open>Startup\<close>, \<open>Request_Log\<close>: \<^verbatim>\<open>main.rs\<close> and \<^verbatim>\<open>pii.rs\<close>; the log around the handlers.
  \<^item> \<open>Server\<close>: the whole as a state machine, one kind of step per request, frame, close and task turn.
    Locales state what the steps owe the invariant: \<open>transport\<close> for the three ways to connect, \<open>quiet_op\<close>
    for what adds no sender, \<open>store_op\<close> for what touches the store only; each is interpreted on the
    handlers and tasks of the code.
  \<^item> \<open>Lifecycle\<close>: the process around that server: signals, TLS certificates, drain, shutdown of the
    tasks (\<^verbatim>\<open>main\<close>, \<^verbatim>\<open>run_plain\<close>, \<^verbatim>\<open>run_tls\<close>, \<^verbatim>\<open>shutdown_signal\<close>).
  \<^item> \<open>Room_Races\<close>, \<open>Connect_Races\<close>: joins and leaves, and connections, at the granularity of single
    operations on the shared maps, with the handlers above as the runs of one thread alone.
  \<^item> \<open>Room_Spec\<close>, \<open>Tenant_Directory\<close>: abstract specifications of room membership and of the tenant store,
    which the message handler and \<^verbatim>\<open>tenant.rs\<close> implement.
  \<^item> \<open>Tenant_Limits\<close>: the limits of a tenant record that no handler looks at.
  \<^item> \<open>Store_Forward\<close>: messages for an absent client on their way through the message handler, Redis, the
    message format and the session of the returning client.
  \<^item> \<open>Replay_Tests\<close>, \<open>Limiter_Tests\<close>, \<open>Unit_Tests\<close>, \<open>Protocol_Tests\<close>: the program's own unit tests over
    the model. They check the definitions against what the authors expect of the code, and say under which
    clocks, schedules and library behaviour a test passes; the property tests hold for all inputs.

  \<^bold>\<open>State.\<close> \<open>app_state\<close> has a field for each field of \<^verbatim>\<open>AppState\<close>. An \<^verbatim>\<open>mpsc\<close> channel is a number with the
  frames not yet taken and whether its receiver still exists; a sender is that number. A handler is a
  function from the state to its outcome and the new state; every early return and error is a branch.
  \<open>server\<close> adds what lives outside the maps: open sockets and event streams, watchdogs, polling
  receivers, and the tick of the eviction task.

  \<^bold>\<open>Parameters.\<close> Code of other crates and services is collected in \<open>ext\<close> or passed as an argument: Redis
  (\<open>redis_api\<close>, \<open>set_nx\<close>), the governor, JSON texts and values, the JWT libraries, SHA-256, HMAC
  and Base64, the URL parser, UUIDs and the clocks. What a property needs of them is a named hypothesis on
  the parameter, such as \<open>redis_pipe_ok\<close>, \<open>redis_string_ok\<close>, \<open>codec_ok\<close>, \<open>ct_eq_ok\<close>,
  \<open>session_jwt_ok\<close>, \<open>set_nx_ok\<close>, \<open>reads_back\<close>, and is shown to hold of a concrete instance where it is used.
  The codec of tenants is a parameter of the theories on tenants; \<open>Records_Json\<close> gives the code's own and
  proves the law.

  \<^bold>\<open>What is shown.\<close> Admission needs the credentials the configuration asks for, and the HTTP transports
  decide and act like the WebSocket transport; the state invariant of the whole server; delivery of
  room data and signaling messages, on every branch, and isolation of tenants; the room limits and the
  number of connections, under every interleaving of the counter's operations; replay refines an
  abstract log, room membership an abstract registry (under the limits of the server's configuration; those of
  a tenant record have no effect) and the tenant store a directory; a message is
  read exactly as its fields say and survives being written again, so that a signaling message for an absent
  client that comes before the queue expires arrives as it would have at once, and once; a stored tenant reads back as itself, and no answer but the
  one meant for it depends on a tenant's JWT secret; the shutdown keeps its order and, in every fair
  run, ends; what a join, a leave, a close, an eviction and a sweep change, and what they do not touch; the administrative routes need the
  operator's token, a tenant's key lives exactly from creation to removal, a magic link signs in its
  customer only; dates, signatures and TURN credentials are well formed for every input, and the routes hang
  exactly under the segments of the base path. A number of properties describe behaviour that is not what the code
  means to do; they say so in their text.

  \<^bold>\<open>Loops and bounds.\<close> Recursion is structural or has a measure, except the draw of client ids, which
  may run forever and is a partial function with value \<open>None\<close> for that; a property says when it
  returns. \<open>strip_front\<close> has the length of its text as fuel, enough because every step strips a byte.
  \<open>drain_wait\<close> and the poll loop run over the readings they are given. That the shutdown ends is shown for all
  infinite runs that are fair to the process (\<open>fair_run\<close>). Counters and sizes are words and
  wrap as the code's do in release builds.

  \<^bold>\<open>Atomicity.\<close> In \<open>Server\<close> a handler runs as one step, with one reading of each clock; the end of a
  stream, a look of a watchdog, the batch of a poll, the run of a mail task and the sending of a frame
  are steps of their own. The handlers really run on several threads. What their interleaving changes is
  modelled where it matters most: for the connection counter (\<open>Connection_Slots\<close>), for room membership
  (\<open>Room_Races\<close>: the room limit can be exceeded by the number of threads less one, and a join can be
  lost) and for the ownership of client ids (\<open>Connect_Races\<close>: an id that has an owner keeps it, a free id can be given
  twice). The
  interleaving of the other handlers is not.

  \<^bold>\<open>Not modelled.\<close> Sockets, the lines single handlers log, the metrics endpoint's recorder and the SSE
  framing are input and output; waiting times are not part of a step; the text of JSON belongs to serde and the extractors of
  axum; the acceptance of connections and the matching of paths to axum, command-line parsing to clap.
  The serving loops are represented by what they document (\<open>Lifecycle\<close>). Of the unit
  tests those of the token library, two on the text of a written event and the two of the expiry task,
  which do not call it, are left out. \<^verbatim>\<open>benches\<close> and \<^verbatim>\<open>tests\<close>, which need a running server, are not
  modelled.
\<close>

section \<open>Properties of the running server\<close>

text \<open>
  C2: In every reachable state of the server, whatever the clients, the network, the operator and Redis
  did on any transport: no room is empty or lists a member twice; every room in a client's index has
  the client as a member; every registered sender belongs to a registered client and is the channel
  of an open socket, of a running watchdog or of a poll of that client; every polling receiver is that
  of a poll of the client; and no two clients share a channel.
\<close>

theorem server_invariant:
  assumes "server_reachable s"
  shows "(dm_get (rooms (app s)) r = Some ms \<longrightarrow> ms \<noteq> [] \<and> distinct ms) \<and>
    (r \<in> joined (app s) c \<longrightarrow> c \<in> members (app s) r) \<and>
    (dm_get (ws_senders (app s)) c = Some tx \<longrightarrow>
      (c, tx) \<in> set (sockets s) \<union> set (watchdogs s) \<union> set (pollers s) \<and> dm_get (clients (app s)) c \<noteq> None) \<and>
    (dm_get (polling_receivers (app s)) c = Some rx \<longrightarrow> (c, rx) \<in> set (pollers s)) \<and>
    (dm_get (ws_senders (app s)) c = Some tx \<longrightarrow> dm_get (ws_senders (app s)) d = Some tx \<longrightarrow> c = d)"
proof (rule conjI5; (intro impI)?)
  have ok: "rooms_ok (app s)" "senders_ok (app s)" "transports_ok s"
    using server_reachable_ok [OF assms] by (simp_all add: server_ok_def)
  show "dm_get (rooms (app s)) r = Some ms \<Longrightarrow> ms \<noteq> [] \<and> distinct ms" using ok(1) by (simp add: rooms_ok_def)
  show "r \<in> joined (app s) c \<Longrightarrow> c \<in> members (app s) r" using ok(1) by (simp add: rooms_ok_def)
  show "(c, tx) \<in> set (sockets s) \<union> set (watchdogs s) \<union> set (pollers s) \<and> dm_get (clients (app s)) c \<noteq> None"
    if "dm_get (ws_senders (app s)) c = Some tx" using ok(3) that unfolding transports_ok_def held_def by blast
  show "dm_get (polling_receivers (app s)) c = Some rx \<Longrightarrow> (c, rx) \<in> set (pollers s)"
    using ok(3) unfolding transports_ok_def by blast
  show "dm_get (ws_senders (app s)) c = Some tx \<Longrightarrow> dm_get (ws_senders (app s)) d = Some tx \<Longrightarrow> c = d"
    using ok(2) by (rule senders_okD)
qed

text \<open>A server started with the default configuration that has admitted its first client.\<close>

lemma demo_server_starts: "server_reachable (server_new (demo_state default_config))"
proof -
  have "bind_addr ''::'' p = Inr (SocketV4 [0, 0, 0, 0] (unat p))" for p by (rule bind_addr_colon) simp_all
  then obtain rs allowed addr where
    "start_server demo_ext (\<lambda>_. Inl []) (\<lambda>_. Inr mem_empty) Some default_config = Inr (demo_state default_config, rs, allowed, addr)"
    by (simp add: start_server_def load_config_def app_state_new_def demo_state_def build_cors_def default_config_def)
  then show ?thesis by (rule server_reachable.start)
qed

theorem server_invariant_witness:
  "\<exists>s :: (mem_redis, nat, demo_json) server. server_reachable s \<and> dm_get (ws_senders (app s)) ''a'' = Some 0 \<and>
     (''a'', 0) \<in> set (sockets s) \<union> set (watchdogs s) \<union> set (pollers s) \<and> dm_get (clients (app s)) ''a'' \<noteq> None"
proof -
  let ?s = "server_new (demo_state default_config)"
  obtain st' where st': "handle_socket demo_ext demo_query (app ?s) = (Connected 0, st')"
    using demo_connect by (auto simp: server_new_def)
  have qid: "q_id demo_query = Some ''a''" by (simp add: demo_query_def)
  let ?s' = "?s\<lparr>app := st', sockets := (''a'', 0) # sockets ?s\<rparr>"
  have "server_reachable ?s'"
    by (rule server_reachable.step [OF demo_server_starts server_stepI [OF server_act.connect [OF st' qid]]])
  moreover have sender: "dm_get (ws_senders (app ?s')) ''a'' = Some 0" using connect_senders(1) [OF st' qid] by simp
  ultimately show ?thesis using server_invariant by blast
qed

text \<open>
  The global sequence counter never skips and never goes back: a step of the server leaves it or
  advances it by one, and only a message of a client, read from its socket or posted over HTTP, can
  advance it.
\<close>

theorem sequence_advances_by_one:
  assumes "server_step s s'"
  shows "seq_counter (app s') \<in> {seq_counter (app s), seq_counter (app s) + 1} \<and>
    (seq_counter (app s') \<noteq> seq_counter (app s) \<longrightarrow>
      (\<exists>X c tx inp. (c, tx) \<in> set (sockets s) \<and> app s' = ws_text X c tx inp (app s)) \<or>
      (\<exists>X fv h body. app s' = snd (send_handler X fv h body (app s))))"
proof (rule conjI; (intro impI)?)
  let ?msg = "(\<exists>X c tx inp. (c, tx) \<in> set (sockets s) \<and> app s' = ws_text X c tx inp (app s)) \<or>
      (\<exists>X fv h body. app s' = snd (send_handler X fv h body (app s)))"
  from assms obtain a where act: "server_act a s s'" by (auto simp: server_step_def)
  have step: "seq_counter (app s') = seq_counter (app s) \<or> ?msg"
    using act
  proof cases
    case (connect X q tx st' c)
    with seq_socket [of X q "app s"] show ?thesis by simp
  next
    case (refuse X q m st')
    with seq_socket [of X q "app s"] show ?thesis by simp
  next
    case (sse_connect X h tx st')
    with seq_http(1) [of X h "app s"] show ?thesis by simp
  next
    case (sse_refuse X h e st')
    with seq_http(1) [of X h "app s"] show ?thesis by simp
  next
    case (poll_begin X h rx st')
    with seq_http(2) [of X h "app s"] show ?thesis by simp
  next
    case (poll_refuse X h e st')
    with seq_http(2) [of X h "app s"] show ?thesis by simp
  next
    case (sse_watch c tx X goes_on st')
    then show ?thesis by (auto simp: sse_watchdog_def split: if_splits)
  next
    case (http_send X fv h body resp st')
    then have "app s' = snd (send_handler X fv h body (app s))" by simp
    then show ?thesis by blast
  next
    case (poll_answer c rx msgs st')
    then show ?thesis
      by (auto simp: collect_poll_messages_shared_def case_prod_beta split: list.splits)
  next
    case (admin_create X u u' a req aresp st')
    with admin_create_op.keeps_seq [of X u u' a req "app s"] show ?thesis by simp
  next
    case (admin_remove X a tid aresp st')
    with admin_remove_op.keeps_seq [of X a tid "app s"] show ?thesis by simp
  next
    case (admin_rotate X u a tid aresp st')
    with admin_rotate_op.keeps_seq [of X u a tid "app s"] show ?thesis by simp
  next
    case (customer_login X J clock k cresp st')
    with login_op.keeps_seq [of X J clock k "app s"] show ?thesis by simp
  next
    case (customer_rotate X J clock u a cresp st')
    with rotate_op.keeps_seq [of X J clock u a "app s"] show ?thesis by simp
  next
    case (check_broken X t st')
    with seq_tick [of X "tick s" "app s"] show ?thesis by simp
  next
    case (receive c tx X inp)
    then show ?thesis by auto
  qed (simp_all add: seq_close replay_evict_tick_def chan_take_def sse_stream_end_def)
  then show "seq_counter (app s') \<noteq> seq_counter (app s) \<Longrightarrow> ?msg" by blast
  show "seq_counter (app s') \<in> {seq_counter (app s), seq_counter (app s) + 1}"
    using step seq_text [of _ _ _ _ "app s"] seq_send [of _ _ _ _ "app s"] by (metis insertCI)
qed

theorem sequence_advances_by_one_witness:
  "let s = (server_new (demo_two demo_relay_config))\<lparr>sockets := [(''a'', 0)]\<rparr>
   in seq_counter (ws_text demo_ext ''a'' 0 ''DATA'' (app s)) \<in> {0, 1}"
proof -
  let ?s = "(server_new (demo_two demo_relay_config))\<lparr>sockets := [(''a'', 0)]\<rparr>"
  have "server_step ?s (?s\<lparr>app := ws_text demo_ext ''a'' 0 ''DATA'' (app ?s)\<rparr>)"
    by (rule server_stepI, rule server_act.receive) simp
  from sequence_advances_by_one [OF this] show ?thesis by (simp add: demo_two_def server_new_def)
qed

end
